(* ===== verification/Py_Prelude.thy ===== *)
theory Py_Prelude
  imports Complex_Main "HOL-Library.AList" "HOL-Library.Char_ord" "HOL-Library.List_Lexorder"
begin

text \<open>
  The shared prelude: exceptions as values, the result type and its sequencing, loops of
  results over lists, insertion-ordered dictionaries as association lists, and the generic
  lemmas the components share.

  A Python function that may raise is a HOL function into \<open>pyexc + 'a\<close>: \<open>Inl\<close> is the
  exception that leaves the function, \<open>Inr\<close> the value it returns.
\<close>

section \<open>Exceptions and results\<close>

datatype pyexc =
    KeyError string
  | IndexError
  | PyTypeError
  | AttributeError
  | PyValueError string
  | OverflowError
  | ZeroDivisionError
  | LookupError string
  | TransitionError string
  | DbError string
  | ConfigError string
  | UpstreamError string
  | OtherError string

type_synonym 'a res = "pyexc + 'a"

named_theorems res_simps \<open>inversion and evaluation of sequenced results\<close>

definition bindE :: "'e + 'a \<Rightarrow> ('a \<Rightarrow> 'e + 'b) \<Rightarrow> 'e + 'b" where
  "bindE m f = (case m of Inl e \<Rightarrow> Inl e | Inr x \<Rightarrow> f x)"

lemma bindE_Inl [simp, res_simps]: "bindE (Inl e) f = Inl e"
  and bindE_Inr [simp, res_simps]: "bindE (Inr x) f = f x"
  by (simp_all add: bindE_def)

lemma bindE_eq_Inr [res_simps]: "bindE m f = Inr y \<longleftrightarrow> (\<exists>x. m = Inr x \<and> f x = Inr y)"
  by (cases m) auto

lemma bindE_eq_Inl [res_simps]:
  "bindE m f = Inl e \<longleftrightarrow> m = Inl e \<or> (\<exists>x. m = Inr x \<and> f x = Inl e)"
  by (cases m) auto

lemma bindE_cong [fundef_cong]:
  "m = m' \<Longrightarrow> (\<And>x. m' = Inr x \<Longrightarrow> f x = f' x) \<Longrightarrow> bindE m f = bindE m' f'"
  by (cases m') auto

lemma bindE_assoc: "bindE (bindE m f) g = bindE m (\<lambda>x. bindE (f x) g)"
  by (cases m) auto

lemma if_Inr_eq [res_simps]:
  "(if b then Inr x else Inl e) = Inr y \<longleftrightarrow> b \<and> x = y"
  "(if b then Inl e else Inr x) = Inr y \<longleftrightarrow> \<not> b \<and> x = y"
  by auto

text \<open>\<open>returns m\<close>: the call does not raise.\<close>

definition returns :: "'e + 'a \<Rightarrow> bool" where
  "returns m = (case m of Inl _ \<Rightarrow> False | Inr _ \<Rightarrow> True)"

lemma returns_simps [simp]: "returns (Inr x)" "\<not> returns (Inl e)"
  by (simp_all add: returns_def)

lemma returns_iff: "returns m \<longleftrightarrow> (\<exists>x. m = Inr x)"
  by (cases m) auto

text \<open>\<open>catchE handles h m\<close>: \<^verbatim>\<open>try: m except ...: return h\<close>.\<close>

definition catchE :: "('e \<Rightarrow> bool) \<Rightarrow> 'a \<Rightarrow> 'e + 'a \<Rightarrow> 'e + 'a" where
  "catchE handles h m = (case m of Inl e \<Rightarrow> if handles e then Inr h else Inl e | Inr x \<Rightarrow> Inr x)"

lemma catchE_simps [simp]:
  "catchE handles h (Inr x) = Inr x" "catchE handles h (Inl e) = (if handles e then Inr h else Inl e)"
  by (simp_all add: catchE_def)

lemma catchE_eq_Inr: "catchE handles h m = Inr x \<longleftrightarrow> m = Inr x \<or> (\<exists>e. m = Inl e \<and> handles e \<and> x = h)"
  by (cases m) (auto split: if_splits)

lemma find_SomeD: "find P xs = Some x \<Longrightarrow> x \<in> set xs \<and> P x"
  by (induction xs) (auto split: if_splits)

section \<open>Loops over lists\<close>

text \<open>
  \<open>mapE f xs\<close> is a list comprehension whose body may raise, \<open>foldE f s xs\<close> a
  \<^verbatim>\<open>for\<close> loop that threads the state \<open>s\<close>, \<open>filterE\<close> a comprehension with a condition,
  \<open>collectE\<close> one with a condition and a body,
  \<open>anyE\<close> and \<open>allE\<close> the short-circuiting built-ins.
\<close>

fun mapE :: "('a \<Rightarrow> 'e + 'b) \<Rightarrow> 'a list \<Rightarrow> 'e + 'b list" where
  "mapE f [] = Inr []"
| "mapE f (x # xs) = bindE (f x) (\<lambda>y. bindE (mapE f xs) (\<lambda>ys. Inr (y # ys)))"

fun foldE :: "('s \<Rightarrow> 'a \<Rightarrow> 'e + 's) \<Rightarrow> 's \<Rightarrow> 'a list \<Rightarrow> 'e + 's" where
  "foldE f s [] = Inr s"
| "foldE f s (x # xs) = bindE (f s x) (\<lambda>s'. foldE f s' xs)"

fun filterE :: "('a \<Rightarrow> 'e + bool) \<Rightarrow> 'a list \<Rightarrow> 'e + 'a list" where
  "filterE p [] = Inr []"
| "filterE p (x # xs) =
     bindE (p x) (\<lambda>b. bindE (filterE p xs) (\<lambda>ys. Inr (if b then x # ys else ys)))"

fun collectE :: "('a \<Rightarrow> 'e + bool) \<Rightarrow> ('a \<Rightarrow> 'e + 'b) \<Rightarrow> 'a list \<Rightarrow> 'e + 'b list" where
  "collectE p f [] = Inr []"
| "collectE p f (x # xs) = bindE (p x) (\<lambda>b.
     if b then bindE (f x) (\<lambda>y. bindE (collectE p f xs) (\<lambda>ys. Inr (y # ys)))
     else collectE p f xs)"

fun anyE :: "('a \<Rightarrow> 'e + bool) \<Rightarrow> 'a list \<Rightarrow> 'e + bool" where
  "anyE p [] = Inr False"
| "anyE p (x # xs) = bindE (p x) (\<lambda>b. if b then Inr True else anyE p xs)"

fun allE' :: "('a \<Rightarrow> 'e + bool) \<Rightarrow> 'a list \<Rightarrow> 'e + bool" where
  "allE' p [] = Inr True"
| "allE' p (x # xs) = bindE (p x) (\<lambda>b. if b then allE' p xs else Inr False)"

lemma mapE_cong [fundef_cong]:
  "xs = ys \<Longrightarrow> (\<And>x. x \<in> set ys \<Longrightarrow> f x = g x) \<Longrightarrow> mapE f xs = mapE g ys"
  by (induction ys arbitrary: xs) auto

lemma mapE_eq_Inr: "mapE f xs = Inr ys \<longleftrightarrow> list_all2 (\<lambda>x y. f x = Inr y) xs ys"
  by (induction xs arbitrary: ys) (auto simp: res_simps list_all2_Cons1)

lemma mapE_total: "(\<And>x. x \<in> set xs \<Longrightarrow> f x = Inr (g x)) \<Longrightarrow> mapE f xs = Inr (map g xs)"
  by (induction xs) auto

lemma mapE_Inr_length: "mapE f xs = Inr ys \<Longrightarrow> length ys = length xs"
  by (auto simp: mapE_eq_Inr dest: list_all2_lengthD)

lemma mapE_Inr_in_set:
  "mapE f xs = Inr ys \<Longrightarrow> y \<in> set ys \<Longrightarrow> \<exists>x\<in>set xs. f x = Inr y"
  by (induction xs arbitrary: ys) (auto simp: bindE_eq_Inr)

lemma mapE_Inr_ex:
  "mapE f xs = Inr ys \<Longrightarrow> x \<in> set xs \<Longrightarrow> \<exists>y\<in>set ys. f x = Inr y"
  by (induction xs arbitrary: ys) (auto simp: bindE_eq_Inr)

lemma filterE_eq_Inr:
  "filterE p xs = Inr ys \<longleftrightarrow>
     (\<forall>x\<in>set xs. returns (p x)) \<and> ys = filter (\<lambda>x. p x = Inr True) xs"
proof (induction xs arbitrary: ys)
  case (Cons x xs)
  then show ?case by (cases "p x") (auto simp: bindE_eq_Inr)
qed auto

lemma filterE_total:
  "(\<And>x. x \<in> set xs \<Longrightarrow> p x = Inr (q x)) \<Longrightarrow> filterE p xs = Inr (filter q xs)"
  by (induction xs) auto

lemma collectE_set: "collectE p f xs = Inr ys \<Longrightarrow>
    y \<in> set ys \<longleftrightarrow> (\<exists>x\<in>set xs. p x = Inr True \<and> f x = Inr y)"
  by (induction xs arbitrary: ys) (auto simp: bindE_eq_Inr split: if_splits)

lemma collectE_Inr: "collectE p f xs = Inr ys \<Longrightarrow> x \<in> set xs \<Longrightarrow>
    \<exists>b. p x = Inr b \<and> (b \<longrightarrow> (\<exists>y. f x = Inr y))"
  by (induction xs arbitrary: ys) (auto simp: bindE_eq_Inr split: if_splits)

lemma anyE_eq_True: "anyE p xs = Inr True \<Longrightarrow> \<exists>x\<in>set xs. p x = Inr True"
  by (induction xs) (auto simp: res_simps split: if_splits)

lemma anyE_eq_False: "anyE p xs = Inr False \<longleftrightarrow> (\<forall>x\<in>set xs. p x = Inr False)"
  by (induction xs) (auto simp: res_simps split: if_splits)

lemma allE'_eq_True: "allE' p xs = Inr True \<longleftrightarrow> (\<forall>x\<in>set xs. p x = Inr True)"
  by (induction xs) (auto simp: res_simps split: if_splits)

lemma foldE_append: "foldE f s (xs @ ys) = bindE (foldE f s xs) (\<lambda>s'. foldE f s' ys)"
  by (induction xs arbitrary: s) (auto simp: bindE_assoc)

text \<open>The loop rule: an invariant kept by each iteration that returns holds at the end.\<close>

lemma foldE_inv:
  assumes "foldE f s xs = Inr s'" and "P s"
    and "\<And>s x s'. x \<in> set xs \<Longrightarrow> P s \<Longrightarrow> f s x = Inr s' \<Longrightarrow> P s'"
  shows "P s'"
  using assms by (induction xs arbitrary: s) (auto simp: res_simps)

lemma foldE_returns:
  assumes "P s" and "\<And>s x. x \<in> set xs \<Longrightarrow> P s \<Longrightarrow> \<exists>s'. f s x = Inr s' \<and> P s'"
  shows "\<exists>s'. foldE f s xs = Inr s' \<and> P s'"
  using assms
proof (induction xs arbitrary: s)
  case (Cons x xs)
  obtain s1 where "f s x = Inr s1" "P s1" using Cons.prems by fastforce
  with Cons show ?case by auto
qed simp

section \<open>Insertion-ordered dictionaries\<close>

text \<open>
  A Python dict keeps insertion order; assigning to a present key keeps its place and a new
  key goes to the end, which is \<open>AList.update\<close>; \<^verbatim>\<open>d.pop(k, None)\<close> and \<^verbatim>\<open>del d[k]\<close> are
  \<open>AList.delete\<close>; \<open>d.update(e)\<close> assigns the items of \<open>e\<close> in order.
\<close>

type_synonym ('k, 'v) dict = "('k \<times> 'v) list"

abbreviation dset :: "'k \<Rightarrow> 'v \<Rightarrow> ('k, 'v) dict \<Rightarrow> ('k, 'v) dict" where
  "dset \<equiv> AList.update"

abbreviation ddel :: "'k \<Rightarrow> ('k, 'v) dict \<Rightarrow> ('k, 'v) dict" where
  "ddel \<equiv> AList.delete"

definition dupdate :: "('k, 'v) dict \<Rightarrow> ('k, 'v) dict \<Rightarrow> ('k, 'v) dict" where
  "dupdate d e = fold (\<lambda>(k, v). dset k v) e d"

definition dhas :: "('k, 'v) dict \<Rightarrow> 'k \<Rightarrow> bool" where
  "dhas d k = (map_of d k \<noteq> None)"

definition dict_ok :: "('k, 'v) dict \<Rightarrow> bool" where
  "dict_ok d = distinct (map fst d)"

lemma map_of_dset [simp]: "map_of (dset k v d) = (map_of d)(k \<mapsto> v)"
  by (rule update_conv')

lemma map_of_ddel [simp]: "map_of (ddel k d) = (map_of d)(k := None)"
  by (rule delete_conv')

lemma dict_ok_Nil [simp]: "dict_ok []"
  by (simp add: dict_ok_def)

lemma dict_ok_dset [simp]: "dict_ok d \<Longrightarrow> dict_ok (dset k v d)"
  unfolding dict_ok_def by (rule distinct_update)

lemma dict_ok_ddel [simp]: "dict_ok d \<Longrightarrow> dict_ok (ddel k d)"
  unfolding dict_ok_def by (rule distinct_delete)

lemma dict_ok_tl [simp]: "dict_ok d \<Longrightarrow> dict_ok (tl d)"
  by (cases d) (auto simp: dict_ok_def)

lemma dset_new: "map_of d k = None \<Longrightarrow> dset k v d = d @ [(k, v)]"
  by (induction d) (auto split: if_splits)

lemma length_dset: "length (dset k v d) = (if dhas d k then length d else Suc (length d))"
  by (induction d) (auto simp: dhas_def)

lemma ddel_notin: "map_of d k = None \<Longrightarrow> ddel k d = d"
  by (simp add: map_of_eq_None_iff)

lemma length_ddel:
  "dict_ok d \<Longrightarrow> length (ddel k d) = (if dhas d k then length d - 1 else length d)"
proof (induction d)
  case (Cons a d)
  show ?case
  proof (cases "fst a = k")
    case True
    with Cons.prems have "k \<notin> fst ` set d" by (auto simp: dict_ok_def)
    with True show ?thesis by (cases a) (simp add: dhas_def)
  next
    case False
    with Cons.prems have ok: "dict_ok d" by (simp add: dict_ok_def)
    have ne: "dhas d k \<Longrightarrow> d \<noteq> []" by (auto simp: dhas_def)
    show ?thesis
      using False Cons.IH[OF ok] ne by (cases a; cases d) (auto simp: dhas_def)
  qed
qed (simp add: dhas_def)

lemma map_fst_dset:
  "map fst (dset k v d) = (if dhas d k then map fst d else map fst d @ [k])"
  by (induction d) (auto simp: dhas_def)

lemma map_fst_ddel: "map fst (ddel k d) = removeAll k (map fst d)"
  by (rule delete_keys)

lemma map_of_dupdate: "map_of (dupdate d e) k = (case map_of (rev e) k of None \<Rightarrow> map_of d k | Some v \<Rightarrow> Some v)"
  unfolding dupdate_def
  by (induction e arbitrary: d) (auto simp: map_add_def split: option.splits)

lemma dict_ok_dupdate [simp]: "dict_ok d \<Longrightarrow> dict_ok (dupdate d e)"
  unfolding dupdate_def by (induction e arbitrary: d) auto

lemma map_of_rev_dict_ok: "dict_ok d \<Longrightarrow> map_of (rev d) = map_of d"
  unfolding dict_ok_def by (rule ext) (metis map_of_eq_Some_iff distinct_rev option.exhaust rev_map set_rev)

lemma map_of_in_set: "map_of d k = Some v \<Longrightarrow> (k, v) \<in> set d"
  by (rule map_of_SomeD)

lemma map_of_iff_in_set: "dict_ok d \<Longrightarrow> map_of d k = Some v \<longleftrightarrow> (k, v) \<in> set d"
  unfolding dict_ok_def by (auto intro: map_of_is_SomeI dest: map_of_SomeD)

end
