(* ===== verification/Py_Float.thy ===== *)
theory Py_Float
  imports Py_Prelude "HOL-Library.Log_Nat"
begin

text \<open>
  Python floats: IEEE binary64 with round-to-nearest, ties to even, as values and not as an
  idealisation. A finite float is the rational it denotes (the two zeros are identified),
  \<open>fl\<close> is the rounding of an exact result to the nearest binary64 value, subnormals
  included, and \<open>f64_of_rat\<close> adds the overflow to an infinity. Every arithmetic operation
  is the exact one followed by \<open>f64_of_rat\<close>; comparisons with a NaN are false.
\<close>

section \<open>Rounding to the nearest integer, ties to even\<close>

definition rne :: "rat \<Rightarrow> int" where
  "rne x = (let f = \<lfloor>x\<rfloor>; d = x - of_int f in
     if d < 1/2 then f else if 1/2 < d then f + 1 else if even f then f else f + 1)"

lemma rne_of_int [simp]: "rne (of_int n) = n"
  by (simp add: rne_def)

lemma rne_bounds: "\<lfloor>x\<rfloor> \<le> rne x" "rne x \<le> \<lfloor>x\<rfloor> + 1"
  by (auto simp: rne_def Let_def)

lemma rne_mono: assumes "x \<le> y" shows "rne x \<le> rne y"
proof (cases "\<lfloor>x\<rfloor> = \<lfloor>y\<rfloor>")
  case True
  with assms show ?thesis by (auto simp: rne_def Let_def)
next
  case False
  with assms have "\<lfloor>x\<rfloor> + 1 \<le> \<lfloor>y\<rfloor>"
    using floor_mono[OF assms] by linarith
  with rne_bounds[of x] rne_bounds[of y] show ?thesis by linarith
qed

lemma rne_minus: "rne (- x) = - rne x"
proof (cases "x = of_int \<lfloor>x\<rfloor>")
  case True
  then obtain n where "x = of_int n" by blast
  then show ?thesis using rne_of_int[of "- n"] by simp
next
  case False
  then have fl: "\<lfloor>- x\<rfloor> = - \<lfloor>x\<rfloor> - 1"
    by (auto simp: floor_minus ceiling_altdef)
  show ?thesis unfolding rne_def fl Let_def by auto
qed

lemma rne_close: "\<bar>of_int (rne x) - x\<bar> \<le> 1/2"
proof -
  define d where "d = x - of_int \<lfloor>x\<rfloor>"
  have "0 \<le> d" "d < 1" unfolding d_def by linarith+
  moreover have "x = of_int \<lfloor>x\<rfloor> + d" by (simp add: d_def)
  ultimately show ?thesis unfolding rne_def Let_def d_def[symmetric] by auto
qed

section \<open>The binary exponent of a positive rational\<close>

abbreviation two_pow :: "int \<Rightarrow> rat" where
  "two_pow k \<equiv> 2 powi k"

lemma two_pow_pos [simp]: "0 < two_pow k"
  by simp

lemma two_pow_mono: "i \<le> j \<Longrightarrow> two_pow i \<le> two_pow j"
  by (rule power_int_increasing) auto

definition ilog2 :: "rat \<Rightarrow> int" where
  "ilog2 r = (let (p, q) = quotient_of r; k = bitlen p - bitlen q in
     if two_pow k \<le> r then k else k - 1)"

lemma bitlen_bounds_powi:
  assumes "0 < n"
  shows "two_pow (bitlen n - 1) \<le> of_int n" "of_int n < two_pow (bitlen n)"
proof -
  have b: "2 ^ nat (bitlen n - 1) \<le> n" "n < 2 ^ nat (bitlen n)"
    using bitlen_bounds[OF assms] by auto
  have p: "0 \<le> bitlen n - 1"
    using assms bitlen_eq_zero_iff[of n] bitlen_nonneg[of n] by linarith
  have "two_pow (bitlen n - 1) = of_int (2 ^ nat (bitlen n - 1))"
    using p by (simp add: power_int_def)
  with b(1) show "two_pow (bitlen n - 1) \<le> of_int n"
    by (simp only: of_int_le_iff)
  have "two_pow (bitlen n) = of_int (2 ^ nat (bitlen n))"
    using p by (simp add: power_int_def)
  with b(2) show "of_int n < two_pow (bitlen n)"
    by (simp only: of_int_less_iff)
qed

lemma ilog2_bounds:
  assumes "0 < r"
  shows "two_pow (ilog2 r) \<le> r" "r < two_pow (ilog2 r + 1)"
proof -
  obtain p q where pq: "quotient_of r = (p, q)" by fastforce
  have q: "0 < q" using quotient_of_denom_pos[OF pq] .
  have r: "r = of_int p / of_int q" using quotient_of_div[OF pq] .
  have p: "0 < p"
    using assms q unfolding r by (simp add: zero_less_divide_iff)
  note bp = bitlen_bounds_powi[OF p] and bq = bitlen_bounds_powi[OF q]
  define k where "k = bitlen p - bitlen q"
  have q0: "(0::rat) < of_int q" using q by simp
  have "two_pow (k - 1) * of_int q < two_pow (k - 1) * two_pow (bitlen q)"
    using bq(2) by simp
  also have "\<dots> = two_pow (bitlen p - 1)"
    unfolding k_def by (simp flip: power_int_add)
  also have "\<dots> \<le> of_int p" by (rule bp(1))
  finally have lo: "two_pow (k - 1) \<le> r"
    unfolding r using q0 by (simp add: pos_le_divide_eq)
  have "of_int p < two_pow (bitlen p)" by (rule bp(2))
  also have "\<dots> = two_pow (k + 1) * two_pow (bitlen q - 1)"
    unfolding k_def by (simp flip: power_int_add)
  also have "\<dots> \<le> two_pow (k + 1) * of_int q"
    using bq(1) by simp
  finally have hi: "r < two_pow (k + 1)"
    unfolding r using q0 by (simp add: pos_divide_less_eq)
  have il: "ilog2 r = (if two_pow k \<le> r then k else k - 1)"
    unfolding ilog2_def pq k_def by simp
  show "two_pow (ilog2 r) \<le> r" using il lo by simp
  show "r < two_pow (ilog2 r + 1)" using il hi by simp
qed

lemma ilog2_mono: assumes "0 < x" "x \<le> y" shows "ilog2 x \<le> ilog2 y"
proof (rule ccontr)
  assume "\<not> ?thesis"
  then have "two_pow (ilog2 y + 1) \<le> two_pow (ilog2 x)"
    by (intro two_pow_mono) linarith
  with ilog2_bounds(1)[OF assms(1)] ilog2_bounds(2)[of y] assms show False by linarith
qed

section \<open>Rounding to binary64\<close>

text \<open>The exponent of the last place: 52 below the leading bit, never below the subnormal one.\<close>

definition ulp_exp :: "rat \<Rightarrow> int" where
  "ulp_exp r = max (ilog2 r) (-1022) - 52"

definition fl_pos :: "rat \<Rightarrow> rat" where
  "fl_pos r = of_int (rne (r / two_pow (ulp_exp r))) * two_pow (ulp_exp r)"

definition fl :: "rat \<Rightarrow> rat" where
  "fl x = (if x = 0 then 0 else if 0 < x then fl_pos x else - fl_pos (- x))"

lemma fl_0 [simp]: "fl 0 = 0"
  by (simp add: fl_def)

lemma fl_minus: "fl (- x) = - fl x"
  by (simp add: fl_def)

lemma fl_pos_nonneg: "0 < x \<Longrightarrow> 0 \<le> fl_pos x"
proof -
  assume "0 < x"
  then have "0 \<le> x / two_pow (ulp_exp x)" by (simp add: less_imp_le)
  then have "rne 0 \<le> rne (x / two_pow (ulp_exp x))" by (rule rne_mono)
  then show ?thesis using rne_of_int[of 0] by (simp add: fl_pos_def)
qed

text \<open>A rounded value stays within its binade: at most the next power of two.\<close>

lemma fl_pos_le_binade:
  assumes "0 < x" shows "fl_pos x \<le> two_pow (max (ilog2 x) (-1022) + 1)"
proof -
  let ?m = "max (ilog2 x) (-1022)" and ?u = "two_pow (ulp_exp x)"
  have "x < two_pow (ilog2 x + 1)" by (rule ilog2_bounds(2)[OF assms])
  also have "\<dots> \<le> two_pow (?m + 1)" by (rule two_pow_mono) simp
  also have eq: "two_pow (?m + 1) = two_pow 53 * ?u"
    using power_int_add[of "2::rat" 53 "ulp_exp x"] by (simp add: ulp_exp_def add.commute)
  finally have "x / ?u \<le> of_int (2 ^ 53)"
    by (simp add: pos_divide_le_eq)
  then have "rne (x / ?u) \<le> 2 ^ 53"
    using rne_mono[of "x / ?u" "of_int (2 ^ 53)"] by (simp only: rne_of_int)
  then have "of_int (rne (x / ?u)) \<le> (of_int (2 ^ 53) :: rat)" by (simp only: of_int_le_iff)
  then have "of_int (rne (x / ?u)) * ?u \<le> of_int (2 ^ 53) * ?u"
    by (rule mult_right_mono) simp
  then show ?thesis unfolding fl_pos_def eq by simp
qed

lemma fl_pos_ge_binade:
  assumes "0 < x" "-1022 \<le> ilog2 x" shows "two_pow (ilog2 x) \<le> fl_pos x"
proof -
  let ?u = "two_pow (ulp_exp x)"
  have eq: "two_pow (ilog2 x) = of_int (2 ^ 52) * ?u"
    using assms(2) unfolding ulp_exp_def by (simp add: max_def power_int_diff)
  have "of_int (2 ^ 52) * ?u \<le> x"
    using ilog2_bounds(1)[OF assms(1)] eq by simp
  then have "of_int (2 ^ 52) \<le> x / ?u" by (simp add: pos_le_divide_eq)
  then have "2 ^ 52 \<le> rne (x / ?u)"
    using rne_mono[of "of_int (2 ^ 52)" "x / ?u"] by (simp only: rne_of_int)
  then have "(of_int (2 ^ 52) :: rat) \<le> of_int (rne (x / ?u))" by (simp only: of_int_le_iff)
  then show ?thesis unfolding fl_pos_def eq by (rule mult_right_mono) simp
qed

lemma fl_pos_mono: assumes "0 < x" "x \<le> y" shows "fl_pos x \<le> fl_pos y"
proof (cases "ulp_exp x = ulp_exp y")
  case True
  have "rne (x / two_pow (ulp_exp y)) \<le> rne (y / two_pow (ulp_exp y))"
    using assms by (intro rne_mono divide_right_mono) auto
  then show ?thesis unfolding fl_pos_def True by (intro mult_right_mono) auto
next
  case False
  have "ilog2 x \<le> ilog2 y" using ilog2_mono[OF assms] .
  with False have lt: "max (ilog2 x) (-1022) < ilog2 y" and ge: "-1022 \<le> ilog2 y"
    unfolding ulp_exp_def by auto
  have "fl_pos x \<le> two_pow (max (ilog2 x) (-1022) + 1)"
    by (rule fl_pos_le_binade[OF assms(1)])
  also have "\<dots> \<le> two_pow (ilog2 y)" using lt by (intro two_pow_mono) (simp add: max_def split: if_splits)
  also have "\<dots> \<le> fl_pos y" using assms ge by (intro fl_pos_ge_binade) auto
  finally show ?thesis .
qed

text \<open>Rounding is monotone: the fact every bound on a computed float rests on.\<close>

lemma fl_mono: assumes "x \<le> y" shows "fl x \<le> fl y"
proof -
  consider "0 < x" | "x \<le> 0" "0 \<le> y" | "y < 0" using assms by linarith
  then show ?thesis
  proof cases
    case 1 then show ?thesis using assms fl_pos_mono[of x y] by (simp add: fl_def)
  next
    case 2 then show ?thesis
      using fl_pos_nonneg[of y] fl_pos_nonneg[of "- x"] by (auto simp: fl_def)
  next
    case 3 then show ?thesis using assms fl_pos_mono[of "- y" "- x"] by (simp add: fl_def)
  qed
qed

text \<open>The representable values are the fixed points of rounding.\<close>

definition is_fl :: "rat \<Rightarrow> bool" where
  "is_fl x = (fl x = x)"

lemma fl_le_repr: "x \<le> c \<Longrightarrow> fl c = c \<Longrightarrow> fl x \<le> c"
  using fl_mono[of x c] by simp

lemma fl_ge_repr: "c \<le> x \<Longrightarrow> fl c = c \<Longrightarrow> c \<le> fl x"
  using fl_mono[of c x] by simp

lemma fl_nonneg: "0 \<le> x \<Longrightarrow> 0 \<le> fl x"
  by (rule fl_ge_repr) simp_all

lemma fl_1 [simp]: "fl 1 = 1"
  by code_simp

lemma fl_half [simp]: "fl (1/2) = 1/2"
  by code_simp

lemma fl_unit: "0 \<le> x \<Longrightarrow> x \<le> 1 \<Longrightarrow> 0 \<le> fl x \<and> fl x \<le> 1"
  by (simp add: fl_nonneg fl_le_repr)

text \<open>Integers up to \<open>2 ^ 53\<close> are representable.\<close>

lemma fl_of_int:
  assumes "0 \<le> k" "k \<le> 2 ^ 53"
  shows "fl (of_int k) = of_int k"
proof -
  consider "k = 0" | "k = 2 ^ 53" | "0 < k" "k < 2 ^ 53" using assms by linarith
  then show ?thesis
  proof cases
    case 2
    have "fl 9007199254740992 = 9007199254740992" by code_simp
    with 2 show ?thesis by simp
  next
    case 3
    let ?x = "of_int k :: rat" and ?e = "ulp_exp (of_int k)"
    have pos: "0 < ?x" using 3 by simp
    have "two_pow (ilog2 ?x) \<le> ?x" using ilog2_bounds(1)[OF pos] .
    moreover have "?x < two_pow 53" using 3(2) by (simp flip: of_int_less_iff)
    ultimately have "two_pow (ilog2 ?x) < two_pow 53" by linarith
    then have "ilog2 ?x < 53" using two_pow_mono[of 53 "ilog2 ?x"] by linarith
    then have e: "?e \<le> 0" by (simp add: ulp_exp_def)
    have "two_pow ?e = inverse (2 ^ nat (- ?e))"
      using e by (simp add: power_int_def inverse_eq_divide power_one_over)
    then have "?x / two_pow ?e = of_int (k * 2 ^ nat (- ?e))" by (simp add: field_simps)
    then have "of_int (rne (?x / two_pow ?e)) = ?x / two_pow ?e" by (simp only: rne_of_int)
    then have "fl_pos ?x = ?x" by (simp add: fl_pos_def)
    then show ?thesis using pos by (simp add: fl_def)
  qed simp
qed

section \<open>The float type\<close>

datatype f64 = Fin rat | PInf | NInf | NaN

text \<open>Round an exact result: past the largest finite value it overflows to an infinity.\<close>

definition f64_of_rat :: "rat \<Rightarrow> f64" where
  "f64_of_rat x = (let r = fl x in
     if 2 ^ 1024 \<le> r then PInf else if r \<le> - (2 ^ 1024) then NInf else Fin r)"

lemma two_pow_le_iff_ilog2: "0 < r \<Longrightarrow> two_pow k \<le> r \<longleftrightarrow> k \<le> ilog2 r"
proof
  assume r: "0 < r"
  assume "two_pow k \<le> r"
  with ilog2_bounds(2)[OF r] have "two_pow k < two_pow (ilog2 r + 1)" by linarith
  then show "k \<le> ilog2 r" using two_pow_mono[of "ilog2 r + 1" k] by linarith
next
  assume r: "0 < r" and "k \<le> ilog2 r"
  then show "two_pow k \<le> r" using two_pow_mono[of k "ilog2 r"] ilog2_bounds(1)[OF r] by linarith
qed

text \<open>The same test on the exponent, so that evaluation never builds the limit.\<close>

lemma f64_of_rat_code [code]:
  "f64_of_rat x = (let r = fl x in
     if 0 < r \<and> 1024 \<le> ilog2 r then PInf else if r < 0 \<and> 1024 \<le> ilog2 (- r) then NInf else Fin r)"
proof -
  have p: "2 ^ 1024 \<le> r \<longleftrightarrow> 0 < r \<and> 1024 \<le> ilog2 r" for r :: rat
  proof (cases "0 < r")
    case True
    then show ?thesis using two_pow_le_iff_ilog2[of r 1024] by (simp only: power_int_numeral) simp
  next
    case False
    moreover have "(0::rat) < 2 ^ 1024" by (rule zero_less_power) simp
    ultimately show ?thesis by linarith
  qed
  have n: "r \<le> - (2 ^ 1024) \<longleftrightarrow> r < 0 \<and> 1024 \<le> ilog2 (- r)" for r :: rat
    using p[of "- r"] by linarith
  show ?thesis unfolding f64_of_rat_def p n ..
qed

text \<open>A float literal of the source.\<close>

abbreviation lit :: "rat \<Rightarrow> f64" where
  "lit \<equiv> f64_of_rat"

fun f_neg :: "f64 \<Rightarrow> f64" where
  "f_neg (Fin a) = Fin (- a)"
| "f_neg PInf = NInf"
| "f_neg NInf = PInf"
| "f_neg NaN = NaN"

fun f_add :: "f64 \<Rightarrow> f64 \<Rightarrow> f64" where
  "f_add (Fin a) (Fin b) = f64_of_rat (a + b)"
| "f_add NaN _ = NaN"
| "f_add _ NaN = NaN"
| "f_add PInf NInf = NaN"
| "f_add NInf PInf = NaN"
| "f_add PInf _ = PInf"
| "f_add _ PInf = PInf"
| "f_add NInf _ = NInf"
| "f_add _ NInf = NInf"

definition f_sub :: "f64 \<Rightarrow> f64 \<Rightarrow> f64" where
  "f_sub a b = f_add a (f_neg b)"

text \<open>The sign of a non-NaN float, for the rules of infinities.\<close>

fun f_sgn :: "f64 \<Rightarrow> int" where
  "f_sgn (Fin a) = (if 0 < a then 1 else if a < 0 then -1 else 0)"
| "f_sgn PInf = 1"
| "f_sgn NInf = -1"
| "f_sgn NaN = 0"

definition f_inf_of_sgn :: "int \<Rightarrow> f64" where
  "f_inf_of_sgn s = (if s = 0 then NaN else if 0 < s then PInf else NInf)"

fun f_mul :: "f64 \<Rightarrow> f64 \<Rightarrow> f64" where
  "f_mul (Fin a) (Fin b) = f64_of_rat (a * b)"
| "f_mul NaN _ = NaN"
| "f_mul _ NaN = NaN"
| "f_mul a b = f_inf_of_sgn (f_sgn a * f_sgn b)"

text \<open>True division: the caller tests a zero divisor, which raises in Python.\<close>

fun f_div :: "f64 \<Rightarrow> f64 \<Rightarrow> f64 res" where
  "f_div a (Fin b) = (if b = 0 then Inl ZeroDivisionError else
     case a of Fin x \<Rightarrow> Inr (f64_of_rat (x / b))
     | NaN \<Rightarrow> Inr NaN
     | _ \<Rightarrow> Inr (f_inf_of_sgn (f_sgn a * f_sgn (Fin b))))"
| "f_div _ NaN = Inr NaN"
| "f_div (Fin _) _ = Inr (Fin 0)"
| "f_div _ _ = Inr NaN"

fun f_lt :: "f64 \<Rightarrow> f64 \<Rightarrow> bool" where
  "f_lt (Fin a) (Fin b) = (a < b)"
| "f_lt NaN _ = False"
| "f_lt _ NaN = False"
| "f_lt NInf b = (b \<noteq> NInf)"
| "f_lt _ NInf = False"
| "f_lt PInf _ = False"
| "f_lt _ PInf = True"

fun f_eq :: "f64 \<Rightarrow> f64 \<Rightarrow> bool" where
  "f_eq (Fin a) (Fin b) = (a = b)"
| "f_eq PInf PInf = True"
| "f_eq NInf NInf = True"
| "f_eq _ _ = False"

definition f_le :: "f64 \<Rightarrow> f64 \<Rightarrow> bool" where
  "f_le a b = (f_lt a b \<or> f_eq a b)"

text \<open>\<^verbatim>\<open>max(a, b)\<close> and \<^verbatim>\<open>min(a, b)\<close>: the first argument unless the second is strictly beyond it.\<close>

definition f_max :: "f64 \<Rightarrow> f64 \<Rightarrow> f64" where
  "f_max a b = (if f_lt a b then b else a)"

definition f_min :: "f64 \<Rightarrow> f64 \<Rightarrow> f64" where
  "f_min a b = (if f_lt b a then b else a)"

definition f_isfinite :: "f64 \<Rightarrow> bool" where
  "f_isfinite a = (case a of Fin _ \<Rightarrow> True | _ \<Rightarrow> False)"

text \<open>\<^verbatim>\<open>round(x, n)\<close>: exact half-even decimal rounding of the value, then the nearest float.\<close>

definition f_round :: "f64 \<Rightarrow> nat \<Rightarrow> f64" where
  "f_round a n = (case a of Fin x \<Rightarrow> f64_of_rat (of_int (rne (x * 10 ^ n)) / 10 ^ n) | _ \<Rightarrow> a)"

text \<open>\<^verbatim>\<open>float(i)\<close> of an integer: rounded; an integer beyond the range raises.\<close>

definition f_of_int :: "int \<Rightarrow> f64 res" where
  "f_of_int i = (case f64_of_rat (of_int i) of Fin r \<Rightarrow> Inr (Fin r) | _ \<Rightarrow> Inl OverflowError)"

text \<open>\<^verbatim>\<open>i / j\<close> of two integers is the correctly rounded quotient.\<close>

definition int_truediv :: "int \<Rightarrow> int \<Rightarrow> f64 res" where
  "int_truediv i j = (if j = 0 then Inl ZeroDivisionError else
     case f64_of_rat (of_int i / of_int j) of Fin r \<Rightarrow> Inr (Fin r) | _ \<Rightarrow> Inl OverflowError)"

lemma f_le_Fin [simp]: "f_le (Fin a) (Fin b) = (a \<le> b)"
  by (auto simp: f_le_def)

lemma f_lt_irrefl [simp]: "\<not> f_lt a a"
  by (cases a) auto

lemma f_le_refl: "a \<noteq> NaN \<Longrightarrow> f_le a a"
  by (cases a) (auto simp: f_le_def)

lemma f_eq_imp: "f_eq a b \<Longrightarrow> a = b"
  by (cases a; cases b) auto

lemma f_lt_trans: "f_lt a b \<Longrightarrow> f_lt b c \<Longrightarrow> f_lt a c"
  by (cases a; cases b; cases c) auto

lemma f_le_trans: "f_le a b \<Longrightarrow> f_le b c \<Longrightarrow> f_le a c"
  by (cases a; cases b; cases c) (auto simp: f_le_def)

lemma f_le_notNaN: "f_le a b \<Longrightarrow> a \<noteq> NaN \<and> b \<noteq> NaN"
  by (cases a; cases b) (auto simp: f_le_def)

lemma f_not_lt: "a \<noteq> NaN \<Longrightarrow> b \<noteq> NaN \<Longrightarrow> \<not> f_lt a b \<longleftrightarrow> f_le b a"
  by (cases a; cases b) (auto simp: f_le_def)

lemma f_le_unit_Fin: "f_le (Fin lo) a \<Longrightarrow> f_le a (Fin hi) \<Longrightarrow> \<exists>r. a = Fin r \<and> lo \<le> r \<and> r \<le> hi"
  by (cases a) (auto simp: f_le_def)

lemma f64_of_rat_Fin: "f64_of_rat x = Fin r \<Longrightarrow> r = fl x"
  by (auto simp: f64_of_rat_def Let_def split: if_splits)

lemma f64_of_rat_notNaN [simp]: "f64_of_rat x \<noteq> NaN"
  by (simp add: f64_of_rat_def Let_def)

text \<open>A result between two representable bounds is finite and stays between them.\<close>

lemma f64_of_rat_between:
  assumes "lo \<le> x" "x \<le> hi" "fl lo = lo" "fl hi = hi" "- (2 ^ 1024) < lo" "hi < 2 ^ 1024"
  shows "\<exists>r. f64_of_rat x = Fin r \<and> lo \<le> r \<and> r \<le> hi"
proof -
  have "lo \<le> fl x" "fl x \<le> hi"
    using assms by (auto intro: fl_ge_repr fl_le_repr)
  with assms(5,6) show ?thesis by (auto simp: f64_of_rat_def Let_def)
qed

lemma f64_of_rat_unit:
  assumes "0 \<le> x" "x \<le> 1" shows "\<exists>r. f64_of_rat x = Fin r \<and> 0 \<le> r \<and> r \<le> 1"
  using f64_of_rat_between[of 0 x 1] assms by simp

lemma f64_of_rat_0 [simp]: "f64_of_rat 0 = Fin 0"
  and f64_of_rat_1 [simp]: "f64_of_rat 1 = Fin 1"
  and f64_of_rat_half [simp]: "f64_of_rat (1/2) = Fin (1/2)"
  by (simp_all add: f64_of_rat_def)


section \<open>A total order for sorting\<close>

text \<open>
  Sorting by a float key: on floats that compare, the order is that of \<^verbatim>\<open><\<close>; NaN, which compares
  with nothing, is put last.
\<close>

fun f64_le :: "f64 \<Rightarrow> f64 \<Rightarrow> bool" where
  "f64_le _ NaN = True"
| "f64_le NaN _ = False"
| "f64_le NInf _ = True"
| "f64_le _ PInf = True"
| "f64_le PInf _ = False"
| "f64_le _ NInf = False"
| "f64_le (Fin a) (Fin b) = (a \<le> b)"

instantiation f64 :: linorder
begin

definition less_eq_f64 :: "f64 \<Rightarrow> f64 \<Rightarrow> bool" where
  "less_eq_f64 a b = f64_le a b"

definition less_f64 :: "f64 \<Rightarrow> f64 \<Rightarrow> bool" where
  "less_f64 a b = (f64_le a b \<and> \<not> f64_le b a)"

instance
proof
  fix x y z :: f64
  show "(x < y) = (x \<le> y \<and> \<not> y \<le> x)" by (simp add: less_f64_def less_eq_f64_def)
  show "x \<le> x" by (cases x) (simp_all add: less_eq_f64_def)
  show "x \<le> y \<Longrightarrow> y \<le> z \<Longrightarrow> x \<le> z"
    by (cases x; cases y; cases z) (simp_all add: less_eq_f64_def)
  show "x \<le> y \<Longrightarrow> y \<le> x \<Longrightarrow> x = y"
    by (cases x; cases y) (simp_all add: less_eq_f64_def)
  show "x \<le> y \<or> y \<le> x"
    by (cases x; cases y) (auto simp: less_eq_f64_def)
qed

end

text \<open>The order used for sorting agrees with the float comparison wherever that compares.\<close>

lemma less_f64_iff: "a \<noteq> NaN \<Longrightarrow> b \<noteq> NaN \<Longrightarrow> a < b \<longleftrightarrow> f_lt a b"
  by (cases a; cases b) (auto simp: less_f64_def)

lemma f_lt_less: "f_lt a b \<Longrightarrow> a < b"
  by (cases a; cases b) (auto simp: less_f64_def)

section \<open>Integers of floats\<close>

text \<open>\<^verbatim>\<open>math.floor\<close> and \<^verbatim>\<open>math.ceil\<close>.\<close>

definition f_floor :: "f64 \<Rightarrow> int res" where
  "f_floor a = (case a of Fin x \<Rightarrow> Inr \<lfloor>x\<rfloor> | NaN \<Rightarrow> Inl (PyValueError ''NaN'') | _ \<Rightarrow> Inl OverflowError)"

definition f_ceil :: "f64 \<Rightarrow> int res" where
  "f_ceil a = (case a of Fin x \<Rightarrow> Inr \<lceil>x\<rceil> | NaN \<Rightarrow> Inl (PyValueError ''NaN'') | _ \<Rightarrow> Inl OverflowError)"

lemma f_of_int_small: "0 \<le> k \<Longrightarrow> k \<le> 2 ^ 53 \<Longrightarrow> f_of_int k = Inr (Fin (of_int k))"
proof -
  assume k: "0 \<le> k" "k \<le> 2 ^ 53"
  have "of_int k \<le> (of_int (2 ^ 53) :: rat)" using k(2) by (simp only: of_int_le_iff)
  also have "\<dots> < 2 ^ 1024" by simp
  finally have b: "(of_int k :: rat) < 2 ^ 1024" .
  have "(- (2 ^ 1024) :: rat) < 0" by (simp only: neg_less_0_iff_less zero_less_power zero_less_numeral)
  then have "- (2 ^ 1024) < (of_int k :: rat)" using k(1) by linarith
  then show ?thesis using b fl_of_int[OF k] by (simp add: f_of_int_def f64_of_rat_def Let_def)
qed

end
