(* ===== verification/Py_Val.thy ===== *)
theory Py_Val
  imports Py_Float "HOL-Library.Sublist"
begin

text \<open>
  Python values of JSON shape, and the built-in operations the gateway applies to them:
  truth value, \<^verbatim>\<open>==\<close>, \<^verbatim>\<open>in\<close>, \<^verbatim>\<open>d.get(k, x)\<close>, \<^verbatim>\<open>d[k]\<close>, iteration, \<^verbatim>\<open>float()\<close>, \<^verbatim>\<open>int()\<close>, \<^verbatim>\<open>str()\<close>,
  \<^verbatim>\<open>set()\<close>, \<^verbatim>\<open>sorted()\<close>, string methods and \<^verbatim>\<open>json.dumps\<close>. An operation on a value of the wrong
  type is the exception Python raises. Strings are \<open>string\<close>: texts of code points below
  256; dict keys are strings, as in JSON.
\<close>

datatype pyval =
    PNone
  | PBool bool
  | PInt int
  | PFloat f64
  | PStr string
  | PList "pyval list"
  | PDict "(string \<times> pyval) list"

section \<open>Truth value, numbers, equality\<close>

fun truthy :: "pyval \<Rightarrow> bool" where
  "truthy PNone = False"
| "truthy (PBool b) = b"
| "truthy (PInt i) = (i \<noteq> 0)"
| "truthy (PFloat f) = (f \<noteq> Fin 0)"
| "truthy (PStr s) = (s \<noteq> [])"
| "truthy (PList xs) = (xs \<noteq> [])"
| "truthy (PDict d) = (d \<noteq> [])"

text \<open>The exact numeric value: a bool counts as 0 or 1, and an int is never rounded to compare.\<close>

fun num_of :: "pyval \<Rightarrow> f64 option" where
  "num_of (PBool b) = Some (Fin (if b then 1 else 0))"
| "num_of (PInt i) = Some (Fin (of_int i))"
| "num_of (PFloat f) = Some f"
| "num_of _ = None"

lemma size_elem_list: "x \<in> set xs \<Longrightarrow> size x \<le> size_list size xs"
  by (induction xs) auto

lemma size_value_dict: "(k, v) \<in> set d \<Longrightarrow> size v \<le> size_list (size_prod (\<lambda>x. 0) size) d"
  by (induction d) auto

function py_eq :: "pyval \<Rightarrow> pyval \<Rightarrow> bool" where
  "py_eq x y = (case (num_of x, num_of y) of
      (Some a, Some b) \<Rightarrow> f_eq a b
    | _ \<Rightarrow> (case x of
        PNone \<Rightarrow> y = PNone
      | PStr s \<Rightarrow> y = PStr s
      | PList xs \<Rightarrow> (case y of PList ys \<Rightarrow>
            length xs = length ys \<and> list_all (\<lambda>(a, b). py_eq a b) (zip xs ys)
          | _ \<Rightarrow> False)
      | PDict d \<Rightarrow> (case y of PDict e \<Rightarrow>
            length d = length e \<and>
            list_all (\<lambda>(k, v). case map_of e k of None \<Rightarrow> False | Some w \<Rightarrow> py_eq v w) d
          | _ \<Rightarrow> False)
      | _ \<Rightarrow> False))"
  by pat_completeness auto
termination
  by (relation "measure (\<lambda>(x, y). size x)")
    (auto simp: less_Suc_eq_le dest!: set_zip_leftD intro: size_elem_list size_value_dict)

declare py_eq.simps [simp del]

text \<open>\<^verbatim>\<open>x in xs\<close> of a list, and the truth of a mapping's membership.\<close>

definition py_mem :: "pyval \<Rightarrow> pyval list \<Rightarrow> bool" where
  "py_mem x xs = list_ex (\<lambda>y. py_eq x y) xs"

lemma py_eq_PStr [simp]: "py_eq x (PStr s) \<longleftrightarrow> x = PStr s"
  by (cases x) (auto simp: py_eq.simps)

lemma py_eq_PStr_left [simp]: "py_eq (PStr s) x \<longleftrightarrow> x = PStr s"
  by (cases x) (auto simp: py_eq.simps)

lemma py_eq_PNone [simp]: "py_eq x PNone \<longleftrightarrow> x = PNone"
  by (cases x) (simp_all add: py_eq.simps)

lemma py_mem_PStr [simp]: "py_mem (PStr s) xs \<longleftrightarrow> PStr s \<in> set xs"
  by (auto simp: py_mem_def list_ex_iff)

section \<open>Text\<close>

definition digit_char :: "nat \<Rightarrow> char" where
  "digit_char d = char_of (48 + d)"

definition is_digit :: "char \<Rightarrow> bool" where
  "is_digit c = (48 \<le> (of_char c :: nat) \<and> (of_char c :: nat) \<le> 57)"

definition digit_val :: "char \<Rightarrow> nat" where
  "digit_val c = of_char c - 48"

fun dec_nat :: "nat \<Rightarrow> string" where
  "dec_nat n = (if n < 10 then [digit_char n] else dec_nat (n div 10) @ [digit_char (n mod 10)])"

declare dec_nat.simps [simp del]

definition dec_int :: "int \<Rightarrow> string" where
  "dec_int i = (if i < 0 then CHR ''-'' # dec_nat (nat (- i)) else dec_nat (nat i))"

text \<open>\<^verbatim>\<open>str.lower\<close> on code points below 256.\<close>

definition char_lower :: "char \<Rightarrow> char" where
  "char_lower c = (let n = (of_char c :: nat) in
     if 65 \<le> n \<and> n \<le> 90 \<or> 192 \<le> n \<and> n \<le> 222 \<and> n \<noteq> 215 then char_of (n + 32) else c)"

definition lower :: "string \<Rightarrow> string" where
  "lower s = map char_lower s"

definition is_space :: "char \<Rightarrow> bool" where
  "is_space c = (let n = (of_char c :: nat) in
     9 \<le> n \<and> n \<le> 13 \<or> 28 \<le> n \<and> n \<le> 32 \<or> n = 133 \<or> n = 160)"

definition strip :: "string \<Rightarrow> string" where
  "strip s = rev (dropWhile is_space (rev (dropWhile is_space s)))"

definition startswith :: "string \<Rightarrow> string \<Rightarrow> bool" where
  "startswith s p = (take (length p) s = p)"

text \<open>\<^verbatim>\<open>needle in hay\<close> of two strings.\<close>

fun contains :: "string \<Rightarrow> string \<Rightarrow> bool" where
  "contains needle [] = (needle = [])"
| "contains needle (c # s) = (startswith (c # s) needle \<or> contains needle s)"

fun join :: "string \<Rightarrow> string list \<Rightarrow> string" where
  "join sep [] = []"
| "join sep [x] = x"
| "join sep (x # y # xs) = x @ sep @ join sep (y # xs)"

text \<open>\<^verbatim>\<open>s.split(c)\<close> for a one-character separator.\<close>

fun split_char :: "char \<Rightarrow> string \<Rightarrow> string list" where
  "split_char c [] = [[]]"
| "split_char c (x # s) = (if x = c then [] # split_char c s
     else case split_char c s of [] \<Rightarrow> [[x]] | w # ws \<Rightarrow> (x # w) # ws)"

lemma startswith_iff: "startswith s p \<longleftrightarrow> (\<exists>r. s = p @ r)"
  unfolding startswith_def by (metis append_eq_conv_conj append_take_drop_id)

lemma startswith_Nil [simp]: "startswith s []"
  by (simp add: startswith_def)

lemma contains_iff: "contains n s \<longleftrightarrow> (\<exists>a b. s = a @ n @ b)"
proof (induction s)
  case IH: (Cons c s)
  show ?case
  proof
    assume "contains n (c # s)"
    then consider r where "c # s = n @ r" | a b where "s = a @ n @ b"
      using IH by (auto simp: startswith_iff)
    then show "\<exists>a b. c # s = a @ n @ b"
      by cases (metis append_Nil, metis append_Cons)
  next
    assume "\<exists>a b. c # s = a @ n @ b"
    then obtain a b where ab: "c # s = a @ n @ b" by blast
    show "contains n (c # s)"
    proof (cases a)
      case Nil
      then have "startswith (c # s) n" using ab by (auto simp: startswith_iff)
      then show ?thesis by simp
    next
      case (Cons x a')
      then have "s = a' @ n @ b" using ab by simp
      then show ?thesis using IH by auto
    qed
  qed
qed simp

lemma char_lower_idem: "char_lower (char_lower c) = char_lower c"
proof -
  have "(of_char c :: nat) < 256" by simp
  then show ?thesis by (auto simp: char_lower_def Let_def of_char_of)
qed

lemma lower_idem [simp]: "lower (lower s) = lower s"
  by (simp add: lower_def char_lower_idem)

lemma lower_Nil [simp]: "lower s = [] \<longleftrightarrow> s = []"
  by (simp add: lower_def)


section \<open>Access\<close>

text \<open>\<^verbatim>\<open>v.get(k, x)\<close>: only mappings have it.\<close>

definition py_get :: "pyval \<Rightarrow> string \<Rightarrow> pyval \<Rightarrow> pyval res" where
  "py_get v k dflt = (case v of
     PDict d \<Rightarrow> Inr (case map_of d k of None \<Rightarrow> dflt | Some w \<Rightarrow> w)
   | _ \<Rightarrow> Inl AttributeError)"

text \<open>\<^verbatim>\<open>v[k]\<close> for a string key and \<^verbatim>\<open>v[i]\<close> for an index.\<close>

definition py_index :: "pyval \<Rightarrow> string \<Rightarrow> pyval res" where
  "py_index v k = (case v of
     PDict d \<Rightarrow> (case map_of d k of None \<Rightarrow> Inl (KeyError k) | Some w \<Rightarrow> Inr w)
   | _ \<Rightarrow> Inl PyTypeError)"

text \<open>The same with a key that is itself a value; dict keys are strings.\<close>

definition py_get_key :: "pyval \<Rightarrow> pyval \<Rightarrow> pyval \<Rightarrow> pyval res" where
  "py_get_key v key dflt = (case v of
     PDict _ \<Rightarrow> (case key of PStr k \<Rightarrow> py_get v k dflt
       | PList _ \<Rightarrow> Inl PyTypeError | PDict _ \<Rightarrow> Inl PyTypeError | _ \<Rightarrow> Inr dflt)
   | _ \<Rightarrow> Inl AttributeError)"

definition py_at :: "'a list \<Rightarrow> int \<Rightarrow> 'a res" where
  "py_at xs i =
     (if 0 \<le> i then (if nat i < length xs then Inr (xs ! nat i) else Inl IndexError)
      else if nat (- i) \<le> length xs then Inr (xs ! (length xs - nat (- i))) else Inl IndexError)"

definition py_index_int :: "pyval \<Rightarrow> int \<Rightarrow> pyval res" where
  "py_index_int v i = (case v of
     PList xs \<Rightarrow> py_at xs i
   | PStr s \<Rightarrow> bindE (py_at s i) (\<lambda>c. Inr (PStr [c]))
   | PDict d \<Rightarrow> Inl (KeyError (dec_int i))
   | _ \<Rightarrow> Inl PyTypeError)"

definition py_index_key :: "pyval \<Rightarrow> pyval \<Rightarrow> pyval res" where
  "py_index_key v key = (case key of
     PStr k \<Rightarrow> py_index v k
   | PInt i \<Rightarrow> py_index_int v i
   | PBool b \<Rightarrow> py_index_int v (if b then 1 else 0)
   | PList _ \<Rightarrow> Inl PyTypeError | PDict _ \<Rightarrow> Inl PyTypeError
   | _ \<Rightarrow> (case v of PDict _ \<Rightarrow> Inl (KeyError []) | _ \<Rightarrow> Inl PyTypeError))"

definition py_nth :: "pyval \<Rightarrow> nat \<Rightarrow> pyval res" where
  "py_nth v i = py_index_int v (int i)"

text \<open>The items a \<^verbatim>\<open>for\<close> loop over \<open>v\<close> visits.\<close>

definition py_iter :: "pyval \<Rightarrow> pyval list res" where
  "py_iter v = (case v of
     PList xs \<Rightarrow> Inr xs
   | PDict d \<Rightarrow> Inr (map (\<lambda>(k, _). PStr k) d)
   | PStr s \<Rightarrow> Inr (map (\<lambda>c. PStr [c]) s)
   | _ \<Rightarrow> Inl PyTypeError)"

text \<open>\<^verbatim>\<open>len(v)\<close>.\<close>

definition py_len :: "pyval \<Rightarrow> nat res" where
  "py_len v = (case v of
     PList xs \<Rightarrow> Inr (length xs) | PDict d \<Rightarrow> Inr (length d) | PStr s \<Rightarrow> Inr (length s)
   | _ \<Rightarrow> Inl PyTypeError)"

definition hashable :: "pyval \<Rightarrow> bool" where
  "hashable v = (case v of PList _ \<Rightarrow> False | PDict _ \<Rightarrow> False | _ \<Rightarrow> True)"

text \<open>\<^verbatim>\<open>x in c\<close> of a list, a mapping's keys or a string.\<close>

definition py_in :: "pyval \<Rightarrow> pyval \<Rightarrow> bool res" where
  "py_in x c = (case c of
     PList xs \<Rightarrow> Inr (py_mem x xs)
   | PDict d \<Rightarrow> if hashable x then Inr (py_mem x (map (\<lambda>(k, _). PStr k) d)) else Inl PyTypeError
   | PStr s \<Rightarrow> (case x of PStr t \<Rightarrow> Inr (contains t s) | _ \<Rightarrow> Inl PyTypeError)
   | _ \<Rightarrow> Inl PyTypeError)"

text \<open>\<^verbatim>\<open>x in {...}\<close> of a set display of strings: the left operand is hashed first.\<close>

definition py_in_strs :: "pyval \<Rightarrow> string list \<Rightarrow> bool res" where
  "py_in_strs x ss = (if hashable x then Inr (x \<in> PStr ` set ss) else Inl PyTypeError)"

definition is_str :: "pyval \<Rightarrow> bool" where
  "is_str v = (case v of PStr _ \<Rightarrow> True | _ \<Rightarrow> False)"

definition is_list :: "pyval \<Rightarrow> bool" where
  "is_list v = (case v of PList _ \<Rightarrow> True | _ \<Rightarrow> False)"

definition is_dict :: "pyval \<Rightarrow> bool" where
  "is_dict v = (case v of PDict _ \<Rightarrow> True | _ \<Rightarrow> False)"

definition is_bool :: "pyval \<Rightarrow> bool" where
  "is_bool v = (case v of PBool _ \<Rightarrow> True | _ \<Rightarrow> False)"

text \<open>\<^verbatim>\<open>isinstance(v, int)\<close> and \<^verbatim>\<open>isinstance(v, (int, float))\<close>: a bool is an int.\<close>

definition is_int :: "pyval \<Rightarrow> bool" where
  "is_int v = (case v of PInt _ \<Rightarrow> True | PBool _ \<Rightarrow> True | _ \<Rightarrow> False)"

definition is_number :: "pyval \<Rightarrow> bool" where
  "is_number v = (num_of v \<noteq> None)"

lemma py_get_PDict [simp]: "py_get (PDict d) k x = Inr (case map_of d k of None \<Rightarrow> x | Some w \<Rightarrow> w)"
  by (simp add: py_get_def)

lemma py_index_PDict [simp]:
  "py_index (PDict d) k = (case map_of d k of None \<Rightarrow> Inl (KeyError k) | Some w \<Rightarrow> Inr w)"
  by (simp add: py_index_def)

lemma py_get_Inr: "py_get v k x = Inr w \<longleftrightarrow>
    (\<exists>d. v = PDict d \<and> w = (case map_of d k of None \<Rightarrow> x | Some u \<Rightarrow> u))"
  by (cases v) (auto simp: py_get_def)

lemma py_index_Inr: "py_index v k = Inr w \<longleftrightarrow> (\<exists>d. v = PDict d \<and> map_of d k = Some w)"
  by (cases v) (auto simp: py_index_def split: option.splits)

lemma py_iter_PList [simp]: "py_iter (PList xs) = Inr xs"
  by (simp add: py_iter_def)

lemma py_in_PList [simp]: "py_in x (PList xs) = Inr (py_mem x xs)"
  by (simp add: py_in_def)

text \<open>\<open>attr v k x\<close>: the value \<^verbatim>\<open>v.get(k, x)\<close> returns.\<close>

definition attr :: "pyval \<Rightarrow> string \<Rightarrow> pyval \<Rightarrow> pyval" where
  "attr v k x = (case py_get v k x of Inr w \<Rightarrow> w | Inl _ \<Rightarrow> PNone)"

lemma attr_Inr: "py_get v k x = Inr w \<Longrightarrow> attr v k x = w"
  by (simp add: attr_def)

lemma attr_index: "py_index v k = Inr w \<Longrightarrow> attr v k x = w"
  by (auto simp: attr_def py_get_def py_index_def split: pyval.splits option.splits)

section \<open>Numbers from values\<close>

text \<open>Underscores may stand between two digits of a numeric literal.\<close>

fun drop_underscores :: "bool \<Rightarrow> string \<Rightarrow> string option" where
  "drop_underscores prev [] = Some []"
| "drop_underscores prev (c # s) =
     (if c = CHR ''_'' then
        (if prev \<and> s \<noteq> [] \<and> is_digit (hd s) then drop_underscores False s else None)
      else map_option (Cons c) (drop_underscores (is_digit c) s))"

definition nat_of_digits :: "string \<Rightarrow> nat" where
  "nat_of_digits s = foldl (\<lambda>n c. 10 * n + digit_val c) 0 s"

definition take_sign :: "string \<Rightarrow> bool \<times> string" where
  "take_sign s = (case s of [] \<Rightarrow> (False, [])
     | c # r \<Rightarrow> if c = CHR ''-'' then (True, r) else if c = CHR ''+'' then (False, r) else (False, s))"

definition parse_int :: "string \<Rightarrow> int option" where
  "parse_int s = (case drop_underscores False (strip s) of None \<Rightarrow> None
     | Some t \<Rightarrow> (let (neg, ds) = take_sign t in
         if ds \<noteq> [] \<and> list_all is_digit ds
         then Some (if neg then - int (nat_of_digits ds) else int (nat_of_digits ds)) else None))"

text \<open>The exponent part of a decimal float literal, and the literal.\<close>

definition parse_exp :: "string \<Rightarrow> int option" where
  "parse_exp s = (case s of [] \<Rightarrow> Some 0
     | c # r \<Rightarrow> if c = CHR ''e'' \<or> c = CHR ''E'' then
         (let (neg, ds) = take_sign r in
           if ds \<noteq> [] \<and> list_all is_digit ds
           then Some (if neg then - int (nat_of_digits ds) else int (nat_of_digits ds)) else None)
       else None)"

definition parse_float :: "string \<Rightarrow> f64 option" where
  "parse_float s = (case drop_underscores False (strip s) of None \<Rightarrow> None
     | Some t \<Rightarrow> (let (neg, r) = take_sign t; l = lower r in
         if l = ''inf'' \<or> l = ''infinity'' then Some (if neg then NInf else PInf)
         else if l = ''nan'' then Some NaN
         else (let ip = takeWhile is_digit r; r1 = dropWhile is_digit r;
                   (fp, r2) = (case r1 of [] \<Rightarrow> ([], [])
                     | c # r' \<Rightarrow> if c = CHR ''.'' then (takeWhile is_digit r', dropWhile is_digit r')
                                else ([], r1))
               in if ip = [] \<and> fp = [] then None
                  else (case parse_exp r2 of None \<Rightarrow> None
                    | Some e \<Rightarrow> (let v = of_nat (nat_of_digits (ip @ fp)) * 10 powi (e - int (length fp)) in
                        Some (f64_of_rat (if neg then - v else v)))))))"

text \<open>\<^verbatim>\<open>float(v)\<close> and \<^verbatim>\<open>int(v)\<close>.\<close>

definition py_float :: "pyval \<Rightarrow> f64 res" where
  "py_float v = (case v of
     PFloat f \<Rightarrow> Inr f
   | PInt i \<Rightarrow> f_of_int i
   | PBool b \<Rightarrow> Inr (Fin (if b then 1 else 0))
   | PStr s \<Rightarrow> (case parse_float s of None \<Rightarrow> Inl (PyValueError ''float'') | Some f \<Rightarrow> Inr f)
   | _ \<Rightarrow> Inl PyTypeError)"

definition trunc :: "rat \<Rightarrow> int" where
  "trunc x = (if 0 \<le> x then \<lfloor>x\<rfloor> else \<lceil>x\<rceil>)"

definition py_int :: "pyval \<Rightarrow> int res" where
  "py_int v = (case v of
     PInt i \<Rightarrow> Inr i
   | PBool b \<Rightarrow> Inr (if b then 1 else 0)
   | PFloat f \<Rightarrow> (case f of Fin x \<Rightarrow> Inr (trunc x) | NaN \<Rightarrow> Inl (PyValueError ''int'') | _ \<Rightarrow> Inl OverflowError)
   | PStr s \<Rightarrow> (case parse_int s of None \<Rightarrow> Inl (PyValueError ''int'') | Some i \<Rightarrow> Inr i)
   | _ \<Rightarrow> Inl PyTypeError)"

lemma py_float_simps [simp]:
  "py_float (PFloat f) = Inr f" "py_float (PBool b) = Inr (Fin (if b then 1 else 0))"
  "py_float PNone = Inl PyTypeError"
  by (simp_all add: py_float_def)

lemma py_int_PInt [simp]: "py_int (PInt i) = Inr i"
  by (simp add: py_int_def)

lemma f_of_int_0 [simp]: "f_of_int 0 = Inr (Fin 0)"
  and f_of_int_1 [simp]: "f_of_int 1 = Inr (Fin 1)"
  by (simp_all add: f_of_int_def)

section \<open>Text of values\<close>

definition pad_left :: "nat \<Rightarrow> string \<Rightarrow> string" where
  "pad_left n s = replicate (n - length s) CHR ''0'' @ s"

text \<open>\<^verbatim>\<open>format(x, '.nf')\<close>: the exact value rounded half-even to \<open>n\<close> decimals.\<close>

definition fmt_fixed :: "nat \<Rightarrow> f64 \<Rightarrow> string" where
  "fmt_fixed n f = (case f of PInf \<Rightarrow> ''inf'' | NInf \<Rightarrow> ''-inf'' | NaN \<Rightarrow> ''nan''
     | Fin x \<Rightarrow> (let m = nat (rne (\<bar>x\<bar> * 10 ^ n)); ip = dec_nat (m div 10 ^ n);
           fp = pad_left n (dec_nat (m mod 10 ^ n))
         in (if x < 0 then ''-'' else []) @ ip @ (if n = 0 then [] else CHR ''.'' # fp)))"

text \<open>The decimal exponent of a positive float, and its shortest digits that read back.\<close>

definition ilog10 :: "rat \<Rightarrow> int" where
  "ilog10 x = (if 1 \<le> x then int (length (dec_nat (nat \<lfloor>x\<rfloor>))) - 1
     else (case find (\<lambda>k. 1 \<le> x * 10 ^ k) [1..<400] of None \<Rightarrow> 0 | Some k \<Rightarrow> - int k))"

definition digits_at :: "rat \<Rightarrow> nat \<Rightarrow> (nat \<times> int) option" where
  "digits_at x n = (let e = ilog10 x - int n + 1; s = 10 powi e; m = rne (x / s);
       m' = (if m = \<lfloor>x / s\<rfloor> then m + 1 else \<lfloor>x / s\<rfloor>) in
     if fl (of_int m * s) = x then Some (nat m, e)
     else if fl (of_int m' * s) = x then Some (nat m', e) else None)"

definition shortest :: "rat \<Rightarrow> nat \<times> int" where
  "shortest x = (case List.find (\<lambda>n. digits_at x n \<noteq> None) [1..<18] of
     None \<Rightarrow> (0, 0) | Some n \<Rightarrow> the (digits_at x n))"

definition strip_zeros :: "string \<Rightarrow> string" where
  "strip_zeros s = rev (dropWhile (\<lambda>c. c = CHR ''0'') (rev s))"

text \<open>\<^verbatim>\<open>repr(x)\<close> of a float.\<close>

definition repr_pos :: "rat \<Rightarrow> string" where
  "repr_pos x = (let (m, e) = shortest x; all = dec_nat m; ds = strip_zeros all;
       pt = int (length all) + e; k = length ds in
     if -4 < pt \<and> pt \<le> 16 then
       (if pt \<le> 0 then ''0.'' @ replicate (nat (- pt)) CHR ''0'' @ ds
        else if int k \<le> pt then ds @ replicate (nat pt - k) CHR ''0'' @ ''.0''
        else take (nat pt) ds @ ''.'' @ drop (nat pt) ds)
     else (let x10 = pt - 1 in
       take 1 ds @ (if k = 1 then [] else CHR ''.'' # drop 1 ds) @ ''e'' @
       (if x10 < 0 then ''-'' else ''+'') @ pad_left 2 (dec_nat (nat \<bar>x10\<bar>))))"

definition repr_float :: "f64 \<Rightarrow> string" where
  "repr_float f = (case f of PInf \<Rightarrow> ''inf'' | NInf \<Rightarrow> ''-inf'' | NaN \<Rightarrow> ''nan''
     | Fin x \<Rightarrow> if x = 0 then ''0.0'' else if x < 0 then CHR ''-'' # repr_pos (- x) else repr_pos x)"

definition hex_digit :: "nat \<Rightarrow> char" where
  "hex_digit d = (if d < 10 then char_of (48 + d) else char_of (87 + d))"

definition hex2 :: "nat \<Rightarrow> string" where
  "hex2 n = [hex_digit (n div 16), hex_digit (n mod 16)]"

text \<open>\<^verbatim>\<open>repr(s)\<close> of a string: single quotes unless only they occur inside, and escapes.\<close>

definition repr_char :: "char \<Rightarrow> char \<Rightarrow> string" where
  "repr_char q c = (let n = (of_char c :: nat) in
     if c = q \<or> n = 92 then [CHR 0x5C, c]
     else if n = 10 then [CHR 0x5C, CHR ''n'']
     else if n = 13 then [CHR 0x5C, CHR ''r'']
     else if n = 9 then [CHR 0x5C, CHR ''t'']
     else if n < 32 \<or> 127 \<le> n \<and> n \<le> 160 \<or> n = 173 then CHR 0x5C # CHR ''x'' # hex2 n
     else [c])"

definition repr_str :: "string \<Rightarrow> string" where
  "repr_str s = (let q = (if CHR 0x27 \<in> set s \<and> CHR 0x22 \<notin> set s
                          then CHR 0x22 else CHR 0x27)
     in [q] @ concat (map (repr_char q) s) @ [q])"

fun py_repr :: "pyval \<Rightarrow> string" where
  "py_repr PNone = ''None''"
| "py_repr (PBool b) = (if b then ''True'' else ''False'')"
| "py_repr (PInt i) = dec_int i"
| "py_repr (PFloat f) = repr_float f"
| "py_repr (PStr s) = repr_str s"
| "py_repr (PList xs) = ''['' @ join '', '' (map py_repr xs) @ '']''"
| "py_repr (PDict d) = ''{'' @ join '', '' (map (\<lambda>(k, v). repr_str k @ '': '' @ py_repr v) d) @ ''}''"

text \<open>\<^verbatim>\<open>str(v)\<close>.\<close>

definition py_str :: "pyval \<Rightarrow> string" where
  "py_str v = (case v of PStr s \<Rightarrow> s | _ \<Rightarrow> py_repr v)"

lemma py_str_PStr [simp]: "py_str (PStr s) = s"
  by (simp add: py_str_def)

section \<open>Sets and sorting\<close>

text \<open>\<^verbatim>\<open>set(v)\<close>: the distinct items, hashed; an unhashable item raises.\<close>

definition hash_set :: "pyval list \<Rightarrow> pyval list res" where
  "hash_set xs = (if list_all hashable xs
     then Inr (fold (\<lambda>x acc. if py_mem x acc then acc else acc @ [x]) xs [])
     else Inl PyTypeError)"

definition py_set :: "pyval \<Rightarrow> pyval list res" where
  "py_set v = bindE (py_iter v) hash_set"

text \<open>\<^verbatim>\<open>a + b\<close> of two sequences.\<close>

definition py_concat :: "pyval \<Rightarrow> pyval \<Rightarrow> pyval res" where
  "py_concat a b = (case (a, b) of
     (PList xs, PList ys) \<Rightarrow> Inr (PList (xs @ ys))
   | (PStr s, PStr t) \<Rightarrow> Inr (PStr (s @ t))
   | _ \<Rightarrow> Inl PyTypeError)"

text \<open>Set difference \<open>a - b\<close>.\<close>

definition py_diff :: "pyval list \<Rightarrow> pyval list \<Rightarrow> pyval list" where
  "py_diff a b = filter (\<lambda>x. \<not> py_mem x b) a"

definition all_strs :: "pyval list \<Rightarrow> string list option" where
  "all_strs xs = (if list_all is_str xs
     then Some (map (\<lambda>x. case x of PStr s \<Rightarrow> s | _ \<Rightarrow> []) xs) else None)"

text \<open>
  \<^verbatim>\<open>sorted(v)\<close> of the items of a set: texts in code-point order, numbers by value; items that
  do not compare raise.
\<close>

definition py_sorted :: "pyval list \<Rightarrow> pyval list res" where
  "py_sorted xs = (case all_strs xs of
     Some ss \<Rightarrow> Inr (map PStr (sort ss))
   | None \<Rightarrow> if length xs \<le> 1 then Inr xs
       else if list_all is_number xs
       then Inr (sort_key (\<lambda>x. case num_of x of Some (Fin r) \<Rightarrow> r | _ \<Rightarrow> 0) xs)
       else Inl PyTypeError)"

text \<open>\<^verbatim>\<open>sep.join(xs)\<close>: every item must be a text.\<close>

definition py_join :: "string \<Rightarrow> pyval list \<Rightarrow> string res" where
  "py_join sep xs = (case all_strs xs of Some ss \<Rightarrow> Inr (join sep ss) | None \<Rightarrow> Inl PyTypeError)"

lemma all_strs_map [simp]: "all_strs (map PStr ss) = Some ss"
  by (simp add: all_strs_def is_str_def list_all_iff comp_def)

lemma py_sorted_strs [simp]: "py_sorted (map PStr ss) = Inr (map PStr (sort ss))"
  by (simp add: py_sorted_def)

lemma py_join_strs [simp]: "py_join sep (map PStr ss) = Inr (join sep ss)"
  by (simp add: py_join_def)

definition uniq :: "'a list \<Rightarrow> 'a list" where
  "uniq xs = fold (\<lambda>x acc. if x \<in> set acc then acc else acc @ [x]) xs []"

lemma fold_uniq_set:
  "set (fold (\<lambda>x acc. if x \<in> set acc then acc else acc @ [x]) xs acc) = set acc \<union> set xs"
  by (induction xs arbitrary: acc) auto

lemma fold_uniq_distinct:
  "distinct acc \<Longrightarrow> distinct (fold (\<lambda>x acc. if x \<in> set acc then acc else acc @ [x]) xs acc)"
  by (induction xs arbitrary: acc) auto

lemma set_uniq [simp]: "set (uniq xs) = set xs"
  by (simp add: uniq_def fold_uniq_set)

lemma distinct_uniq [simp]: "distinct (uniq xs)"
  by (simp add: uniq_def fold_uniq_distinct)

lemma uniq_Nil_iff [simp]: "uniq xs = [] \<longleftrightarrow> xs = []"
  by (metis set_uniq set_empty)

lemma py_set_strs [simp]: "py_set (PList (map PStr ss)) = Inr (map PStr (uniq ss))"
proof -
  have "fold (\<lambda>x acc. if py_mem x acc then acc else acc @ [x]) (map PStr ss) (map PStr acc)
      = map PStr (fold (\<lambda>x acc. if x \<in> set acc then acc else acc @ [x]) ss acc)" for acc
  proof (induction ss arbitrary: acc)
    case (Cons a ss)
    then show ?case using Cons.IH[of "acc @ [a]"] by (auto simp: image_iff)
  qed simp
  from this[of "[]"] show ?thesis
    by (simp add: py_set_def hash_set_def hashable_def list_all_iff uniq_def)
qed

lemma py_diff_strs [simp]:
  "py_diff (map PStr a) (map PStr b) = map PStr (filter (\<lambda>x. x \<notin> set b) a)"
  by (auto simp: py_diff_def filter_map comp_def image_iff intro!: filter_cong)

text \<open>Membership of the distinct items is membership of the items.\<close>

lemma py_eq_hashable_trans: "hashable x \<Longrightarrow> py_eq x y \<Longrightarrow> py_eq y z \<Longrightarrow> py_eq x z"
  by (cases x; cases y; cases z) (auto simp: py_eq.simps hashable_def split: if_splits dest: f_eq_imp)

lemma py_mem_trans: "hashable x \<Longrightarrow> py_eq x y \<Longrightarrow> py_mem y zs \<Longrightarrow> py_mem x zs"
  by (auto simp: py_mem_def list_ex_iff intro: py_eq_hashable_trans)

lemma fold_hash_subset:
  assumes "\<forall>x\<in>set xs. hashable x"
  shows "(\<forall>x\<in>set (fold (\<lambda>x acc. if py_mem x acc then acc else acc @ [x]) xs acc). py_mem x zs) \<longleftrightarrow>
    (\<forall>x\<in>set acc \<union> set xs. py_mem x zs)"
  using assms
proof (induction xs arbitrary: acc)
  case (Cons x xs)
  have "py_mem x acc \<Longrightarrow> \<forall>y\<in>set acc. py_mem y zs \<Longrightarrow> py_mem x zs"
    using Cons.prems py_mem_trans[of x _ zs] by (auto simp: py_mem_def[of x acc] list_ex_iff)
  then show ?case using Cons by auto
qed simp

lemma hash_set_subset: "hash_set xs = Inr ys \<Longrightarrow> (\<forall>y\<in>set ys. py_mem y zs) \<longleftrightarrow> (\<forall>x\<in>set xs. py_mem x zs)"
  using fold_hash_subset[of xs "[]" zs] by (simp add: hash_set_def list_all_iff split: if_splits)

lemma hash_set_sub: "hash_set xs = Inr ys \<Longrightarrow> set ys \<subseteq> set xs"
proof -
  have "set (fold (\<lambda>x acc. if py_mem x acc then acc else acc @ [x]) xs acc) \<subseteq> set acc \<union> set xs" for acc
    by (induction xs arbitrary: acc) (fastforce split: if_splits)+
  from this[of "[]"] show "hash_set xs = Inr ys \<Longrightarrow> set ys \<subseteq> set xs" by (auto simp: hash_set_def split: if_splits)
qed

lemma fold_hash_keeps: "set acc \<subseteq> set (fold (\<lambda>x acc. if py_mem x acc then acc else acc @ [x]) xs acc)"
  by (induction xs arbitrary: acc) (simp, fastforce split: if_splits)

lemma fold_hash_cover:
  "y \<in> set xs \<Longrightarrow>
     \<exists>z\<in>set (fold (\<lambda>x acc. if py_mem x acc then acc else acc @ [x]) xs acc). y = z \<or> py_eq y z"
proof (induction xs arbitrary: acc)
  case (Cons x xs)
  let ?acc = "if py_mem x acc then acc else acc @ [x]"
  show ?case
  proof (cases "y \<in> set xs")
    case True
    then show ?thesis using Cons.IH[of ?acc] by simp
  next
    case False
    then have "y = x" using Cons.prems by simp
    then have "\<exists>u\<in>set ?acc. y = u \<or> py_eq y u" by (auto simp: py_mem_def list_ex_iff)
    then have "\<exists>u\<in>set (fold (\<lambda>x acc. if py_mem x acc then acc else acc @ [x]) xs ?acc). y = u \<or> py_eq y u"
      using fold_hash_keeps[of ?acc xs] by blast
    then show ?thesis by simp
  qed
qed simp

lemma py_mem_hash_set:
  assumes "hash_set xs = Inr ys" "hashable x"
  shows "py_mem x ys \<longleftrightarrow> py_mem x xs"
proof
  assume "py_mem x xs"
  then obtain y where y: "y \<in> set xs" "py_eq x y" by (auto simp: py_mem_def list_ex_iff)
  with fold_hash_cover[of y xs "[]"] assms(1) obtain z where "z \<in> set ys" "y = z \<or> py_eq y z"
    by (auto simp: hash_set_def split: if_splits)
  then show "py_mem x ys" using y(2) py_eq_hashable_trans[OF assms(2) y(2)]
    by (auto simp: py_mem_def list_ex_iff)
next
  assume "py_mem x ys"
  then show "py_mem x xs" using hash_set_sub[OF assms(1)] by (auto simp: py_mem_def list_ex_iff)
qed

end
