(* ===== verification/Epr_Kernel.thy ===== *)
theory Epr_Kernel
  imports Py_Val "HOL-Library.Product_Lexorder" "HOL-Library.Multiset"
begin

text \<open>
  \<^verbatim>\<open>reference/epr/kernel.py\<close>: deterministic route selection. Contracts, candidates and the
  policy are JSON values, read with the same accesses as the code, so a missing key or a value
  of the wrong type is the exception it raises there. The plans, the audit entries and the
  decision, whose keys the code fixes, are records; \<open>decision_to_py\<close> is the returned dict.
\<close>

section \<open>Reading helpers\<close>

text \<open>\<^verbatim>\<open>{str(item).lower() for item in d.get(k, [])}\<close> and \<^verbatim>\<open>str(d.get(k, '')).lower()\<close>.\<close>

definition lower_items :: "pyval \<Rightarrow> string \<Rightarrow> string list res" where
  "lower_items d k = bindE (py_get d k (PList [])) (\<lambda>v. bindE (py_iter v) (\<lambda>xs.
     Inr (map (\<lambda>x. lower (py_str x)) xs)))"

definition lower_get :: "pyval \<Rightarrow> string \<Rightarrow> string res" where
  "lower_get d k = bindE (py_get d k (PStr [])) (\<lambda>v. Inr (lower (py_str v)))"

section \<open>Costs, thresholds and reasons\<close>

definition sum_costs :: "pyval \<Rightarrow> pyval \<Rightarrow> f64 res" where
  "sum_costs candidate fields =
     bindE (py_get candidate ''costs'' (PDict [])) (\<lambda>costs.
     bindE (py_iter fields) (\<lambda>fs.
     bindE (foldE (\<lambda>acc field. bindE (py_get_key costs field (PInt 0)) (\<lambda>v.
              bindE (py_float v) (\<lambda>c. Inr (f_add acc c)))) (Fin 0) fs) (\<lambda>total.
     Inr (f_round total 8))))"

definition required_lcb :: "pyval \<Rightarrow> pyval \<Rightarrow> f64 res" where
  "required_lcb contract policy =
     bindE (py_index contract ''risk_class'') (\<lambda>risk.
     bindE (py_index policy ''risk_acceptance_lcb'') (\<lambda>floors.
     bindE (py_index_key floors risk) (\<lambda>fv.
     bindE (py_float fv) (\<lambda>policy_floor.
     bindE (py_index contract ''governance'') (\<lambda>governance.
     bindE (py_get governance ''required_acceptance_probability'' (PInt 0)) (\<lambda>rv.
     bindE (py_float rv) (\<lambda>requested.
     Inr (f_max policy_floor requested))))))))"

definition missing_acceptance :: "pyval \<Rightarrow> bool res" where
  "missing_acceptance contract =
     bindE (py_get contract ''acceptance_criteria'' (PList [])) (\<lambda>v.
     bindE (py_iter v) (\<lambda>criteria.
     anyE (\<lambda>criterion. bindE (py_get criterion ''mandatory'' (PBool False)) (\<lambda>m.
        if truthy m then bindE (py_get criterion ''kind'' PNone) (\<lambda>k. Inr (py_eq k (PStr ''missing'')))
        else Inr False)) criteria))"

definition inference_policy_reasons :: "pyval \<Rightarrow> pyval \<Rightarrow> string list res" where
  "inference_policy_reasons candidate policy =
     bindE (py_get candidate ''action_kind'' PNone) (\<lambda>kind.
     if \<not> py_eq kind (PStr ''model'') then Inr [] else
     bindE (py_get policy ''inference'' (PDict [])) (\<lambda>inference.
     bindE (lower_get candidate ''inference_gateway'') (\<lambda>gateway.
     bindE (lower_get candidate ''model_id'') (\<lambda>model_id.
     bindE (lower_get candidate ''provider_family'') (\<lambda>family.
     bindE (lower_items inference ''allowed_gateways'') (\<lambda>allowed_gateways.
     bindE (py_get inference ''explicit_model_id_required'' (PBool False)) (\<lambda>explicit_required.
     bindE (lower_items inference ''forbidden_model_families'') (\<lambda>forbidden_families.
     bindE (lower_items inference ''forbidden_model_ids'') (\<lambda>forbidden_ids.
     bindE (lower_items inference ''forbidden_model_prefixes'') (\<lambda>forbidden_prefixes.
     Inr ((if allowed_gateways \<noteq> [] \<and> gateway \<notin> set allowed_gateways
           then [''inference_gateway_not_allowed''] else []) @
          (if truthy explicit_required \<and> model_id = [] then [''model_id_required''] else []) @
          (if family \<in> set forbidden_families then [''model_family_denied''] else []) @
          (if model_id \<in> set forbidden_ids \<or>
              model_id \<noteq> [] \<and> list_ex (startswith model_id) forbidden_prefixes
           then [''model_id_denied''] else []))))))))))))"

text \<open>The single constraints, each a list with at most its own reason.\<close>

definition availability_reasons :: "pyval \<Rightarrow> string list res" where
  "availability_reasons candidate =
     bindE (py_get candidate ''available'' (PBool False)) (\<lambda>available.
     Inr (if truthy available then [] else [''unavailable'']))"

definition capability_reasons :: "pyval list \<Rightarrow> pyval list \<Rightarrow> string list res" where
  "capability_reasons required_caps candidate_caps =
     bindE (py_sorted (py_diff required_caps candidate_caps)) (\<lambda>missing_caps.
     if missing_caps \<noteq> []
     then bindE (py_join '','' missing_caps) (\<lambda>t. Inr [''missing_capabilities:'' @ t])
     else Inr [])"

definition data_policy_reasons :: "pyval \<Rightarrow> pyval \<Rightarrow> string list res" where
  "data_policy_reasons governance candidate =
     bindE (py_index governance ''data_policy'') (\<lambda>data_policy.
     bindE (py_get candidate ''data_policies'' (PList [])) (\<lambda>data_policies.
     bindE (py_in data_policy data_policies) (\<lambda>ok.
     Inr (if ok then [] else [''data_policy_mismatch'']))))"

definition provider_reasons :: "pyval \<Rightarrow> pyval \<Rightarrow> string list res" where
  "provider_reasons governance candidate =
     bindE (py_get governance ''allowed_provider_families'' (PList [])) (\<lambda>allowed.
     bindE (py_get governance ''denied_provider_families'' (PList [])) (\<lambda>denied.
     bindE (py_get candidate ''provider_family'' PNone) (\<lambda>family.
     bindE (if truthy allowed then py_in family allowed else Inr True) (\<lambda>in_allowed.
     bindE (py_in family denied) (\<lambda>in_denied.
     Inr ((if in_allowed then [] else [''provider_not_allowed'']) @
          (if in_denied then [''provider_denied''] else [])))))))"

definition lcb_reasons :: "string \<Rightarrow> pyval \<Rightarrow> f64 \<Rightarrow> string list res" where
  "lcb_reasons label candidate req =
     bindE (py_get candidate ''acceptance'' (PDict [])) (\<lambda>acceptance.
     bindE (py_get acceptance ''lower_bound'' (PInt 0)) (\<lambda>lb.
     bindE (py_float lb) (\<lambda>lcb.
     Inr (if f_lt lcb req then [label @ fmt_fixed 3 req] else []))))"

definition latency_reasons :: "pyval \<Rightarrow> pyval \<Rightarrow> string list res" where
  "latency_reasons governance candidate =
     bindE (py_get candidate ''latency_ms_p95'' (PInt 0)) (\<lambda>lat.
     bindE (py_int lat) (\<lambda>latency.
     bindE (py_index governance ''max_latency_ms'') (\<lambda>ml.
     bindE (py_int ml) (\<lambda>max_latency.
     Inr (if max_latency < latency then [''latency_limit_exceeded''] else [])))))"

text \<open>The constraints a worker must pass before any plan is built with it.\<close>

definition base_reasons :: "pyval \<Rightarrow> pyval \<Rightarrow> f64 \<Rightarrow> pyval \<Rightarrow> string list res" where
  "base_reasons contract candidate req policy =
     bindE (py_index contract ''governance'') (\<lambda>governance.
     bindE (py_get contract ''required_capabilities'' (PList [])) (\<lambda>rc.
     bindE (py_set rc) (\<lambda>required_caps.
     bindE (py_get candidate ''capabilities'' (PList [])) (\<lambda>cc.
     bindE (py_set cc) (\<lambda>candidate_caps.
     bindE (inference_policy_reasons candidate policy) (\<lambda>r1.
     bindE (availability_reasons candidate) (\<lambda>r2.
     bindE (capability_reasons required_caps candidate_caps) (\<lambda>r3.
     bindE (data_policy_reasons governance candidate) (\<lambda>r4.
     bindE (provider_reasons governance candidate) (\<lambda>r5.
     bindE (lcb_reasons ''acceptance_lcb_below_'' candidate req) (\<lambda>r6.
     bindE (latency_reasons governance candidate) (\<lambda>r7.
     Inr (r1 @ r2 @ r3 @ r4 @ r5 @ r6 @ r7)))))))))))))"

text \<open>The constraints an independent verifier must pass for a worker.\<close>

definition verifier_reasons :: "pyval \<Rightarrow> pyval \<Rightarrow> pyval \<Rightarrow> f64 \<Rightarrow> pyval \<Rightarrow> string list res" where
  "verifier_reasons contract worker verifier req policy =
     bindE (py_index contract ''governance'') (\<lambda>governance.
     bindE (inference_policy_reasons verifier policy) (\<lambda>r1.
     bindE (py_get verifier ''roles'' (PList [])) (\<lambda>roles.
     bindE (py_in (PStr ''verify'') roles) (\<lambda>can_verify.
     bindE (availability_reasons verifier) (\<lambda>r2.
     bindE (py_get verifier ''provider_family'' PNone) (\<lambda>family.
     bindE (py_get worker ''provider_family'' PNone) (\<lambda>worker_family.
     bindE (data_policy_reasons governance verifier) (\<lambda>r3.
     bindE (provider_reasons governance verifier) (\<lambda>r4.
     bindE (lcb_reasons ''verifier_lcb_below_'' verifier req) (\<lambda>r5.
     Inr (r1 @ (if can_verify then [] else [''not_a_verifier'']) @ r2 @
          (if py_eq family worker_family then [''verifier_not_independent''] else []) @
          r3 @ r4 @ r5)))))))))))"

section \<open>Plans\<close>

record verifier_part =
  verifier_id :: pyval
  verifier_family :: pyval
  verifier_gateway :: pyval
  verifier_model_id :: pyval

record route_plan =
  action_id :: pyval
  action_kind :: pyval
  provider_family :: pyval
  inference_gateway :: pyval
  model_id :: pyval
  expected_total_cost_usd :: f64
  acceptance_lcb :: f64
  latency_ms_p95 :: int
  verifier_part :: "verifier_part option"

record audit_entry =
  candidate_id :: pyval
  admissible :: bool
  reasons :: "string list"

record route_decision =
  decision_id :: string
  task_id :: pyval
  status :: string
  policy_version :: pyval
  required_acceptance_lcb :: f64
  fallback_plans :: "route_plan list"
  candidate_audit :: "audit_entry list"
  explanation :: string
  selected_plan :: "route_plan option"

text \<open>The totals of a plan: cost, latency and the weaker of the two acceptance bounds.\<close>

definition plan_totals :: "pyval \<Rightarrow> pyval \<Rightarrow> pyval option \<Rightarrow> (f64 \<times> int \<times> f64) res" where
  "plan_totals worker cost_fields verifier =
     bindE (sum_costs worker cost_fields) (\<lambda>cost.
     bindE (py_index worker ''latency_ms_p95'') (\<lambda>lv. bindE (py_int lv) (\<lambda>latency.
     bindE (py_index worker ''acceptance'') (\<lambda>av. bindE (py_index av ''lower_bound'') (\<lambda>bv.
     bindE (py_float bv) (\<lambda>lcb.
     (case verifier of None \<Rightarrow> Inr (cost, latency, lcb)
      | Some v \<Rightarrow>
        bindE (sum_costs v cost_fields) (\<lambda>vcost.
        bindE (py_index v ''latency_ms_p95'') (\<lambda>vlv. bindE (py_int vlv) (\<lambda>vlatency.
        bindE (py_index v ''acceptance'') (\<lambda>vav. bindE (py_index vav ''lower_bound'') (\<lambda>vbv.
        bindE (py_float vbv) (\<lambda>vlcb.
        Inr (f_add cost vcost, latency + vlatency, f_min lcb vlcb))))))))))))))"

definition verifier_entry :: "pyval \<Rightarrow> verifier_part res" where
  "verifier_entry v =
     bindE (py_index v ''candidate_id'') (\<lambda>i. bindE (py_index v ''provider_family'') (\<lambda>f.
     bindE (py_get v ''inference_gateway'' PNone) (\<lambda>g. bindE (py_get v ''model_id'' PNone) (\<lambda>m.
     Inr \<lparr>verifier_id = i, verifier_family = f, verifier_gateway = g, verifier_model_id = m\<rparr>))))"

text \<open>One turn of the inner loop: \<open>None\<close> where the code skips the plan.\<close>

definition make_plan :: "pyval \<Rightarrow> pyval \<Rightarrow> pyval \<Rightarrow> pyval option \<Rightarrow> route_plan option res" where
  "make_plan contract worker cost_fields verifier =
     bindE (plan_totals worker cost_fields verifier) (\<lambda>(total_cost, latency, plan_lcb).
     bindE (py_index contract ''governance'') (\<lambda>governance.
     bindE (py_index governance ''max_cost_usd'') (\<lambda>mc. bindE (py_float mc) (\<lambda>max_cost.
     if f_lt max_cost total_cost then Inr None else
     bindE (py_index governance ''max_latency_ms'') (\<lambda>ml. bindE (py_int ml) (\<lambda>max_latency.
     if max_latency < latency then Inr None else
     bindE (py_index worker ''candidate_id'') (\<lambda>i. bindE (py_index worker ''action_kind'') (\<lambda>k.
     bindE (py_index worker ''provider_family'') (\<lambda>f.
     bindE (py_get worker ''inference_gateway'' PNone) (\<lambda>g. bindE (py_get worker ''model_id'' PNone) (\<lambda>m.
     bindE (case verifier of None \<Rightarrow> Inr None | Some v \<Rightarrow> bindE (verifier_entry v) (\<lambda>p. Inr (Some p))) (\<lambda>vp.
     Inr (Some \<lparr>action_id = i, action_kind = k, provider_family = f, inference_gateway = g, model_id = m,
        expected_total_cost_usd = f_round total_cost 8, acceptance_lcb = plan_lcb,
        latency_ms_p95 = latency, verifier_part = vp\<rparr>)))))))))))))"

definition plans_of :: "pyval \<Rightarrow> pyval \<Rightarrow> pyval \<Rightarrow> pyval option list \<Rightarrow> route_plan list res" where
  "plans_of contract worker cost_fields options =
     bindE (mapE (make_plan contract worker cost_fields) options) (\<lambda>ps. Inr (concat (map (\<lambda>p. case p of None \<Rightarrow> [] | Some q \<Rightarrow> [q]) ps)))"

text \<open>The outer loop's body: the audit entry of a worker and the plans it contributes.\<close>

definition route_worker ::
  "pyval \<Rightarrow> pyval \<Rightarrow> f64 \<Rightarrow> bool \<Rightarrow> pyval \<Rightarrow> pyval list \<Rightarrow> pyval \<Rightarrow> (audit_entry \<times> route_plan list) res" where
  "route_worker contract policy req requires_independent cost_fields verifiers worker =
     bindE (base_reasons contract worker req policy) (\<lambda>rs.
     bindE (py_index worker ''candidate_id'') (\<lambda>i.
     if rs \<noteq> [] then Inr (\<lparr>candidate_id = i, admissible = False, reasons = rs\<rparr>, []) else
     bindE (if requires_independent
            then filterE (\<lambda>v. bindE (verifier_reasons contract worker v req policy) (\<lambda>r. Inr (r = []))) verifiers
            else Inr []) (\<lambda>fit.
     if requires_independent \<and> fit = []
     then Inr (\<lparr>candidate_id = i, admissible = False, reasons = [''no_admissible_independent_verifier'']\<rparr>, [])
     else
     bindE (plans_of contract worker cost_fields (if requires_independent then map Some fit else [None])) (\<lambda>plans.
     Inr (\<lparr>candidate_id = i, admissible = (plans \<noteq> []),
            reasons = (if plans = [] then [''plan_exceeds_cost_or_latency''] else [])\<rparr>, plans)))))"

definition has_role :: "string \<Rightarrow> pyval \<Rightarrow> bool res" where
  "has_role role candidate = bindE (py_get candidate ''roles'' (PList [])) (\<lambda>roles. py_in (PStr role) roles)"

text \<open>The sort key: cost, then latency, then the acceptance bound descending.\<close>

definition plan_key :: "route_plan \<Rightarrow> f64 \<times> int \<times> f64" where
  "plan_key p = (expected_total_cost_usd p, latency_ms_p95 p, f_neg (acceptance_lcb p))"

definition verifier_audit :: "pyval \<Rightarrow> audit_entry res" where
  "verifier_audit v = bindE (py_index v ''candidate_id'') (\<lambda>i.
     Inr \<lparr>candidate_id = i, admissible = False,
           reasons = [''verification_candidate_not_ranked_as_primary_action'']\<rparr>)"

definition route_workers ::
  "pyval \<Rightarrow> pyval list \<Rightarrow> pyval \<Rightarrow> f64 \<Rightarrow> pyval \<Rightarrow> (audit_entry list \<times> route_plan list) res" where
  "route_workers contract candidates policy req risk =
     bindE (py_index policy ''independent_verification_required_for'') (\<lambda>iv.
     bindE (py_in risk iv) (\<lambda>requires_independent.
     bindE (py_index policy ''expected_total_cost_fields'') (\<lambda>cf.
     bindE (filterE (has_role ''execute'') candidates) (\<lambda>workers.
     bindE (filterE (has_role ''verify'') candidates) (\<lambda>verifiers.
     bindE (mapE (route_worker contract policy req requires_independent cf verifiers) workers) (\<lambda>rs.
     bindE (mapE verifier_audit verifiers) (\<lambda>va.
     Inr (map fst rs @ va, concat (map snd rs)))))))))"

text \<open>The decision before any plan is known, and its two completions.\<close>

definition fail_closed_decision :: "f64 \<Rightarrow> pyval \<Rightarrow> pyval \<Rightarrow> route_decision" where
  "fail_closed_decision req task version =
     \<lparr>decision_id = ''route-'' @ py_str task, task_id = task,
      status = ''escalation_required'', policy_version = version,
      required_acceptance_lcb = req, fallback_plans = [], candidate_audit = [],
      explanation = ''No admissible route exists; fail-closed escalation is required.'',
      selected_plan = None\<rparr>"

definition missing_decision :: "route_decision \<Rightarrow> pyval \<Rightarrow> route_decision" where
  "missing_decision decision behavior =
     decision\<lparr>status := (if py_eq behavior (PStr ''rejected_until_specified'')
                        then ''rejected'' else ''clarification_required''),
       explanation := ''Mandatory acceptance criteria are missing; policy requires '' @ py_str behavior @ ''.''\<rparr>"

definition choose_plan :: "route_decision \<Rightarrow> audit_entry list \<Rightarrow> route_plan list \<Rightarrow> route_decision" where
  "choose_plan decision audit plans =
     (case sort_key plan_key plans of
        [] \<Rightarrow> decision\<lparr>candidate_audit := audit\<rparr>
      | best # rest \<Rightarrow> decision\<lparr>candidate_audit := audit, status := ''route_selected'',
           selected_plan := Some best, fallback_plans := rest,
           explanation := ''Selected the least-cost plan after all hard constraints passed.''\<rparr>)"

definition select_route :: "pyval \<Rightarrow> pyval list \<Rightarrow> pyval \<Rightarrow> route_decision res" where
  "select_route contract candidates policy =
     bindE (required_lcb contract policy) (\<lambda>req.
     bindE (py_index contract ''risk_class'') (\<lambda>risk.
     bindE (py_index contract ''task_id'') (\<lambda>task.
     bindE (py_index policy ''version'') (\<lambda>version.
     bindE (missing_acceptance contract) (\<lambda>missing.
     if missing then
       bindE (py_index policy ''missing_acceptance_behavior'') (\<lambda>mb.
       bindE (py_index_key mb risk) (\<lambda>behavior.
       Inr (missing_decision (fail_closed_decision req task version) behavior)))
     else
       bindE (route_workers contract candidates policy req risk) (\<lambda>(audit, plans).
       Inr (choose_plan (fail_closed_decision req task version) audit plans)))))))"

section \<open>The returned dict\<close>

definition verifier_items :: "verifier_part \<Rightarrow> (string \<times> pyval) list" where
  "verifier_items v = [(''verifier_id'', verifier_id v), (''verifier_family'', verifier_family v),
     (''verifier_gateway'', verifier_gateway v), (''verifier_model_id'', verifier_model_id v)]"

definition plan_to_py :: "route_plan \<Rightarrow> pyval" where
  "plan_to_py p = PDict ([(''action_id'', action_id p), (''action_kind'', action_kind p),
     (''provider_family'', provider_family p), (''inference_gateway'', inference_gateway p),
     (''model_id'', model_id p), (''expected_total_cost_usd'', PFloat (expected_total_cost_usd p)),
     (''acceptance_lcb'', PFloat (acceptance_lcb p)), (''latency_ms_p95'', PInt (latency_ms_p95 p))] @
     (case verifier_part p of None \<Rightarrow> [] | Some v \<Rightarrow> verifier_items v))"

definition audit_to_py :: "audit_entry \<Rightarrow> pyval" where
  "audit_to_py a = PDict [(''candidate_id'', candidate_id a), (''admissible'', PBool (admissible a)),
     (''reasons'', PList (map PStr (reasons a)))]"

definition decision_to_py :: "route_decision \<Rightarrow> pyval" where
  "decision_to_py d = PDict ([(''decision_id'', PStr (decision_id d)), (''task_id'', task_id d),
     (''status'', PStr (status d)), (''policy_version'', policy_version d),
     (''required_acceptance_lcb'', PFloat (required_acceptance_lcb d)),
     (''fallback_plans'', PList (map plan_to_py (fallback_plans d))),
     (''candidate_audit'', PList (map audit_to_py (candidate_audit d))),
     (''explanation'', PStr (explanation d))] @
     (case selected_plan d of None \<Rightarrow> [] | Some p \<Rightarrow> [(''selected_plan'', plan_to_py p)]))"


section \<open>Inversion of the selection\<close>

lemma inv_capability: "capability_reasons rc cc = Inr [] \<Longrightarrow> x \<in> set rc \<Longrightarrow> py_mem x cc"
proof -
  assume "capability_reasons rc cc = Inr []" "x \<in> set rc"
  then have "py_sorted (py_diff rc cc) = Inr []"
    by (auto simp: capability_reasons_def bindE_eq_Inr split: if_splits)
  then have "py_diff rc cc = []"
    by (auto simp: py_sorted_def all_strs_def split: if_splits option.splits dest!: arg_cong[where f = length])
  then show "py_mem x cc" using \<open>x \<in> set rc\<close> by (auto simp: py_diff_def filter_empty_conv)
qed

lemma inv_data_policy: "data_policy_reasons gov w = Inr [] \<Longrightarrow>
    py_in (attr gov ''data_policy'' PNone) (attr w ''data_policies'' (PList [])) = Inr True"
  by (auto simp: data_policy_reasons_def bindE_eq_Inr split: if_splits dest!: attr_Inr attr_index[where x = PNone])

lemma inv_provider:
  assumes "provider_reasons gov w = Inr []"
  shows "py_in (attr w ''provider_family'' PNone) (attr gov ''denied_provider_families'' (PList [])) = Inr False"
    and "truthy (attr gov ''allowed_provider_families'' (PList [])) \<Longrightarrow>
      py_in (attr w ''provider_family'' PNone) (attr gov ''allowed_provider_families'' (PList [])) = Inr True"
proof -
  from assms obtain al de f a d where *: "py_get gov ''allowed_provider_families'' (PList []) = Inr al"
    "py_get gov ''denied_provider_families'' (PList []) = Inr de" "py_get w ''provider_family'' PNone = Inr f"
    "(if truthy al then py_in f al else Inr True) = Inr a" "py_in f de = Inr d" "a" "\<not> d"
    unfolding provider_reasons_def bindE_eq_Inr by (auto split: if_splits)
  note attrs = *(1-3)[THEN attr_Inr]
  show "py_in (attr w ''provider_family'' PNone) (attr gov ''denied_provider_families'' (PList [])) = Inr False"
    using *(5,7) attrs by simp
  show "truthy (attr gov ''allowed_provider_families'' (PList [])) \<Longrightarrow>
      py_in (attr w ''provider_family'' PNone) (attr gov ''allowed_provider_families'' (PList [])) = Inr True"
    using *(4,6) attrs by simp
qed

lemma inv_lcb: "lcb_reasons l w req = Inr [] \<Longrightarrow>
    \<exists>lb. py_float (attr (attr w ''acceptance'' (PDict [])) ''lower_bound'' (PInt 0)) = Inr lb \<and> \<not> f_lt lb req"
  by (auto simp: lcb_reasons_def bindE_eq_Inr split: if_splits dest!: attr_Inr)

lemma inv_available: "availability_reasons w = Inr [] \<Longrightarrow> truthy (attr w ''available'' (PBool False))"
  by (auto simp: availability_reasons_def bindE_eq_Inr split: if_splits dest!: attr_Inr)

text \<open>A worker without reasons meets every hard constraint.\<close>

lemma base_reasons_Nil:
  assumes "base_reasons contract w req policy = Inr []"
  shows "\<exists>gov rc cc. py_index contract ''governance'' = Inr gov \<and>
      py_set (attr contract ''required_capabilities'' (PList [])) = Inr rc \<and>
      py_set (attr w ''capabilities'' (PList [])) = Inr cc \<and>
      inference_policy_reasons w policy = Inr [] \<and> availability_reasons w = Inr [] \<and>
      capability_reasons rc cc = Inr [] \<and> data_policy_reasons gov w = Inr [] \<and>
      provider_reasons gov w = Inr [] \<and> lcb_reasons ''acceptance_lcb_below_'' w req = Inr [] \<and>
      latency_reasons gov w = Inr []"
  using assms unfolding base_reasons_def bindE_eq_Inr
  by (elim exE conjE) (auto dest!: attr_Inr)

lemma verifier_reasons_Nil:
  assumes "verifier_reasons contract w v req policy = Inr []"
  shows "\<exists>gov. py_index contract ''governance'' = Inr gov \<and>
      inference_policy_reasons v policy = Inr [] \<and> availability_reasons v = Inr [] \<and>
      py_in (PStr ''verify'') (attr v ''roles'' (PList [])) = Inr True \<and>
      \<not> py_eq (attr v ''provider_family'' PNone) (attr w ''provider_family'' PNone) \<and>
      data_policy_reasons gov v = Inr [] \<and> provider_reasons gov v = Inr [] \<and>
      lcb_reasons ''verifier_lcb_below_'' v req = Inr []"
  using assms unfolding verifier_reasons_def bindE_eq_Inr
  by (elim exE conjE) (auto dest!: attr_Inr split: if_splits)

text \<open>A plan is built within the budget and the latency limit, from its worker's identity.\<close>

lemma make_plan_Some:
  assumes "make_plan contract w cf v = Inr (Some p)"
  shows "\<exists>total gov maxc maxl. plan_totals w cf v = Inr (total, latency_ms_p95 p, acceptance_lcb p) \<and>
      py_index contract ''governance'' = Inr gov \<and>
      bindE (py_index gov ''max_cost_usd'') py_float = Inr maxc \<and> \<not> f_lt maxc total \<and>
      bindE (py_index gov ''max_latency_ms'') py_int = Inr maxl \<and> latency_ms_p95 p \<le> maxl \<and>
      expected_total_cost_usd p = f_round total 8 \<and>
      py_index w ''candidate_id'' = Inr (action_id p) \<and>
      py_index w ''provider_family'' = Inr (provider_family p) \<and>
      (case v of None \<Rightarrow> verifier_part p = None
       | Some u \<Rightarrow> \<exists>vp. verifier_part p = Some vp \<and> verifier_entry u = Inr vp)"
  using assms unfolding make_plan_def
  by (cases v) (auto simp: bindE_eq_Inr split: if_splits prod.splits)

lemma plans_of_member:
  assumes "plans_of contract w cf opts = Inr ps"
  shows "p \<in> set ps \<longleftrightarrow> (\<exists>v\<in>set opts. make_plan contract w cf v = Inr (Some p))"
proof -
  from assms obtain qs where qs: "mapE (make_plan contract w cf) opts = Inr qs"
    "ps = concat (map (\<lambda>p. case p of None \<Rightarrow> [] | Some q \<Rightarrow> [q]) qs)"
    by (auto simp: plans_of_def bindE_eq_Inr)
  have "p \<in> set ps \<longleftrightarrow> Some p \<in> set qs"
    unfolding qs(2) by (auto split: option.splits)
  also have "\<dots> \<longleftrightarrow> (\<exists>v\<in>set opts. make_plan contract w cf v = Inr (Some p))"
    using mapE_Inr_in_set[OF qs(1)] mapE_Inr_ex[OF qs(1)] by (metis sum.inject(2))
  finally show ?thesis .
qed

text \<open>What one worker contributes.\<close>

definition worker_ok :: "pyval \<Rightarrow> pyval \<Rightarrow> f64 \<Rightarrow> bool \<Rightarrow> pyval \<Rightarrow> pyval list \<Rightarrow> pyval \<Rightarrow> route_plan \<Rightarrow> bool" where
  "worker_ok contract policy req indep cf verifiers w p \<longleftrightarrow>
     base_reasons contract w req policy = Inr [] \<and>
     (if indep then \<exists>v\<in>set verifiers. verifier_reasons contract w v req policy = Inr [] \<and>
                      make_plan contract w cf (Some v) = Inr (Some p)
      else make_plan contract w cf None = Inr (Some p))"

lemma route_worker_Inr:
  assumes "route_worker contract policy req indep cf verifiers w = Inr (a, ps)"
  shows "py_index w ''candidate_id'' = Inr (candidate_id a)"
    and "admissible a \<longleftrightarrow> ps \<noteq> []" and "admissible a \<longleftrightarrow> reasons a = []"
    and "p \<in> set ps \<longleftrightarrow> worker_ok contract policy req indep cf verifiers w p"
proof -
  from assms obtain rs i where rs: "base_reasons contract w req policy = Inr rs"
    "py_index w ''candidate_id'' = Inr i" by (auto simp: route_worker_def bindE_eq_Inr)
  show "py_index w ''candidate_id'' = Inr (candidate_id a)"
    using assms rs by (auto simp: route_worker_def bindE_eq_Inr split: if_splits)
  show "admissible a \<longleftrightarrow> ps \<noteq> []" "admissible a \<longleftrightarrow> reasons a = []"
    using assms rs by (auto simp: route_worker_def bindE_eq_Inr split: if_splits)
  show "p \<in> set ps \<longleftrightarrow> worker_ok contract policy req indep cf verifiers w p"
  proof (cases "rs = []")
    case False
    then show ?thesis using assms rs by (auto simp: route_worker_def worker_ok_def)
  next
    case True
    show ?thesis
    proof (cases indep)
      case False
      with True assms rs have "plans_of contract w cf [None] = Inr ps"
        by (auto simp: route_worker_def bindE_eq_Inr)
      from plans_of_member[OF this] show ?thesis using rs True False by (simp add: worker_ok_def)
    next
      case indep: True
      with True assms rs obtain fit where
        "filterE (\<lambda>v. bindE (verifier_reasons contract w v req policy) (\<lambda>r. Inr (r = []))) verifiers = Inr fit"
        and ps: "fit = [] \<and> ps = [] \<or> plans_of contract w cf (map Some fit) = Inr ps"
        by (auto simp: route_worker_def bindE_eq_Inr split: if_splits)
      then have "set fit = {v \<in> set verifiers. verifier_reasons contract w v req policy = Inr []}"
        by (auto simp: filterE_eq_Inr bindE_eq_Inr)
      then show ?thesis using ps plans_of_member[of contract w cf "map Some fit" ps p] rs True indep
        by (auto simp: worker_ok_def)
    qed
  qed
qed

text \<open>All workers, then the verifiers' entries.\<close>

lemma route_workers_Inr:
  assumes "route_workers contract candidates policy req risk = Inr (audit, plans)"
  shows "\<exists>indep cf workers verifiers rs va.
      bindE (py_index policy ''independent_verification_required_for'') (py_in risk) = Inr indep \<and>
      py_index policy ''expected_total_cost_fields'' = Inr cf \<and>
      filterE (has_role ''execute'') candidates = Inr workers \<and>
      filterE (has_role ''verify'') candidates = Inr verifiers \<and>
      mapE (route_worker contract policy req indep cf verifiers) workers = Inr rs \<and>
      mapE verifier_audit verifiers = Inr va \<and>
      audit = map fst rs @ va \<and> plans = concat (map snd rs)"
  using assms unfolding route_workers_def bindE_eq_Inr by (elim exE conjE) auto

lemma mapE_snd_member:
  assumes "mapE f ws = Inr rs"
    and "\<And>w a ps. f w = Inr (a, ps) \<Longrightarrow> (p \<in> set ps) = P w"
  shows "p \<in> set (concat (map snd rs)) \<longleftrightarrow> (\<exists>w\<in>set ws. P w)"
proof
  assume "p \<in> set (concat (map snd rs))"
  then obtain a ps where ps: "(a, ps) \<in> set rs" "p \<in> set ps" by auto
  with mapE_Inr_in_set[OF assms(1)] obtain w where "w \<in> set ws" "f w = Inr (a, ps)" by blast
  with assms(2) ps show "\<exists>w\<in>set ws. P w" by blast
next
  assume "\<exists>w\<in>set ws. P w"
  then obtain w where w: "w \<in> set ws" "P w" by blast
  with mapE_Inr_ex[OF assms(1)] obtain a ps where "(a, ps) \<in> set rs" "f w = Inr (a, ps)"
    by (metis surj_pair)
  with assms(2) w show "p \<in> set (concat (map snd rs))" by force
qed

lemma filterE_member: "filterE p xs = Inr ys \<Longrightarrow> x \<in> set ys \<longleftrightarrow> x \<in> set xs \<and> p x = Inr True"
  by (auto simp: filterE_eq_Inr)

text \<open>The outcome of a selection, from the plans of the workers.\<close>

lemma choose_plan_simps:
  "status (choose_plan dd audit plans) = (if plans = [] then status dd else ''route_selected'')"
  "selected_plan (choose_plan dd audit plans) = (if plans = [] then selected_plan dd else Some (hd (sort_key plan_key plans)))"
  "fallback_plans (choose_plan dd audit plans) = (if plans = [] then fallback_plans dd else tl (sort_key plan_key plans))"
  "candidate_audit (choose_plan dd audit plans) = audit"
  "required_acceptance_lcb (choose_plan dd audit plans) = required_acceptance_lcb dd"
proof -
  have ne: "sort_key plan_key plans = [] \<longleftrightarrow> plans = []" by (metis length_0_conv length_sort)
  show "status (choose_plan dd audit plans) = (if plans = [] then status dd else ''route_selected'')"
    "selected_plan (choose_plan dd audit plans) = (if plans = [] then selected_plan dd else Some (hd (sort_key plan_key plans)))"
    "fallback_plans (choose_plan dd audit plans) = (if plans = [] then fallback_plans dd else tl (sort_key plan_key plans))"
    "candidate_audit (choose_plan dd audit plans) = audit"
    "required_acceptance_lcb (choose_plan dd audit plans) = required_acceptance_lcb dd"
    using ne by (cases "sort_key plan_key plans"; auto simp: choose_plan_def)+
qed

lemma select_route_Inr:
  assumes "select_route contract candidates policy = Inr d"
  shows "\<exists>req risk missing. required_lcb contract policy = Inr req \<and> py_index contract ''risk_class'' = Inr risk \<and>
     missing_acceptance contract = Inr missing \<and> required_acceptance_lcb d = req \<and>
     (if missing then selected_plan d = None \<and> (status d = ''rejected'' \<or> status d = ''clarification_required'') \<and>
          candidate_audit d = [] \<and> fallback_plans d = []
      else \<exists>audit plans. route_workers contract candidates policy req risk = Inr (audit, plans) \<and>
        candidate_audit d = audit \<and>
        (if plans = [] then status d = ''escalation_required'' \<and> selected_plan d = None \<and> fallback_plans d = []
         else status d = ''route_selected'' \<and> selected_plan d = Some (hd (sort_key plan_key plans)) \<and>
           fallback_plans d = tl (sort_key plan_key plans)))"
proof -
  from assms obtain req risk task version missing where h: "required_lcb contract policy = Inr req"
    "py_index contract ''risk_class'' = Inr risk" "missing_acceptance contract = Inr missing"
    and k: "(if missing then
       bindE (py_index policy ''missing_acceptance_behavior'') (\<lambda>mb.
       bindE (py_index_key mb risk) (\<lambda>behavior.
       Inr (missing_decision (fail_closed_decision req task version) behavior)))
     else
       bindE (route_workers contract candidates policy req risk) (\<lambda>(audit, plans).
       Inr (choose_plan (fail_closed_decision req task version) audit plans))) = Inr d"
    unfolding select_route_def bindE_eq_Inr by blast
  from k have m: "missing \<Longrightarrow> \<exists>b. d = missing_decision (fail_closed_decision req task version) b"
    by (auto simp: bindE_eq_Inr)
  from k have c: "\<not> missing \<Longrightarrow> \<exists>audit plans. route_workers contract candidates policy req risk = Inr (audit, plans) \<and>
       d = choose_plan (fail_closed_decision req task version) audit plans"
    by (auto simp: bindE_eq_Inr)
  have f: "status (fail_closed_decision req task version) = ''escalation_required''"
    "selected_plan (fail_closed_decision req task version) = None"
    "fallback_plans (fail_closed_decision req task version) = []"
    "candidate_audit (fail_closed_decision req task version) = []"
    "required_acceptance_lcb (fail_closed_decision req task version) = req"
    by (simp_all add: fail_closed_decision_def)
  show ?thesis
  proof (cases missing)
    case True
    from m[OF this] obtain b where "d = missing_decision (fail_closed_decision req task version) b" by blast
    then show ?thesis using h True f
      by (intro exI[of _ req] exI[of _ risk] exI[of _ missing]) (simp add: missing_decision_def)
  next
    case False
    from c[OF this] obtain audit plans where
      ap: "route_workers contract candidates policy req risk = Inr (audit, plans)"
      "d = choose_plan (fail_closed_decision req task version) audit plans" by blast
    have "candidate_audit d = audit" "required_acceptance_lcb d = req"
      "if plans = [] then status d = ''escalation_required'' \<and> selected_plan d = None \<and> fallback_plans d = []
       else status d = ''route_selected'' \<and> selected_plan d = Some (hd (sort_key plan_key plans)) \<and>
         fallback_plans d = tl (sort_key plan_key plans)"
      unfolding ap(2) choose_plan_simps f by simp_all
    then show ?thesis using h False ap(1) by (intro exI[of _ req] exI[of _ risk] exI[of _ missing]) simp
  qed
qed

text \<open>The selected plan and every fallback come from an execution candidate that passed.\<close>

definition plan_source :: "pyval \<Rightarrow> pyval list \<Rightarrow> pyval \<Rightarrow> f64 \<Rightarrow> route_plan \<Rightarrow> bool" where
  "plan_source contract candidates policy req p \<longleftrightarrow>
     (\<exists>w\<in>set candidates. \<exists>indep cf verifiers.
        has_role ''execute'' w = Inr True \<and>
        bindE (py_index policy ''independent_verification_required_for'')
          (py_in (attr contract ''risk_class'' PNone)) = Inr indep \<and>
        set verifiers \<subseteq> set candidates \<and> worker_ok contract policy req indep cf verifiers w p)"

lemma hd_tl_sort_key:
  assumes "plans \<noteq> []"
  shows "hd (sort_key f plans) \<in> set plans" "set (tl (sort_key f plans)) \<subseteq> set plans"
    "\<forall>q\<in>set (tl (sort_key f plans)). f (hd (sort_key f plans)) \<le> f q"
    "mset (hd (sort_key f plans) # tl (sort_key f plans)) = mset plans"
proof -
  have ne: "sort_key f plans \<noteq> []" using assms by (metis length_0_conv length_sort)
  then obtain b r where br: "sort_key f plans = b # r" by (cases "sort_key f plans") auto
  then have "set (b # r) = set plans" by (metis set_sort)
  then show "hd (sort_key f plans) \<in> set plans" "set (tl (sort_key f plans)) \<subseteq> set plans" using br by auto
  have "sorted (map f (b # r))" using br by (metis sorted_sort_key)
  then show "\<forall>q\<in>set (tl (sort_key f plans)). f (hd (sort_key f plans)) \<le> f q" using br by auto
  show "mset (hd (sort_key f plans) # tl (sort_key f plans)) = mset plans" using br by (metis list.sel(1,3) mset_sort)
qed

lemma select_route_plans:
  assumes "select_route contract candidates policy = Inr d"
    and "p \<in> set (fallback_plans d) \<or> selected_plan d = Some p"
  shows "plan_source contract candidates policy (required_acceptance_lcb d) p"
proof -
  from select_route_Inr[OF assms(1)] obtain req risk audit plans where r:
    "required_acceptance_lcb d = req" "py_index contract ''risk_class'' = Inr risk"
    "route_workers contract candidates policy req risk = Inr (audit, plans)" "plans \<noteq> []"
    "selected_plan d = Some (hd (sort_key plan_key plans))" "fallback_plans d = tl (sort_key plan_key plans)"
    using assms(2) by (auto split: if_splits)
  have pm: "p \<in> set plans" using assms(2) r(5,6) hd_tl_sort_key[OF r(4), where f = plan_key] by auto
  from route_workers_Inr[OF r(3)] obtain indep cf workers verifiers rs where w:
    "bindE (py_index policy ''independent_verification_required_for'') (py_in risk) = Inr indep"
    "filterE (has_role ''execute'') candidates = Inr workers"
    "filterE (has_role ''verify'') candidates = Inr verifiers"
    "mapE (route_worker contract policy req indep cf verifiers) workers = Inr rs"
    "plans = concat (map snd rs)" by blast
  have "p \<in> set (concat (map snd rs)) \<longleftrightarrow> (\<exists>x\<in>set workers. worker_ok contract policy req indep cf verifiers x p)"
    by (rule mapE_snd_member[OF w(4)]) (rule route_worker_Inr(4))
  then have "\<exists>x\<in>set workers. worker_ok contract policy req indep cf verifiers x p"
    using pm w(5) by simp
  moreover have "set verifiers \<subseteq> set candidates" using filterE_member[OF w(3)] by blast
  moreover have "attr contract ''risk_class'' PNone = risk" using attr_index[OF r(2)] .
  ultimately show ?thesis unfolding plan_source_def using r(1) w(1) filterE_member[OF w(2)] by blast
qed

lemma worker_ok_base: "worker_ok contract policy req indep cf verifiers w p \<Longrightarrow> base_reasons contract w req policy = Inr []"
  by (simp add: worker_ok_def)

lemma worker_ok_plan: "worker_ok contract policy req indep cf verifiers w p \<Longrightarrow>
    \<exists>v. make_plan contract w cf v = Inr (Some p)"
  by (auto simp: worker_ok_def split: if_splits)

section \<open>Properties\<close>





text \<open>
  C21. Fail closed. A decision names a plan exactly when its status says a route was selected;
  otherwise it has no fallback either and the status is an escalation, a clarification or a
  rejection. A contract with a missing mandatory acceptance criterion never gets a route.
\<close>

theorem selection_fails_closed:
  assumes "select_route contract candidates policy = Inr d"
  shows "(status d = ''route_selected'' \<longleftrightarrow> selected_plan d \<noteq> None) \<and>
     (selected_plan d = None \<longrightarrow> fallback_plans d = [] \<and>
        status d \<in> {''escalation_required'', ''clarification_required'', ''rejected''}) \<and>
     (missing_acceptance contract = Inr True \<longrightarrow> selected_plan d = None \<and> status d \<noteq> ''escalation_required'')"
proof -
  from select_route_Inr[OF assms] obtain missing where m: "missing_acceptance contract = Inr missing" and
    r: "if missing then selected_plan d = None \<and> (status d = ''rejected'' \<or> status d = ''clarification_required'') \<and> fallback_plans d = []
        else (status d = ''escalation_required'' \<and> selected_plan d = None \<and> fallback_plans d = [] \<or>
              status d = ''route_selected'' \<and> selected_plan d \<noteq> None)"
    by (auto split: if_splits)
  show ?thesis
  proof (cases missing)
    case True
    then have "status d = ''rejected'' \<or> status d = ''clarification_required''" "selected_plan d = None" "fallback_plans d = []"
      using r by auto
    then show ?thesis by (elim disjE) simp_all
  next
    case False
    then have "missing_acceptance contract \<noteq> Inr True" using m by simp
    moreover have "status d = ''escalation_required'' \<and> selected_plan d = None \<and> fallback_plans d = [] \<or>
              status d = ''route_selected'' \<and> selected_plan d \<noteq> None" using r False by simp
    ultimately show ?thesis by (elim disjE) simp_all
  qed
qed

lemma concat_snd_Nil: "concat (map snd rs) = [] \<longleftrightarrow> (\<forall>(a, ps)\<in>set rs. ps = [])"
  by auto

text \<open>
  A complete audit. Once the acceptance criteria are present, the audit has one entry per
  execution candidate and then one per verification candidate, in portfolio order, each under
  that candidate's id; an entry carries a reason exactly when it is not admissible; and a route
  is selected exactly when some entry is admissible.
\<close>

theorem audit_is_complete:
  assumes "select_route contract candidates policy = Inr d" "missing_acceptance contract = Inr False"
  shows "\<exists>workers verifiers.
     filterE (has_role ''execute'') candidates = Inr workers \<and>
     filterE (has_role ''verify'') candidates = Inr verifiers \<and>
     list_all2 (\<lambda>a c. py_index c ''candidate_id'' = Inr (candidate_id a)) (candidate_audit d) (workers @ verifiers) \<and>
     (\<forall>a\<in>set (candidate_audit d). admissible a \<longleftrightarrow> reasons a = []) \<and>
     (status d = ''route_selected'' \<longleftrightarrow> (\<exists>a\<in>set (candidate_audit d). admissible a))"
proof -
  from select_route_Inr[OF assms(1)] assms(2) obtain req risk audit plans where r:
    "route_workers contract candidates policy req risk = Inr (audit, plans)" "candidate_audit d = audit"
    and st: "status d = ''route_selected'' \<longleftrightarrow> plans \<noteq> []"
    by (auto split: if_splits)
  from route_workers_Inr[OF r(1)] obtain indep cf workers verifiers rs va where w:
    "filterE (has_role ''execute'') candidates = Inr workers"
    "filterE (has_role ''verify'') candidates = Inr verifiers"
    "mapE (route_worker contract policy req indep cf verifiers) workers = Inr rs"
    "mapE verifier_audit verifiers = Inr va" "audit = map fst rs @ va" "plans = concat (map snd rs)" by blast
  have rw: "py_index c ''candidate_id'' = Inr (candidate_id (fst x))" "admissible (fst x) \<longleftrightarrow> snd x \<noteq> []"
    "admissible (fst x) \<longleftrightarrow> reasons (fst x) = []"
    if "route_worker contract policy req indep cf verifiers c = Inr x" for c x
    using route_worker_Inr[of contract policy req indep cf verifiers c "fst x" "snd x"] that by simp_all
  have va: "py_index c ''candidate_id'' = Inr (candidate_id a)" "\<not> admissible a" "reasons a \<noteq> []"
    if "verifier_audit c = Inr a" for c a
    using that by (auto simp: verifier_audit_def bindE_eq_Inr)
  have "list_all2 (\<lambda>x c. py_index c ''candidate_id'' = Inr (candidate_id (fst x))) rs workers"
    using w(3) rw(1) by (auto simp: mapE_eq_Inr list_all2_conv_all_nth)
  moreover have "list_all2 (\<lambda>a c. py_index c ''candidate_id'' = Inr (candidate_id a)) va verifiers"
    using w(4) va(1) by (auto simp: mapE_eq_Inr list_all2_conv_all_nth)
  ultimately have ids: "list_all2 (\<lambda>a c. py_index c ''candidate_id'' = Inr (candidate_id a)) audit (workers @ verifiers)"
    unfolding w(5) by (auto simp: list.rel_map intro!: list_all2_appendI)
  have rs: "admissible (fst x) \<longleftrightarrow> snd x \<noteq> []" "admissible (fst x) \<longleftrightarrow> reasons (fst x) = []" if "x \<in> set rs" for x
    using mapE_Inr_in_set[OF w(3) that] rw by blast+
  have vas: "\<not> admissible a" "reasons a \<noteq> []" if "a \<in> set va" for a
    using mapE_Inr_in_set[OF w(4) that] va by blast+
  have adm: "\<forall>a\<in>set audit. admissible a \<longleftrightarrow> reasons a = []"
    using rs(2) vas unfolding w(5) by auto
  have "plans \<noteq> [] \<longleftrightarrow> (\<exists>x\<in>set rs. snd x \<noteq> [])" unfolding w(6) by simp
  also have "\<dots> \<longleftrightarrow> (\<exists>a\<in>set (map fst rs). admissible a)" using rs(1) by simp
  also have "\<dots> \<longleftrightarrow> (\<exists>a\<in>set audit. admissible a)" using vas(1) unfolding w(5) set_append by blast
  finally have pl: "plans \<noteq> [] \<longleftrightarrow> (\<exists>a\<in>set audit. admissible a)" .
  show ?thesis using w(1,2) ids adm pl unfolding r(2) st by blast
qed

section \<open>A concrete selection\<close>

definition sample_policy :: pyval where
  "sample_policy = PDict [(''version'', PStr ''1''),
     (''risk_acceptance_lcb'', PDict [(''low'', PInt 0), (''high'', PFloat (Fin (1/2)))]),
     (''independent_verification_required_for'', PList [PStr ''high'']),
     (''missing_acceptance_behavior'', PDict [(''high'', PStr ''clarification_required'')]),
     (''expected_total_cost_fields'', PList [PStr ''call_cost_usd'']),
     (''inference'', PDict [(''forbidden_model_families'', PList [PStr ''openai''])])]"

definition sample_contract :: "string \<Rightarrow> pyval" where
  "sample_contract risk = PDict [(''task_id'', PStr ''t''), (''risk_class'', PStr risk),
     (''acceptance_criteria'', PList [PDict [(''mandatory'', PBool True), (''kind'', PStr ''observable'')]]),
     (''required_capabilities'', PList [PStr ''text'']),
     (''governance'', PDict [(''data_policy'', PStr ''zdr''), (''max_cost_usd'', PInt 1), (''max_latency_ms'', PInt 1000)])]"

definition sample_candidate :: "string \<Rightarrow> string \<Rightarrow> string \<Rightarrow> int \<Rightarrow> f64 \<Rightarrow> pyval" where
  "sample_candidate name role family cost lcb = PDict [(''candidate_id'', PStr name), (''roles'', PList [PStr role]),
     (''action_kind'', PStr ''model''), (''provider_family'', PStr family), (''model_id'', PStr name),
     (''available'', PBool True), (''capabilities'', PList [PStr ''text'']), (''data_policies'', PList [PStr ''zdr'']),
     (''acceptance'', PDict [(''lower_bound'', PFloat lcb)]), (''latency_ms_p95'', PInt 10),
     (''costs'', PDict [(''call_cost_usd'', PInt cost)])]"

definition sample_portfolio :: "pyval list" where
  "sample_portfolio = [sample_candidate ''a'' ''execute'' ''qwen'' 1 (Fin 1),
     sample_candidate ''b'' ''execute'' ''qwen'' 0 (Fin 1), sample_candidate ''v'' ''verify'' ''mistral'' 0 (Fin 1)]"

definition sample_plan :: "string \<Rightarrow> f64 \<Rightarrow> route_plan" where
  "sample_plan name cost = \<lparr>action_id = PStr name, action_kind = PStr ''model'', provider_family = PStr ''qwen'',
     inference_gateway = PNone, model_id = PStr name, expected_total_cost_usd = cost,
     acceptance_lcb = Fin 1, latency_ms_p95 = 20,
     verifier_part = Some \<lparr>verifier_id = PStr ''v'', verifier_family = PStr ''mistral'',
       verifier_gateway = PNone, verifier_model_id = PStr ''v''\<rparr>\<rparr>"

definition sample_decision :: route_decision where
  "sample_decision = (case select_route (sample_contract ''high'') sample_portfolio sample_policy of
     Inr d \<Rightarrow> d | Inl _ \<Rightarrow> fail_closed_decision NaN PNone PNone)"

lemma sample_plans:
  "selected_plan sample_decision = Some (sample_plan ''b'' (Fin 0))"
  "fallback_plans sample_decision = [sample_plan ''a'' (Fin 1)]"
  by code_simp+

lemma sample_status: "status sample_decision = ''route_selected''"
  by code_simp

lemma sample_missing: "missing_acceptance (sample_contract ''high'') = Inr False"
  by code_simp

lemma sample_indep: "bindE (py_index sample_policy ''independent_verification_required_for'')
    (py_in (attr (sample_contract ''high'') ''risk_class'' PNone)) = Inr True"
  by code_simp

lemma sample_route: "select_route (sample_contract ''high'') sample_portfolio sample_policy = Inr sample_decision"
proof -
  have "returns (select_route (sample_contract ''high'') sample_portfolio sample_policy)" by code_simp
  then show ?thesis by (auto simp: sample_decision_def returns_iff)
qed

section \<open>The properties on the concrete selection\<close>





theorem selection_fails_closed_witness: "status sample_decision = ''route_selected''"
  using selection_fails_closed[OF sample_route] sample_plans by simp

theorem audit_is_complete_witness:
  "\<exists>a\<in>set (candidate_audit sample_decision). admissible a \<and> reasons a = []"
  using audit_is_complete[OF sample_route sample_missing] sample_status by auto

section \<open>Not-a-number amounts\<close>

text \<open>
  The budget guard is open to NaN. \<open>total_cost > max_cost\<close> and \<open>lower_bound < required\<close>
  are both false when an operand is NaN, so a candidate whose declared cost and acceptance bound
  are NaN passes the hard constraints and is selected, under a contract that allows one dollar
  and asks for an acceptance probability of one half.
\<close>

theorem nan_amounts_pass_the_guards:
  "\<exists>d p. select_route (sample_contract ''low'')
      [PDict [(''candidate_id'', PStr ''x''), (''roles'', PList [PStr ''execute'']),
        (''action_kind'', PStr ''tool''), (''provider_family'', PStr ''f''), (''available'', PBool True),
        (''capabilities'', PList [PStr ''text'']), (''data_policies'', PList [PStr ''zdr'']),
        (''acceptance'', PDict [(''lower_bound'', PFloat NaN)]), (''latency_ms_p95'', PInt 10),
        (''costs'', PDict [(''call_cost_usd'', PFloat NaN)])]]
      (PDict [(''version'', PStr ''1''), (''risk_acceptance_lcb'', PDict [(''low'', PFloat (Fin (1/2)))]),
        (''independent_verification_required_for'', PList []),
        (''expected_total_cost_fields'', PList [PStr ''call_cost_usd''])]) = Inr d \<and>
    selected_plan d = Some p \<and> expected_total_cost_usd p = NaN \<and> acceptance_lcb p = NaN"
  (is "\<exists>d p. ?m = Inr d \<and> _")
proof -
  have "(case ?m of Inr d \<Rightarrow> (case selected_plan d of
      Some p \<Rightarrow> expected_total_cost_usd p = NaN \<and> acceptance_lcb p = NaN | None \<Rightarrow> False) | Inl _ \<Rightarrow> False)"
    by code_simp
  then show ?thesis by (auto split: sum.splits option.splits)
qed

end
