(* ===== verification/Py_Json.thy ===== *)
theory Py_Json
  imports Py_Val
begin

text \<open>
  \<^verbatim>\<open>json.dumps(v, sort_keys=True, separators=...)\<close> of the standard library and the UTF-8
  encoding of its result: the bytes every content hash of the gateway is taken over. SHA-256
  itself is native code and stays a parameter \<open>sha\<close> (the hexadecimal digest of a byte string)
  of the definitions that hash.
\<close>

section \<open>String escapes\<close>

definition json_hex4 :: "nat \<Rightarrow> string" where
  "json_hex4 n = ''00'' @ hex2 n"

definition json_char :: "bool \<Rightarrow> char \<Rightarrow> string" where
  "json_char ascii c =
    (if c = CHR 0x22 \<or> c = CHR 0x5C then [CHR 0x5C, c]
     else if c = CHR 0x0A then [CHR 0x5C, CHR ''n'']
     else if c = CHR 0x0D then [CHR 0x5C, CHR ''r'']
     else if c = CHR 0x09 then [CHR 0x5C, CHR ''t'']
     else if c = CHR 0x08 then [CHR 0x5C, CHR ''b'']
     else if c = CHR 0x0C then [CHR 0x5C, CHR ''f'']
     else if (of_char c :: nat) < 32 \<or> ascii \<and> 127 \<le> (of_char c :: nat)
          then CHR 0x5C # CHR ''u'' # json_hex4 (of_char c)
     else [c])"

definition json_str :: "bool \<Rightarrow> string \<Rightarrow> string" where
  "json_str ascii s = [CHR 0x22] @ concat (map (json_char ascii) s) @ [CHR 0x22]"

definition json_float :: "f64 \<Rightarrow> string" where
  "json_float f = (case f of PInf \<Rightarrow> ''Infinity'' | NInf \<Rightarrow> ''-Infinity'' | NaN \<Rightarrow> ''NaN''
     | Fin _ \<Rightarrow> repr_float f)"

section \<open>Serialisation with sorted keys\<close>

text \<open>\<open>json_dumps ascii isep ksep v\<close>: \<open>ascii\<close> is \<^verbatim>\<open>ensure_ascii\<close>, the separators are those given.\<close>

function json_dumps :: "bool \<Rightarrow> string \<Rightarrow> string \<Rightarrow> pyval \<Rightarrow> string" where
  "json_dumps a i k v = (case v of
     PNone \<Rightarrow> ''null''
   | PBool b \<Rightarrow> (if b then ''true'' else ''false'')
   | PInt n \<Rightarrow> dec_int n
   | PFloat f \<Rightarrow> json_float f
   | PStr s \<Rightarrow> json_str a s
   | PList xs \<Rightarrow> ''['' @ join i (map (json_dumps a i k) xs) @ '']''
   | PDict d \<Rightarrow> ''{'' @ join i (map (\<lambda>(x, y). json_str a x @ k @ json_dumps a i k y) (sort_key fst d)) @ ''}'')"
  by pat_completeness auto
termination
  by (relation "measure (\<lambda>(a, i, k, v). size v)")
    (auto simp: less_Suc_eq_le intro: size_elem_list size_value_dict)

declare json_dumps.simps [simp del]

text \<open>The canonical form of the ledger: compact separators.\<close>

definition json_compact :: "bool \<Rightarrow> pyval \<Rightarrow> string" where
  "json_compact ascii v = json_dumps ascii '','' '':'' v"

text \<open>\<^verbatim>\<open>s.encode('utf-8')\<close>: the bytes of a text, each as a \<open>char\<close>.\<close>

definition utf8_char :: "char \<Rightarrow> string" where
  "utf8_char c = (let n = (of_char c :: nat) in
     if n < 128 then [c] else [char_of (192 + n div 64), char_of (128 + n mod 64)])"

definition utf8 :: "string \<Rightarrow> string" where
  "utf8 s = concat (map utf8_char s)"

text \<open>\<^verbatim>\<open>'sha256:' + hashlib.sha256(...).hexdigest()\<close> for a digest function.\<close>

definition sha256_tag :: "(string \<Rightarrow> string) \<Rightarrow> string \<Rightarrow> string" where
  "sha256_tag sha s = ''sha256:'' @ sha (utf8 s)"

lemma sha256_tag_inject [simp]: "sha256_tag sha s = sha256_tag sha t \<longleftrightarrow> sha (utf8 s) = sha (utf8 t)"
  by (simp add: sha256_tag_def)

text \<open>UTF-8 encoding loses nothing: each character is read back from the front.\<close>

definition utf8_head :: "string \<Rightarrow> char \<times> string" where
  "utf8_head bs = (case bs of [] \<Rightarrow> (char_of (0::nat), [])
     | b # r \<Rightarrow> if (of_char b :: nat) < 128 then (b, r)
        else (char_of ((of_char b - 192) * 64 + (of_char (hd r) - 128) :: nat), tl r))"

lemma utf8_head_char: "utf8_head (utf8_char c @ r) = (c, r)"
proof (cases "(of_char c :: nat) < 128")
  case True
  then show ?thesis by (simp add: utf8_char_def utf8_head_def Let_def)
next
  case False
  define n where "n = (of_char c :: nat)"
  have n: "128 \<le> n" "n < 256" using False by (auto simp: n_def)
  then have d: "n div 64 < 4" by (simp add: div_less_iff_less_mult)
  have m: "(192 + n div 64) mod 256 = 192 + n div 64" using d by simp
  have e: "utf8_char c = [char_of (192 + n div 64), char_of (128 + n mod 64)]"
    using False by (simp add: utf8_char_def Let_def n_def)
  have "utf8_head (utf8_char c @ r) = (char_of (n div 64 * 64 + n mod 64), r)"
    unfolding e utf8_head_def by (simp add: of_char_of m)
  then show ?thesis by (simp add: n_def)
qed

lemma utf8_char_nonempty [simp]: "utf8_char c \<noteq> []"
  by (simp add: utf8_char_def Let_def)

lemma utf8_inject [simp]: "utf8 s = utf8 t \<longleftrightarrow> s = t"
proof
  show "utf8 s = utf8 t \<Longrightarrow> s = t"
  proof (induction s arbitrary: t)
    case Nil
    then show ?case by (cases t) (simp_all add: utf8_def)
  next
    case (Cons c s)
    then obtain d t' where t: "t = d # t'"
      by (cases t) (simp_all add: utf8_def)
    have "utf8_char c @ utf8 s = utf8_char d @ utf8 t'"
      using Cons.prems t by (simp add: utf8_def)
    then have "(c, utf8 s) = (d, utf8 t')"
      by (metis utf8_head_char)
    with Cons.IH t show ?case by simp
  qed
qed simp


section \<open>The serialised text determines its parts\<close>

text \<open>
  A prefix-code argument: the text of a value ends where the next delimiter at its nesting
  level begins. Two dicts with the same canonical text have the same keys and the same text
  under every key, which is what a hash over the canonical bytes can promise.
\<close>

lemma hex_digit_inject: "i < 16 \<Longrightarrow> j < 16 \<Longrightarrow> hex_digit i = hex_digit j \<longleftrightarrow> i = j"
  by (auto simp: hex_digit_def of_char_of take_bit_eq_mod dest!: arg_cong[where f = "of_char :: char \<Rightarrow> nat"] split: if_splits)

lemma hex2_inject: "n < 256 \<Longrightarrow> m < 256 \<Longrightarrow> hex2 n = hex2 m \<Longrightarrow> n = m"
proof -
  assume "n < 256" "m < 256" "hex2 n = hex2 m"
  then have "n div 16 = m div 16" "n mod 16 = m mod 16"
    by (auto simp: hex2_def hex_digit_inject)
  then show "n = m" by (metis div_mult_mod_eq)
qed

text \<open>The length of the first escape of a text, from its first two characters.\<close>

definition esc_len :: "string \<Rightarrow> nat" where
  "esc_len s = (if hd s \<noteq> CHR 0x5C then 1 else if s ! 1 \<noteq> CHR ''u'' then 2 else 6)"

lemma esc_len_json_char: "esc_len (json_char a c @ r) = length (json_char a c)"
  by (auto simp: json_char_def esc_len_def json_hex4_def hex2_def)

lemma json_char_inject: "json_char a c = json_char a d \<Longrightarrow> c = d"
  by (auto simp: json_char_def json_hex4_def dest!: hex2_inject[rotated 2] split: if_splits)

lemma json_char_unique:
  assumes "json_char a c @ r = json_char a d @ r'" shows "c = d \<and> r = r'"
proof -
  have "length (json_char a c) = length (json_char a d)"
    using assms esc_len_json_char[of a c r] esc_len_json_char[of a d r'] by simp
  with assms have "json_char a c = json_char a d" "r = r'" by auto
  then show ?thesis using json_char_inject by blast
qed

lemma json_char_hd: "json_char a c \<noteq> [] \<and> hd (json_char a c) \<noteq> CHR 0x22"
  by (auto simp: json_char_def)

lemma json_body_unique:
  "concat (map (json_char a) s) @ CHR 0x22 # r = concat (map (json_char a) t) @ CHR 0x22 # r'
   \<Longrightarrow> s = t \<and> r = r'"
proof (induction s arbitrary: t)
  case Nil
  show ?case
  proof (cases t)
    case (Cons d t')
    with Nil json_char_hd[of a d] show ?thesis by (cases "json_char a d") auto
  qed (use Nil in simp)
next
  case (Cons c s)
  show ?case
  proof (cases t)
    case Nil
    with Cons.prems json_char_hd[of a c] show ?thesis by (cases "json_char a c") auto
  next
    case (Cons d t')
    with Cons.prems have "json_char a c @ (concat (map (json_char a) s) @ CHR 0x22 # r)
        = json_char a d @ (concat (map (json_char a) t') @ CHR 0x22 # r')" by simp
    from json_char_unique[OF this] Cons.IH[of t'] Cons show ?thesis by simp
  qed
qed

lemma json_str_unique: "json_str a s @ r = json_str a t @ r' \<Longrightarrow> s = t \<and> r = r'"
  using json_body_unique[of a s r t r'] by (simp add: json_str_def)

definition delim_chars :: "char set" where
  "delim_chars = {CHR '','', CHR '']'', CHR ''}''}"

definition at_delim :: "string \<Rightarrow> bool" where
  "at_delim r = (r = [] \<or> hd r \<in> delim_chars)"

text \<open>The text of an atom: characters of numbers and of the three words.\<close>

definition atom_char :: "char \<Rightarrow> bool" where
  "atom_char c = (is_digit c \<or> c \<in> set ''-+.einfatyrulsINn'')"

lemma atom_not_delim: "atom_char c \<Longrightarrow> c \<notin> delim_chars \<and> c \<noteq> CHR 0x22 \<and> c \<noteq> CHR ''['' \<and> c \<noteq> CHR ''{''"
  by (auto simp: atom_char_def delim_chars_def is_digit_def)

lemma digit_char_atom [simp]: "d < 10 \<Longrightarrow> atom_char (digit_char d)"
  by (simp add: atom_char_def digit_char_def is_digit_def of_char_of)

lemma dec_nat_atom: "list_all atom_char (dec_nat n) \<and> dec_nat n \<noteq> []"
proof (induction n rule: dec_nat.induct)
  case (1 n)
  then show ?case by (subst (1 2) dec_nat.simps) simp
qed

lemma dec_int_atom: "list_all atom_char (dec_int i) \<and> dec_int i \<noteq> []"
  using dec_nat_atom by (simp add: dec_int_def) (simp add: atom_char_def)

lemma strip_zeros_atom: "list_all atom_char s \<Longrightarrow> list_all atom_char (strip_zeros s)"
  unfolding strip_zeros_def list_all_iff by (auto dest: set_dropWhileD)

lemma repr_pos_atom: "list_all atom_char (repr_pos x)"
proof -
  have z: "atom_char CHR ''0''" by (simp add: atom_char_def is_digit_def)
  have r: "list_all atom_char (replicate n CHR ''0'')" for n
    using z by (induction n) auto
  have d: "list_all atom_char (strip_zeros (dec_nat m))" for m
    by (rule strip_zeros_atom) (simp add: dec_nat_atom)
  have td: "list_all atom_char xs \<Longrightarrow> list_all atom_char (take n xs) \<and> list_all atom_char (drop n xs)" for n xs
    unfolding list_all_iff by (auto dest: in_set_takeD in_set_dropD)
  have p: "list_all atom_char (pad_left 2 (dec_nat m))" for m
    by (simp add: pad_left_def r dec_nat_atom)
  have c: "atom_char CHR ''.''" "atom_char CHR ''e''" "atom_char CHR ''-''" "atom_char CHR ''+''"
    by (simp_all add: atom_char_def)
  show ?thesis
    unfolding repr_pos_def Let_def by (auto simp: r d p c z td split: prod.splits)
qed

lemma repr_pos_nonempty: "repr_pos x \<noteq> []"
  by (auto simp: repr_pos_def Let_def split: prod.splits)

lemma json_float_atom: "list_all atom_char (json_float f) \<and> json_float f \<noteq> []"
  using repr_pos_atom repr_pos_nonempty
  by (cases f) (auto simp: json_float_def repr_float_def atom_char_def is_digit_def)

definition is_atom :: "pyval \<Rightarrow> bool" where
  "is_atom v = (case v of PStr _ \<Rightarrow> False | PList _ \<Rightarrow> False | PDict _ \<Rightarrow> False | _ \<Rightarrow> True)"

lemma atom_text: "is_atom v \<Longrightarrow> list_all atom_char (json_compact a v) \<and> json_compact a v \<noteq> []"
  using dec_int_atom json_float_atom
  by (cases v) (auto simp: is_atom_def json_compact_def json_dumps.simps atom_char_def)

lemma json_compact_PStr: "json_compact a (PStr s) = json_str a s"
  and json_compact_PList: "json_compact a (PList xs) = CHR ''['' # join '','' (map (json_compact a) xs) @ '']''"
  and json_compact_PDict: "json_compact a (PDict d) =
    CHR ''{'' # join '','' (map (\<lambda>(x, y). json_str a x @ '':'' @ json_compact a y) (sort_key fst d)) @ ''}''"
  unfolding json_compact_def by (subst json_dumps.simps, simp)+

text \<open>The first character of a text tells atoms, strings, lists and dicts apart.\<close>

lemma text_hd: "json_compact a v \<noteq> [] \<and>
   hd (json_compact a v) \<notin> delim_chars \<and>
   (hd (json_compact a v) = CHR 0x22 \<longleftrightarrow> is_str v) \<and>
   (hd (json_compact a v) = CHR ''['' \<longleftrightarrow> is_list v) \<and>
   (hd (json_compact a v) = CHR ''{'' \<longleftrightarrow> is_dict v)"
proof (cases "is_atom v")
  case True
  note atom_text[OF this, of a]
  then have "atom_char (hd (json_compact a v))" "json_compact a v \<noteq> []"
    by (auto simp: list_all_iff)
  with atom_not_delim[OF this(1)] True show ?thesis
    by (cases v) (auto simp: is_atom_def is_str_def is_list_def is_dict_def)
next
  case False
  then show ?thesis
    by (cases v) (auto simp: is_atom_def json_compact_PStr json_compact_PList json_compact_PDict
        json_str_def is_str_def is_list_def is_dict_def delim_chars_def)
qed

text \<open>\<open>separated x y\<close>: two texts followed by a delimiter agree only when they are equal.\<close>

definition separated :: "string \<Rightarrow> string \<Rightarrow> bool" where
  "separated x y = (\<forall>r r'. at_delim r \<longrightarrow> at_delim r' \<longrightarrow> x @ r = y @ r' \<longrightarrow> x = y \<and> r = r')"

lemma atom_separated:
  assumes "list_all atom_char x" "list_all atom_char y" shows "separated x y"
proof -
  have t: "takeWhile (\<lambda>c. c \<notin> delim_chars) (z @ r) = z"
    if "list_all atom_char z" "at_delim r" for z r
    using that atom_not_delim
    by (cases r) (auto simp: takeWhile_append2 takeWhile_append1 list_all_iff at_delim_def takeWhile_eq_all_conv)
  show ?thesis unfolding separated_def
  proof (intro allI impI)
    fix r r' assume "at_delim r" "at_delim r'" "x @ r = y @ r'"
    then have "x = y" using t[of x r] t[of y r'] assms by simp
    then show "x = y \<and> r = r'" using \<open>x @ r = y @ r'\<close> by simp
  qed
qed

lemma joined_unique:
  assumes "\<forall>x\<in>set xs. \<forall>y\<in>set ys. separated x y"
    and "\<forall>x\<in>set xs \<union> set ys. x \<noteq> [] \<and> hd x \<notin> delim_chars"
    and "c \<in> delim_chars" "c \<noteq> CHR '',''"
    and "join '','' xs @ c # r = join '','' ys @ c # r'"
  shows "xs = ys \<and> r = r'"
  using assms
proof (induction xs arbitrary: ys)
  case Nil
  show ?case
  proof (cases ys)
    case (Cons y ys')
    with Nil.prems have "c = hd y" by (cases ys'; cases y) auto
    with Nil.prems Cons show ?thesis by auto
  qed (use Nil in simp)
next
  case (Cons x xs)
  show ?case
  proof (cases ys)
    case Nil
    with Cons.prems have "c = hd x" by (cases xs; cases x) auto
    with Cons.prems show ?thesis by auto
  next
    case ys: (Cons y ys')
    define R where "R = (if xs = [] then c # r else CHR '','' # join '','' xs @ c # r)"
    define R' where "R' = (if ys' = [] then c # r' else CHR '','' # join '','' ys' @ c # r')"
    have "x @ R = y @ R'"
      using Cons.prems(5) ys unfolding R_def R'_def by (cases xs; cases ys') auto
    moreover have "at_delim R" "at_delim R'"
      using Cons.prems(3) by (auto simp: R_def R'_def at_delim_def delim_chars_def)
    ultimately have xy: "x = y" "R = R'"
      using Cons.prems(1) ys by (auto simp: separated_def)
    show ?thesis
    proof (cases "xs = [] \<or> ys' = []")
      case True
      then show ?thesis using xy ys Cons.prems(4) by (auto simp: R_def R'_def split: if_splits)
    next
      case False
      then have "join '','' xs @ c # r = join '','' ys' @ c # r'"
        using xy(2) by (simp add: R_def R'_def)
      then have "xs = ys' \<and> r = r'"
        using Cons.IH[of ys'] Cons.prems ys by auto
      with xy ys show ?thesis by simp
    qed
  qed
qed

abbreviation item_text :: "bool \<Rightarrow> string \<times> pyval \<Rightarrow> string" where
  "item_text a p \<equiv> (case p of (x, y) \<Rightarrow> json_str a x @ '':'' @ json_compact a y)"

lemma item_hd: "item_text a p \<noteq> [] \<and> hd (item_text a p) \<notin> delim_chars"
  by (cases p) (simp add: json_str_def delim_chars_def)

lemma item_separated:
  assumes "separated (json_compact a y) (json_compact a y')"
  shows "separated (json_str a x @ CHR '':'' # json_compact a y) (json_str a x' @ CHR '':'' # json_compact a y')"
  unfolding separated_def
proof (intro allI impI)
  fix r r' assume d: "at_delim r" "at_delim r'"
    and "(json_str a x @ CHR '':'' # json_compact a y) @ r = (json_str a x' @ CHR '':'' # json_compact a y') @ r'"
  then have "json_str a x @ ('':'' @ json_compact a y @ r) = json_str a x' @ ('':'' @ json_compact a y' @ r')"
    by simp
  from json_str_unique[OF this]
  show "json_str a x @ CHR '':'' # json_compact a y = json_str a x' @ CHR '':'' # json_compact a y' \<and> r = r'"
    using assms d by (auto simp: separated_def)
qed

lemma items_separated:
  assumes "\<And>k y w. (k, y) \<in> set d \<Longrightarrow> separated (json_compact a y) (json_compact a w)"
  shows "\<forall>x\<in>set (map (item_text a) (sort_key fst d)). \<forall>y\<in>set (map (item_text a) (sort_key fst e)). separated x y"
proof (intro ballI)
  fix x y assume "x \<in> set (map (item_text a) (sort_key fst d))" "y \<in> set (map (item_text a) (sort_key fst e))"
  then obtain k v k' v' where "(k, v) \<in> set d" "x = json_str a k @ CHR '':'' # json_compact a v"
    "y = json_str a k' @ CHR '':'' # json_compact a v'" by auto
  then show "separated x y" using item_separated[OF assms] by simp
qed

lemma map_eq_coarser:
  assumes "\<And>p q. f p = f q \<Longrightarrow> g p = g q" and "map f xs = map f ys"
  shows "map g xs = map g ys"
  using assms(2)
proof (induction xs arbitrary: ys)
  case (Cons x xs)
  then obtain y ys' where ys: "ys = y # ys'" by (cases ys) simp_all
  with Cons.prems have "f x = f y" "map f xs = map f ys'" by simp_all
  then show ?case using assms(1)[of x y] Cons.IH[of ys'] ys by simp
qed simp

lemma dict_ok_sort: "dict_ok z \<Longrightarrow> dict_ok (sort_key fst z)"
  unfolding dict_ok_def distinct_map by simp

lemma map_of_sort:
  fixes z :: "('k::linorder \<times> 'v) list" assumes "dict_ok z" shows "map_of (sort_key fst z) = map_of z"
proof (rule ext)
  fix k
  have "map_of (sort_key fst z) k = Some v \<longleftrightarrow> map_of z k = Some v" for v
    by (simp only: map_of_iff_in_set[OF assms] map_of_iff_in_set[OF dict_ok_sort[OF assms]] set_sort)
  then show "map_of (sort_key fst z) k = map_of z k" by (metis not_Some_eq)
qed

lemma text_hd_eq: "json_compact a v @ r = json_compact a w @ r' \<Longrightarrow> hd (json_compact a v) = hd (json_compact a w)"
  using text_hd[of a v] text_hd[of a w] by (metis hd_append2)

lemma text_shape:
  assumes "json_compact a v @ r = json_compact a w @ r'"
  shows "is_str v = is_str w" "is_list v = is_list w" "is_dict v = is_dict w" "is_atom v = is_atom w"
proof -
  note h = text_hd_eq[OF assms] and v = text_hd[of a v] and w = text_hd[of a w]
  show s: "is_str v = is_str w" "is_list v = is_list w" "is_dict v = is_dict w"
    using h v w by auto
  have "is_atom u = (\<not> is_str u \<and> \<not> is_list u \<and> \<not> is_dict u)" for u
    by (cases u) (simp_all add: is_atom_def is_str_def is_list_def is_dict_def)
  then show "is_atom v = is_atom w" using s by simp
qed

lemma text_separated_atom: "is_atom v \<Longrightarrow> separated (json_compact a v) (json_compact a w)"
  using text_shape(4)[of a v _ w] atom_text[of v a] atom_text[of w a] atom_separated
  unfolding separated_def by meson

lemma text_separated: "separated (json_compact a v) (json_compact a w)"
proof (induction v arbitrary: w)
  case (PStr s)
  show ?case unfolding separated_def
  proof (intro allI impI)
    fix r r' assume e: "json_compact a (PStr s) @ r = json_compact a w @ r'"
    obtain t where w: "w = PStr t" using text_shape(1)[OF e] by (cases w) (auto simp: is_str_def)
    show "json_compact a (PStr s) = json_compact a w \<and> r = r'"
      using e w json_str_unique[of a s r t r'] by (auto simp: json_compact_PStr)
  qed
next
  case (PList xs)
  show ?case unfolding separated_def
  proof (intro allI impI)
    fix r r' assume e: "json_compact a (PList xs) @ r = json_compact a w @ r'"
    obtain ys where w: "w = PList ys" using text_shape(2)[OF e] by (cases w) (auto simp: is_list_def)
    have "map (json_compact a) xs = map (json_compact a) ys \<and> r = r'"
      by (rule joined_unique[where c = "CHR '']''"])
        (use e w PList text_hd in \<open>auto simp: json_compact_PList delim_chars_def\<close>)
    then show "json_compact a (PList xs) = json_compact a w \<and> r = r'"
      using w by (simp add: json_compact_PList)
  qed
next
  case (PDict d)
  show ?case unfolding separated_def
  proof (intro allI impI)
    fix r r' assume e: "json_compact a (PDict d) @ r = json_compact a w @ r'"
    obtain e' where w: "w = PDict e'" using text_shape(3)[OF e] by (cases w) (auto simp: is_dict_def)
    have "map (item_text a) (sort_key fst d) = map (item_text a) (sort_key fst e') \<and> r = r'"
    proof (rule joined_unique[where c = "CHR ''}''"])
      show "\<forall>x\<in>set (map (item_text a) (sort_key fst d)). \<forall>y\<in>set (map (item_text a) (sort_key fst e')). separated x y"
        by (rule items_separated) (use PDict in auto)
    qed (use e w item_hd[of a] in \<open>auto simp: json_compact_PDict delim_chars_def\<close>)
    then show "json_compact a (PDict d) = json_compact a w \<and> r = r'"
      using w by (simp add: json_compact_PDict)
  qed
qed (rule text_separated_atom, simp add: is_atom_def)+

text \<open>Equal canonical texts of two dicts: the same keys, and the same text under each.\<close>

theorem json_dict_fields:
  assumes "json_compact a (PDict d) = json_compact a (PDict e)" "dict_ok d" "dict_ok e"
  shows "map_option (json_compact a) (map_of d k) = map_option (json_compact a) (map_of e k)"
proof -
  have "map (item_text a) (sort_key fst d) = map (item_text a) (sort_key fst e)"
  proof (rule joined_unique[where c = "CHR ''}''" and r = "[]" and r' = "[]", THEN conjunct1])
    show "\<forall>x\<in>set (map (item_text a) (sort_key fst d)). \<forall>y\<in>set (map (item_text a) (sort_key fst e)). separated x y"
      by (rule items_separated) (rule text_separated)
  qed (use assms(1) item_hd[of a] in \<open>auto simp: json_compact_PDict delim_chars_def\<close>)
  moreover have "map_prod id (json_compact a) p = map_prod id (json_compact a) q"
    if "item_text a p = item_text a q" for p q
    using that by (cases p; cases q) (auto dest!: json_str_unique)
  ultimately have m: "map (map_prod id (json_compact a)) (sort_key fst d) = map (map_prod id (json_compact a)) (sort_key fst e)"
    using map_eq_coarser[of "item_text a" "map_prod id (json_compact a)"] by blast
  have l: "map_option (json_compact a) (map_of z k) = map_of (map (map_prod id (json_compact a)) z) k" for z
    by (induction z) auto
  show ?thesis using m l[of "sort_key fst d"] l[of "sort_key fst e"] assms(2,3) by (simp add: map_of_sort)
qed

end
