(* ===== verification/Epr_Ledger.thy ===== *)
theory Epr_Ledger
  imports Py_Json
begin

text \<open>
  \<^verbatim>\<open>reference/epr/ledger.py\<close>: the hash-linked append-only ledger. An event is a dict; its hash
  is the tagged SHA-256 of the canonical JSON of the dict without its \<open>event_hash\<close>. The digest
  function is the parameter \<open>sha\<close>; no theorem assumes it is free of collisions, tampering is
  shown to produce one.
\<close>

type_synonym pydict = "(string \<times> pyval) list"

definition canonical_bytes :: "pydict \<Rightarrow> string" where
  "canonical_bytes value = utf8 (json_compact False (PDict value))"

definition event_hash :: "(string \<Rightarrow> string) \<Rightarrow> pydict \<Rightarrow> string" where
  "event_hash sha event = ''sha256:'' @ sha (canonical_bytes (ddel ''event_hash'' event))"

text \<open>\<open>append_event\<close> returns the extended ledger and the appended copy.\<close>

definition append_event :: "(string \<Rightarrow> string) \<Rightarrow> pydict list \<Rightarrow> pydict \<Rightarrow> (pydict list \<times> pydict) res" where
  "append_event sha events event =
     (let a1 = dset ''sequence'' (PInt (int (length events))) event in
      bindE (if events = [] then Inr (PStr ''GENESIS'')
             else py_index (PDict (last events)) ''event_hash'') (\<lambda>previous.
      let a2 = dset ''previous_event_hash'' previous a1;
          a3 = dset ''event_hash'' (PStr (event_hash sha a2)) a2
      in Inr (events @ [a3], a3)))"

definition dget :: "pydict \<Rightarrow> string \<Rightarrow> pyval" where
  "dget d k = (case map_of d k of None \<Rightarrow> PNone | Some v \<Rightarrow> v)"

text \<open>The loop of \<open>verify_chain\<close>: \<open>index\<close> and \<open>previous\<close> are its variables.\<close>

fun verify_from :: "(string \<Rightarrow> string) \<Rightarrow> nat \<Rightarrow> pyval \<Rightarrow> pydict list \<Rightarrow> (bool \<times> string) res" where
  "verify_from sha index previous [] = Inr (True, ''ok'')"
| "verify_from sha index previous (event # events) =
     (if \<not> py_eq (dget event ''sequence'') (PInt (int index))
      then Inr (False, ''sequence mismatch at index '' @ dec_nat index)
      else if \<not> py_eq (dget event ''previous_event_hash'') previous
      then Inr (False, ''previous hash mismatch at index '' @ dec_nat index)
      else if \<not> py_eq (dget event ''event_hash'') (PStr (event_hash sha event))
      then Inr (False, ''content hash mismatch at index '' @ dec_nat index)
      else bindE (py_index (PDict event) ''event_hash'') (\<lambda>h.
           verify_from sha (Suc index) h events))"

definition verify_chain :: "(string \<Rightarrow> string) \<Rightarrow> pydict list \<Rightarrow> (bool \<times> string) res" where
  "verify_chain sha events = verify_from sha 0 (PStr ''GENESIS'') events"

section \<open>Links\<close>

text \<open>What the three checks of one iteration establish.\<close>

definition linked :: "(string \<Rightarrow> string) \<Rightarrow> nat \<Rightarrow> string \<Rightarrow> pydict \<Rightarrow> bool" where
  "linked sha i prev e \<longleftrightarrow> py_eq (dget e ''sequence'') (PInt (int i)) \<and>
     map_of e ''previous_event_hash'' = Some (PStr prev) \<and>
     map_of e ''event_hash'' = Some (PStr (event_hash sha e))"

fun chain_from :: "(string \<Rightarrow> string) \<Rightarrow> nat \<Rightarrow> string \<Rightarrow> pydict list \<Rightarrow> bool" where
  "chain_from sha i prev [] = True"
| "chain_from sha i prev (e # es) = (linked sha i prev e \<and> chain_from sha (Suc i) (event_hash sha e) es)"

definition valid_chain :: "(string \<Rightarrow> string) \<Rightarrow> pydict list \<Rightarrow> bool" where
  "valid_chain sha es = chain_from sha 0 ''GENESIS'' es"

lemma dget_PStr: "dget e k = PStr s \<longleftrightarrow> map_of e k = Some (PStr s)"
  by (auto simp: dget_def split: option.splits)

lemma verify_from_iff: "verify_from sha i (PStr p) es = Inr (True, ''ok'') \<longleftrightarrow> chain_from sha i p es"
  by (induction es arbitrary: i p) (auto simp: linked_def dget_PStr)

lemma verify_from_verdict:
  "\<exists>b msg. verify_from sha i (PStr p) es = Inr (b, msg) \<and> (b \<longleftrightarrow> chain_from sha i p es) \<and> (b \<longrightarrow> msg = ''ok'')"
proof (induction es arbitrary: i p)
  case (Cons e es)
  show ?case using Cons[of "Suc i" "event_hash sha e"] by (auto simp: linked_def dget_PStr)
qed (auto intro: exI[of _ True])

lemma verify_chain_ok: "verify_chain sha es = Inr (True, ''ok'') \<longleftrightarrow> valid_chain sha es"
  by (simp add: verify_chain_def valid_chain_def verify_from_iff)

lemma verify_chain_verdict:
  "\<exists>msg. verify_chain sha es = Inr (valid_chain sha es, msg) \<and> (valid_chain sha es \<longrightarrow> msg = ''ok'')"
  using verify_from_verdict[of sha 0 "''GENESIS''" es] by (auto simp: verify_chain_def valid_chain_def)

text \<open>The link an event must continue: the hash of the last one, or the genesis mark.\<close>

definition head_of :: "(string \<Rightarrow> string) \<Rightarrow> string \<Rightarrow> pydict list \<Rightarrow> string" where
  "head_of sha p es = (if es = [] then p else event_hash sha (last es))"

lemma chain_from_append:
  "chain_from sha i p (xs @ ys) \<longleftrightarrow> chain_from sha i p xs \<and> chain_from sha (i + length xs) (head_of sha p xs) ys"
  by (induction xs arbitrary: i p) (auto simp: head_of_def)

lemma chain_from_nth:
  "chain_from sha i p es \<longleftrightarrow>
     (\<forall>j<length es. linked sha (i + j) (head_of sha p (take j es)) (es ! j))"
proof (induction es rule: rev_induct)
  case (snoc x xs)
  have "(\<forall>j<length (xs @ [x]). linked sha (i + j) (head_of sha p (take j (xs @ [x]))) ((xs @ [x]) ! j)) \<longleftrightarrow>
     (\<forall>j<length xs. linked sha (i + j) (head_of sha p (take j xs)) (xs ! j)) \<and>
     linked sha (i + length xs) (head_of sha p xs) x"
    by (auto simp: less_Suc_eq nth_append)
  then show ?case using snoc by (simp add: chain_from_append)
qed simp

lemma linked_last_hash: "chain_from sha i p es \<Longrightarrow> es \<noteq> [] \<Longrightarrow>
    map_of (last es) ''event_hash'' = Some (PStr (event_hash sha (last es)))"
  using chain_from_append[of sha i p "butlast es" "[last es]"] by (auto simp: linked_def)

section \<open>Appending\<close>

lemma event_hash_dset [simp]: "event_hash sha (dset ''event_hash'' v e) = event_hash sha e"
  by (simp add: event_hash_def delete_update_same)

lemma py_eq_PInt [simp]: "py_eq (PInt i) (PInt j) \<longleftrightarrow> i = j"
  by (simp add: py_eq.simps)

lemma append_event_valid:
  assumes "valid_chain sha es"
  shows "\<exists>e'. append_event sha es e = Inr (es @ [e'], e') \<and> valid_chain sha (es @ [e']) \<and>
    (\<forall>k. k \<notin> {''sequence'', ''previous_event_hash'', ''event_hash''} \<longrightarrow> map_of e' k = map_of e k)"
proof -
  let ?a1 = "dset ''sequence'' (PInt (int (length es))) e"
  let ?a2 = "dset ''previous_event_hash'' (PStr (head_of sha ''GENESIS'' es)) ?a1"
  let ?a3 = "dset ''event_hash'' (PStr (event_hash sha ?a2)) ?a2"
  have p: "(if es = [] then Inr (PStr ''GENESIS'') else py_index (PDict (last es)) ''event_hash'')
      = Inr (PStr (head_of sha ''GENESIS'' es))"
    using assms linked_last_hash by (auto simp: valid_chain_def head_of_def)
  have "append_event sha es e = Inr (es @ [?a3], ?a3)"
    unfolding append_event_def p Let_def by simp
  moreover have "linked sha (length es) (head_of sha ''GENESIS'' es) ?a3"
    by (simp add: linked_def dget_def)
  then have "valid_chain sha (es @ [?a3])"
    using assms by (simp add: valid_chain_def chain_from_append)
  ultimately show ?thesis by auto
qed

text \<open>
  The contract of a log: appends to a verified log return, keep it verified and only extend
  it. The run registry relies on these laws alone.
\<close>

locale verified_log =
  fixes append :: "'l \<Rightarrow> 'e \<Rightarrow> ('l \<times> 'e) res"
    and verified :: "'l \<Rightarrow> bool"
    and entries :: "'l \<Rightarrow> 'e list"
    and empty :: "'l"
  assumes verified_empty: "verified empty"
    and entries_empty: "entries empty = []"
    and append_returns: "verified l \<Longrightarrow> \<exists>l' e'. append l e = Inr (l', e')"
    and append_verified: "verified l \<Longrightarrow> append l e = Inr (l', e') \<Longrightarrow> verified l'"
    and append_entries: "verified l \<Longrightarrow> append l e = Inr (l', e') \<Longrightarrow> entries l' = entries l @ [e']"
begin

definition append_all :: "'l \<Rightarrow> 'e list \<Rightarrow> 'l res" where
  "append_all l es = foldE (\<lambda>l e. bindE (append l e) (\<lambda>(l', _). Inr l')) l es"

lemma append_all_verified:
  assumes "verified l"
  shows "\<exists>l' added. append_all l es = Inr l' \<and> verified l' \<and>
    entries l' = entries l @ added \<and> length added = length es"
  using assms
proof (induction es arbitrary: l)
  case (Cons e es)
  obtain l1 e1 where a: "append l e = Inr (l1, e1)" using append_returns[OF Cons.prems] by blast
  have v: "verified l1" using append_verified[OF Cons.prems a] .
  obtain l' added where "append_all l1 es = Inr l'" "verified l'"
    "entries l' = entries l1 @ added" "length added = length es"
    using Cons.IH[OF v] by blast
  then show ?case using a append_entries[OF Cons.prems a]
    by (intro exI[of _ l'] exI[of _ "e1 # added"]) (simp add: append_all_def)
qed (simp add: append_all_def)

lemma append_all_from_empty:
  "\<exists>l'. append_all empty es = Inr l' \<and> verified l' \<and> length (entries l') = length es"
  using append_all_verified[OF verified_empty, of es] entries_empty by fastforce

end

lemma append_event_log:
  assumes "valid_chain sha l" "append_event sha l e = Inr (l', e')"
  shows "valid_chain sha l' \<and> l' = l @ [e']"
  using append_event_valid[OF assms(1), of e] assms(2) by auto

interpretation chain: verified_log "append_event sha" "valid_chain sha" "\<lambda>l. l" "[]" for sha
proof
  show "valid_chain sha []" by (simp add: valid_chain_def)
  show "valid_chain sha l \<Longrightarrow> \<exists>l' e'. append_event sha l e = Inr (l', e')" for l e
    using append_event_valid[of sha l e] by blast
qed (auto dest: append_event_log)

text \<open>The ledger after appending a list of events to an empty one, as its writers do.\<close>

definition append_events :: "(string \<Rightarrow> string) \<Rightarrow> pydict list \<Rightarrow> pydict list \<Rightarrow> pydict list res" where
  "append_events sha l es = foldE (\<lambda>l e. bindE (append_event sha l e) (\<lambda>(l', _). Inr l')) l es"

text \<open>
  Every ledger built by appends verifies: appending any list of event dicts to the empty
  ledger never raises, keeps one entry per append, and \<open>verify_chain\<close> accepts the result.
\<close>

theorem appended_ledger_verifies:
  "\<exists>l. append_events sha [] es = Inr l \<and> length l = length es \<and> verify_chain sha l = Inr (True, ''ok'')"
  using chain.append_all_from_empty[of sha es]
  by (auto simp: append_events_def chain.append_all_def verify_chain_ok)

text \<open>
  \<open>verify_chain\<close> is total and its verdict is exact: it answers for every list of dicts, and
  answers true exactly when every event carries its own position, the hash of its
  predecessor (the genesis mark for the first) and the hash of its own content.
\<close>

theorem verify_chain_exact:
  "\<exists>b msg. verify_chain sha es = Inr (b, msg) \<and>
     (b \<longleftrightarrow> (\<forall>j<length es.
        py_eq (dget (es ! j) ''sequence'') (PInt (int j)) \<and>
        dget (es ! j) ''previous_event_hash'' =
          PStr (if j = 0 then ''GENESIS'' else event_hash sha (es ! (j - 1))) \<and>
        dget (es ! j) ''event_hash'' = PStr (event_hash sha (es ! j))))"
proof -
  have h: "head_of sha ''GENESIS'' (take j es) = (if j = 0 then ''GENESIS'' else event_hash sha (es ! (j - 1)))"
    if "j < length es" for j
    using that by (auto simp: head_of_def last_conv_nth min_def)
  have "valid_chain sha es \<longleftrightarrow> (\<forall>j<length es. linked sha j (head_of sha ''GENESIS'' (take j es)) (es ! j))"
    by (simp add: valid_chain_def chain_from_nth)
  also have "\<dots> \<longleftrightarrow> (\<forall>j<length es. linked sha j (if j = 0 then ''GENESIS'' else event_hash sha (es ! (j - 1))) (es ! j))"
    using h by (intro all_cong) simp
  finally have "valid_chain sha es \<longleftrightarrow> (\<forall>j<length es.
      py_eq (dget (es ! j) ''sequence'') (PInt (int j)) \<and>
      dget (es ! j) ''previous_event_hash'' =
        PStr (if j = 0 then ''GENESIS'' else event_hash sha (es ! (j - 1))) \<and>
      dget (es ! j) ''event_hash'' = PStr (event_hash sha (es ! j)))"
    unfolding linked_def dget_PStr .
  then show ?thesis using verify_chain_verdict[of sha es] by blast
qed

section \<open>Tampering\<close>

text \<open>Two inputs the digest maps to the same value.\<close>

definition collision :: "(string \<Rightarrow> string) \<Rightarrow> bool" where
  "collision sha \<longleftrightarrow> (\<exists>a b. a \<noteq> b \<and> sha a = sha b)"

definition material :: "pydict \<Rightarrow> string" where
  "material e = canonical_bytes (ddel ''event_hash'' e)"

lemma same_hash_same_material:
  "event_hash sha d = event_hash sha e \<Longrightarrow> \<not> collision sha \<Longrightarrow> material d = material e"
  by (auto simp: event_hash_def material_def collision_def)

lemma material_determines_previous:
  assumes "material d = material e" "dict_ok d" "dict_ok e"
    and "map_of d ''previous_event_hash'' = Some (PStr p)" "map_of e ''previous_event_hash'' = Some (PStr q)"
  shows "p = q"
proof -
  have "json_compact False (PDict (ddel ''event_hash'' d)) = json_compact False (PDict (ddel ''event_hash'' e))"
    using assms(1) by (simp add: material_def canonical_bytes_def)
  from json_dict_fields[OF this, of "''previous_event_hash''"] assms
  have "json_str False p = json_str False q" by (simp add: json_compact_PStr)
  then show ?thesis using json_str_unique[of False p "[]" q "[]"] by simp
qed

lemma same_head_same_materials:
  assumes "\<not> collision sha" "length xs = length ys" "\<forall>e\<in>set xs \<union> set ys. dict_ok e"
    and "chain_from sha i p xs" "chain_from sha i p ys" "head_of sha p xs = head_of sha p ys"
  shows "map material xs = map material ys"
  using assms
proof (induction xs arbitrary: ys rule: rev_induct)
  case (snoc x xs)
  then obtain ys' y where ys: "ys = ys' @ [y]" by (cases ys rule: rev_cases) auto
  have m: "material x = material y"
    using snoc.prems(1,6) ys by (auto simp: head_of_def intro: same_hash_same_material)
  have lx: "linked sha (i + length xs) (head_of sha p xs) x" "chain_from sha i p xs"
    and ly: "linked sha (i + length ys') (head_of sha p ys') y" "chain_from sha i p ys'"
    using snoc.prems(4,5) ys by (auto simp: chain_from_append)
  have "head_of sha p xs = head_of sha p ys'"
    by (rule material_determines_previous[OF m]) (use lx(1) ly(1) snoc.prems(3) ys in \<open>auto simp: linked_def\<close>)
  then have "map material xs = map material ys'"
    using snoc.IH[of ys'] snoc.prems(1,2,3) ys lx(2) ly(2) by auto
  then show ?case using m ys by simp
qed simp

text \<open>
  C18. Tamper evidence. Two ledgers of the same length that both verify and end in the same
  head hash hold the same content at every position, or the two together exhibit a collision
  of the digest. Nothing is assumed of the digest: a rewritten history under an unchanged head
  hash is a collision.
\<close>

theorem ledger_tamper_evident:
  assumes "verify_chain sha xs = Inr (True, ''ok'')" "verify_chain sha ys = Inr (True, ''ok'')"
    and "length xs = length ys" "xs \<noteq> []"
    and "dget (last xs) ''event_hash'' = dget (last ys) ''event_hash''"
    and "\<forall>e\<in>set xs \<union> set ys. dict_ok e"
  shows "(\<forall>j<length xs. material (xs ! j) = material (ys ! j)) \<or> (\<exists>a b. a \<noteq> b \<and> sha a = sha b)"
proof (cases "collision sha")
  case False
  have v: "chain_from sha 0 ''GENESIS'' xs" "chain_from sha 0 ''GENESIS'' ys"
    using assms(1,2) by (simp_all add: verify_chain_ok valid_chain_def)
  have ne: "ys \<noteq> []" using assms(3,4) by auto
  have "head_of sha ''GENESIS'' xs = head_of sha ''GENESIS'' ys"
    using assms(4,5) ne linked_last_hash[OF v(1)] linked_last_hash[OF v(2)] by (simp add: head_of_def dget_def)
  then have "map material xs = map material ys"
    using same_head_same_materials[OF False assms(3,6) v] by simp
  then show ?thesis by (metis nth_map assms(3))
qed (auto simp: collision_def)

definition sample_ledger :: "int \<Rightarrow> pydict list" where
  "sample_ledger n = [[(''sequence'', PInt 0), (''previous_event_hash'', PStr ''GENESIS''),
     (''event_hash'', PStr ''sha256:''), (''payload'', PInt n)]]"

theorem ledger_tamper_evident_witness:
  "(\<forall>j<length (sample_ledger 1). material (sample_ledger 1 ! j) = material (sample_ledger 2 ! j)) \<or>
   (\<exists>a b. a \<noteq> b \<and> (\<lambda>_. '''' :: string) (a :: string) = (\<lambda>_. '''' :: string) (b :: string))"
proof (rule ledger_tamper_evident)
  show "verify_chain (\<lambda>_. '''') (sample_ledger 1) = Inr (True, ''ok'')"
    "verify_chain (\<lambda>_. '''') (sample_ledger 2) = Inr (True, ''ok'')"
    by (simp_all add: verify_chain_ok valid_chain_def sample_ledger_def linked_def dget_def event_hash_def)
qed (simp_all add: sample_ledger_def dget_def dict_ok_def)

theorem verify_chain_exact_witness:
  "\<exists>msg. verify_chain (\<lambda>_. '''') (sample_ledger 1) = Inr (True, msg)"
proof -
  obtain b msg where "verify_chain (\<lambda>_. '''') (sample_ledger 1) = Inr (b, msg)"
    "b \<longleftrightarrow> (\<forall>j<length (sample_ledger 1).
        py_eq (dget (sample_ledger 1 ! j) ''sequence'') (PInt (int j)) \<and>
        dget (sample_ledger 1 ! j) ''previous_event_hash'' =
          PStr (if j = 0 then ''GENESIS'' else event_hash (\<lambda>_. '''') (sample_ledger 1 ! (j - 1))) \<and>
        dget (sample_ledger 1 ! j) ''event_hash'' = PStr (event_hash (\<lambda>_. '''') (sample_ledger 1 ! j)))"
    using verify_chain_exact[of "\<lambda>_. ''''" "sample_ledger 1"] by blast
  then show ?thesis by (simp add: sample_ledger_def dget_def event_hash_def)
qed

end
