(* ===== verification/Epr_Epistemic.thy ===== *)
theory Epr_Epistemic
  imports Py_Val
begin

text \<open>
  \<^verbatim>\<open>reference/epr/epistemic.py\<close>: the four-valued adjudication of a factual claim from two
  independent lower confidence bounds. Out-of-range inputs, NaN included, raise.
\<close>

abbreviation in_unit :: "f64 \<Rightarrow> bool" where
  "in_unit x \<equiv> f_le (Fin 0) x \<and> f_le x (Fin 1)"

definition range_error :: "string \<Rightarrow> pyexc" where
  "range_error name = PyValueError (name @ '' must be between 0 and 1'')"

definition adjudicate_fact :: "f64 \<Rightarrow> f64 \<Rightarrow> f64 \<Rightarrow> string res" where
  "adjudicate_fact support_lcb refutation_lcb threshold =
    (if \<not> in_unit support_lcb then Inl (range_error ''support_lcb'')
     else if \<not> in_unit refutation_lcb then Inl (range_error ''refutation_lcb'')
     else if \<not> in_unit threshold then Inl (range_error ''threshold'')
     else
       (let supported = f_le threshold support_lcb; refuted = f_le threshold refutation_lcb in
        if supported \<and> refuted then Inr ''conflicted''
        else if supported then Inr ''supported''
        else if refuted then Inr ''refuted''
        else Inr ''unknown''))"

definition fact_statuses :: "string list" where
  "fact_statuses = [''supported'', ''refuted'', ''unknown'', ''conflicted'']"

lemma adjudicate_fact_Inr:
  "adjudicate_fact s r t = Inr v \<longleftrightarrow> in_unit s \<and> in_unit r \<and> in_unit t \<and>
     v = (if f_le t s then (if f_le t r then ''conflicted'' else ''supported'')
          else if f_le t r then ''refuted'' else ''unknown'')"
  by (auto simp: adjudicate_fact_def Let_def)

text \<open>In-range bounds always get a verdict.\<close>

lemma adjudicate_fact_returns: "in_unit s \<Longrightarrow> in_unit r \<Longrightarrow> in_unit t \<Longrightarrow> returns (adjudicate_fact s r t)"
  by (simp add: adjudicate_fact_def Let_def)

lemma adjudicate_fact_status: "adjudicate_fact s r t = Inr v \<Longrightarrow> v \<in> set fact_statuses"
  by (auto simp: adjudicate_fact_Inr fact_statuses_def)

lemma adjudicate_fact_conflicted:
  "adjudicate_fact s r t = Inr ''conflicted'' \<longleftrightarrow>
     in_unit s \<and> in_unit r \<and> in_unit t \<and> f_le t s \<and> f_le t r"
  by (auto simp: adjudicate_fact_Inr)

lemma adjudicate_fact_supported:
  "adjudicate_fact s r t = Inr ''supported'' \<longleftrightarrow>
     in_unit s \<and> in_unit r \<and> in_unit t \<and> f_le t s \<and> f_lt r t"
  by (auto simp: adjudicate_fact_Inr f_not_lt[symmetric] dest: f_le_notNaN)
    (metis f_le_notNaN f_not_lt)+

text \<open>
  The verdict has two independent halves: the claim counts as supported exactly when the
  support bound reaches the threshold, whatever the refutation, and as refuted exactly when
  the refutation bound does; \<open>conflicted\<close> is both and \<open>unknown\<close> is neither, so contradicting
  evidence is never averaged away. Outside the unit interval, NaN included, there is no
  verdict but an error.
\<close>

theorem adjudication_independent_halves:
  "(\<forall>v. adjudicate_fact s r t = Inr v \<longrightarrow>
      (v \<in> {''supported'', ''conflicted''} \<longleftrightarrow> f_le t s) \<and>
      (v \<in> {''refuted'', ''conflicted''} \<longleftrightarrow> f_le t r)) \<and>
   (returns (adjudicate_fact s r t) \<longleftrightarrow> in_unit s \<and> in_unit r \<and> in_unit t)"
  by (auto simp: adjudicate_fact_Inr returns_iff)

theorem adjudication_independent_halves_witness:
  "adjudicate_fact (Fin (9/10)) (Fin (9/10)) (Fin (1/2)) = Inr ''conflicted'' \<and> f_le (Fin (1/2)) (Fin (9/10))"
proof -
  have "adjudicate_fact (Fin (9/10)) (Fin (9/10)) (Fin (1/2)) = Inr ''conflicted''" by code_simp
  then show ?thesis using adjudication_independent_halves[of "Fin (9/10)" "Fin (9/10)" "Fin (1/2)"] by blast
qed

end
