(* ===== verification/Epr_Memory.thy ===== *)
theory Epr_Memory
  imports Py_Val
begin

text \<open>
  \<^verbatim>\<open>reference/epr/memory.py\<close>: the conformance check of a context capsule against the canonical
  claims. The property says the check is exact: no violation is reported exactly when every
  authoritative item is present in the capsule and every invariant is asserted.
\<close>

definition is_kind_state :: "string \<Rightarrow> string \<Rightarrow> pyval \<Rightarrow> bool res" where
  "is_kind_state kind state claim =
     bindE (py_get claim ''kind'' PNone) (\<lambda>k. if \<not> py_eq k (PStr kind) then Inr False else
     bindE (py_get claim ''state'' PNone) (\<lambda>s. Inr (py_eq s (PStr state))))"

definition is_unresolved :: "pyval \<Rightarrow> bool res" where
  "is_unresolved claim =
     bindE (py_get claim ''kind'' PNone) (\<lambda>k.
     bindE (if py_eq k (PStr ''fact'')
            then bindE (py_get claim ''state'' PNone) (\<lambda>s. py_in_strs s [''unknown'', ''conflicted''])
            else Inr False) (\<lambda>fact_open.
     if fact_open then Inr True else is_kind_state ''assumption'' ''open'' claim))"

text \<open>\<^verbatim>\<open>{claim["claim_id"] for claim in claims if p(claim)}\<close>.\<close>

definition claim_ids :: "(pyval \<Rightarrow> bool res) \<Rightarrow> pyval list \<Rightarrow> pyval list res" where
  "claim_ids p claims = bindE (collectE p (\<lambda>c. py_index c ''claim_id'') claims) hash_set"

definition claim_evidence :: "pyval \<Rightarrow> pyval list res" where
  "claim_evidence claim =
     bindE (py_get claim ''support_evidence_ids'' (PList [])) (\<lambda>s.
     bindE (py_get claim ''refutation_evidence_ids'' (PList [])) (\<lambda>r.
     bindE (py_concat s r) py_iter))"

definition required_evidence :: "pyval list \<Rightarrow> pyval list \<Rightarrow> pyval list res" where
  "required_evidence ids claims =
     bindE (collectE (\<lambda>c. bindE (py_get c ''claim_id'' PNone) (\<lambda>i.
              if hashable i then Inr (py_mem i ids) else Inl PyTypeError)) claim_evidence claims) (\<lambda>xss.
     hash_set (concat xss))"

text \<open>One turn of the loop over the five required sets.\<close>

definition missing_errors :: "pyval \<Rightarrow> string \<Rightarrow> pyval list \<Rightarrow> string list res" where
  "missing_errors capsule field required =
     bindE (py_get capsule field (PList [])) (\<lambda>v.
     bindE (py_set v) (\<lambda>present.
     bindE (py_sorted (py_diff required present)) (\<lambda>missing.
     if missing \<noteq> [] then bindE (py_join '','' missing) (\<lambda>t. Inr [field @ '' missing: '' @ t])
     else Inr [])))"

definition capsule_invariants :: "string list" where
  "capsule_invariants = [''authoritative_state_preserved'', ''evidence_dereferenceable'', ''summary_is_not_evidence'']"

definition invariant_errors :: "pyval \<Rightarrow> string \<Rightarrow> string list res" where
  "invariant_errors invariants name =
     bindE (py_get invariants name PNone) (\<lambda>v.
     Inr (if v = PBool True then [] else [''invariant not asserted: '' @ name]))"

definition validate_context_capsule :: "pyval \<Rightarrow> pyval list \<Rightarrow> pyval \<Rightarrow> string list res" where
  "validate_context_capsule capsule canonical_claims mandatory_failed_check_ids =
     bindE (claim_ids (is_kind_state ''requirement'' ''active'') canonical_claims) (\<lambda>active.
     bindE (claim_ids (is_kind_state ''decision'' ''approved'') canonical_claims) (\<lambda>approved.
     bindE (claim_ids is_unresolved canonical_claims) (\<lambda>unresolved.
     bindE (required_evidence (active @ approved @ unresolved) canonical_claims) (\<lambda>evidence.
     bindE (py_set mandatory_failed_check_ids) (\<lambda>failed.
     bindE (mapE (\<lambda>(field, required). missing_errors capsule field required)
        [(''active_requirement_ids'', active), (''approved_decision_ids'', approved),
         (''unresolved_claim_ids'', unresolved), (''failed_mandatory_check_ids'', failed),
         (''evidence_handles'', evidence)]) (\<lambda>missing.
     bindE (py_get capsule ''invariants'' (PDict [])) (\<lambda>invariants.
     bindE (mapE (invariant_errors invariants) capsule_invariants) (\<lambda>unasserted.
     Inr (concat missing @ concat unasserted)))))))))"

section \<open>What each part of the check establishes\<close>

text \<open>\<open>lists capsule k x\<close>: the capsule lists \<open>x\<close> under \<open>k\<close>.\<close>

definition lists :: "pyval \<Rightarrow> string \<Rightarrow> pyval \<Rightarrow> bool" where
  "lists capsule k x = (\<exists>xs. py_iter (attr capsule k (PList [])) = Inr xs \<and> py_mem x xs)"

lemma py_sorted_Nil: "py_sorted xs = Inr ys \<Longrightarrow> ys = [] \<longleftrightarrow> xs = []"
  by (auto simp: py_sorted_def all_strs_def split: if_splits option.splits dest!: arg_cong[where f = length])

lemma missing_errors_Nil:
  assumes "missing_errors capsule k required = Inr es" "\<forall>x\<in>set required. hashable x"
  shows "es = [] \<longleftrightarrow> (\<forall>x\<in>set required. lists capsule k x)"
proof -
  from assms(1) obtain v present missing where *: "py_get capsule k (PList []) = Inr v"
    "py_set v = Inr present" "py_sorted (py_diff required present) = Inr missing" "es = [] \<longleftrightarrow> missing = []"
    by (auto simp: missing_errors_def bindE_eq_Inr split: if_splits)
  from *(2) obtain xs where xs: "py_iter v = Inr xs" "hash_set xs = Inr present"
    by (auto simp: py_set_def bindE_eq_Inr)
  have "missing = [] \<longleftrightarrow> (\<forall>x\<in>set required. py_mem x present)"
    unfolding py_sorted_Nil[OF *(3)] by (auto simp: py_diff_def filter_empty_conv)
  then show ?thesis using *(4) xs py_mem_hash_set[OF xs(2)] assms(2) attr_Inr[OF *(1)]
    by (auto simp: lists_def)
qed

lemma hash_set_hashable: "hash_set xs = Inr ys \<Longrightarrow> y \<in> set ys \<Longrightarrow> hashable y"
  using hash_set_sub[of xs ys] by (auto simp: hash_set_def list_all_iff split: if_splits)

text \<open>Requiring the distinct items is requiring the items.\<close>

lemma lists_hash_set: "hash_set xs = Inr ys \<Longrightarrow>
    (\<forall>y\<in>set ys. lists capsule k y) \<longleftrightarrow> (\<forall>x\<in>set xs. lists capsule k x)"
proof (cases "py_iter (attr capsule k (PList []))")
  case (Inr zs)
  then show "hash_set xs = Inr ys \<Longrightarrow> ?thesis" using hash_set_subset[of xs ys zs] by (simp add: lists_def)
next
  case (Inl e)
  assume h: "hash_set xs = Inr ys"
  have "ys = [] \<longleftrightarrow> xs = []" using hash_set_subset[OF h, of "[]"] by (cases xs; cases ys) (auto simp: py_mem_def)
  with Inl show ?thesis by (cases xs; cases ys) (auto simp: lists_def)
qed

definition claim_is :: "(pyval \<Rightarrow> bool res) \<Rightarrow> pyval list \<Rightarrow> pyval \<Rightarrow> bool" where
  "claim_is p claims x = (\<exists>c\<in>set claims. p c = Inr True \<and> py_index c ''claim_id'' = Inr x)"

lemma claim_ids_lists:
  assumes "claim_ids p claims = Inr ids"
  shows "(\<forall>x\<in>set ids. lists capsule k x) \<longleftrightarrow> (\<forall>x. claim_is p claims x \<longrightarrow> lists capsule k x)"
proof -
  from assms obtain xs where xs: "collectE p (\<lambda>c. py_index c ''claim_id'') claims = Inr xs" "hash_set xs = Inr ids"
    by (auto simp: claim_ids_def bindE_eq_Inr)
  show ?thesis unfolding lists_hash_set[OF xs(2)] using collectE_set[OF xs(1)] by (auto simp: claim_is_def)
qed

lemma claim_ids_mem:
  assumes "claim_ids p claims = Inr ids" "hashable x"
  shows "py_mem x ids \<longleftrightarrow> (\<exists>y. claim_is p claims y \<and> py_eq x y)"
proof -
  from assms obtain xs where xs: "collectE p (\<lambda>c. py_index c ''claim_id'') claims = Inr xs" "hash_set xs = Inr ids"
    by (auto simp: claim_ids_def bindE_eq_Inr)
  show ?thesis unfolding py_mem_hash_set[OF xs(2) assms(2)] using collectE_set[OF xs(1)]
    by (auto simp: claim_is_def py_mem_def list_ex_iff)
qed

lemma claim_ids_hashable: "claim_ids p claims = Inr ids \<Longrightarrow> x \<in> set ids \<Longrightarrow> hashable x"
  by (auto simp: claim_ids_def bindE_eq_Inr dest: hash_set_hashable)

text \<open>A claim whose evidence the capsule must keep dereferenceable.\<close>

definition authoritative :: "pyval list \<Rightarrow> pyval \<Rightarrow> bool" where
  "authoritative claims c = (\<exists>y. py_eq (attr c ''claim_id'' PNone) y \<and>
     (claim_is (is_kind_state ''requirement'' ''active'') claims y \<or>
      claim_is (is_kind_state ''decision'' ''approved'') claims y \<or> claim_is is_unresolved claims y))"

lemma required_evidence_lists:
  assumes "required_evidence (active @ approved @ unresolved) claims = Inr ev"
    and "claim_ids (is_kind_state ''requirement'' ''active'') claims = Inr active"
    and "claim_ids (is_kind_state ''decision'' ''approved'') claims = Inr approved"
    and "claim_ids is_unresolved claims = Inr unresolved"
  shows "(\<forall>x\<in>set ev. lists capsule k x) \<longleftrightarrow>
    (\<forall>c\<in>set claims. authoritative claims c \<longrightarrow>
       (\<exists>es. claim_evidence c = Inr es \<and> (\<forall>e\<in>set es. lists capsule k e)))"
proof -
  let ?p = "\<lambda>c. bindE (py_get c ''claim_id'' PNone) (\<lambda>i.
              if hashable i then Inr (py_mem i (active @ approved @ unresolved)) else Inl PyTypeError)"
  from assms(1) obtain xss where xss: "collectE ?p claim_evidence claims = Inr xss" "hash_set (concat xss) = Inr ev"
    by (auto simp: required_evidence_def bindE_eq_Inr)
  have p: "?p c = Inr True \<longleftrightarrow> authoritative claims c" if c: "c \<in> set claims" for c
  proof -
    from collectE_Inr[OF xss(1) c] obtain i where i: "py_get c ''claim_id'' PNone = Inr i" "hashable i"
      by (auto simp: bindE_eq_Inr split: if_splits)
    show ?thesis using i claim_ids_mem[OF assms(2) i(2)] claim_ids_mem[OF assms(3) i(2)] claim_ids_mem[OF assms(4) i(2)]
      by (auto simp: authoritative_def attr_Inr py_mem_def)
  qed
  have ev: "\<exists>es. claim_evidence c = Inr es" if "c \<in> set claims" "authoritative claims c" for c
    using collectE_Inr[OF xss(1) that(1)] p[OF that(1)] that(2) by auto
  have "(\<forall>x\<in>set (concat xss). lists capsule k x) \<longleftrightarrow>
      (\<forall>c\<in>set claims. \<forall>es. authoritative claims c \<and> claim_evidence c = Inr es \<longrightarrow> (\<forall>e\<in>set es. lists capsule k e))"
    using collectE_set[OF xss(1)] p by (auto simp del: bindE_eq_Inr)
  also have "\<dots> \<longleftrightarrow> (\<forall>c\<in>set claims. authoritative claims c \<longrightarrow>
       (\<exists>es. claim_evidence c = Inr es \<and> (\<forall>e\<in>set es. lists capsule k e)))"
    using ev by fastforce
  finally show ?thesis unfolding lists_hash_set[OF xss(2)] .
qed

lemma invariant_errors_Nil: "invariant_errors d name = Inr es \<Longrightarrow> es = [] \<longleftrightarrow> attr d name PNone = PBool True"
  by (auto simp: invariant_errors_def bindE_eq_Inr attr_Inr split: if_splits)

lemma py_set_lists: "py_set v = Inr ys \<Longrightarrow> \<exists>xs. py_iter v = Inr xs \<and>
    (\<forall>y\<in>set ys. hashable y) \<and> ((\<forall>y\<in>set ys. lists capsule k y) \<longleftrightarrow> (\<forall>x\<in>set xs. lists capsule k x))"
  using lists_hash_set hash_set_hashable by (auto simp: py_set_def bindE_eq_Inr)

lemma capsule_check_iff:
  assumes "validate_context_capsule capsule claims failed = Inr errors"
  shows "errors = [] \<longleftrightarrow>
     (\<forall>x. claim_is (is_kind_state ''requirement'' ''active'') claims x \<longrightarrow> lists capsule ''active_requirement_ids'' x) \<and>
     (\<forall>x. claim_is (is_kind_state ''decision'' ''approved'') claims x \<longrightarrow> lists capsule ''approved_decision_ids'' x) \<and>
     (\<forall>x. claim_is is_unresolved claims x \<longrightarrow> lists capsule ''unresolved_claim_ids'' x) \<and>
     (\<exists>ids. py_iter failed = Inr ids \<and> (\<forall>x\<in>set ids. lists capsule ''failed_mandatory_check_ids'' x)) \<and>
     (\<forall>c\<in>set claims. authoritative claims c \<longrightarrow>
        (\<exists>es. claim_evidence c = Inr es \<and> (\<forall>e\<in>set es. lists capsule ''evidence_handles'' e))) \<and>
     (\<forall>name\<in>set capsule_invariants. attr (attr capsule ''invariants'' (PDict [])) name PNone = PBool True)"
proof -
  from assms obtain active approved unresolved ev fl m1 m2 m3 m4 m5 ivs us where *:
    "claim_ids (is_kind_state ''requirement'' ''active'') claims = Inr active"
    "claim_ids (is_kind_state ''decision'' ''approved'') claims = Inr approved"
    "claim_ids is_unresolved claims = Inr unresolved"
    "required_evidence (active @ approved @ unresolved) claims = Inr ev"
    "py_set failed = Inr fl"
    "missing_errors capsule ''active_requirement_ids'' active = Inr m1"
    "missing_errors capsule ''approved_decision_ids'' approved = Inr m2"
    "missing_errors capsule ''unresolved_claim_ids'' unresolved = Inr m3"
    "missing_errors capsule ''failed_mandatory_check_ids'' fl = Inr m4"
    "missing_errors capsule ''evidence_handles'' ev = Inr m5"
    "py_get capsule ''invariants'' (PDict []) = Inr ivs"
    "mapE (invariant_errors ivs) capsule_invariants = Inr us"
    "errors = concat [m1, m2, m3, m4, m5] @ concat us"
    unfolding validate_context_capsule_def bindE_eq_Inr by (elim exE conjE) (auto simp: bindE_eq_Inr)
  have ev: "hashable x" if "x \<in> set ev" for x
    using *(4) that by (auto simp: required_evidence_def bindE_eq_Inr dest: hash_set_hashable)
  from py_set_lists[OF *(5)] obtain xs where xs: "py_iter failed = Inr xs" "\<forall>y\<in>set fl. hashable y"
    "(\<forall>y\<in>set fl. lists capsule ''failed_mandatory_check_ids'' y) \<longleftrightarrow> (\<forall>x\<in>set xs. lists capsule ''failed_mandatory_check_ids'' x)"
    by blast
  have inv: "concat us = [] \<longleftrightarrow> (\<forall>name\<in>set capsule_invariants. attr ivs name PNone = PBool True)"
    using mapE_Inr_ex[OF *(12)] mapE_Inr_in_set[OF *(12)] invariant_errors_Nil[of ivs]
    unfolding concat_eq_Nil_conv by metis
  have m: "m1 = [] \<longleftrightarrow> (\<forall>x\<in>set active. lists capsule ''active_requirement_ids'' x)"
    "m2 = [] \<longleftrightarrow> (\<forall>x\<in>set approved. lists capsule ''approved_decision_ids'' x)"
    "m3 = [] \<longleftrightarrow> (\<forall>x\<in>set unresolved. lists capsule ''unresolved_claim_ids'' x)"
    "m4 = [] \<longleftrightarrow> (\<forall>x\<in>set fl. lists capsule ''failed_mandatory_check_ids'' x)"
    "m5 = [] \<longleftrightarrow> (\<forall>x\<in>set ev. lists capsule ''evidence_handles'' x)"
    using missing_errors_Nil *(6-10) claim_ids_hashable *(1-3) xs(2) ev by blast+
  have "errors = [] \<longleftrightarrow> m1 = [] \<and> m2 = [] \<and> m3 = [] \<and> m4 = [] \<and> m5 = [] \<and> concat us = []"
    unfolding *(13) by simp
  then show ?thesis
    unfolding m inv attr_Inr[OF *(11)] xs(3) claim_ids_lists[OF *(1)] claim_ids_lists[OF *(2)] claim_ids_lists[OF *(3)]
      required_evidence_lists[OF *(4,1,2,3)] using xs(1) by simp
qed

section \<open>Property\<close>

text \<open>
  C25. The capsule check is exact. When it returns, its list of violations is empty exactly when
  the capsule lists every active requirement, every approved decision, every unresolved claim,
  every failed mandatory check and all evidence of those claims, and asserts the three
  invariants.
\<close>

theorem capsule_check_exact:
  assumes "validate_context_capsule capsule claims failed = Inr errors"
  shows "errors = [] \<longleftrightarrow>
     (\<forall>x. claim_is (is_kind_state ''requirement'' ''active'') claims x \<longrightarrow> lists capsule ''active_requirement_ids'' x) \<and>
     (\<forall>x. claim_is (is_kind_state ''decision'' ''approved'') claims x \<longrightarrow> lists capsule ''approved_decision_ids'' x) \<and>
     (\<forall>x. claim_is is_unresolved claims x \<longrightarrow> lists capsule ''unresolved_claim_ids'' x) \<and>
     (\<exists>ids. py_iter failed = Inr ids \<and> (\<forall>x\<in>set ids. lists capsule ''failed_mandatory_check_ids'' x)) \<and>
     (\<forall>c\<in>set claims. authoritative claims c \<longrightarrow>
        (\<exists>es. claim_evidence c = Inr es \<and> (\<forall>e\<in>set es. lists capsule ''evidence_handles'' e))) \<and>
     (\<forall>name\<in>set capsule_invariants. attr (attr capsule ''invariants'' (PDict [])) name PNone = PBool True)"
  using assms by (rule capsule_check_iff)

definition sample_capsule :: "pyval list \<Rightarrow> pyval" where
  "sample_capsule reqs = PDict [(''active_requirement_ids'', PList reqs), (''evidence_handles'', PList [PStr ''e1'']),
     (''failed_mandatory_check_ids'', PList []),
     (''invariants'', PDict (map (\<lambda>k. (k, PBool True)) capsule_invariants))]"

definition sample_claims :: "pyval list" where
  "sample_claims = [PDict [(''claim_id'', PStr ''r1''), (''kind'', PStr ''requirement''), (''state'', PStr ''active''),
     (''support_evidence_ids'', PList [PStr ''e1''])]]"

lemma sample_capsule_check:
  "validate_context_capsule (sample_capsule []) sample_claims (PList []) = Inr [''active_requirement_ids missing: r1'']"
  by code_simp

theorem capsule_check_exact_witness:
  "\<not> lists (sample_capsule []) ''active_requirement_ids'' (PStr ''r1'') \<and>
   lists (sample_capsule [PStr ''r1'']) ''active_requirement_ids'' (PStr ''r1'')"
proof
  have "claim_is (is_kind_state ''requirement'' ''active'') sample_claims x \<longleftrightarrow> x = PStr ''r1''" for x
    by (auto simp: claim_is_def sample_claims_def is_kind_state_def)
  moreover have "validate_context_capsule (sample_capsule [PStr ''r1'']) sample_claims (PList []) = Inr []" by code_simp
  ultimately show "lists (sample_capsule [PStr ''r1'']) ''active_requirement_ids'' (PStr ''r1'')"
    using capsule_check_exact[of "sample_capsule [PStr ''r1'']" sample_claims "PList []" "[]"] by blast
  show "\<not> lists (sample_capsule []) ''active_requirement_ids'' (PStr ''r1'')"
    by (simp add: lists_def sample_capsule_def attr_def py_mem_def)
qed

end
