(* ===== verification/Policy.thy ===== *)
theory Policy
  imports Epr_Kernel
begin

text \<open>
  \<^verbatim>\<open>reference/gateway/policy.py\<close>: the two gateway layers of the model exclusion, at the request
  boundary and at start-up, and their agreement with the kernel's layer. Reading the policy
  file (\<open>load_policy\<close>) is I/O; the policy is a parsed value here.
\<close>

section \<open>The request boundary\<close>

definition virtual_model :: string where
  "virtual_model = ''noerelay/epr-1''"

definition check_requested_model :: "string \<Rightarrow> pyval \<Rightarrow> string list res" where
  "check_requested_model model policy =
     (let model_lower = lower model in
      if model_lower = virtual_model then Inr [] else
      bindE (py_get policy ''inference'' (PDict [])) (\<lambda>inference.
      bindE (lower_items inference ''forbidden_model_ids'') (\<lambda>forbidden_ids.
      bindE (lower_items inference ''forbidden_model_prefixes'') (\<lambda>forbidden_prefixes.
      bindE (lower_items inference ''forbidden_model_families'') (\<lambda>forbidden_families.
      Inr ((if model_lower \<in> set forbidden_ids then [''model_id_denied''] else []) @
           (if list_ex (startswith model_lower) forbidden_prefixes then [''model_id_denied''] else []) @
           (if hd (split_char CHR ''/'' model_lower) \<in> set forbidden_families
            then [''model_family_denied''] else []) @
           (if contains ''api.openai.com'' model_lower then [''model_id_denied''] else [])))))))"

section \<open>The start-up check\<close>

text \<open>The policy's inference rules, read once before the loop.\<close>

record inference_rules =
  allowed_gateways :: "string list"
  explicit_required :: pyval
  forbidden_families :: "string list"
  forbidden_ids :: "string list"
  forbidden_prefixes :: "string list"

definition read_rules :: "pyval \<Rightarrow> inference_rules res" where
  "read_rules policy =
     bindE (py_get policy ''inference'' (PDict [])) (\<lambda>inference.
     bindE (lower_items inference ''allowed_gateways'') (\<lambda>gateways.
     bindE (py_get inference ''explicit_model_id_required'' (PBool False)) (\<lambda>explicit.
     bindE (lower_items inference ''forbidden_model_families'') (\<lambda>families.
     bindE (lower_items inference ''forbidden_model_ids'') (\<lambda>ids.
     bindE (lower_items inference ''forbidden_model_prefixes'') (\<lambda>prefixes.
     Inr \<lparr>allowed_gateways = gateways, explicit_required = explicit, forbidden_families = families,
           forbidden_ids = ids, forbidden_prefixes = prefixes\<rparr>))))))"

definition candidate_errors :: "inference_rules \<Rightarrow> pyval \<Rightarrow> string list res" where
  "candidate_errors rules candidate =
     bindE (py_get candidate ''action_kind'' PNone) (\<lambda>kind.
     if \<not> py_eq kind (PStr ''model'') then Inr [] else
     bindE (py_get candidate ''candidate_id'' (PStr ''?'')) (\<lambda>cid.
     bindE (lower_get candidate ''inference_gateway'') (\<lambda>gateway.
     bindE (lower_get candidate ''model_id'') (\<lambda>model_id.
     bindE (lower_get candidate ''provider_family'') (\<lambda>family.
     Inr ((if allowed_gateways rules \<noteq> [] \<and> gateway \<notin> set (allowed_gateways rules)
           then [py_str cid @ '': inference_gateway_not_allowed ('' @ gateway @ '')''] else []) @
          (if truthy (explicit_required rules) \<and> model_id = []
           then [py_str cid @ '': model_id_required''] else []) @
          (if family \<in> set (forbidden_families rules)
           then [py_str cid @ '': model_family_denied ('' @ family @ '')''] else []) @
          (if model_id \<in> set (forbidden_ids rules) \<or>
              model_id \<noteq> [] \<and> list_ex (startswith model_id) (forbidden_prefixes rules)
           then [py_str cid @ '': model_id_denied ('' @ model_id @ '')''] else [])))))))"

definition validate_portfolio_against_policy :: "pyval list \<Rightarrow> pyval \<Rightarrow> string list res" where
  "validate_portfolio_against_policy portfolio policy =
     bindE (read_rules policy) (\<lambda>rules.
     bindE (mapE (candidate_errors rules) portfolio) (\<lambda>errors. Inr (concat errors)))"

section \<open>Agreement of the layers\<close>

lemma read_rules_Inr: "read_rules policy = Inr rules \<longleftrightarrow> (\<exists>inference.
    py_get policy ''inference'' (PDict []) = Inr inference \<and>
    lower_items inference ''allowed_gateways'' = Inr (allowed_gateways rules) \<and>
    py_get inference ''explicit_model_id_required'' (PBool False) = Inr (explicit_required rules) \<and>
    lower_items inference ''forbidden_model_families'' = Inr (forbidden_families rules) \<and>
    lower_items inference ''forbidden_model_ids'' = Inr (forbidden_ids rules) \<and>
    lower_items inference ''forbidden_model_prefixes'' = Inr (forbidden_prefixes rules))"
  by (cases rules) (auto simp: read_rules_def bindE_eq_Inr)

lemma candidate_errors_reasons:
  assumes "read_rules policy = Inr rules" "candidate_errors rules c = Inr es"
  shows "\<exists>rs. inference_policy_reasons c policy = Inr rs \<and> length rs = length es"
proof -
  from assms(1) obtain inference where r: "py_get policy ''inference'' (PDict []) = Inr inference"
    "lower_items inference ''allowed_gateways'' = Inr (allowed_gateways rules)"
    "py_get inference ''explicit_model_id_required'' (PBool False) = Inr (explicit_required rules)"
    "lower_items inference ''forbidden_model_families'' = Inr (forbidden_families rules)"
    "lower_items inference ''forbidden_model_ids'' = Inr (forbidden_ids rules)"
    "lower_items inference ''forbidden_model_prefixes'' = Inr (forbidden_prefixes rules)"
    unfolding read_rules_Inr by blast
  from assms(2) obtain k where k: "py_get c ''action_kind'' PNone = Inr k"
    by (auto simp: candidate_errors_def bindE_eq_Inr)
  show ?thesis
  proof (cases "py_eq k (PStr ''model'')")
    case False
    then show ?thesis using assms(2) k by (simp add: candidate_errors_def inference_policy_reasons_def)
  next
    case True
    from assms(2) k True obtain g m f where l: "lower_get c ''inference_gateway'' = Inr g"
      "lower_get c ''model_id'' = Inr m" "lower_get c ''provider_family'' = Inr f"
      by (auto simp: candidate_errors_def bindE_eq_Inr)
    show ?thesis
      using assms(2) k True unfolding candidate_errors_def inference_policy_reasons_def
      by (auto simp: r l bindE_eq_Inr)
  qed
qed

lemma lower_get_of: "py_get c k (PStr []) = Inr (PStr s) \<Longrightarrow> lower_get c k = Inr (lower s)"
  by (simp add: lower_get_def)

lemma check_requested_model_Nil:
  assumes "check_requested_model model policy = Inr []" "lower model \<noteq> virtual_model"
  shows "\<exists>inference ids prefixes families.
     py_get policy ''inference'' (PDict []) = Inr inference \<and>
     lower_items inference ''forbidden_model_ids'' = Inr ids \<and>
     lower_items inference ''forbidden_model_prefixes'' = Inr prefixes \<and>
     lower_items inference ''forbidden_model_families'' = Inr families \<and>
     lower model \<notin> set ids \<and> \<not> list_ex (startswith (lower model)) prefixes \<and>
     \<not> contains ''api.openai.com'' (lower model)"
  using assms unfolding check_requested_model_def Let_def
  by (simp add: bindE_eq_Inr split: if_splits) metis

section \<open>Properties\<close>


text \<open>
  The boundary is no weaker than the kernel. A requested model string that the boundary
  check passes, other than the virtual model, is in no forbidden id, starts with no forbidden
  prefix and names no forbidden family in its first segment; so the kernel never denies, for
  its model id, a candidate that carries the string. The check ignores letter case.
\<close>

theorem boundary_check_covers_kernel:
  assumes "check_requested_model model policy = Inr []" "lower model \<noteq> virtual_model"
    and "py_get c ''model_id'' (PStr []) = Inr (PStr model)"
    and "inference_policy_reasons c policy = Inr denials"
  shows "''model_id_denied'' \<notin> set denials \<and> \<not> contains ''api.openai.com'' (lower model) \<and>
     check_requested_model (lower model) policy = Inr []"
proof -
  from assms(1,2) obtain inference ids prefixes families where r:
    "py_get policy ''inference'' (PDict []) = Inr inference"
    "lower_items inference ''forbidden_model_ids'' = Inr ids"
    "lower_items inference ''forbidden_model_prefixes'' = Inr prefixes"
    "lower_items inference ''forbidden_model_families'' = Inr families"
    "lower model \<notin> set ids" "\<not> list_ex (startswith (lower model)) prefixes"
    "\<not> contains ''api.openai.com'' (lower model)"
    using check_requested_model_Nil by blast
  have "''model_id_denied'' \<notin> set denials"
    using assms(4) r(5,6) unfolding inference_policy_reasons_def
    by (auto simp: bindE_eq_Inr r(1-4) lower_get_of[OF assms(3)] split: if_splits)
  moreover have "check_requested_model (lower model) policy = Inr []"
    using assms(1) by (simp add: check_requested_model_def)
  ultimately show ?thesis using r(7) by blast
qed

section \<open>A concrete policy\<close>

definition exclusion_policy :: pyval where
  "exclusion_policy = PDict [(''inference'', PDict [
     (''allowed_gateways'', PList [PStr ''openrouter'']), (''explicit_model_id_required'', PBool True),
     (''forbidden_model_families'', PList [PStr ''OpenAI'']), (''forbidden_model_ids'', PList [PStr ''openrouter/auto'']),
     (''forbidden_model_prefixes'', PList [PStr ''openai/''])])]"

definition model_candidate :: "string \<Rightarrow> string \<Rightarrow> pyval" where
  "model_candidate family model = PDict [(''candidate_id'', PStr ''c''), (''action_kind'', PStr ''model''),
     (''inference_gateway'', PStr ''OpenRouter''), (''provider_family'', PStr family), (''model_id'', PStr model)]"

lemma exclusion_startup: "validate_portfolio_against_policy
    [model_candidate ''qwen'' ''qwen/q3'', model_candidate ''openai'' ''OpenAI/gpt''] exclusion_policy =
    Inr [''c: model_family_denied (openai)'', ''c: model_id_denied (openai/gpt)'']"
  by code_simp

lemma exclusion_boundary: "check_requested_model ''Qwen/Q3'' exclusion_policy = Inr []"
  "check_requested_model ''OpenAI/gpt'' exclusion_policy = Inr [''model_id_denied'', ''model_family_denied'']"
  by code_simp+


theorem boundary_check_covers_kernel_witness:
  "check_requested_model (lower ''Qwen/Q3'') exclusion_policy = Inr []"
proof -
  have "inference_policy_reasons (model_candidate ''qwen'' ''Qwen/Q3'') exclusion_policy = Inr []"
    "py_get (model_candidate ''qwen'' ''Qwen/Q3'') ''model_id'' (PStr []) = Inr (PStr ''Qwen/Q3'')"
    "lower ''Qwen/Q3'' \<noteq> virtual_model"
    by code_simp+
  then show ?thesis using boundary_check_covers_kernel[OF exclusion_boundary(1)] by blast
qed

end
