(* ===== verification/State_Machine.thy ===== *)
theory State_Machine
  imports Py_Val
begin

text \<open>
  \<^verbatim>\<open>reference/gateway/statemachine.py\<close>: the verification lifecycle and the guards. The machine
  keeps the table it was built from and the state of each run; an operation that raises returns
  the exception and the machine it leaves behind. \<open>lifecycle_spec\<close> is the table of
  \<^verbatim>\<open>spec/verification-state-machine.json\<close>. Sequences of calls, with failed ones among them, are
  lists of \<open>vsm_op\<close>; the properties say which events a run must have been through.
\<close>

section \<open>The machine\<close>

record spec_transition =
  tr_from :: string
  tr_event :: string
  tr_to :: string
  tr_guard :: "string option"

record machine_spec =
  initial_state :: "string option"
  terminal_states :: "string list"
  spec_transitions :: "spec_transition list"

record vsm =
  vsm_initial :: string
  vsm_terminal :: "string list"
  vsm_states :: "(string, string) dict"
  vsm_transitions :: "(string \<times> string, string \<times> string) dict"

definition init_machine :: "machine_spec \<Rightarrow> vsm" where
  "init_machine spec =
     \<lparr>vsm_initial = (case initial_state spec of None \<Rightarrow> ''received'' | Some s \<Rightarrow> s),
      vsm_terminal = terminal_states spec, vsm_states = [],
      vsm_transitions = fold (\<lambda>t table. dset (tr_from t, tr_event t)
        (tr_to t, case tr_guard t of None \<Rightarrow> ''true'' | Some g \<Rightarrow> g) table) (spec_transitions spec) []\<rparr>"

definition begin_run :: "vsm \<Rightarrow> string \<Rightarrow> vsm \<times> string" where
  "begin_run m run = (m\<lparr>vsm_states := dset run (vsm_initial m) (vsm_states m)\<rparr>, vsm_initial m)"

definition run_state :: "vsm \<Rightarrow> string \<Rightarrow> string" where
  "run_state m run = (case map_of (vsm_states m) run of None \<Rightarrow> vsm_initial m | Some s \<Rightarrow> s)"

definition is_terminal :: "vsm \<Rightarrow> string \<Rightarrow> bool" where
  "is_terminal m run = (run_state m run \<in> set (vsm_terminal m))"

definition transition :: "vsm \<Rightarrow> string \<Rightarrow> string \<Rightarrow> bool \<Rightarrow> vsm \<times> string res" where
  "transition m run event guard_ok =
     (let current = run_state m run in
      case map_of (vsm_transitions m) (current, event) of
        None \<Rightarrow> (m, Inl (TransitionError
          (''illegal transition for run '' @ run @ '': '' @ current @ '' --'' @ event @ ''-->'')))
      | Some (to_state, guard) \<Rightarrow>
          if \<not> guard_ok then (m, Inl (TransitionError
            (''guard '' @ repr_str guard @ '' failed for run '' @ run @ '': '' @ current @ '' --'' @ event @ ''--> '' @ to_state)))
          else (m\<lparr>vsm_states := dset run to_state (vsm_states m)\<rparr>, Inr to_state))"

section \<open>The lifecycle table\<close>

abbreviation tr :: "string \<Rightarrow> string \<Rightarrow> string \<Rightarrow> string \<Rightarrow> spec_transition" where
  "tr f e t g \<equiv> \<lparr>tr_from = f, tr_event = e, tr_to = t, tr_guard = Some g\<rparr>"

definition lifecycle_states :: "string list" where
  "lifecycle_states = [''received'', ''contract_proposed'', ''clarification_required'', ''contract_validated'', ''policy_checked'', ''context_compiled'', ''routed'', ''executing'', ''evidence_normalized'', ''verifying'', ''repairable_failure'', ''escalation_required'', ''human_review'', ''accepted'', ''completed'', ''rejected'']"

definition lifecycle_spec :: machine_spec where
  "lifecycle_spec = \<lparr>initial_state = Some ''received'', terminal_states = [''completed'', ''rejected''],
   spec_transitions = [
    tr ''received'' ''propose_contract'' ''contract_proposed'' ''request_schema_valid'',
    tr ''contract_proposed'' ''request_clarification'' ''clarification_required'' ''mandatory_acceptance_missing_or_ambiguous'',
    tr ''clarification_required'' ''receive_clarification'' ''contract_proposed'' ''clarification_addresses_gap'',
    tr ''contract_proposed'' ''validate_contract'' ''contract_validated'' ''contract_schema_valid_and_acceptance_sufficient'',
    tr ''contract_validated'' ''check_policy'' ''policy_checked'' ''policy_allows_progress'',
    tr ''contract_validated'' ''deny_policy'' ''rejected'' ''non_authorizable_policy_violation'',
    tr ''policy_checked'' ''compile_context'' ''context_compiled'' ''compaction_invariants_hold'',
    tr ''context_compiled'' ''select_route'' ''routed'' ''admissible_route_exists'',
    tr ''context_compiled'' ''no_admissible_route'' ''escalation_required'' ''router_failed_closed'',
    tr ''routed'' ''start_action'' ''executing'' ''budget_and_permissions_reserved'',
    tr ''executing'' ''record_result'' ''evidence_normalized'' ''result_bound_to_actor_activity_and_hash'',
    tr ''evidence_normalized'' ''start_verification'' ''verifying'' ''required_verification_dag_materialized'',
    tr ''verifying'' ''verification_passed'' ''accepted'' ''all_mandatory_criteria_pass_and_no_blocking_conflict'',
    tr ''verifying'' ''verification_failed_repairable'' ''repairable_failure'' ''repair_budget_available'',
    tr ''verifying'' ''verification_failed_unresolved'' ''escalation_required'' ''no_admissible_repair'',
    tr ''repairable_failure'' ''select_semantic_fallback'' ''routed'' ''fallback_route_admissible'',
    tr ''repairable_failure'' ''repair_exhausted'' ''escalation_required'' ''no_fallback_or_budget_exhausted'',
    tr ''escalation_required'' ''request_human_review'' ''human_review'' ''human_authority_available'',
    tr ''escalation_required'' ''reject'' ''rejected'' ''no_authorized_escalation'',
    tr ''human_review'' ''approve'' ''accepted'' ''approval_scope_covers_outcome'',
    tr ''human_review'' ''reject'' ''rejected'' ''true'',
    tr ''accepted'' ''issue_receipt'' ''completed'' ''receipt_contains_ledger_head_and_verification_evidence'']\<rparr>"

section \<open>Guards\<close>

definition request_schema_valid :: "pyval \<Rightarrow> bool res" where
  "request_schema_valid request =
     bindE (py_get request ''model'' PNone) (\<lambda>model. if \<not> truthy model then Inr False else
     bindE (py_get request ''messages'' PNone) (\<lambda>messages. if \<not> is_list messages then Inr False else
     bindE (py_index request ''messages'') (\<lambda>ms. bindE (py_len ms) (\<lambda>n. Inr (0 < n)))))"

definition mandatory_acceptance_missing_or_ambiguous :: "pyval \<Rightarrow> bool res" where
  "mandatory_acceptance_missing_or_ambiguous contract =
     bindE (py_get contract ''acceptance_criteria'' (PList [])) (\<lambda>v.
     bindE (py_iter v) (\<lambda>criteria.
     anyE (\<lambda>c. bindE (py_get c ''mandatory'' PNone) (\<lambda>m.
        if truthy m then bindE (py_get c ''kind'' PNone) (\<lambda>k. Inr (py_eq k (PStr ''missing'')))
        else Inr False)) criteria))"

definition clarification_addresses_gap :: bool where
  "clarification_addresses_gap = True"

definition contract_schema_valid_and_acceptance_sufficient :: "pyval \<Rightarrow> bool res" where
  "contract_schema_valid_and_acceptance_sufficient contract =
     (if \<not> truthy contract then Inr False else
      bindE (py_get contract ''version'' PNone) (\<lambda>version. if \<not> truthy version then Inr False else
      bindE (py_get contract ''goal'' PNone) (\<lambda>goal. Inr (truthy goal))))"

definition policy_allows_progress :: bool where
  "policy_allows_progress = True"

definition non_authorizable_policy_violation :: bool where
  "non_authorizable_policy_violation = True"

definition compaction_invariants_hold :: bool where
  "compaction_invariants_hold = True"

definition admissible_route_exists :: "pyval \<Rightarrow> bool res" where
  "admissible_route_exists decision =
     bindE (py_get decision ''status'' PNone) (\<lambda>s. Inr (py_eq s (PStr ''route_selected'')))"

definition router_failed_closed :: bool where
  "router_failed_closed = True"

definition type_or_value_error :: "pyexc \<Rightarrow> bool" where
  "type_or_value_error e = (case e of PyTypeError \<Rightarrow> True | PyValueError _ \<Rightarrow> True | _ \<Rightarrow> False)"

definition budget_and_permissions_reserved :: "pyval \<Rightarrow> pyval \<Rightarrow> bool res" where
  "budget_and_permissions_reserved selected_plan contract =
     catchE type_or_value_error False
       (bindE (py_get selected_plan ''expected_total_cost_usd'' (PInt 0)) (\<lambda>cv.
        bindE (py_float cv) (\<lambda>cost.
        bindE (py_get contract ''governance'' (PDict [])) (\<lambda>governance.
        bindE (py_get governance ''max_cost_usd'' (PInt 0)) (\<lambda>mv.
        bindE (py_float mv) (\<lambda>max_cost.
        Inr (f_le cost max_cost)))))))"

definition key_index_or_type_error :: "pyexc \<Rightarrow> bool" where
  "key_index_or_type_error e = (case e of KeyError _ \<Rightarrow> True | IndexError \<Rightarrow> True | PyTypeError \<Rightarrow> True | _ \<Rightarrow> False)"

definition result_bound_to_actor_activity_and_hash :: "pyval \<Rightarrow> bool res" where
  "result_bound_to_actor_activity_and_hash upstream =
     catchE key_index_or_type_error False
       (bindE (py_index upstream ''choices'') (\<lambda>choices.
        bindE (py_index_int choices 0) (\<lambda>choice.
        bindE (py_index choice ''message'') (\<lambda>message.
        bindE (py_index message ''content'') (\<lambda>content.
        if is_str content then bindE (py_len content) (\<lambda>n. Inr (0 < n)) else Inr False)))))"

definition required_verification_dag_materialized :: "pyval list \<Rightarrow> bool" where
  "required_verification_dag_materialized verification_results = (0 < length verification_results)"

definition failed_mandatory :: "pyval \<Rightarrow> bool res" where
  "failed_mandatory result =
     bindE (py_get result ''mandatory'' PNone) (\<lambda>m. if \<not> truthy m then Inr False else
     bindE (py_get result ''status'' PNone) (\<lambda>s. Inr (\<not> py_eq s (PStr ''passed''))))"

text \<open>
  The acceptance guard. \<open>conflicted\<close> is what \<^verbatim>\<open>epistemic_state.conflicted_claim_ids()\<close> returns,
  \<open>None\<close> when no epistemic state is passed.
\<close>

definition all_mandatory_criteria_pass_and_no_blocking_conflict ::
  "pyval list \<Rightarrow> string list option \<Rightarrow> string \<Rightarrow> bool res" where
  "all_mandatory_criteria_pass_and_no_blocking_conflict verification_results conflicted risk_class =
     bindE (anyE (\<lambda>result. bindE (failed_mandatory result) (\<lambda>b. if b then Inr True else
        bindE (py_get result ''sub_results'' (PList [])) (\<lambda>sv. bindE (py_iter sv) (anyE failed_mandatory))))
        verification_results) (\<lambda>failed.
     if failed then Inr False
     else if conflicted \<noteq> None \<and> (risk_class = ''high'' \<or> risk_class = ''critical'') \<and> the conflicted \<noteq> []
     then Inr False else Inr True)"

definition repair_budget_available :: bool where
  "repair_budget_available = False"

definition no_admissible_repair :: bool where
  "no_admissible_repair = True"

definition fallback_route_admissible :: bool where
  "fallback_route_admissible = False"

definition no_fallback_or_budget_exhausted :: bool where
  "no_fallback_or_budget_exhausted = True"

definition human_authority_available :: bool where
  "human_authority_available = False"

definition no_authorized_escalation :: bool where
  "no_authorized_escalation = True"

definition approval_scope_covers_outcome :: bool where
  "approval_scope_covers_outcome = False"

definition receipt_contains_ledger_head_and_verification_evidence :: "pyval \<Rightarrow> bool res" where
  "receipt_contains_ledger_head_and_verification_evidence receipt =
     bindE (py_get receipt ''ledger_head_hash'' PNone) (\<lambda>h. if \<not> truthy h then Inr False else
     bindE (py_get receipt ''verification_results'' PNone) (\<lambda>v. Inr (v \<noteq> PNone)))"

section \<open>Sequences of calls\<close>

lemma subseq_in: "subseq xs ys \<Longrightarrow> x \<in> set xs \<Longrightarrow> x \<in> set ys"
  by (erule list_emb_set) auto


datatype vsm_op = Begin string | Fire string string bool

definition vsm_apply :: "vsm \<Rightarrow> vsm_op \<Rightarrow> vsm" where
  "vsm_apply m op = (case op of Begin r \<Rightarrow> fst (begin_run m r) | Fire r e g \<Rightarrow> fst (transition m r e g))"

definition vsm_run :: "vsm \<Rightarrow> vsm_op list \<Rightarrow> vsm" where
  "vsm_run m ops = foldl vsm_apply m ops"

text \<open>The events fired for a run with their guard satisfied, in call order.\<close>

definition fired :: "string \<Rightarrow> vsm_op list \<Rightarrow> string list" where
  "fired r ops = concat (map (\<lambda>op. case op of Fire r' e g \<Rightarrow> if r' = r \<and> g then [e] else [] | Begin _ \<Rightarrow> []) ops)"

text \<open>\<open>path m es s\<close>: the table leads from the initial state through the events \<open>es\<close> to \<open>s\<close>.\<close>

inductive path :: "vsm \<Rightarrow> string list \<Rightarrow> string \<Rightarrow> bool" for m :: vsm where
  start: "path m [] (vsm_initial m)"
| step: "path m es s \<Longrightarrow> map_of (vsm_transitions m) (s, e) = Some (t, g) \<Longrightarrow> path m (es @ [e]) t"

lemma vsm_apply_table [simp]:
  "vsm_transitions (vsm_apply m op) = vsm_transitions m" "vsm_initial (vsm_apply m op) = vsm_initial m"
  "vsm_terminal (vsm_apply m op) = vsm_terminal m"
  by (auto simp: vsm_apply_def begin_run_def transition_def Let_def split: vsm_op.splits option.splits if_splits prod.splits)

lemma vsm_run_snoc [simp]: "vsm_run m (ops @ [op]) = vsm_apply (vsm_run m ops) op"
  by (simp add: vsm_run_def)

lemma vsm_run_append: "vsm_run m (xs @ ys) = vsm_run (vsm_run m xs) ys"
  by (simp add: vsm_run_def)

lemma vsm_run_table [simp]:
  "vsm_transitions (vsm_run m ops) = vsm_transitions m" "vsm_initial (vsm_run m ops) = vsm_initial m"
  "vsm_terminal (vsm_run m ops) = vsm_terminal m"
  by (induction ops rule: rev_induct) (simp_all add: vsm_run_def)

text \<open>What one call does to the state of each run.\<close>

lemma run_state_apply:
  "run_state (vsm_apply m op) r = (case op of
     Begin r' \<Rightarrow> if r' = r then vsm_initial m else run_state m r
   | Fire r' e g \<Rightarrow> if r' = r \<and> g then
        (case map_of (vsm_transitions m) (run_state m r, e) of None \<Rightarrow> run_state m r | Some (t, _) \<Rightarrow> t)
      else run_state m r)"
  by (auto simp: vsm_apply_def begin_run_def transition_def run_state_def Let_def
      split: vsm_op.splits option.splits if_splits prod.splits)

lemma fired_snoc [simp]: "fired r (ops @ [op]) = fired r ops @
    (case op of Fire r' e g \<Rightarrow> if r' = r \<and> g then [e] else [] | Begin _ \<Rightarrow> [])"
  by (simp add: fired_def)

text \<open>The state of a run is the end of a path whose events were fired, in that order.\<close>

lemma run_state_path:
  assumes "vsm_states m = []"
  shows "\<exists>es. path m es (run_state (vsm_run m ops) r) \<and> subseq es (fired r ops)"
proof (induction ops rule: rev_induct)
  case Nil
  show ?case using path.start[of m] assms by (auto simp: vsm_run_def run_state_def intro!: exI[of _ "[]"])
next
  case (snoc op ops)
  then obtain es where es: "path m es (run_state (vsm_run m ops) r)" "subseq es (fired r ops)" by blast
  note old = exI[of _ es] and fresh = exI[of _ "[]"]
  show ?case
  proof (cases op)
    case (Begin r')
    then show ?thesis using es path.start[of m] by (cases "r' = r") (auto simp: run_state_apply intro: old fresh)
  next
    case (Fire r' e g)
    have keep: "subseq es (fired r ops @ xs)" for xs using es(2) by (rule subseq_rev_drop_many)
    show ?thesis
    proof (cases "r' = r \<and> g")
      case True
      show ?thesis
      proof (cases "map_of (vsm_transitions m) (run_state (vsm_run m ops) r, e)")
        case None
        then show ?thesis using True Fire es(1) keep by (auto simp: run_state_apply intro: old)
      next
        case (Some tg)
        then have "path m (es @ [e]) (fst tg)" using es(1) path.step[of m es _ e "fst tg" "snd tg"] by simp
        moreover have "subseq (es @ [e]) (fired r ops @ [e])" using es(2) by simp
        ultimately show ?thesis using True Fire Some by (auto simp: run_state_apply split: prod.splits intro!: exI[of _ "es @ [e]"])
      qed
    next
      case False
      then show ?thesis using Fire es by (auto simp: run_state_apply intro!: old)
    qed
  qed
qed

lemma init_machine_sel:
  "vsm_initial (init_machine spec) = (case initial_state spec of None \<Rightarrow> ''received'' | Some s \<Rightarrow> s)"
  "vsm_states (init_machine spec) = []" "vsm_terminal (init_machine spec) = terminal_states spec"
  by (simp_all add: init_machine_def)

section \<open>The lifecycle\<close>

definition lifecycle :: vsm where
  "lifecycle = init_machine lifecycle_spec"

text \<open>The event sequences of which a run in the given state has been through one.\<close>

definition contract_events :: "string list" where
  "contract_events = [''propose_contract'', ''validate_contract'']"

definition compiled_events :: "string list" where
  "compiled_events = contract_events @ [''check_policy'', ''compile_context'']"

definition executed_events :: "string list" where
  "executed_events = compiled_events @ [''select_route'', ''start_action'']"

definition verifying_events :: "string list" where
  "verifying_events = executed_events @ [''record_result'', ''start_verification'']"

definition acceptances :: "string list list" where
  "acceptances = [verifying_events @ [''verification_passed''], compiled_events @ [''request_human_review'', ''approve'']]"

definition required_events :: "string \<Rightarrow> string list list" where
  "required_events s =
     (if s = ''received'' \<or> s = ''rejected'' then [[]]
      else if s = ''contract_proposed'' \<or> s = ''clarification_required'' then [[''propose_contract'']]
      else if s = ''contract_validated'' then [contract_events]
      else if s = ''policy_checked'' then [contract_events @ [''check_policy'']]
      else if s = ''context_compiled'' \<or> s = ''escalation_required'' then [compiled_events]
      else if s = ''routed'' then [compiled_events @ [''select_route'']]
      else if s = ''executing'' then [executed_events]
      else if s = ''evidence_normalized'' then [executed_events @ [''record_result'']]
      else if s = ''verifying'' \<or> s = ''repairable_failure'' then [verifying_events]
      else if s = ''human_review'' then [compiled_events @ [''request_human_review'']]
      else if s = ''accepted'' then acceptances
      else if s = ''completed'' then map (\<lambda>es. es @ [''issue_receipt'']) acceptances
      else [[]])"

definition table_row_ok :: "(string \<times> string) \<times> (string \<times> string) \<Rightarrow> bool" where
  "table_row_ok row = (case row of ((s, e), (t, g)) \<Rightarrow>
     t \<in> set lifecycle_states \<and> s \<noteq> ''completed'' \<and> s \<noteq> ''rejected'' \<and>
     list_all (\<lambda>a. list_ex (\<lambda>b. subseq b (a @ [e])) (required_events t)) (required_events s))"

lemma table_rows_ok: "list_all table_row_ok (vsm_transitions lifecycle)"
  by code_simp

lemma lifecycle_initial [simp]: "vsm_initial lifecycle = ''received''" "vsm_states lifecycle = []"
  "vsm_terminal lifecycle = [''completed'', ''rejected'']"
  by (simp_all only: lifecycle_def init_machine_sel) (simp_all add: lifecycle_spec_def)

lemma lifecycle_row: "map_of (vsm_transitions lifecycle) (s, e) = Some (t, g) \<Longrightarrow> table_row_ok ((s, e), (t, g))"
  using table_rows_ok by (auto simp: list_all_iff dest!: map_of_SomeD)

lemma path_required: "path lifecycle es s \<Longrightarrow> s \<in> set lifecycle_states \<and> (\<exists>a\<in>set (required_events s). subseq a es)"
proof (induction rule: path.induct)
  case start
  show ?case by (simp add: required_events_def lifecycle_states_def)
next
  case (step es s e t g)
  then obtain a where a: "a \<in> set (required_events s)" "subseq a es" by blast
  from lifecycle_row[OF step.hyps(2)] a(1) obtain b where b: "b \<in> set (required_events t)" "subseq b (a @ [e])"
    "t \<in> set lifecycle_states" by (auto simp: table_row_ok_def list_all_iff list_ex_iff)
  have "subseq (a @ [e]) (es @ [e])" using a(2) by simp
  then show ?case using b subseq_order.trans by blast
qed

lemma run_required: "\<exists>a\<in>set (required_events (run_state (vsm_run lifecycle ops) r)). subseq a (fired r ops)"
proof -
  obtain es where es: "path lifecycle es (run_state (vsm_run lifecycle ops) r)" "subseq es (fired r ops)"
    using run_state_path[OF lifecycle_initial(2)] by blast
  from path_required[OF es(1)] es(2) show ?thesis by (meson subseq_order.trans)
qed

lemma run_state_lifecycle: "run_state (vsm_run lifecycle ops) r \<in> set lifecycle_states"
  using run_state_path[OF lifecycle_initial(2)] path_required by blast

section \<open>Finishing a run\<close>

text \<open>Firing a list of events with satisfied guards, on the state alone.\<close>

definition lifecycle_rows :: "((string \<times> string) \<times> (string \<times> string)) list" where
  "lifecycle_rows = map (\<lambda>t. ((tr_from t, tr_event t), (tr_to t, case tr_guard t of None \<Rightarrow> ''true'' | Some g \<Rightarrow> g)))
     (spec_transitions lifecycle_spec)"

lemma lifecycle_table: "vsm_transitions lifecycle = lifecycle_rows"
  by code_simp

fun walk :: "string \<Rightarrow> string list \<Rightarrow> string option" where
  "walk s [] = Some s"
| "walk s (e # es) = (case map_of lifecycle_rows (s, e) of None \<Rightarrow> None | Some (t, _) \<Rightarrow> walk t es)"

definition give_up :: "string list" where
  "give_up = [''no_admissible_route'', ''reject'']"

text \<open>A way to a terminal state from each state.\<close>

definition finish :: "string \<Rightarrow> string list" where
  "finish s =
     (if s = ''completed'' \<or> s = ''rejected'' then []
      else if s = ''received'' then [''propose_contract'', ''validate_contract'', ''deny_policy'']
      else if s = ''contract_proposed'' then [''validate_contract'', ''deny_policy'']
      else if s = ''clarification_required'' then [''receive_clarification'', ''validate_contract'', ''deny_policy'']
      else if s = ''contract_validated'' then [''deny_policy'']
      else if s = ''policy_checked'' then ''compile_context'' # give_up
      else if s = ''context_compiled'' then give_up
      else if s = ''routed'' then [''start_action'', ''record_result'', ''start_verification'', ''verification_failed_unresolved'', ''reject'']
      else if s = ''executing'' then [''record_result'', ''start_verification'', ''verification_failed_unresolved'', ''reject'']
      else if s = ''evidence_normalized'' then [''start_verification'', ''verification_failed_unresolved'', ''reject'']
      else if s = ''verifying'' then [''verification_failed_unresolved'', ''reject'']
      else if s = ''repairable_failure'' then [''repair_exhausted'', ''reject'']
      else if s = ''accepted'' then [''issue_receipt'']
      else [''reject''])"

lemma finish_ends: "list_all (\<lambda>s. length (finish s) \<le> 5 \<and> (case walk s (finish s) of
    None \<Rightarrow> False | Some t \<Rightarrow> t = ''completed'' \<or> t = ''rejected'')) lifecycle_states"
  by code_simp

lemma run_state_walk:
  assumes "vsm_transitions m = vsm_transitions lifecycle" "walk (run_state m r) es = Some t"
  shows "run_state (vsm_run m (map (\<lambda>e. Fire r e True) es)) r = t"
  using assms
proof (induction es arbitrary: m)
  case Nil
  then show ?case by (simp add: vsm_run_def)
next
  case (Cons e es)
  then obtain t1 g where t1: "map_of (vsm_transitions lifecycle) (run_state m r, e) = Some (t1, g)" "walk t1 es = Some t"
    by (auto simp: lifecycle_table split: option.splits)
  let ?m = "vsm_apply m (Fire r e True)"
  have "run_state ?m r = t1" using t1(1) Cons.prems(1) by (simp add: run_state_apply)
  then have "run_state (vsm_run ?m (map (\<lambda>e. Fire r e True) es)) r = t"
    using t1(2) Cons.prems(1) by (intro Cons.IH) simp_all
  then show ?case by (simp add: vsm_run_def)
qed

section \<open>Properties\<close>

text \<open>
  No execution before the policy check. Whatever calls are made, for whatever runs and with
  whatever guards, a run that is executing, or in a state only execution leads to, has been
  through the events that propose and validate the contract, check the policy, compile the
  context, select the route and start the action, in that order and each with its guard true.
\<close>

theorem no_execution_before_policy_check:
  assumes "run_state (vsm_run lifecycle ops) r \<in>
    {''executing'', ''evidence_normalized'', ''verifying'', ''repairable_failure''}"
  shows "subseq [''propose_contract'', ''validate_contract'', ''check_policy'', ''compile_context'',
    ''select_route'', ''start_action''] (fired r ops)"
proof -
  have e: "executed_events = [''propose_contract'', ''validate_contract'', ''check_policy'', ''compile_context'',
    ''select_route'', ''start_action'']"
    by (simp add: executed_events_def compiled_events_def contract_events_def)
  from run_required[of ops r] obtain a where a: "a \<in> set (required_events (run_state (vsm_run lifecycle ops) r))"
    "subseq a (fired r ops)" by blast
  have "\<exists>b. a = executed_events @ b"
    using a(1) assms by (auto simp: required_events_def verifying_events_def)
  then have "subseq executed_events a" by (auto intro: subseq_rev_drop_many)
  then show ?thesis using a(2) unfolding e[symmetric] by (rule subseq_order.trans)
qed

text \<open>
  C22. No acceptance without verification. A run that is accepted, or completed, has either been
  executed and passed verification, or been approved by a human review it requested, in the
  order of the lifecycle; if every request for human review is guarded by the code's own
  \<open>human_authority_available\<close>, it passed verification; and a completed run has issued its
  receipt after that.
\<close>

theorem no_acceptance_without_verification:
  assumes "run_state (vsm_run lifecycle ops) r = s" "s = ''accepted'' \<or> s = ''completed''"
  shows "\<exists>es \<in> {verifying_events @ [''verification_passed''], compiled_events @ [''request_human_review'', ''approve'']}.
     subseq es (fired r ops) \<and> (s = ''completed'' \<longrightarrow> subseq (es @ [''issue_receipt'']) (fired r ops)) \<and>
     ((\<forall>g. Fire r ''request_human_review'' g \<in> set ops \<longrightarrow> g = human_authority_available) \<longrightarrow>
        es = verifying_events @ [''verification_passed''])"
proof -
  from run_required[of ops r] obtain a where a: "a \<in> set (required_events s)" "subseq a (fired r ops)"
    unfolding assms(1) by blast
  have "\<exists>es\<in>set acceptances. a = (if s = ''completed'' then es @ [''issue_receipt''] else es)"
    using a(1) assms(2) by (auto simp: required_events_def)
  then obtain es where es: "es \<in> set acceptances" "a = (if s = ''completed'' then es @ [''issue_receipt''] else es)"
    by blast
  have "subseq es a" using es(2) by (auto intro: subseq_rev_drop_many)
  then have sub: "subseq es (fired r ops)" using a(2) by (rule subseq_order.trans)
  have hr: "es = verifying_events @ [''verification_passed'']"
    if "\<forall>g. Fire r ''request_human_review'' g \<in> set ops \<longrightarrow> g = human_authority_available"
  proof (rule ccontr)
    assume "es \<noteq> verifying_events @ [''verification_passed'']"
    then have "''request_human_review'' \<in> set es" using es(1) by (auto simp: acceptances_def)
    then have "''request_human_review'' \<in> set (fired r ops)" using sub by (blast intro: subseq_in)
    then have "Fire r ''request_human_review'' True \<in> set ops"
      by (auto simp: fired_def split: vsm_op.splits if_splits)
    then show False using that by (auto simp: human_authority_available_def)
  qed
  show ?thesis using es sub a(2) hr by (intro bexI[of _ es]) (auto simp: acceptances_def)
qed

text \<open>
  C24. Terminal states absorb and every run can end. After any calls a run is in a state of the
  specification; in a terminal state every event raises and leaves the machine as it is; and
  from any state at most five more events with true guards bring the run to a terminal state.
\<close>

theorem lifecycle_can_always_end:
  "run_state (vsm_run lifecycle ops) r \<in> set lifecycle_states \<and>
   (is_terminal (vsm_run lifecycle ops) r \<longrightarrow>
      (\<forall>e g. \<exists>msg. transition (vsm_run lifecycle ops) r e g = (vsm_run lifecycle ops, Inl (TransitionError msg)))) \<and>
   (\<exists>es. length es \<le> 5 \<and> is_terminal (vsm_run lifecycle (ops @ map (\<lambda>e. Fire r e True) es)) r)"
proof (intro conjI impI)
  let ?m = "vsm_run lifecycle ops"
  show s: "run_state ?m r \<in> set lifecycle_states" by (rule run_state_lifecycle)
  show "\<forall>e g. \<exists>msg. transition ?m r e g = (?m, Inl (TransitionError msg))" if t: "is_terminal ?m r"
  proof (intro allI)
    fix e g
    have "map_of (vsm_transitions lifecycle) (run_state ?m r, e) = None"
    proof (cases "map_of (vsm_transitions lifecycle) (run_state ?m r, e)")
      case (Some tg)
      then show ?thesis using lifecycle_row[of "run_state ?m r" e "fst tg" "snd tg"] t
        by (auto simp: table_row_ok_def is_terminal_def)
    qed
    then show "\<exists>msg. transition ?m r e g = (?m, Inl (TransitionError msg))"
      by (simp add: transition_def Let_def)
  qed
  from finish_ends s obtain t where t: "length (finish (run_state ?m r)) \<le> 5" "walk (run_state ?m r) (finish (run_state ?m r)) = Some t"
    "t = ''completed'' \<or> t = ''rejected''"
    by (auto simp: list_all_iff split: option.splits)
  from run_state_walk[OF _ t(2)] have "run_state (vsm_run ?m (map (\<lambda>e. Fire r e True) (finish (run_state ?m r)))) r = t" by simp
  then show "\<exists>es. length es \<le> 5 \<and> is_terminal (vsm_run lifecycle (ops @ map (\<lambda>e. Fire r e True) es)) r"
    using t(1,3) by (intro exI[of _ "finish (run_state ?m r)"]) (auto simp: vsm_run_append is_terminal_def)
qed


text \<open>
  The budget guard lets no unknown amount through. On a plan and a contract whose governance
  is a mapping it raises only for an amount too large for a float, and it returns true only for a
  cost and a ceiling that are numbers with the cost at most the ceiling; a plan whose cost is
  NaN is stopped here.
\<close>

theorem budget_guard_closed:
  assumes "py_get contract ''governance'' (PDict []) = Inr (PDict gov)"
  shows "(budget_and_permissions_reserved (PDict plan) contract = Inr True \<longleftrightarrow>
       (\<exists>cost ceiling. py_float (attr (PDict plan) ''expected_total_cost_usd'' (PInt 0)) = Inr cost \<and>
          py_float (attr (PDict gov) ''max_cost_usd'' (PInt 0)) = Inr ceiling \<and>
          f_le cost ceiling \<and> cost \<noteq> NaN \<and> ceiling \<noteq> NaN)) \<and>
     (\<forall>e. budget_and_permissions_reserved (PDict plan) contract = Inl e \<longrightarrow> e = OverflowError)"
proof -
  let ?c = "attr (PDict plan) ''expected_total_cost_usd'' (PInt 0)"
  let ?m = "attr (PDict gov) ''max_cost_usd'' (PInt 0)"
  have fl: "e = OverflowError \<or> type_or_value_error e" if "py_float v = Inl e" for v e
    using that by (cases v) (auto simp: py_float_def f_of_int_def type_or_value_error_def split: option.splits f64.splits)
  have "budget_and_permissions_reserved (PDict plan) contract =
     catchE type_or_value_error False (bindE (py_float ?c) (\<lambda>cost. bindE (py_float ?m) (\<lambda>ceiling. Inr (f_le cost ceiling))))"
    using assms by (simp add: budget_and_permissions_reserved_def attr_def)
  then show ?thesis using fl[of ?c] fl[of ?m] f_le_notNaN
    by (cases "py_float ?c"; cases "py_float ?m") (auto simp: type_or_value_error_def)
qed

section \<open>Witnesses\<close>

definition accepting_ops :: "vsm_op list" where
  "accepting_ops = Begin ''r1'' # map (\<lambda>e. Fire ''r1'' e True) (verifying_events @ [''verification_passed'', ''issue_receipt''])"

lemma executing_sample: "run_state (vsm_run lifecycle (take 7 accepting_ops)) ''r1'' = ''executing''"
  by code_simp

lemma accepting_sample: "run_state (vsm_run lifecycle accepting_ops) ''r1'' = ''completed''"
  by code_simp

theorem no_execution_before_policy_check_witness:
  "''check_policy'' \<in> set (fired ''r1'' (take 7 accepting_ops))"
proof -
  have "subseq [''propose_contract'', ''validate_contract'', ''check_policy'', ''compile_context'',
    ''select_route'', ''start_action''] (fired ''r1'' (take 7 accepting_ops))"
    by (rule no_execution_before_policy_check) (simp add: executing_sample)
  then show ?thesis by (rule subseq_in) simp
qed

theorem no_acceptance_without_verification_witness:
  "\<exists>es \<in> {verifying_events @ [''verification_passed''], compiled_events @ [''request_human_review'', ''approve'']}.
     subseq (es @ [''issue_receipt'']) (fired ''r1'' accepting_ops)"
  using no_acceptance_without_verification[OF accepting_sample] by fastforce

theorem lifecycle_can_always_end_witness: "run_state (vsm_run lifecycle accepting_ops) ''r2'' \<in> set lifecycle_states"
  using lifecycle_can_always_end[of accepting_ops "''r2''"] by blast


theorem budget_guard_closed_witness:
  "budget_and_permissions_reserved (PDict [(''expected_total_cost_usd'', PFloat NaN)])
     (PDict [(''governance'', PDict [(''max_cost_usd'', PInt 1)])]) \<noteq> Inr True"
  using budget_guard_closed[of "PDict [(''governance'', PDict [(''max_cost_usd'', PInt 1)])]" "[(''max_cost_usd'', PInt 1)]"
      "[(''expected_total_cost_usd'', PFloat NaN)]"] by (auto simp: attr_def)

end
