(* ===== verification/Rate_Limit.thy ===== *)
theory Rate_Limit
  imports Py_Val
begin

text \<open>
  \<^verbatim>\<open>reference/gateway/rate_limit.py\<close>: the token bucket and the per-key limiters. The monotonic
  and the wall clock are arguments of the operations; each operation holds the lock, so it is one
  step. An operation returns the state it leaves behind even when it raises.
\<close>

section \<open>The token bucket\<close>

record bucket =
  bk_rate :: f64
  bk_burst :: int
  bk_tokens :: f64
  bk_last_refill :: f64

definition new_bucket :: "f64 \<Rightarrow> int \<Rightarrow> f64 \<Rightarrow> bucket res" where
  "new_bucket rate burst now =
     (if \<not> f_isfinite rate \<or> f_lt rate (Fin 0)
      then Inl (PyValueError ''rate must be a finite non-negative number'')
      else if burst < 1 then Inl (PyValueError ''burst must be at least 1'')
      else bindE (f_of_int burst) (\<lambda>b.
        Inr \<lparr>bk_rate = rate, bk_burst = burst, bk_tokens = b, bk_last_refill = now\<rparr>))"

text \<open>Refill for the elapsed time, then take a token if there is one.\<close>

definition refill :: "bucket \<Rightarrow> f64 \<Rightarrow> bucket res" where
  "refill b now = bindE (f_of_int (bk_burst b)) (\<lambda>cap.
     Inr (b\<lparr>bk_tokens := f_min cap (f_add (bk_tokens b) (f_mul (f_sub now (bk_last_refill b)) (bk_rate b))),
           bk_last_refill := now\<rparr>))"

definition take_token :: "bucket \<Rightarrow> bucket \<times> bool" where
  "take_token b = (if f_le (Fin 1) (bk_tokens b)
     then (b\<lparr>bk_tokens := f_sub (bk_tokens b) (Fin 1)\<rparr>, True) else (b, False))"

definition limit_headers :: "bucket \<Rightarrow> int \<Rightarrow> (string \<times> string) list res" where
  "limit_headers b wall =
     bindE (f_floor (bk_tokens b)) (\<lambda>fl. let remaining = max 0 fl in
     bindE (if f_le (bk_rate b) (Fin 0) then Inr 0
            else bindE (f_div (f_sub (Fin 1) (bk_tokens b)) (bk_rate b)) (\<lambda>q.
                 bindE (f_ceil q) (\<lambda>c. Inr (max 0 c)))) (\<lambda>reset_seconds.
     Inr [(''X-RateLimit-Limit'', dec_int (bk_burst b)),
          (''X-RateLimit-Remaining'', dec_int remaining),
          (''X-RateLimit-Reset'', dec_int (wall + reset_seconds))]))"

definition allow_with_metadata :: "bucket \<Rightarrow> f64 \<Rightarrow> int \<Rightarrow> bucket \<times> (bool \<times> (string \<times> string) list) res" where
  "allow_with_metadata b now wall =
     (case refill b now of Inl e \<Rightarrow> (b, Inl e)
      | Inr b1 \<Rightarrow> (let (b2, allowed) = take_token b1 in
          (b2, bindE (limit_headers b2 wall) (\<lambda>h. Inr (allowed, h)))))"

definition bucket_allow :: "bucket \<Rightarrow> f64 \<Rightarrow> int \<Rightarrow> bucket \<times> bool res" where
  "bucket_allow b now wall = (let (b1, r) = allow_with_metadata b now wall in (b1, bindE r (\<lambda>(allowed, _). Inr allowed)))"

section \<open>One bucket per key\<close>

type_synonym limiters = "(string, bucket) dict"

definition get_limiter :: "limiters \<Rightarrow> string \<Rightarrow> f64 \<Rightarrow> int \<Rightarrow> f64 \<Rightarrow> limiters \<times> bucket res" where
  "get_limiter ls key_id rate burst now =
     (case map_of ls key_id of Some b \<Rightarrow> (ls, Inr b)
      | None \<Rightarrow> (case new_bucket rate burst now of Inl e \<Rightarrow> (ls, Inl e)
          | Inr b \<Rightarrow> (dset key_id b ls, Inr b)))"

definition key_allow_with_metadata ::
  "limiters \<Rightarrow> string \<Rightarrow> f64 \<Rightarrow> int \<Rightarrow> f64 \<Rightarrow> int \<Rightarrow> limiters \<times> (bool \<times> (string \<times> string) list) res" where
  "key_allow_with_metadata ls key_id rate burst now wall =
     (case get_limiter ls key_id rate burst now of
        (ls1, Inl e) \<Rightarrow> (ls1, Inl e)
      | (ls1, Inr b) \<Rightarrow> (let (b1, r) = allow_with_metadata b now wall in (dset key_id b1 ls1, r)))"

definition key_allow :: "limiters \<Rightarrow> string \<Rightarrow> f64 \<Rightarrow> int \<Rightarrow> f64 \<Rightarrow> int \<Rightarrow> limiters \<times> bool res" where
  "key_allow ls key_id rate burst now wall =
     (let (ls1, r) = key_allow_with_metadata ls key_id rate burst now wall in (ls1, bindE r (\<lambda>(allowed, _). Inr allowed)))"

definition reset_limiters :: "limiters \<Rightarrow> string option \<Rightarrow> limiters" where
  "reset_limiters ls key_id = (case key_id of Some k \<Rightarrow> if k \<noteq> [] then ddel k ls else [] | None \<Rightarrow> [])"

section \<open>Invariant\<close>

text \<open>A bucket of at most \<open>2 ^ 53\<close> tokens, read at clock values that do not go back.\<close>

definition bucket_ok :: "bucket \<Rightarrow> bool" where
  "bucket_ok b = (1 \<le> bk_burst b \<and> bk_burst b \<le> 2 ^ 53 \<and>
     (\<exists>r. bk_rate b = Fin r \<and> 0 \<le> r) \<and>
     (\<exists>t. bk_tokens b = Fin t \<and> 0 \<le> t \<and> t \<le> of_int (bk_burst b)) \<and>
     (\<exists>l. bk_last_refill b = Fin l \<and> 0 \<le> l))"

text \<open>A later reading of the clock: a float of the binary64 format, not before the earlier one.\<close>

definition later :: "f64 \<Rightarrow> f64 \<Rightarrow> bool" where
  "later a b = (\<exists>x y. a = Fin x \<and> b = Fin y \<and> x \<le> y \<and> is_fl y \<and> y < 2 ^ 1024)"

definition nonneg_or_inf :: "f64 \<Rightarrow> bool" where
  "nonneg_or_inf a = (case a of Fin x \<Rightarrow> 0 \<le> x | PInf \<Rightarrow> True | _ \<Rightarrow> False)"

lemma rounded_nonneg: "0 \<le> x \<Longrightarrow> nonneg_or_inf (f64_of_rat x)"
proof -
  assume "0 \<le> x"
  then have "0 \<le> fl x" by (rule fl_nonneg)
  moreover have "(- (2 ^ 1024) :: rat) < 0" by (simp only: neg_less_0_iff_less zero_less_power zero_less_numeral)
  ultimately have "\<not> fl x \<le> - (2 ^ 1024)" by linarith
  with \<open>0 \<le> fl x\<close> show ?thesis unfolding f64_of_rat_def Let_def nonneg_or_inf_def by simp
qed

lemma small_int_range: "0 \<le> k \<Longrightarrow> k \<le> 2 ^ 53 \<Longrightarrow> (of_int k :: rat) < 2 ^ 1024 \<and> - (2 ^ 1024) < (of_int k :: rat)"
proof -
  assume k: "0 \<le> k" "k \<le> 2 ^ 53"
  have "of_int k \<le> (of_int (2 ^ 53) :: rat)" using k(2) by (simp only: of_int_le_iff)
  also have "\<dots> < 2 ^ 1024" by simp
  finally have b: "(of_int k :: rat) < 2 ^ 1024" .
  have "(- (2 ^ 1024) :: rat) < 0" by (simp only: neg_less_0_iff_less zero_less_power zero_less_numeral)
  then show ?thesis using b k(1) by (auto intro: less_le_trans)
qed

text \<open>Rounding keeps a value between zero and an integer bound.\<close>

lemma rounded_between_ints:
  assumes "0 \<le> x" "x \<le> of_int k" "0 \<le> k" "k \<le> 2 ^ 53"
  shows "\<exists>t. f64_of_rat x = Fin t \<and> 0 \<le> t \<and> t \<le> of_int k"
  using f64_of_rat_between[of 0 x "of_int k"] assms small_int_range[OF assms(3,4)] fl_of_int[OF assms(3,4)]
    small_int_range[of 0] by simp

lemma refill_ok:
  assumes "bucket_ok b" "later (bk_last_refill b) now"
  shows "\<exists>b1. refill b now = Inr b1 \<and> bucket_ok b1 \<and> bk_last_refill b1 = now \<and> bk_rate b1 = bk_rate b \<and>
    bk_burst b1 = bk_burst b"
proof -
  from assms obtain r t l y where v: "bk_rate b = Fin r" "0 \<le> r" "bk_tokens b = Fin t" "0 \<le> t"
    "t \<le> of_int (bk_burst b)" "bk_last_refill b = Fin l" "0 \<le> l" "now = Fin y" "l \<le> y" "is_fl y" "y < 2 ^ 1024"
    by (auto simp: bucket_ok_def later_def)
  have cap: "f_of_int (bk_burst b) = Inr (Fin (of_int (bk_burst b)))"
    using assms(1) by (intro f_of_int_small) (auto simp: bucket_ok_def)
  have "\<exists>d. f64_of_rat (y - l) = Fin d \<and> 0 \<le> d \<and> d \<le> y"
    using v small_int_range[of 0] by (intro f64_of_rat_between) (auto simp: is_fl_def)
  then obtain d where d: "f_sub now (bk_last_refill b) = Fin d" "0 \<le> d" using v by (auto simp: f_sub_def)
  have "nonneg_or_inf (f_mul (Fin d) (Fin r))" using d v by (simp add: rounded_nonneg)
  then have "nonneg_or_inf (f_add (bk_tokens b) (f_mul (Fin d) (Fin r)))"
    using v by (cases "f_mul (Fin d) (Fin r)") (auto simp: nonneg_or_inf_def intro: rounded_nonneg[unfolded nonneg_or_inf_def])
  then have "\<exists>u. f_min (Fin (of_int (bk_burst b))) (f_add (bk_tokens b) (f_mul (Fin d) (Fin r))) = Fin u \<and>
      0 \<le> u \<and> u \<le> of_int (bk_burst b)"
    using assms(1) by (cases "f_add (bk_tokens b) (f_mul (Fin d) (Fin r))")
      (auto simp: f_min_def nonneg_or_inf_def bucket_ok_def)
  then show ?thesis using assms(1) v cap d by (auto simp: refill_def bucket_ok_def)
qed

lemma take_token_ok:
  assumes "bucket_ok b"
  shows "bucket_ok (fst (take_token b)) \<and> bk_rate (fst (take_token b)) = bk_rate b \<and>
    bk_burst (fst (take_token b)) = bk_burst b \<and> bk_last_refill (fst (take_token b)) = bk_last_refill b"
proof -
  from assms obtain t where t: "bk_tokens b = Fin t" "0 \<le> t" "t \<le> of_int (bk_burst b)" "1 \<le> bk_burst b" "bk_burst b \<le> 2 ^ 53"
    by (auto simp: bucket_ok_def)
  show ?thesis
  proof (cases "1 \<le> t")
    case True
    have "\<exists>u. f64_of_rat (t - 1) = Fin u \<and> 0 \<le> u \<and> u \<le> of_int (bk_burst b)"
      using True t by (intro rounded_between_ints) auto
    then show ?thesis using assms t True by (auto simp: take_token_def f_sub_def bucket_ok_def)
  qed (use assms t in \<open>auto simp: take_token_def\<close>)
qed

lemma allow_state:
  assumes "bucket_ok b" "later (bk_last_refill b) now"
  shows "\<exists>b1. refill b now = Inr b1 \<and> bucket_ok b1 \<and> fst (allow_with_metadata b now wall) = fst (take_token b1)"
  using refill_ok[OF assms] by (auto simp: allow_with_metadata_def Let_def split: prod.splits)

lemma allow_ok:
  assumes "bucket_ok b" "later (bk_last_refill b) now"
  shows "bucket_ok (fst (allow_with_metadata b now wall)) \<and> bk_last_refill (fst (allow_with_metadata b now wall)) = now \<and>
    bk_rate (fst (allow_with_metadata b now wall)) = bk_rate b \<and> bk_burst (fst (allow_with_metadata b now wall)) = bk_burst b"
proof -
  from refill_ok[OF assms] obtain b1 where b1: "refill b now = Inr b1" "bucket_ok b1" "bk_last_refill b1 = now"
    "bk_rate b1 = bk_rate b" "bk_burst b1 = bk_burst b" by blast
  then have "fst (allow_with_metadata b now wall) = fst (take_token b1)"
    by (simp add: allow_with_metadata_def Let_def split: prod.splits)
  then show ?thesis using take_token_ok[OF b1(2)] b1(3-5) by simp
qed

text \<open>A request is admitted only when the refilled bucket holds a whole token.\<close>

lemma allowed_iff:
  assumes "refill b now = Inr b1" "snd (allow_with_metadata b now wall) = Inr (ok, h)"
  shows "ok = f_le (Fin 1) (bk_tokens b1)"
  using assms by (auto simp: allow_with_metadata_def take_token_def Let_def bindE_eq_Inr split: if_splits)

section \<open>Sequences of requests\<close>

text \<open>Requests at given clock readings: the bucket left behind and how many were admitted.\<close>

fun admit_all :: "bucket \<Rightarrow> (f64 \<times> int) list \<Rightarrow> bucket \<times> nat" where
  "admit_all b [] = (b, 0)"
| "admit_all b ((now, wall) # ts) =
     (let (b1, r) = bucket_allow b now wall; (b2, n) = admit_all b1 ts
      in (b2, if r = Inr True then Suc n else n))"

fun clock_ok :: "f64 \<Rightarrow> (f64 \<times> int) list \<Rightarrow> bool" where
  "clock_ok prev [] = True"
| "clock_ok prev ((now, wall) # ts) = (later prev now \<and> clock_ok now ts)"

lemma admit_all_Cons: "admit_all b ((now, wall) # ts) =
   (fst (admit_all (fst (bucket_allow b now wall)) ts),
    if snd (bucket_allow b now wall) = Inr True then Suc (snd (admit_all (fst (bucket_allow b now wall)) ts))
    else snd (admit_all (fst (bucket_allow b now wall)) ts))"
  by (simp add: Let_def split_beta)

declare admit_all.simps(2) [simp del]

lemma bucket_allow_fst: "fst (bucket_allow b now wall) = fst (allow_with_metadata b now wall)"
  by (simp add: bucket_allow_def Let_def split: prod.splits)

lemma admit_all_ok:
  assumes "bucket_ok b" "clock_ok (bk_last_refill b) ts"
  shows "bucket_ok (fst (admit_all b ts)) \<and> bk_burst (fst (admit_all b ts)) = bk_burst b"
  using assms
proof (induction ts arbitrary: b)
  case (Cons x ts)
  obtain now wall where x: "x = (now, wall)" by (cases x)
  let ?b1 = "fst (bucket_allow b now wall)"
  have "bucket_ok ?b1" "bk_last_refill ?b1 = now" "bk_burst ?b1 = bk_burst b"
    using allow_ok[OF Cons.prems(1), of now wall] Cons.prems(2) by (simp_all add: x bucket_allow_fst)
  then have "bucket_ok (fst (admit_all ?b1 ts)) \<and> bk_burst (fst (admit_all ?b1 ts)) = bk_burst b"
    using Cons.IH[of ?b1] Cons.prems(2) by (simp add: x)
  then show ?case by (simp add: x admit_all_Cons)
qed simp

text \<open>Without refill, \<open>n\<close> admissions need \<open>n\<close> tokens: subtraction rounds monotonically.\<close>

definition frozen :: "bucket \<Rightarrow> f64 \<Rightarrow> bool" where
  "frozen b now = (bk_rate b = Fin 0 \<or> now = bk_last_refill b)"

lemma refill_frozen:
  assumes "bucket_ok b" "later (bk_last_refill b) now" "frozen b now" "bk_tokens b = Fin t" "t \<le> of_int k"
    "0 \<le> k" "k \<le> 2 ^ 53"
  shows "\<exists>b1 u. refill b now = Inr b1 \<and> bk_tokens b1 = Fin u \<and> u \<le> of_int k"
proof -
  from refill_ok[OF assms(1,2)] obtain b1 where b1: "refill b now = Inr b1" "bucket_ok b1" by blast
  then obtain u where u: "bk_tokens b1 = Fin u" by (auto simp: bucket_ok_def)
  from assms(1,2) obtain r l y where v: "bk_rate b = Fin r" "0 \<le> r" "bk_last_refill b = Fin l" "now = Fin y" "0 \<le> l" "l \<le> y"
    "is_fl y" "y < 2 ^ 1024" by (auto simp: bucket_ok_def later_def)
  have "\<exists>d. f64_of_rat (y - l) = Fin d \<and> 0 \<le> d \<and> d \<le> y"
    using v small_int_range[of 0] by (intro f64_of_rat_between) (auto simp: is_fl_def)
  then have "f_mul (f_sub now (bk_last_refill b)) (bk_rate b) = Fin 0"
    using assms(3) v by (auto simp: frozen_def f_sub_def)
  then have "bk_tokens b1 = f_min (Fin (of_int (bk_burst b))) (f64_of_rat t)"
    using b1(1) assms(4) f_of_int_small[of "bk_burst b"] assms(1) by (auto simp: refill_def bucket_ok_def)
  moreover have "\<exists>w. f64_of_rat t = Fin w \<and> 0 \<le> w \<and> w \<le> of_int k"
    using assms by (intro rounded_between_ints) (auto simp: bucket_ok_def)
  ultimately have "u \<le> of_int k" using u by (auto simp: f_min_def split: if_splits)
  then show ?thesis using b1(1) u by blast
qed

lemma take_token_below:
  assumes "bucket_ok b" "bk_tokens b = Fin t" "t \<le> of_int k" "snd (take_token b)" "1 \<le> k" "k \<le> 2 ^ 53"
  shows "\<exists>u. bk_tokens (fst (take_token b)) = Fin u \<and> u \<le> of_int (k - 1)"
proof -
  have t: "1 \<le> t" using assms(2,4) by (simp add: take_token_def split: if_splits)
  then have "\<exists>u. f64_of_rat (t - 1) = Fin u \<and> 0 \<le> u \<and> u \<le> of_int (k - 1)"
    using assms(3,5,6) by (intro rounded_between_ints) auto
  then show ?thesis using assms(2) t by (auto simp: take_token_def f_sub_def)
qed

lemma admit_frozen:
  assumes "bucket_ok b" "clock_ok (bk_last_refill b) ts" "bk_tokens b = Fin t" "t \<le> of_int k" "0 \<le> k" "k \<le> 2 ^ 53"
    and "bk_rate b = Fin 0 \<or> (\<forall>(now, wall)\<in>set ts. now = bk_last_refill b)"
  shows "int (snd (admit_all b ts)) \<le> k"
  using assms
proof (induction ts arbitrary: b t k)
  case (Cons x ts)
  obtain now wall where x: "x = (now, wall)" by (cases x)
  have l: "later (bk_last_refill b) now" "clock_ok now ts" using Cons.prems(2) by (simp_all add: x)
  have fr: "frozen b now" using Cons.prems(7) by (auto simp: x frozen_def)
  from refill_frozen[OF Cons.prems(1) l(1) fr Cons.prems(3-6)] obtain b1 u where
    b1: "refill b now = Inr b1" "bk_tokens b1 = Fin u" "u \<le> of_int k" by blast
  have ok1: "bucket_ok b1" using refill_ok[OF Cons.prems(1) l(1)] b1(1) by auto
  let ?b2 = "fst (bucket_allow b now wall)"
  have b2: "?b2 = fst (take_token b1)"
    using b1(1) by (simp add: bucket_allow_fst allow_with_metadata_def Let_def split: prod.splits)
  have s: "bucket_ok ?b2" "bk_last_refill ?b2 = now" "bk_rate ?b2 = bk_rate b"
    using allow_ok[OF Cons.prems(1) l(1), of wall] by (simp_all add: bucket_allow_fst)
  have r: "bk_rate ?b2 = Fin 0 \<or> (\<forall>(now, wall)\<in>set ts. now = bk_last_refill ?b2)"
    using Cons.prems(7) s(2,3) by (auto simp: x)
  have adm: "snd (bucket_allow b now wall) = Inr True \<Longrightarrow> snd (take_token b1)"
    using b1(1) by (auto simp: bucket_allow_def allow_with_metadata_def Let_def bindE_eq_Inr split: prod.splits)
  show ?case
  proof (cases "snd (bucket_allow b now wall) = Inr True")
    case True
    then have tt: "snd (take_token b1)" by (rule adm)
    have "1 \<le> u" using tt b1(2) by (simp add: take_token_def split: if_splits)
    then have k: "1 \<le> k" using b1(3) by (metis of_int_1 of_int_le_iff order_trans)
    from take_token_below[OF ok1 b1(2,3) tt k Cons.prems(6)] obtain w where
      w: "bk_tokens ?b2 = Fin w" "w \<le> of_int (k - 1)" unfolding b2 by blast
    have "int (snd (admit_all ?b2 ts)) \<le> k - 1"
      using Cons.IH[OF s(1) _ w] l(2) s(2) r k Cons.prems(6) by simp
    then show ?thesis using True by (simp add: x admit_all_Cons)
  next
    case False
    have "\<exists>w. bk_tokens ?b2 = Fin w \<and> w \<le> of_int k"
    proof (cases "snd (take_token b1)")
      case True
      then have "1 \<le> u" using b1(2) by (simp add: take_token_def split: if_splits)
      then have k: "1 \<le> k" using b1(3) by (metis of_int_1 of_int_le_iff order_trans)
      have "of_int (k - 1) \<le> (of_int k :: rat)" by simp
      with take_token_below[OF ok1 b1(2,3) True k Cons.prems(6)] show ?thesis unfolding b2 using order_trans by blast
    qed (use b1 b2 in \<open>auto simp: take_token_def split: if_splits\<close>)
    then obtain w where w: "bk_tokens ?b2 = Fin w" "w \<le> of_int k" by blast
    have "int (snd (admit_all ?b2 ts)) \<le> k"
      using Cons.IH[OF s(1) _ w Cons.prems(5,6)] l(2) s(2) r by simp
    then show ?thesis using False by (simp add: x admit_all_Cons)
  qed
qed simp

section \<open>Properties\<close>

text \<open>
  The bucket stays within its burst. A new limiter with a burst of at most \<open>2 ^ 53\<close>, read at
  clock values that do not go back, holds after any requests a finite number of tokens between
  zero and its burst.
\<close>

theorem bucket_within_burst:
  assumes "new_bucket rate burst (Fin start) = Inr b" "0 \<le> start" "burst \<le> 2 ^ 53" "clock_ok (Fin start) ts"
  shows "\<exists>t. bk_tokens (fst (admit_all b ts)) = Fin t \<and> 0 \<le> t \<and> t \<le> of_int burst"
proof -
  from assms(1) have b: "1 \<le> burst" "f_isfinite rate" "\<not> f_lt rate (Fin 0)"
    "b = \<lparr>bk_rate = rate, bk_burst = burst, bk_tokens = Fin (of_int burst), bk_last_refill = Fin start\<rparr>"
    using f_of_int_small[of burst] assms(3)
    by (auto simp: new_bucket_def bindE_eq_Inr split: if_splits)
  then have "bucket_ok b" using assms(2,3) by (cases rate) (auto simp: bucket_ok_def f_isfinite_def)
  from admit_all_ok[OF this, of ts] show ?thesis using assms(4) b(4) by (auto simp: bucket_ok_def)
qed


text \<open>
  Keys do not share a bucket. A request for one key leaves the buckets of all others as they
  are; a key that has a bucket keeps its rate and burst whatever a later request asks for; and
  resetting one key removes only its bucket.
\<close>

theorem limiter_keys_isolated:
  "(\<forall>k'. k' \<noteq> k \<longrightarrow> map_of (fst (key_allow ls k rate burst now wall)) k' = map_of ls k') \<and>
   (\<forall>b. map_of ls k = Some b \<longrightarrow>
      map_of (fst (key_allow ls k rate burst now wall)) k = Some (fst (allow_with_metadata b now wall)) \<and>
      snd (key_allow ls k rate burst now wall) = snd (bucket_allow b now wall)) \<and>
   (\<forall>k'. k \<noteq> [] \<and> k' \<noteq> k \<longrightarrow> map_of (reset_limiters ls (Some k)) k' = map_of ls k')"
  by (auto simp: key_allow_def key_allow_with_metadata_def get_limiter_def bucket_allow_def reset_limiters_def Let_def
      split: prod.splits option.splits sum.splits)

section \<open>Witnesses\<close>

definition two_calls :: "(f64 \<times> int) list" where
  "two_calls = [(Fin 5, 100), (Fin 5, 100), (Fin 5, 100)]"

lemma two_calls_clock: "clock_ok (Fin 5) two_calls"
proof -
  have "is_fl 5" unfolding is_fl_def by code_simp
  then show ?thesis by (simp add: two_calls_def later_def)
qed

theorem bucket_within_burst_witness:
  "\<exists>b t. new_bucket (Fin 1) 2 (Fin 5) = Inr b \<and> bk_tokens (fst (admit_all b two_calls)) = Fin t \<and> 0 \<le> t \<and> t \<le> 2"
proof -
  obtain b where b: "new_bucket (Fin 1) 2 (Fin 5) = Inr b"
    using f_of_int_small[of 2] by (simp add: new_bucket_def f_isfinite_def)
  from bucket_within_burst[OF b _ _ two_calls_clock] b show ?thesis by auto
qed


definition sample_bucket :: "int \<Rightarrow> bucket" where
  "sample_bucket n = \<lparr>bk_rate = Fin 1, bk_burst = n, bk_tokens = Fin 1, bk_last_refill = Fin 0\<rparr>"

theorem limiter_keys_isolated_witness:
  "map_of (reset_limiters [(''a'', sample_bucket 1), (''b'', sample_bucket 2)] (Some ''a'')) ''b'' = Some (sample_bucket 2)"
  using limiter_keys_isolated[of "''a''" "[(''a'', sample_bucket 1), (''b'', sample_bucket 2)]"] by simp

end
