(* ===== verification/Caches.thy ===== *)
theory Caches
  imports Py_Json
begin

text \<open>
  \<^verbatim>\<open>reference/gateway/cache.py\<close> (the response cache) and \<^verbatim>\<open>reference/gateway/compression_cache.py\<close>
  (the compression cache): bounded, expiring maps from a hash of the request to a stored value.
  The digest and the monotonic clock are parameters. The locale \<open>expiring_cache\<close> states what
  their users rely on; both are interpreted.
\<close>

section \<open>What a cache promises\<close>

datatype ('k, 'v) cache_op = CGet f64 'k | CPut f64 'k 'v

text \<open>A sequence of calls, and the value last stored under each key.\<close>

definition run_op :: "(f64 \<Rightarrow> string \<Rightarrow> 'c \<Rightarrow> 'c \<times> 'v option) \<Rightarrow> (f64 \<Rightarrow> string \<Rightarrow> 'v \<Rightarrow> 'c \<Rightarrow> 'c) \<Rightarrow>
    'c \<Rightarrow> (string, 'v) cache_op \<Rightarrow> 'c" where
  "run_op lookup store c op = (case op of CGet t k \<Rightarrow> fst (lookup t k c) | CPut t k v \<Rightarrow> store t k v c)"

definition run_cache :: "(f64 \<Rightarrow> string \<Rightarrow> 'c \<Rightarrow> 'c \<times> 'v option) \<Rightarrow> (f64 \<Rightarrow> string \<Rightarrow> 'v \<Rightarrow> 'c \<Rightarrow> 'c) \<Rightarrow>
    'c \<Rightarrow> (string, 'v) cache_op list \<Rightarrow> 'c" where
  "run_cache lookup store c ops = foldl (run_op lookup store) c ops"

definition note_put :: "(string \<Rightarrow> 'v option) \<Rightarrow> (string, 'v) cache_op \<Rightarrow> string \<Rightarrow> 'v option" where
  "note_put m op = (case op of CGet _ _ \<Rightarrow> m | CPut _ k v \<Rightarrow> m(k \<mapsto> v))"

definition last_put :: "(string, 'v) cache_op list \<Rightarrow> string \<Rightarrow> 'v option" where
  "last_put ops = foldl note_put (\<lambda>_. None) ops"

lemma run_cache_snoc [simp]:
  "run_cache lookup store c (ops @ [op]) = run_op lookup store (run_cache lookup store c ops) op"
  by (simp add: run_cache_def)

lemma last_put_snoc [simp]: "last_put (ops @ [op]) = note_put (last_put ops) op"
  by (simp add: last_put_def)

locale expiring_cache =
  fixes view :: "'c \<Rightarrow> string \<Rightarrow> 'v option"
    and ok :: "'c \<Rightarrow> bool"
    and capacity :: "'c \<Rightarrow> int"
    and lookup :: "f64 \<Rightarrow> string \<Rightarrow> 'c \<Rightarrow> 'c \<times> 'v option"
    and store :: "f64 \<Rightarrow> string \<Rightarrow> 'v \<Rightarrow> 'c \<Rightarrow> 'c"
  assumes ok_bound: "ok c \<Longrightarrow> finite (dom (view c)) \<and> int (card (dom (view c))) \<le> capacity c"
    and lookup_ok: "ok c \<Longrightarrow> ok (fst (lookup t k c)) \<and> capacity (fst (lookup t k c)) = capacity c"
    and store_ok: "ok c \<Longrightarrow> ok (store t k v c) \<and> capacity (store t k v c) = capacity c"
    and lookup_view: "ok c \<Longrightarrow> view (fst (lookup t k c)) \<subseteq>\<^sub>m view c"
    and lookup_hit: "ok c \<Longrightarrow> snd (lookup t k c) = Some v \<Longrightarrow> view c k = Some v"
    and store_view: "ok c \<Longrightarrow> view (store t k v c) \<subseteq>\<^sub>m (view c)(k \<mapsto> v)"
    and store_new: "ok c \<Longrightarrow> view (store t k v c) k = Some v"
begin

lemma run_cache_ok: "ok c \<Longrightarrow> ok (run_cache lookup store c ops) \<and> capacity (run_cache lookup store c ops) = capacity c"
  by (induction ops rule: rev_induct)
    (auto simp: run_cache_def run_op_def lookup_ok store_ok split: cache_op.splits)

lemma run_cache_view:
  assumes "ok c" "view c = (\<lambda>_. None)"
  shows "view (run_cache lookup store c ops) \<subseteq>\<^sub>m last_put ops"
proof (induction ops rule: rev_induct)
  case Nil
  show ?case using assms by (simp add: run_cache_def last_put_def)
next
  case (snoc op ops)
  have k: "ok (run_cache lookup store c ops)" using run_cache_ok[OF assms(1)] by blast
  show ?case
  proof (cases op)
    case (CGet t key)
    then show ?thesis using lookup_view[OF k, of t key] snoc by (auto simp: run_op_def note_put_def intro: map_le_trans)
  next
    case (CPut t key v)
    have "(view (run_cache lookup store c ops))(key \<mapsto> v) \<subseteq>\<^sub>m (last_put ops)(key \<mapsto> v)" using snoc by (rule map_le_upd)
    then show ?thesis using store_view[OF k, of t key v] CPut by (simp add: run_op_def note_put_def map_le_trans del: fun_upd_apply)
  qed
qed

lemma cache_bound:
  "ok c \<Longrightarrow> finite (dom (view (run_cache lookup store c ops))) \<and> int (card (dom (view (run_cache lookup store c ops)))) \<le> capacity c"
  using run_cache_ok ok_bound by metis

lemma hit_is_last_put:
  assumes "ok c" "view c = (\<lambda>_. None)" "snd (lookup t k (run_cache lookup store c ops)) = Some v"
  shows "last_put ops k = Some v"
proof -
  have "view (run_cache lookup store c ops) k = Some v" using lookup_hit[OF _ assms(3)] run_cache_ok[OF assms(1)] by blast
  then show ?thesis using run_cache_view[OF assms(1,2), of ops] by (auto simp: map_le_def dom_def)
qed

end

section \<open>The response cache\<close>

record 'r response_cache =
  rc_cache :: "(string, 'r \<times> f64) dict"
  rc_max_size :: int
  rc_ttl :: f64

definition new_response_cache :: "int \<Rightarrow> int \<Rightarrow> 'r response_cache res" where
  "new_response_cache max_size ttl_seconds =
     (if max_size < 1 then Inl (PyValueError ''max_size must be at least 1'')
      else if ttl_seconds < 0 then Inl (PyValueError ''ttl_seconds must not be negative'')
      else bindE (f_of_int ttl_seconds) (\<lambda>ttl. Inr \<lparr>rc_cache = [], rc_max_size = max_size, rc_ttl = ttl\<rparr>))"

definition hash_request :: "(string \<Rightarrow> string) \<Rightarrow> pyval \<Rightarrow> string res" where
  "hash_request sha request =
     bindE (py_get request ''messages'' (PList [])) (\<lambda>messages.
     bindE (py_get request ''passthrough'' (PDict [])) (\<lambda>passthrough.
     bindE (py_get request ''governance'' (PDict [])) (\<lambda>governance.
     bindE (py_get request ''tenant_id'' (PStr ''default'')) (\<lambda>tenant.
     Inr (sha (utf8 (json_dumps True '','' '':'' (PDict [(''messages'', messages),
       (''passthrough'', passthrough), (''governance'', governance), (''tenant_id'', tenant)]))))))))"

definition rc_get_key :: "f64 \<Rightarrow> string \<Rightarrow> 'r response_cache \<Rightarrow> 'r response_cache \<times> 'r option" where
  "rc_get_key now key c =
     (case map_of (rc_cache c) key of None \<Rightarrow> (c, None)
      | Some (response, expires_at) \<Rightarrow>
          if f_le expires_at now then (c\<lparr>rc_cache := ddel key (rc_cache c)\<rparr>, None)
          else (c, Some response))"

definition rc_put_key :: "f64 \<Rightarrow> string \<Rightarrow> 'r \<Rightarrow> 'r response_cache \<Rightarrow> 'r response_cache" where
  "rc_put_key now key response c =
     (let kept = (if rc_max_size c \<le> int (length (rc_cache c)) then ddel (fst (hd (rc_cache c))) (rc_cache c)
                  else rc_cache c)
      in c\<lparr>rc_cache := dset key (response, f_add now (rc_ttl c)) kept\<rparr>)"

definition rc_get :: "(string \<Rightarrow> string) \<Rightarrow> f64 \<Rightarrow> pyval \<Rightarrow> 'r response_cache \<Rightarrow> ('r response_cache \<times> 'r option) res" where
  "rc_get sha now request c = bindE (hash_request sha request) (\<lambda>key. Inr (rc_get_key now key c))"

definition rc_put :: "(string \<Rightarrow> string) \<Rightarrow> f64 \<Rightarrow> pyval \<Rightarrow> 'r \<Rightarrow> 'r response_cache \<Rightarrow> 'r response_cache res" where
  "rc_put sha now request response c = bindE (hash_request sha request) (\<lambda>key. Inr (rc_put_key now key response c))"

definition rc_clear :: "'r response_cache \<Rightarrow> 'r response_cache" where
  "rc_clear c = c\<lparr>rc_cache := []\<rparr>"

definition rc_size :: "'r response_cache \<Rightarrow> nat" where
  "rc_size c = length (rc_cache c)"

definition rc_ok :: "'r response_cache \<Rightarrow> bool" where
  "rc_ok c = (dict_ok (rc_cache c) \<and> int (length (rc_cache c)) \<le> rc_max_size c \<and> 1 \<le> rc_max_size c)"

definition rc_view :: "'r response_cache \<Rightarrow> string \<Rightarrow> 'r option" where
  "rc_view c k = map_option fst (map_of (rc_cache c) k)"

lemma dom_view_card: "dict_ok d \<Longrightarrow> finite (dom (\<lambda>k. map_option f (map_of d k))) \<and>
    card (dom (\<lambda>k. map_option f (map_of d k))) = length d"
proof -
  assume "dict_ok d"
  moreover have "dom (\<lambda>k. map_option f (map_of d k)) = set (map fst d)"
    using dom_map_of_conv_image_fst[of d] by (auto simp: dom_def)
  ultimately show ?thesis using distinct_card[of "map fst d"] by (simp add: dict_ok_def del: set_map)
qed

lemma dict_ok_hd: "dict_ok d \<Longrightarrow> d \<noteq> [] \<Longrightarrow> ddel (fst (hd d)) d = tl d"
  by (cases d) (auto simp: dict_ok_def map_of_eq_None_iff intro: ddel_notin)

lemma rc_view_eq: "rc_view c = (\<lambda>k. map_option fst (map_of (rc_cache c) k))"
  by (rule ext) (simp add: rc_view_def)

lemma rc_put_key_ok:
  assumes "rc_ok c"
  shows "rc_ok (rc_put_key t k v c) \<and> rc_max_size (rc_put_key t k v c) = rc_max_size c"
proof -
  let ?d = "rc_cache c"
  let ?kept = "if rc_max_size c \<le> int (length ?d) then ddel (fst (hd ?d)) ?d else ?d"
  have ok: "dict_ok ?d" "int (length ?d) \<le> rc_max_size c" "1 \<le> rc_max_size c" using assms by (auto simp: rc_ok_def)
  have "dict_ok ?kept" using ok(1) by simp
  moreover have "int (length ?kept) \<le> rc_max_size c - 1"
  proof (cases "rc_max_size c \<le> int (length ?d)")
    case True
    then have "?d \<noteq> []" using ok(3) by auto
    then show ?thesis using True ok dict_ok_hd[OF ok(1)] by simp
  qed simp
  moreover have "int (length (dset k w ?kept)) \<le> int (length ?kept) + 1" for w by (simp add: length_dset)
  ultimately show ?thesis using ok(3) unfolding rc_put_key_def rc_ok_def Let_def
    by (smt (verit) dict_ok_dset response_cache.select_convs(1,2) response_cache.surjective response_cache.update_convs(1))
qed

interpretation response: expiring_cache rc_view rc_ok rc_max_size rc_get_key rc_put_key
proof (unfold_locales, goal_cases)
  case (1 c)
  then show ?case using dom_view_card[of "rc_cache c" fst] by (simp add: rc_ok_def rc_view_eq)
next
  case (2 c t k)
  have "dict_ok (rc_cache c) \<Longrightarrow> length (ddel k (rc_cache c)) \<le> length (rc_cache c)" by (simp add: length_ddel)
  then show ?case using 2 by (auto simp: rc_get_key_def rc_ok_def split: option.splits)
next
  case (3 c t k v)
  then show ?case by (rule rc_put_key_ok)
next
  case (4 c t k)
  then show ?case by (auto simp: rc_get_key_def rc_view_def map_le_def split: option.splits if_splits)
next
  case (5 c t k v)
  then show ?case by (auto simp: rc_get_key_def rc_view_def split: option.splits if_splits)
next
  case (6 c t k v)
  then show ?case by (auto simp: rc_put_key_def rc_view_def map_le_def Let_def split: if_splits)
next
  case (7 c t k v)
  then show ?case by (simp add: rc_put_key_def rc_view_def Let_def)
qed

section \<open>The compression cache\<close>

record 'r compression_cache =
  cc_max_size :: int
  cc_ttl :: int
  cc_cache :: "(string, f64 \<times> 'r) dict"
  cc_order :: "string list"
  cc_hits :: nat
  cc_misses :: nat
  cc_evictions :: nat

definition hash_messages :: "(string \<Rightarrow> string) \<Rightarrow> pyval \<Rightarrow> string" where
  "hash_messages sha messages = sha (utf8 (json_dumps True '', '' '': '' messages))"

definition new_compression_cache :: "int \<Rightarrow> int \<Rightarrow> 'r compression_cache res" where
  "new_compression_cache max_size ttl_seconds =
     (if max_size < 1 then Inl (PyValueError ''max_size must be at least 1'')
      else if ttl_seconds < 0 then Inl (PyValueError ''ttl_seconds must not be negative'')
      else Inr \<lparr>cc_max_size = max_size, cc_ttl = ttl_seconds, cc_cache = [], cc_order = [],
                cc_hits = 0, cc_misses = 0, cc_evictions = 0\<rparr>)"

text \<open>
  \<^verbatim>\<open>list.remove\<close> raises for an absent item; the invariant keeps the order and the keys equal, so
  it never does here, and \<open>remove1\<close> is its value.
\<close>

definition cc_get_key :: "f64 \<Rightarrow> string \<Rightarrow> 'r compression_cache \<Rightarrow> 'r compression_cache \<times> 'r option" where
  "cc_get_key now key c =
     (case map_of (cc_cache c) key of
        None \<Rightarrow> (c\<lparr>cc_misses := cc_misses c + 1\<rparr>, None)
      | Some (timestamp, result) \<Rightarrow>
          if f_le (Fin (of_int (cc_ttl c))) (f_sub now timestamp)
          then (c\<lparr>cc_cache := ddel key (cc_cache c), cc_order := remove1 key (cc_order c),
                  cc_misses := cc_misses c + 1, cc_evictions := cc_evictions c + 1\<rparr>, None)
          else (c\<lparr>cc_order := remove1 key (cc_order c) @ [key], cc_hits := cc_hits c + 1\<rparr>, Some result))"

definition evict_one :: "'r compression_cache \<Rightarrow> 'r compression_cache" where
  "evict_one c = (case cc_order c of [] \<Rightarrow> c
     | oldest # rest \<Rightarrow> c\<lparr>cc_order := rest, cc_cache := ddel oldest (cc_cache c), cc_evictions := cc_evictions c + 1\<rparr>)"

definition cc_put_key :: "f64 \<Rightarrow> string \<Rightarrow> 'r \<Rightarrow> 'r compression_cache \<Rightarrow> 'r compression_cache" where
  "cc_put_key now key result c =
     (let c1 = (if dhas (cc_cache c) key then c\<lparr>cc_order := remove1 key (cc_order c)\<rparr>
                else if cc_max_size c \<le> int (length (cc_cache c)) then evict_one c else c)
      in c1\<lparr>cc_cache := dset key (now, result) (cc_cache c1), cc_order := cc_order c1 @ [key]\<rparr>)"

definition cc_get :: "(string \<Rightarrow> string) \<Rightarrow> f64 \<Rightarrow> pyval \<Rightarrow> 'r compression_cache \<Rightarrow> 'r compression_cache \<times> 'r option" where
  "cc_get sha now messages c = cc_get_key now (hash_messages sha messages) c"

definition cc_put :: "(string \<Rightarrow> string) \<Rightarrow> f64 \<Rightarrow> pyval \<Rightarrow> 'r \<Rightarrow> 'r compression_cache \<Rightarrow> 'r compression_cache" where
  "cc_put sha now messages result c = cc_put_key now (hash_messages sha messages) result c"

definition cc_hit_rate :: "'r compression_cache \<Rightarrow> f64 res" where
  "cc_hit_rate c = (let total = cc_hits c + cc_misses c in
     bindE (int_truediv (int (cc_hits c)) (int (max total 1))) (\<lambda>r. Inr (f_round r 4)))"

definition cc_clear :: "'r compression_cache \<Rightarrow> 'r compression_cache" where
  "cc_clear c = c\<lparr>cc_cache := [], cc_order := [], cc_hits := 0, cc_misses := 0, cc_evictions := 0\<rparr>"

definition cc_ok :: "'r compression_cache \<Rightarrow> bool" where
  "cc_ok c = (dict_ok (cc_cache c) \<and> distinct (cc_order c) \<and> set (cc_order c) = fst ` set (cc_cache c) \<and>
     int (length (cc_cache c)) \<le> cc_max_size c \<and> 1 \<le> cc_max_size c)"

definition cc_view :: "'r compression_cache \<Rightarrow> string \<Rightarrow> 'r option" where
  "cc_view c k = map_option snd (map_of (cc_cache c) k)"

lemma cc_view_eq: "cc_view c = (\<lambda>k. map_option snd (map_of (cc_cache c) k))"
  by (rule ext) (simp add: cc_view_def)

lemma dhas_keys: "dhas d k \<longleftrightarrow> k \<in> fst ` set d"
  by (simp add: dhas_def map_of_eq_None_iff)

lemma keys_dset: "fst ` set (dset k v d) = insert k (fst ` set d)"
proof -
  have "set (map fst (dset k v d)) = insert k (set (map fst d))" by (auto simp: map_fst_dset dhas_keys)
  then show ?thesis by simp
qed

lemma keys_ddel: "fst ` set (ddel k d) = fst ` set d - {k}"
proof -
  have "set (map fst (ddel k d)) = set (map fst d) - {k}" by (simp only: map_fst_ddel set_removeAll)
  then show ?thesis by simp
qed

lemma evict_one_ok:
  assumes "cc_ok c" "cc_cache c \<noteq> []"
  shows "cc_ok (evict_one c) \<and> Suc (length (cc_cache (evict_one c))) = length (cc_cache c) \<and>
    cc_max_size (evict_one c) = cc_max_size c"
proof (cases "cc_order c")
  case Nil
  then show ?thesis using assms by (auto simp: cc_ok_def)
next
  case (Cons k ks)
  have l: "length (ddel k (cc_cache c)) = length (cc_cache c) - 1"
    using assms(1) Cons by (auto simp: length_ddel cc_ok_def dhas_keys)
  have "fst ` set (ddel k (cc_cache c)) = set ks"
    using assms(1) Cons unfolding keys_ddel by (auto simp: cc_ok_def)
  then show ?thesis using assms Cons l by (auto simp: evict_one_def cc_ok_def)
qed

lemma cc_put_key_ok:
  assumes "cc_ok c"
  shows "cc_ok (cc_put_key t k v c) \<and> cc_max_size (cc_put_key t k v c) = cc_max_size c"
proof -
  have ins: "cc_ok (c1\<lparr>cc_cache := dset k w (cc_cache c1), cc_order := cc_order c1 @ [k]\<rparr>)"
    if "cc_ok c1" "\<not> dhas (cc_cache c1) k" "int (length (cc_cache c1)) < cc_max_size c1" for c1 :: "'a compression_cache" and w
    using that by (auto simp: cc_ok_def keys_dset length_dset dhas_keys)
  show ?thesis
  proof (cases "dhas (cc_cache c) k")
    case True
    then have "cc_put_key t k v c = c\<lparr>cc_cache := dset k (t, v) (cc_cache c), cc_order := remove1 k (cc_order c) @ [k]\<rparr>"
      by (simp add: cc_put_key_def)
    then show ?thesis using assms True by (auto simp: cc_ok_def keys_dset length_dset dhas_keys)
  next
    case False
    show ?thesis
    proof (cases "cc_max_size c \<le> int (length (cc_cache c))")
      case True
      have ne: "cc_cache c \<noteq> []" using True assms by (auto simp: cc_ok_def)
      note e = evict_one_ok[OF assms ne]
      have "\<not> dhas (cc_cache (evict_one c)) k"
        using False by (auto simp: evict_one_def dhas_keys keys_ddel split: list.splits)
      moreover have "cc_put_key t k v c = (evict_one c)\<lparr>cc_cache := dset k (t, v) (cc_cache (evict_one c)),
          cc_order := cc_order (evict_one c) @ [k]\<rparr>" using True False by (simp add: cc_put_key_def Let_def)
      moreover have "int (length (cc_cache c)) \<le> cc_max_size c" using assms by (simp add: cc_ok_def)
      then have "int (length (cc_cache (evict_one c))) < cc_max_size (evict_one c)" using e by linarith
      ultimately show ?thesis using ins[of "evict_one c" "(t, v)"] e by simp
    next
      case below: False
      then show ?thesis using ins[of c] assms False by (simp add: cc_put_key_def)
    qed
  qed
qed

lemma cc_put_view: "cc_view (cc_put_key t k v c) k' =
    (if k' = k then Some v
     else if \<not> dhas (cc_cache c) k \<and> cc_max_size c \<le> int (length (cc_cache c)) \<and> cc_order c \<noteq> [] \<and> k' = hd (cc_order c)
     then None else cc_view c k')"
  by (auto simp: cc_put_key_def cc_view_def evict_one_def Let_def split: list.splits)

interpretation compression: expiring_cache cc_view cc_ok cc_max_size cc_get_key cc_put_key
proof (unfold_locales, goal_cases)
  case (1 c)
  then show ?case using dom_view_card[of "cc_cache c" snd] by (simp add: cc_ok_def cc_view_eq)
next
  case (2 c t k)
  have "dict_ok (cc_cache c) \<Longrightarrow> length (ddel k (cc_cache c)) \<le> length (cc_cache c)" by (simp add: length_ddel)
  moreover have "map_of (cc_cache c) k = Some w \<Longrightarrow> k \<in> fst ` set (cc_cache c)" for w
    by (force dest: map_of_SomeD)
  ultimately show ?case using 2 by (auto simp: cc_get_key_def cc_ok_def keys_ddel split: option.splits)
next
  case (3 c t k v)
  then show ?case by (rule cc_put_key_ok)
next
  case (4 c t k)
  then show ?case by (auto simp: cc_get_key_def cc_view_def map_le_def split: option.splits if_splits)
next
  case (5 c t k v)
  then show ?case by (auto simp: cc_get_key_def cc_view_def split: option.splits if_splits)
next
  case (6 c t k v)
  then show ?case by (auto simp: map_le_def cc_put_view split: if_splits)
next
  case (7 c t k v)
  then show ?case by (simp add: cc_put_view)
qed

section \<open>The compression cache is an LRU list\<close>

text \<open>
  The abstract cache: a list of keys with their stored value and time, least recently used
  first. A hit moves its key to the end; a store puts its key at the end and drops the first
  entry when a new key finds the list full.
\<close>

type_synonym 'r lru = "(string \<times> (f64 \<times> 'r)) list"

definition lru_get :: "int \<Rightarrow> f64 \<Rightarrow> string \<Rightarrow> 'r lru \<Rightarrow> 'r lru \<times> 'r option" where
  "lru_get ttl now k l = (case map_of l k of None \<Rightarrow> (l, None)
     | Some (t, v) \<Rightarrow> (let rest = filter (\<lambda>e. fst e \<noteq> k) l in
         if f_le (Fin (of_int ttl)) (f_sub now t) then (rest, None) else (rest @ [(k, (t, v))], Some v)))"

definition lru_put :: "int \<Rightarrow> f64 \<Rightarrow> string \<Rightarrow> 'r \<Rightarrow> 'r lru \<Rightarrow> 'r lru" where
  "lru_put cap now k v l = (if k \<in> fst ` set l then filter (\<lambda>e. fst e \<noteq> k) l
     else if cap \<le> int (length l) then tl l else l) @ [(k, (now, v))]"

definition cc_abs :: "'r compression_cache \<Rightarrow> 'r lru" where
  "cc_abs c = map (\<lambda>k. (k, the (map_of (cc_cache c) k))) (cc_order c)"

lemma cc_abs_keys: "map fst (cc_abs c) = cc_order c"
  by (simp add: cc_abs_def comp_def)

lemma cc_abs_lookup: "cc_ok c \<Longrightarrow> map_of (cc_abs c) k = map_of (cc_cache c) k"
proof -
  assume ok: "cc_ok c"
  have "map_of (cc_abs c) k = (if k \<in> set (cc_order c) then Some (the (map_of (cc_cache c) k)) else None)"
    unfolding cc_abs_def by (induction "cc_order c") (auto simp: map_of_map_keys map_of_map_restrict restrict_map_def)
  then show ?thesis using ok by (cases "map_of (cc_cache c) k") (auto simp: cc_ok_def dhas_keys[symmetric] dhas_def)
qed

lemma cc_abs_length: "cc_ok c \<Longrightarrow> length (cc_abs c) = length (cc_cache c)"
proof -
  assume ok: "cc_ok c"
  then have "card (set (cc_order c)) = card (set (map fst (cc_cache c)))" by (simp add: cc_ok_def)
  then show ?thesis using ok distinct_card[of "cc_order c"] distinct_card[of "map fst (cc_cache c)"]
    by (simp add: cc_abs_def cc_ok_def dict_ok_def del: set_map)
qed

lemma cc_abs_remove:
  "distinct (cc_order c) \<Longrightarrow> map (\<lambda>k. (k, the (map_of (cc_cache c) k))) (remove1 key (cc_order c)) =
     filter (\<lambda>e. fst e \<noteq> key) (cc_abs c)"
  by (simp add: cc_abs_def distinct_remove1_removeAll removeAll_filter_not_eq filter_map comp_def eq_commute)

lemma cc_get_refines:
  assumes "cc_ok c"
  shows "(cc_abs (fst (cc_get_key t k c)), snd (cc_get_key t k c)) = lru_get (cc_ttl c) t k (cc_abs c)"
proof (cases "map_of (cc_cache c) k")
  case None
  then show ?thesis using cc_abs_lookup[OF assms] by (simp add: cc_get_key_def lru_get_def cc_abs_def)
next
  case (Some tv)
  obtain ts v where tv: "tv = (ts, v)" by (cases tv)
  have d: "distinct (cc_order c)" using assms by (simp add: cc_ok_def)
  note r = cc_abs_remove[OF d, of k]
  have "k \<notin> set (remove1 k (cc_order c))" using d by simp
  then have del: "map (\<lambda>x. (x, the (map_of (ddel k (cc_cache c)) x))) (remove1 k (cc_order c)) =
      map (\<lambda>x. (x, the (map_of (cc_cache c) x))) (remove1 k (cc_order c))"
    by (intro map_cong) auto
  show ?thesis
  proof (cases "f_le (Fin (of_int (cc_ttl c))) (f_sub t ts)")
    case True
    have "cc_abs (fst (cc_get_key t k c)) = map (\<lambda>x. (x, the (map_of (ddel k (cc_cache c)) x))) (remove1 k (cc_order c))"
      using Some tv True by (simp add: cc_get_key_def cc_abs_def)
    then show ?thesis using Some tv True cc_abs_lookup[OF assms] unfolding del r
      by (simp add: cc_get_key_def lru_get_def Let_def)
  next
    case False
    have "cc_abs (fst (cc_get_key t k c)) = map (\<lambda>x. (x, the (map_of (cc_cache c) x))) (remove1 k (cc_order c)) @ [(k, (ts, v))]"
      using Some tv False by (simp add: cc_get_key_def cc_abs_def)
    then show ?thesis using Some tv False cc_abs_lookup[OF assms] unfolding r
      by (simp add: cc_get_key_def lru_get_def Let_def)
  qed
qed

lemma map_dset_other: "k \<notin> set ks \<Longrightarrow> map (\<lambda>x. (x, the (map_of (dset k w d) x))) ks = map (\<lambda>x. (x, the (map_of d x))) ks"
  by (intro map_cong) auto

lemma cc_put_refines:
  assumes "cc_ok c"
  shows "cc_abs (cc_put_key t k v c) = lru_put (cc_max_size c) t k v (cc_abs c)"
proof -
  have d: "distinct (cc_order c)" "set (cc_order c) = fst ` set (cc_cache c)" using assms by (simp_all add: cc_ok_def)
  have keys: "k \<in> fst ` set (cc_abs c) \<longleftrightarrow> dhas (cc_cache c) k"
    using d(2) cc_abs_keys[of c] by (metis dhas_keys list.set_map)
  show ?thesis
  proof (cases "dhas (cc_cache c) k")
    case True
    have "k \<notin> set (remove1 k (cc_order c))" using d(1) by simp
    then show ?thesis using True keys cc_abs_remove[OF d(1), of k] map_dset_other[of k "remove1 k (cc_order c)" "(t, v)" "cc_cache c"]
      by (simp add: cc_put_key_def lru_put_def cc_abs_def)
  next
    case False
    then have nk: "k \<notin> set (cc_order c)" using d(2) by (simp add: dhas_keys)
    show ?thesis
    proof (cases "cc_max_size c \<le> int (length (cc_cache c))")
      case True
      then have "cc_cache c \<noteq> []" using assms by (auto simp: cc_ok_def)
      then obtain x xs where x: "cc_order c = x # xs" using d(2) by (cases "cc_order c") auto
      have "x \<notin> set xs" using d(1) x by simp
      then have del: "map (\<lambda>y. (y, the (map_of (ddel x (cc_cache c)) y))) xs = map (\<lambda>y. (y, the (map_of (cc_cache c) y))) xs"
        by (intro map_cong) auto
      have "cc_abs (cc_put_key t k v c) =
          map (\<lambda>y. (y, the (map_of (dset k (t, v) (ddel x (cc_cache c))) y))) xs @ [(k, (t, v))]"
        using True False x by (simp add: cc_put_key_def evict_one_def cc_abs_def)
      also have "\<dots> = tl (cc_abs c) @ [(k, (t, v))]"
        using map_dset_other[of k xs "(t, v)" "ddel x (cc_cache c)"] nk x del by (simp add: cc_abs_def)
      finally show ?thesis using False keys True cc_abs_length[OF assms] by (simp add: lru_put_def)
    next
      case below: False
      have "cc_abs (cc_put_key t k v c) = map (\<lambda>y. (y, the (map_of (dset k (t, v) (cc_cache c)) y))) (cc_order c) @ [(k, (t, v))]"
        using below False by (simp add: cc_put_key_def cc_abs_def)
      then show ?thesis using False keys below cc_abs_length[OF assms] map_dset_other[OF nk, of "(t, v)" "cc_cache c"]
        by (simp add: lru_put_def cc_abs_def)
    qed
  qed
qed

section \<open>Properties\<close>

text \<open>
  C27. The compression cache is an LRU cache. On every cache the operations can build, a lookup
  and a store act on the entries, listed from the least to the most recently used, exactly as
  the abstract LRU list does: same hits, same expiries, same evictions, same order.
\<close>

theorem compression_cache_refines_lru:
  assumes "new_compression_cache max_size ttl = Inr (c0 :: 'r compression_cache)"
    and "c = run_cache cc_get_key cc_put_key c0 ops"
  shows "(cc_abs (fst (cc_get_key t k c)), snd (cc_get_key t k c)) = lru_get (cc_ttl c) t k (cc_abs c) \<and>
     cc_abs (cc_put_key t k v c) = lru_put max_size t k v (cc_abs c)"
proof -
  have "cc_ok c0" "cc_max_size c0 = max_size"
    using assms(1) by (auto simp: new_compression_cache_def cc_ok_def split: if_splits)
  then have ok: "cc_ok c" and cap: "cc_max_size c = max_size" using compression.run_cache_ok[of c0 ops] assms(2) by simp_all
  show ?thesis using cc_get_refines[OF ok] cc_put_refines[OF ok] unfolding cap by (intro conjI)
qed

text \<open>
  A hit is the last response stored. Whatever lookups and stores a response cache has seen,
  it holds at most \<open>max_size\<close> entries, and a lookup that returns a response returns the one most
  recently stored under the request's key; the same holds of the compression cache.
\<close>

theorem cache_hit_is_last_store:
  assumes "new_response_cache max_size ttl = Inr (c :: 'r response_cache)"
    and "new_compression_cache max_size ttl' = Inr (z :: 'r compression_cache)"
  shows "int (rc_size (run_cache rc_get_key rc_put_key c ops)) \<le> max_size \<and>
     (\<forall>t k v. snd (rc_get_key t k (run_cache rc_get_key rc_put_key c ops)) = Some v \<longrightarrow> last_put ops k = Some v) \<and>
     int (length (cc_cache (run_cache cc_get_key cc_put_key z ops))) \<le> max_size \<and>
     (\<forall>t k v. snd (cc_get_key t k (run_cache cc_get_key cc_put_key z ops)) = Some v \<longrightarrow> last_put ops k = Some v)"
proof -
  have c: "rc_ok c" "rc_view c = (\<lambda>_. None)" "rc_max_size c = max_size"
    using assms(1) by (auto simp: new_response_cache_def rc_ok_def rc_view_def bindE_eq_Inr split: if_splits)
  have z: "cc_ok z" "cc_view z = (\<lambda>_. None)" "cc_max_size z = max_size"
    using assms(2) by (auto simp: new_compression_cache_def cc_ok_def cc_view_def split: if_splits)
  have "rc_ok (run_cache rc_get_key rc_put_key c ops)" "rc_max_size (run_cache rc_get_key rc_put_key c ops) = max_size"
    using response.run_cache_ok[OF c(1)] c(3) by auto
  then have "int (rc_size (run_cache rc_get_key rc_put_key c ops)) \<le> max_size" by (simp add: rc_ok_def rc_size_def)
  moreover have "cc_ok (run_cache cc_get_key cc_put_key z ops)" "cc_max_size (run_cache cc_get_key cc_put_key z ops) = max_size"
    using compression.run_cache_ok[OF z(1)] z(3) by auto
  then have "int (length (cc_cache (run_cache cc_get_key cc_put_key z ops))) \<le> max_size" by (simp add: cc_ok_def)
  ultimately show ?thesis
    using response.hit_is_last_put[OF c(1,2)] compression.hit_is_last_put[OF z(1,2)] by blast
qed

text \<open>
  The response cache is first in, first out. Its documentation calls it LRU, yet a lookup
  that hits leaves the cache as it is, and a store at capacity removes the entry inserted first,
  even when the stored key is present and needs no room.
\<close>

theorem response_cache_is_fifo:
  assumes "rc_ok c" "int (rc_size c) = rc_max_size c"
  shows "(\<forall>t k v. snd (rc_get_key t k c) = Some v \<longrightarrow> fst (rc_get_key t k c) = c) \<and>
     (\<forall>t k v. map fst (rc_cache (rc_put_key t k v c)) =
        (if k \<in> set (tl (map fst (rc_cache c))) then tl (map fst (rc_cache c)) else tl (map fst (rc_cache c)) @ [k]))"
proof -
  have "rc_cache c \<noteq> []" using assms by (auto simp: rc_ok_def rc_size_def)
  then have d: "ddel (fst (hd (rc_cache c))) (rc_cache c) = tl (rc_cache c)"
    using assms(1) by (intro dict_ok_hd) (simp_all add: rc_ok_def)
  have "map fst (rc_cache (rc_put_key t k v c)) = map fst (dset k (v, f_add t (rc_ttl c)) (tl (rc_cache c)))" for t k v
    using assms(2) d by (simp add: rc_put_key_def rc_size_def)
  then have "map fst (rc_cache (rc_put_key t k v c)) =
        (if k \<in> set (tl (map fst (rc_cache c))) then tl (map fst (rc_cache c)) else tl (map fst (rc_cache c)) @ [k])" for t k v
    by (simp only: map_fst_dset dhas_keys map_tl[symmetric] list.set_map)
  moreover have "snd (rc_get_key t k c) = Some v \<longrightarrow> fst (rc_get_key t k c) = c" for t k v
    by (simp add: rc_get_key_def split: option.splits prod.splits)
  ultimately show ?thesis by blast
qed

section \<open>Witnesses\<close>

definition sample_ops :: "(string, string) cache_op list" where
  "sample_ops = [CPut (Fin 0) ''a'' ''x'', CPut (Fin 1) ''b'' ''y'', CGet (Fin 2) ''a'', CPut (Fin 3) ''c'' ''z'']"

definition sample_rc :: "string response_cache" where
  "sample_rc = \<lparr>rc_cache = [], rc_max_size = 2, rc_ttl = Fin 100\<rparr>"

definition sample_cc :: "string compression_cache" where
  "sample_cc = \<lparr>cc_max_size = 2, cc_ttl = 100, cc_cache = [], cc_order = [], cc_hits = 0, cc_misses = 0, cc_evictions = 0\<rparr>"

lemma sample_new: "new_response_cache 2 100 = Inr sample_rc" "new_compression_cache 2 100 = Inr sample_cc"
proof -
  show "new_response_cache 2 100 = Inr sample_rc"
    using f_of_int_small[of 100] by (simp add: new_response_cache_def sample_rc_def)
  show "new_compression_cache 2 100 = Inr sample_cc" by (simp add: new_compression_cache_def sample_cc_def)
qed

lemma sample_lru: "cc_order (run_cache cc_get_key cc_put_key sample_cc sample_ops) = [''a'', ''c'']"
  "map fst (rc_cache (run_cache rc_get_key rc_put_key sample_rc sample_ops)) = [''b'', ''c'']"
  "snd (cc_get_key (Fin 4) ''a'' (run_cache cc_get_key cc_put_key sample_cc sample_ops)) = Some ''x''"
  by code_simp+

theorem compression_cache_refines_lru_witness:
  "snd (lru_get 100 (Fin 4) ''a'' (cc_abs (run_cache cc_get_key cc_put_key sample_cc sample_ops))) = Some ''x''"
proof -
  have "cc_ttl (run_cache cc_get_key cc_put_key sample_cc sample_ops) = 100" by code_simp
  then show ?thesis using compression_cache_refines_lru[OF sample_new(2) refl, of "Fin 4" "''a''" sample_ops] sample_lru(3)
    by (metis snd_conv)
qed

theorem cache_hit_is_last_store_witness: "last_put sample_ops ''a'' = Some ''x''"
  using cache_hit_is_last_store[OF sample_new, of sample_ops] sample_lru(3) by blast

theorem response_cache_is_fifo_witness:
  "map fst (rc_cache (rc_put_key (Fin 4) ''c'' ''w'' (run_cache rc_get_key rc_put_key sample_rc sample_ops))) = [''c'']"
proof -
  let ?c = "run_cache rc_get_key rc_put_key sample_rc sample_ops"
  have "rc_ok ?c" "int (rc_size ?c) = rc_max_size ?c" by code_simp+
  from response_cache_is_fifo[OF this] show ?thesis unfolding sample_lru(2) by simp
qed

end
