(* ===== verification/Epistemic_State.thy ===== *)
theory Epistemic_State
  imports Epr_Ledger Epr_Epistemic
begin

text \<open>
  \<^verbatim>\<open>reference/gateway/epistemic.py\<close>: evidence, claims with their four-valued status, the log of
  status changes, and the calibration records. A run's state is the record \<open>es_state\<close>;
  evidence is a dict with the keys the code reads, a claim is a record. Evidence ids are texts,
  as the evidence schema requires. The uuid, the time and the digest are arguments.
\<close>

section \<open>Calibration\<close>

definition min_calibration_records :: nat where
  "min_calibration_records = 10"

definition fallback_calibration_factor :: f64 where
  "fallback_calibration_factor = Fin (1/2)"

type_synonym calibration = "(string, (f64 \<times> bool) list) dict"

definition records_of :: "calibration \<Rightarrow> string \<Rightarrow> (f64 \<times> bool) list" where
  "records_of cal model_id = (case map_of cal model_id of None \<Rightarrow> [] | Some rs \<Rightarrow> rs)"

definition record_outcome :: "calibration \<Rightarrow> string \<Rightarrow> f64 \<Rightarrow> bool \<Rightarrow> calibration res" where
  "record_outcome cal model_id predicted actual =
     (if \<not> (f_le (Fin 0) predicted \<and> f_le predicted (Fin 1))
      then Inl (PyValueError ''predicted_probability must be in [0, 1]'')
      else Inr (dset model_id (records_of cal model_id @ [(predicted, actual)]) cal))"

definition record_count :: "calibration \<Rightarrow> string \<Rightarrow> nat" where
  "record_count cal model_id = length (records_of cal model_id)"

text \<open>One calibration bin: sum of predictions, number of correct ones, number of records.\<close>

record bin = bin_total :: f64  bin_correct :: f64  bin_count :: nat

definition add_to_bins :: "nat \<Rightarrow> bin list \<Rightarrow> f64 \<times> bool \<Rightarrow> bin list res" where
  "add_to_bins n_bins bins r =
     (let (predicted, actual) = r in
      bindE (f_of_int (int n_bins)) (\<lambda>nf.
      bindE (py_int (PFloat (f_mul predicted nf))) (\<lambda>i.
      let idx = min i (int n_bins - 1) in
      bindE (py_at bins idx) (\<lambda>b.
      Inr (bins[nat idx := b\<lparr>bin_total := f_add (bin_total b) predicted, bin_count := bin_count b + 1,
        bin_correct := (if actual then f_add (bin_correct b) (Fin 1) else bin_correct b)\<rparr>])))))"

definition f_abs :: "f64 \<Rightarrow> f64" where
  "f_abs a = (if f_lt a (Fin 0) then f_neg a else a)"

definition bin_error :: "nat \<Rightarrow> f64 \<Rightarrow> bin \<Rightarrow> f64 res" where
  "bin_error n_records ece b =
     (if bin_count b = 0 then Inr ece else
      bindE (f_of_int (int (bin_count b))) (\<lambda>cf.
      bindE (f_div (bin_total b) cf) (\<lambda>avg_confidence.
      bindE (f_div (bin_correct b) cf) (\<lambda>avg_accuracy.
      bindE (int_truediv (int (bin_count b)) (int n_records)) (\<lambda>w.
      Inr (f_add ece (f_mul w (f_abs (f_sub avg_confidence avg_accuracy)))))))))"

definition compute_ece :: "calibration \<Rightarrow> string \<Rightarrow> nat \<Rightarrow> f64 res" where
  "compute_ece cal model_id n_bins =
     (let records = records_of cal model_id in
      if length records < min_calibration_records then Inr (Fin 0) else
      if n_bins = 0 then Inl ZeroDivisionError else
      bindE (foldE (add_to_bins n_bins)
        (replicate n_bins \<lparr>bin_total = Fin 0, bin_correct = Fin 0, bin_count = 0\<rparr>) records) (\<lambda>bins.
      foldE (bin_error (length records)) (Fin 0) bins))"

definition is_calibrated :: "calibration \<Rightarrow> string \<Rightarrow> f64 \<Rightarrow> bool res" where
  "is_calibrated cal model_id threshold =
     (if record_count cal model_id < min_calibration_records then Inr False
      else bindE (compute_ece cal model_id 10) (\<lambda>e. Inr (f_le e threshold)))"

definition f_sum :: "f64 list \<Rightarrow> f64" where
  "f_sum xs = foldl f_add (Fin 0) xs"

definition calibration_factor :: "calibration \<Rightarrow> string \<Rightarrow> f64 res" where
  "calibration_factor cal model_id =
     (let records = records_of cal model_id in
      if length records < min_calibration_records then Inr (Fin 1) else
      bindE (f_of_int (int (length records))) (\<lambda>n.
      bindE (f_div (f_sum (map fst records)) n) (\<lambda>mean_confidence.
      bindE (int_truediv (int (length (filter snd records))) (int (length records))) (\<lambda>accuracy.
      if f_eq mean_confidence (Fin 0) then Inr (Fin 1) else
      bindE (f_div accuracy mean_confidence) (\<lambda>factor.
      Inr (f_max (Fin 0) (f_min factor (Fin 1))))))))"

definition calibrated_confidence :: "calibration \<Rightarrow> string \<Rightarrow> f64 \<Rightarrow> f64 res" where
  "calibrated_confidence cal model_id raw =
     (if min_calibration_records \<le> record_count cal model_id
      then bindE (calibration_factor cal model_id) (\<lambda>factor. Inr (f_mul raw factor))
      else Inr (f_mul raw fallback_calibration_factor))"

section \<open>State\<close>

record claim =
  cl_id :: string
  cl_statement :: string
  cl_status :: string
  cl_confidence :: f64
  cl_refutation :: f64
  cl_evidence_ids :: "string list"
  cl_is_derived :: bool
  cl_premises :: "string list"

record claim_transition =
  ct_claim_id :: string
  ct_old :: string
  ct_new :: string
  ct_evidence_ids :: "string list"
  ct_reasoning :: string

record es_state =
  es_claims :: "(string, claim) dict"
  es_evidence :: "(string, pydict) dict"
  es_calibration :: calibration
  es_transitions :: "claim_transition list"

definition new_state :: es_state where
  "new_state = \<lparr>es_claims = [], es_evidence = [], es_calibration = [], es_transitions = []\<rparr>"

definition add_evidence :: "es_state \<Rightarrow> pydict \<Rightarrow> (es_state \<times> string) res" where
  "add_evidence s evidence =
     bindE (py_index (PDict evidence) ''evidence_id'') (\<lambda>v.
     case v of PStr eid \<Rightarrow> Inr (s\<lparr>es_evidence := dset eid evidence (es_evidence s)\<rparr>, eid)
     | _ \<Rightarrow> Inl PyTypeError)"

definition get_evidence :: "es_state \<Rightarrow> string \<Rightarrow> pydict option" where
  "get_evidence s eid = map_of (es_evidence s) eid"

definition missing_evidence :: "string \<Rightarrow> es_state \<Rightarrow> string list \<Rightarrow> unit res" where
  "missing_evidence what s eids = (case find (\<lambda>e. \<not> dhas (es_evidence s) e) eids of
     None \<Rightarrow> Inr () | Some e \<Rightarrow> Inl (KeyError (what @ repr_str e @ '' not found'')))"

definition evidence_strength :: "es_state \<Rightarrow> string \<Rightarrow> f64 res" where
  "evidence_strength s eid = (case map_of (es_evidence s) eid of None \<Rightarrow> Inl (KeyError eid)
     | Some ev \<Rightarrow> bindE (py_get (PDict ev) ''strength'' (PFloat (Fin (1/2)))) py_float)"

definition evidence_kind :: "es_state \<Rightarrow> string \<Rightarrow> pyval" where
  "evidence_kind s eid = (case map_of (es_evidence s) eid of None \<Rightarrow> PNone
     | Some ev \<Rightarrow> attr (PDict ev) ''kind'' (PStr ''direct_observation''))"

text \<open>The three lists the claim's loop collects: supporting strengths with their kinds, and refutations.\<close>

definition split_evidence :: "es_state \<Rightarrow> string list \<Rightarrow> ((f64 \<times> pyval) list \<times> f64 list) res" where
  "split_evidence s eids =
     foldE (\<lambda>(sups, refs) eid. bindE (evidence_strength s eid) (\<lambda>strength.
        Inr (if f_lt (Fin (1/2)) strength then (sups @ [(strength, evidence_kind s eid)], refs)
             else if f_lt strength (Fin (1/2)) then (sups, refs @ [f_sub (Fin 1) strength])
             else (sups, refs)))) ([], []) eids"

text \<open>\<^verbatim>\<open>max(xs) if xs else 0.0\<close>, \<^verbatim>\<open>min(xs) if xs else 0.0\<close>.\<close>

definition max_or_zero :: "f64 list \<Rightarrow> f64" where
  "max_or_zero xs = (case xs of [] \<Rightarrow> Fin 0 | x # r \<Rightarrow> foldl f_max x r)"

definition min_or_zero :: "f64 list \<Rightarrow> f64" where
  "min_or_zero xs = (case xs of [] \<Rightarrow> Fin 0 | x # r \<Rightarrow> foldl f_min x r)"

definition status_of :: "(string, claim) dict \<Rightarrow> string \<Rightarrow> string" where
  "status_of claims claim_id = (case map_of claims claim_id of None \<Rightarrow> ''unknown'' | Some c \<Rightarrow> cl_status c)"

text \<open>Store a claim, and log its change of status when it changes.\<close>

definition store_claim :: "es_state \<Rightarrow> claim \<Rightarrow> string list \<Rightarrow> (string \<Rightarrow> string) \<Rightarrow> es_state" where
  "store_claim s c eids reasoning =
     (let old = status_of (es_claims s) (cl_id c) in
      s\<lparr>es_transitions := (if old \<noteq> cl_status c
           then es_transitions s @ [\<lparr>ct_claim_id = cl_id c, ct_old = old, ct_new = cl_status c,
                  ct_evidence_ids = eids, ct_reasoning = reasoning old\<rparr>]
           else es_transitions s),
        es_claims := dset (cl_id c) c (es_claims s)\<rparr>)"

definition claim_reasoning :: "string \<Rightarrow> string \<Rightarrow> nat \<Rightarrow> string \<Rightarrow> string" where
  "claim_reasoning claim_id status n old = ''Claim '' @ repr_str claim_id @ '' transitioned from '' @ old @
     '' to '' @ status @ '' based on '' @ dec_nat n @ '' evidence items''"

definition refuted_reasoning :: "string \<Rightarrow> string \<Rightarrow> string" where
  "refuted_reasoning claim_id old = ''Derived claim '' @ repr_str claim_id @ '' transitioned from '' @ old @
     '' to refuted: premise refuted''"

definition derived_reasoning :: "string \<Rightarrow> string \<Rightarrow> nat \<Rightarrow> string \<Rightarrow> string" where
  "derived_reasoning claim_id status n old = ''Derived claim '' @ repr_str claim_id @ '' transitioned from '' @ old @
     '' to '' @ status @ '' based on '' @ dec_nat n @ '' premises''"

definition corroborated :: "string \<Rightarrow> (f64 \<times> pyval) list \<Rightarrow> string" where
  "corroborated raw sups =
     (if raw = ''supported'' \<and> list_all (\<lambda>(_, k). py_eq k (PStr ''model_assertion'')) sups \<and> sups \<noteq> []
      then ''unknown'' else raw)"

definition add_claim :: "es_state \<Rightarrow> string \<Rightarrow> string \<Rightarrow> string list \<Rightarrow> f64 \<Rightarrow> (es_state \<times> string) res" where
  "add_claim s claim_id statement evidence_ids threshold =
     bindE (missing_evidence ''evidence '' s evidence_ids) (\<lambda>_.
     bindE (split_evidence s evidence_ids) (\<lambda>(sups, refs).
     let support_lcb = max_or_zero (map fst sups); refutation_lcb = max_or_zero refs in
     bindE (adjudicate_fact support_lcb refutation_lcb threshold) (\<lambda>raw.
     let status = corroborated raw sups;
         c = \<lparr>cl_id = claim_id, cl_statement = statement, cl_status = status, cl_confidence = support_lcb,
              cl_refutation = refutation_lcb, cl_evidence_ids = evidence_ids, cl_is_derived = False, cl_premises = []\<rparr>
     in Inr (store_claim s c evidence_ids (claim_reasoning claim_id status (length evidence_ids)), status))))"

definition premise_status :: "f64 \<Rightarrow> string" where
  "premise_status strength = (if f_lt strength (Fin (1/2)) then ''refuted''
     else if f_lt (Fin (1/2)) strength then ''supported'' else ''unknown'')"

definition add_derived_claim :: "es_state \<Rightarrow> string \<Rightarrow> string \<Rightarrow> string list \<Rightarrow> f64 \<Rightarrow> (es_state \<times> string) res" where
  "add_derived_claim s claim_id statement premises threshold =
     (if length premises < 1 then Inl (PyValueError ''derived claim must reference at least one premise'') else
      bindE (missing_evidence ''premise evidence '' s premises) (\<lambda>_.
      bindE (mapE (evidence_strength s) premises) (\<lambda>confidences.
      if list_ex (\<lambda>x. premise_status x \<in> {''refuted'', ''conflicted''}) confidences then
        (let c = \<lparr>cl_id = claim_id, cl_statement = statement, cl_status = ''refuted'', cl_confidence = Fin 0,
              cl_refutation = Fin 1, cl_evidence_ids = [], cl_is_derived = True, cl_premises = premises\<rparr>
         in Inr (store_claim s c premises (refuted_reasoning claim_id), ''refuted''))
      else
        (let derived = min_or_zero confidences;
             status = (if f_le threshold derived then ''supported'' else ''unknown'');
             c = \<lparr>cl_id = claim_id, cl_statement = statement, cl_status = status, cl_confidence = derived,
              cl_refutation = Fin 0, cl_evidence_ids = [], cl_is_derived = True, cl_premises = premises\<rparr>
         in Inr (store_claim s c premises (derived_reasoning claim_id status (length premises)), status)))))"

definition adjudicate :: "es_state \<Rightarrow> string \<Rightarrow> string res" where
  "adjudicate s claim_id = (case map_of (es_claims s) claim_id of None \<Rightarrow> Inl (KeyError claim_id) | Some c \<Rightarrow> Inr (cl_status c))"

definition get_claim :: "es_state \<Rightarrow> string \<Rightarrow> claim option" where
  "get_claim s claim_id = map_of (es_claims s) claim_id"

definition get_claim_transitions :: "es_state \<Rightarrow> es_state \<times> claim_transition list" where
  "get_claim_transitions s = (s\<lparr>es_transitions := []\<rparr>, es_transitions s)"

definition clear_claim_transitions :: "es_state \<Rightarrow> es_state" where
  "clear_claim_transitions s = s\<lparr>es_transitions := []\<rparr>"

definition has_blocking_conflict :: "es_state \<Rightarrow> string list \<Rightarrow> bool" where
  "has_blocking_conflict s claim_ids = list_ex (\<lambda>cid. case map_of (es_claims s) cid of
     None \<Rightarrow> False | Some c \<Rightarrow> cl_status c = ''conflicted'') claim_ids"

definition conflicted_claim_ids :: "es_state \<Rightarrow> string list" where
  "conflicted_claim_ids s = map fst (filter (\<lambda>(_, c). cl_status c = ''conflicted'') (es_claims s))"

definition non_model_assertion_kinds :: "string list" where
  "non_model_assertion_kinds = [''direct_observation'', ''tool_result'', ''test_result'']"

definition can_promote_by_corroboration :: "es_state \<Rightarrow> string list \<Rightarrow> bool res" where
  "can_promote_by_corroboration s eids =
     anyE (\<lambda>eid. case map_of (es_evidence s) eid of None \<Rightarrow> Inr False
        | Some ev \<Rightarrow> py_in_strs (attr (PDict ev) ''kind'' (PStr [])) non_model_assertion_kinds) eids"

section \<open>Evidence factories\<close>

definition gateway_producer :: pyval where
  "gateway_producer = PDict [(''id'', PStr ''noerelay-gateway''), (''kind'', PStr ''service''), (''version'', PStr ''0.1.0'')]"

definition producer_or_default :: "pyval option \<Rightarrow> pyval" where
  "producer_or_default producer = (case producer of None \<Rightarrow> gateway_producer | Some p \<Rightarrow> p)"

definition make_model_assertion_evidence ::
  "(string \<Rightarrow> string) \<Rightarrow> string \<Rightarrow> string \<Rightarrow> pyval \<Rightarrow> pyval \<Rightarrow> f64 \<Rightarrow> string \<Rightarrow> pyval option \<Rightarrow> pydict" where
  "make_model_assertion_evidence sha uuid now model_id content confidence activity_id producer =
     (let content_str = (case content of PStr s \<Rightarrow> s | _ \<Rightarrow> json_compact True content) in
      [(''evidence_id'', PStr (''evidence-'' @ uuid)), (''kind'', PStr ''model_assertion''), (''produced_at'', PStr now),
       (''producer'', producer_or_default producer), (''activity_id'', PStr activity_id),
       (''content_hash'', PStr (sha256_tag sha content_str)), (''location'', PStr ''pipeline.model_inference''),
       (''strength'', PFloat confidence), (''model_id'', model_id)])"

definition make_tool_result_evidence ::
  "(string \<Rightarrow> string) \<Rightarrow> string \<Rightarrow> string \<Rightarrow> string \<Rightarrow> pyval \<Rightarrow> bool \<Rightarrow> string \<Rightarrow> pyval option \<Rightarrow> pydict" where
  "make_tool_result_evidence sha uuid now tool_name result success activity_id producer =
     (let content_str = json_compact True (PDict [(''tool'', PStr tool_name), (''success'', PBool success), (''result'', result)]) in
      [(''evidence_id'', PStr (''evidence-'' @ uuid)), (''kind'', PStr ''tool_result''), (''produced_at'', PStr now),
       (''producer'', producer_or_default producer), (''activity_id'', PStr activity_id),
       (''content_hash'', PStr (sha256_tag sha content_str)), (''location'', PStr (''pipeline.tool_result.'' @ tool_name)),
       (''strength'', PFloat (Fin (if success then 1 else 0))), (''tool_name'', PStr tool_name)])"

definition make_direct_observation_evidence ::
  "(string \<Rightarrow> string) \<Rightarrow> string \<Rightarrow> string \<Rightarrow> pyval \<Rightarrow> f64 \<Rightarrow> string \<Rightarrow> string \<Rightarrow> pyval option \<Rightarrow> pydict" where
  "make_direct_observation_evidence sha uuid now content strength activity_id location producer =
     [(''evidence_id'', PStr (''evidence-'' @ uuid)), (''kind'', PStr ''direct_observation''), (''produced_at'', PStr now),
      (''producer'', producer_or_default producer), (''activity_id'', PStr activity_id),
      (''content_hash'', PStr (sha256_tag sha (json_compact True content))), (''location'', PStr location),
      (''strength'', PFloat strength)]"

section \<open>The log of status changes\<close>

text \<open>Reading the log from the start: the status of each claim, all unknown at first.\<close>

definition replay :: "claim_transition list \<Rightarrow> string \<Rightarrow> string" where
  "replay ts = foldl (\<lambda>m t. m(ct_claim_id t := ct_new t)) (\<lambda>_. ''unknown'') ts"

text \<open>Every entry starts from the status its claim had, and changes it.\<close>

definition log_ok :: "claim_transition list \<Rightarrow> bool" where
  "log_ok ts = (\<forall>i<length ts. ct_old (ts ! i) = replay (take i ts) (ct_claim_id (ts ! i)) \<and> ct_new (ts ! i) \<noteq> ct_old (ts ! i))"

datatype es_op =
    AddEvidence pydict
  | AddClaim string string "string list" f64
  | AddDerived string string "string list" f64
  | DrainTransitions

text \<open>One call on a state whose drained log is kept; a call that raises changes nothing.\<close>

definition es_step :: "es_state \<times> claim_transition list \<Rightarrow> es_op \<Rightarrow> es_state \<times> claim_transition list" where
  "es_step sl op = (let (s, drained) = sl in case op of
     AddEvidence ev \<Rightarrow> (case add_evidence s ev of Inr (s', _) \<Rightarrow> (s', drained) | Inl _ \<Rightarrow> sl)
   | AddClaim i st es t \<Rightarrow> (case add_claim s i st es t of Inr (s', _) \<Rightarrow> (s', drained) | Inl _ \<Rightarrow> sl)
   | AddDerived i st ps t \<Rightarrow> (case add_derived_claim s i st ps t of Inr (s', _) \<Rightarrow> (s', drained) | Inl _ \<Rightarrow> sl)
   | DrainTransitions \<Rightarrow> (let (s', ts) = get_claim_transitions s in (s', drained @ ts)))"

definition es_run :: "es_op list \<Rightarrow> es_state \<times> claim_transition list" where
  "es_run ops = foldl es_step (new_state, []) ops"

lemma replay_snoc [simp]: "replay (ts @ [t]) = (replay ts)(ct_claim_id t := ct_new t)"
  by (simp add: replay_def)

lemma log_ok_snoc [simp]: "log_ok (ts @ [t]) \<longleftrightarrow>
    log_ok ts \<and> ct_old t = replay ts (ct_claim_id t) \<and> ct_new t \<noteq> ct_old t"
  unfolding log_ok_def by (auto simp: nth_append less_Suc_eq)

definition log_inv :: "es_state \<times> claim_transition list \<Rightarrow> bool" where
  "log_inv sl = (let log = snd sl @ es_transitions (fst sl) in
     log_ok log \<and> replay log = status_of (es_claims (fst sl)))"

lemma status_of_dset: "status_of (dset k c d) = (status_of d)(k := cl_status c)"
  by (auto simp: status_of_def)

lemma store_claim_claims [simp]: "es_claims (store_claim s c eids reasoning) = dset (cl_id c) c (es_claims s)"
  by (simp add: store_claim_def Let_def)

lemma store_claim_inv: "log_inv (s, drained) \<Longrightarrow> log_inv (store_claim s c eids reasoning, drained)"
  by (auto simp: log_inv_def store_claim_def Let_def status_of_dset append_assoc[symmetric] simp del: append_assoc)

lemma add_claim_Inr:
  assumes "add_claim s i st es t = Inr (s', status)"
  shows "\<exists>sups refs raw. split_evidence s es = Inr (sups, refs) \<and>
    adjudicate_fact (max_or_zero (map fst sups)) (max_or_zero refs) t = Inr raw \<and> status = corroborated raw sups \<and>
    s' = store_claim s \<lparr>cl_id = i, cl_statement = st, cl_status = status, cl_confidence = max_or_zero (map fst sups),
              cl_refutation = max_or_zero refs, cl_evidence_ids = es, cl_is_derived = False, cl_premises = []\<rparr> es
           (claim_reasoning i status (length es))"
  using assms unfolding add_claim_def bindE_eq_Inr
  by (elim exE conjE) (auto simp: Let_def bindE_eq_Inr)

lemma add_derived_Inr:
  assumes "add_derived_claim s i st ps t = Inr (s', status)"
  obtains confs c reasoning where "ps \<noteq> []" "mapE (evidence_strength s) ps = Inr confs" "s' = store_claim s c ps reasoning"
    "cl_id c = i" "cl_status c = status" "cl_premises c = ps" "cl_is_derived c"
    "if list_ex (\<lambda>x. premise_status x \<in> {''refuted'', ''conflicted''}) confs
     then status = ''refuted'' \<and> cl_confidence c = Fin 0
     else cl_confidence c = min_or_zero confs \<and> status = (if f_le t (min_or_zero confs) then ''supported'' else ''unknown'')"
proof -
  from assms obtain confs where *: "ps \<noteq> []" "mapE (evidence_strength s) ps = Inr confs"
    by (auto simp: add_derived_claim_def bindE_eq_Inr split: if_splits)
  show thesis
  proof (cases "list_ex (\<lambda>x. premise_status x \<in> {''refuted'', ''conflicted''}) confs")
    case True
    let ?c = "\<lparr>cl_id = i, cl_statement = st, cl_status = ''refuted'', cl_confidence = Fin 0,
              cl_refutation = Fin 1, cl_evidence_ids = [], cl_is_derived = True, cl_premises = ps\<rparr>"
    have "s' = store_claim s ?c ps (refuted_reasoning i)" "status = ''refuted''"
      using assms * True by (auto simp: add_derived_claim_def bindE_eq_Inr Let_def split: if_splits)
    then show thesis using * True by (intro that[of confs ?c]) auto
  next
    case False
    let ?st = "if f_le t (min_or_zero confs) then ''supported'' else ''unknown''"
    let ?c = "\<lparr>cl_id = i, cl_statement = st, cl_status = ?st, cl_confidence = min_or_zero confs,
              cl_refutation = Fin 0, cl_evidence_ids = [], cl_is_derived = True, cl_premises = ps\<rparr>"
    have "s' = store_claim s ?c ps (derived_reasoning i ?st (length ps))" "status = ?st"
      using assms * False unfolding add_derived_claim_def bindE_eq_Inr by (auto simp: Let_def bindE_eq_Inr split: if_split_asm)
    then show thesis using * False by (intro that[of confs ?c]) auto
  qed
qed

lemma es_step_inv: "log_inv sl \<Longrightarrow> log_inv (es_step sl op)"
proof -
  assume i: "log_inv sl"
  obtain s drained where sl: "sl = (s, drained)" by (cases sl)
  show ?thesis
  proof (cases op)
    case (AddEvidence ev)
    then show ?thesis using i sl
      by (auto simp: es_step_def add_evidence_def log_inv_def bindE_def Let_def split: sum.splits pyval.splits)
  next
    case (AddClaim c st es t)
    then show ?thesis using i sl
      by (auto simp: es_step_def split: sum.splits dest!: add_claim_Inr intro: store_claim_inv)
  next
    case (AddDerived c st es t)
    then show ?thesis using i sl
      by (auto simp: es_step_def split: sum.splits elim!: add_derived_Inr intro: store_claim_inv)
  next
    case DrainTransitions
    then show ?thesis using i sl by (simp add: es_step_def get_claim_transitions_def log_inv_def)
  qed
qed

section \<open>Evidence and verdicts\<close>

lemma split_evidence_inv:
  assumes "split_evidence s es = Inr (sups, refs)"
  shows "(\<forall>x k. (x, k) \<in> set sups \<longrightarrow> (\<exists>e\<in>set es. evidence_strength s e = Inr x \<and> f_lt (Fin (1/2)) x \<and> k = evidence_kind s e)) \<and>
    (\<forall>y\<in>set refs. \<exists>e\<in>set es. \<exists>x. evidence_strength s e = Inr x \<and> f_lt x (Fin (1/2)) \<and> y = f_sub (Fin 1) x)"
proof -
  define P where "P sr \<longleftrightarrow> (\<forall>x k. (x, k) \<in> set (fst sr) \<longrightarrow>
        (\<exists>e\<in>set es. evidence_strength s e = Inr x \<and> f_lt (Fin (1/2)) x \<and> k = evidence_kind s e)) \<and>
    (\<forall>y\<in>set (snd sr). \<exists>e\<in>set es. \<exists>x. evidence_strength s e = Inr x \<and> f_lt x (Fin (1/2)) \<and> y = f_sub (Fin 1) x)"
    for sr :: "(f64 \<times> pyval) list \<times> f64 list"
  have "P (sups, refs)"
    using assms unfolding split_evidence_def
    by (rule foldE_inv) (simp add: P_def, fastforce simp: P_def bindE_eq_Inr split: if_splits)
  then show ?thesis by (simp add: P_def)
qed

lemma split_evidence_complete:
  assumes "split_evidence s es = Inr (sups, refs)" "e \<in> set es"
  shows "\<exists>x. evidence_strength s e = Inr x \<and> (f_lt (Fin (1/2)) x \<longrightarrow> (x, evidence_kind s e) \<in> set sups) \<and>
    (f_lt x (Fin (1/2)) \<longrightarrow> f_sub (Fin 1) x \<in> set refs)"
proof -
  let ?f = "\<lambda>(sups, refs) eid. bindE (evidence_strength s eid) (\<lambda>strength.
        Inr (if f_lt (Fin (1/2)) strength then (sups @ [(strength, evidence_kind s eid)], refs)
             else if f_lt strength (Fin (1/2)) then (sups, refs @ [f_sub (Fin 1) strength])
             else (sups, refs)))"
  have "set sups0 \<subseteq> set sups \<and> set refs0 \<subseteq> set refs \<and> (\<forall>e\<in>set es. \<exists>x. evidence_strength s e = Inr x \<and>
      (f_lt (Fin (1/2)) x \<longrightarrow> (x, evidence_kind s e) \<in> set sups) \<and> (f_lt x (Fin (1/2)) \<longrightarrow> f_sub (Fin 1) x \<in> set refs))"
    if "foldE ?f (sups0, refs0) es = Inr (sups, refs)" for sups0 refs0
    using that
  proof (induction es arbitrary: sups0 refs0)
    case (Cons e es)
    from Cons.prems obtain x where x: "evidence_strength s e = Inr x" by (auto simp: bindE_eq_Inr)
    show ?case
    proof (cases "f_lt (Fin (1/2)) x")
      case True
      then show ?thesis using Cons.prems x Cons.IH[of "sups0 @ [(x, evidence_kind s e)]" refs0] f_lt_trans[OF True] by fastforce
    next
      case False
      then show ?thesis using Cons.prems x Cons.IH[of sups0 "refs0 @ [f_sub (Fin 1) x]"] Cons.IH[of sups0 refs0]
        by (cases "f_lt x (Fin (1/2))") auto
    qed
  qed simp
  from this[of "[]" "[]"] assms show ?thesis by (auto simp: split_evidence_def)
qed

lemma f_le_min: "f_le c (f_min x y) \<Longrightarrow> f_le c x \<and> (y \<noteq> NaN \<longrightarrow> f_le c y)"
  by (cases c; cases x; cases y) (auto simp: f_min_def f_le_def split: if_splits)

lemma foldl_f_min: "f_le c (foldl f_min x xs) \<Longrightarrow> f_le c x \<and> (\<forall>y\<in>set xs. y \<noteq> NaN \<longrightarrow> f_le c y)"
proof (induction xs arbitrary: x)
  case (Cons y ys)
  from Cons.IH[of "f_min x y"] Cons.prems have "f_le c (f_min x y)" "\<forall>z\<in>set ys. z \<noteq> NaN \<longrightarrow> f_le c z"
    by simp_all
  with f_le_min[of c x y] show ?case by simp
qed simp

lemma min_or_zero_le: "f_le c (min_or_zero xs) \<Longrightarrow> x \<in> set xs \<Longrightarrow> x \<noteq> NaN \<Longrightarrow> f_le c x"
  using foldl_f_min[of c "hd xs" "tl xs"] by (cases xs) (auto simp: min_or_zero_def)

lemma foldl_f_min_le: "x \<noteq> NaN \<Longrightarrow> \<forall>y\<in>set xs. y \<noteq> NaN \<Longrightarrow>
    f_le (foldl f_min x xs) x \<and> (\<forall>y\<in>set xs. f_le (foldl f_min x xs) y)"
proof (induction xs arbitrary: x)
  case (Cons y ys)
  have n: "f_min x y \<noteq> NaN" "f_le (f_min x y) x" "f_le (f_min x y) y"
    using Cons.prems f_not_lt[of y x] f_le_refl[of x] f_le_refl[of y] by (auto simp: f_min_def f_le_def)
  from Cons.IH[OF n(1)] Cons.prems have i: "f_le (foldl f_min (f_min x y) ys) (f_min x y)"
    "\<forall>z\<in>set ys. f_le (foldl f_min (f_min x y) ys) z" by auto
  show ?case using i f_le_trans[OF i(1) n(2)] f_le_trans[OF i(1) n(3)] by simp
qed (simp add: f_le_refl)

lemma min_or_zero_le_all:
  "\<forall>x\<in>set xs. x \<noteq> NaN \<Longrightarrow> x \<in> set xs \<Longrightarrow> f_le (min_or_zero xs) x"
  using foldl_f_min_le[of "hd xs" "tl xs"] by (cases xs) (auto simp: min_or_zero_def)

section \<open>Properties\<close>

text \<open>
  C33. The log of status changes is faithful. After any calls, with the log drained as often as
  one likes, reading the drained and the pending entries in order gives the present status of
  every claim, each entry starts from the status its claim had at that point, and each entry
  is a change.
\<close>

theorem claim_log_replays:
  "log_ok (snd (es_run ops) @ es_transitions (fst (es_run ops))) \<and>
   replay (snd (es_run ops) @ es_transitions (fst (es_run ops))) = status_of (es_claims (fst (es_run ops)))"
proof -
  have "log_inv (es_run ops)"
  proof (induction ops rule: rev_induct)
    case Nil
    show ?case by (auto simp: es_run_def log_inv_def new_state_def log_ok_def replay_def status_of_def)
  next
    case (snoc op ops)
    then show ?case by (simp add: es_run_def es_step_inv)
  qed
  then show ?thesis by (simp add: log_inv_def Let_def)
qed


text \<open>
  Derived claims are bounded by their premises. A derived claim names at least one premise;
  it is refuted as soon as one premise has a strength below one half, and a supported one has
  every premise at one half or above and at the threshold or above; with no premise of NaN
  strength, its confidence never exceeds the strength of any premise it was not refuted by.
\<close>

theorem derived_claims_bounded:
  assumes "add_derived_claim s i st ps t = Inr (s', status)"
  shows "ps \<noteq> [] \<and> adjudicate s' i = Inr status \<and>
     (\<exists>confs c. mapE (evidence_strength s) ps = Inr confs \<and> get_claim s' i = Some c \<and> cl_premises c = ps \<and>
        (status = ''refuted'' \<longleftrightarrow> (\<exists>x\<in>set confs. f_lt x (Fin (1/2)))) \<and>
        (status = ''supported'' \<longrightarrow> (\<forall>x\<in>set confs. x \<noteq> NaN \<longrightarrow> f_le (Fin (1/2)) x \<and> f_le t x)) \<and>
        ((\<forall>x\<in>set confs. x \<noteq> NaN) \<and> status \<noteq> ''refuted'' \<longrightarrow> (\<forall>x\<in>set confs. f_le (cl_confidence c) x)))"
proof -
  from assms obtain confs c reasoning where d: "ps \<noteq> []" "mapE (evidence_strength s) ps = Inr confs"
    "s' = store_claim s c ps reasoning" "cl_id c = i" "cl_status c = status" "cl_premises c = ps"
    "if list_ex (\<lambda>x. premise_status x \<in> {''refuted'', ''conflicted''}) confs
     then status = ''refuted'' \<and> cl_confidence c = Fin 0
     else cl_confidence c = min_or_zero confs \<and> status = (if f_le t (min_or_zero confs) then ''supported'' else ''unknown'')"
    by (rule add_derived_Inr)
  have g: "get_claim s' i = Some c" "adjudicate s' i = Inr status"
    using d(4,5) by (auto simp: get_claim_def adjudicate_def d(3))
  have ref: "list_ex (\<lambda>x. premise_status x \<in> {''refuted'', ''conflicted''}) confs \<longleftrightarrow> (\<exists>x\<in>set confs. f_lt x (Fin (1/2)))"
    by (auto simp: list_ex_iff premise_status_def split: if_splits)
  have "status = ''refuted'' \<longleftrightarrow> (\<exists>x\<in>set confs. f_lt x (Fin (1/2)))"
    using d(7) unfolding ref by (auto split: if_splits)
  moreover have "f_le (Fin (1/2)) x \<and> f_le t x" if "status = ''supported''" "x \<in> set confs" "x \<noteq> NaN" for x
  proof -
    have n: "\<not> (\<exists>x\<in>set confs. f_lt x (Fin (1/2)))" "f_le t (min_or_zero confs)"
      using d(7) that(1) unfolding ref by (auto split: if_splits)
    then show ?thesis using that(2,3) f_not_lt[of x "Fin (1/2)"] min_or_zero_le[OF n(2) that(2,3)] by simp
  qed
  moreover have "f_le (cl_confidence c) x" if "\<forall>x\<in>set confs. x \<noteq> NaN" "status \<noteq> ''refuted''" "x \<in> set confs" for x
    using d(7) that min_or_zero_le_all unfolding ref by (auto split: if_splits)
  ultimately show ?thesis using d(1,2,6) g by blast
qed

text \<open>
  Conflicts are found. A claim is listed as conflicted exactly when its stored status is, and
  the acceptance block holds for a set of claims exactly when one of them is listed.
\<close>

theorem conflicts_are_found:
  assumes "dict_ok (es_claims s)"
  shows "(cid \<in> set (conflicted_claim_ids s) \<longleftrightarrow> adjudicate s cid = Inr ''conflicted'') \<and>
     (has_blocking_conflict s cids \<longleftrightarrow> set cids \<inter> set (conflicted_claim_ids s) \<noteq> {})"
proof -
  have c: "c \<in> set (conflicted_claim_ids s) \<longleftrightarrow> (\<exists>r. map_of (es_claims s) c = Some r \<and> cl_status r = ''conflicted'')" for c
    using map_of_iff_in_set[OF assms] by (force simp: conflicted_claim_ids_def)
  have "adjudicate s cid = Inr ''conflicted'' \<longleftrightarrow> cid \<in> set (conflicted_claim_ids s)"
    unfolding c by (auto simp: adjudicate_def split: option.splits)
  moreover have "has_blocking_conflict s cids \<longleftrightarrow> (\<exists>x\<in>set cids. x \<in> set (conflicted_claim_ids s))"
    unfolding c has_blocking_conflict_def list_ex_iff by (intro bex_cong refl) (simp split: option.splits)
  ultimately show ?thesis by auto
qed

section \<open>Calibration arithmetic\<close>

lemma calibration_factor_unit: "calibration_factor cal m = Inr f \<Longrightarrow> \<exists>x. f = Fin x \<and> 0 \<le> x \<and> x \<le> 1"
proof -
  have "\<exists>x. f_max (Fin 0) (f_min q (Fin 1)) = Fin x \<and> 0 \<le> x \<and> x \<le> 1" for q
    by (cases q) (auto simp: f_max_def f_min_def)
  then show "calibration_factor cal m = Inr f \<Longrightarrow> \<exists>x. f = Fin x \<and> 0 \<le> x \<and> x \<le> 1"
    by (auto simp: calibration_factor_def Let_def bindE_eq_Inr split: if_splits)
qed

lemma f_mul_unit_le:
  assumes "0 \<le> r" "r \<le> 1" "is_fl r" "0 \<le> x" "x \<le> 1"
  shows "\<exists>y. f_mul (Fin r) (Fin x) = Fin y \<and> 0 \<le> y \<and> y \<le> r"
proof -
  have b: "(1::rat) < 2 ^ 1024" "- (2 ^ 1024) < (0::rat)"
    by (rule one_less_power) (simp, simp, simp only: neg_less_0_iff_less zero_less_power zero_less_numeral)
  have "r * x \<le> r" using assms by (simp add: mult_left_le)
  moreover have "r < 2 ^ 1024" using assms(2) b(1) by (rule le_less_trans)
  ultimately show ?thesis using assms b(2) f64_of_rat_between[of 0 "r * x" r] by (simp add: is_fl_def)
qed

definition records_ok :: "calibration \<Rightarrow> bool" where
  "records_ok cal = (\<forall>m. \<forall>(p, a)\<in>set (records_of cal m). in_unit p)"

lemma record_outcome_ok: "records_ok cal \<Longrightarrow> record_outcome cal m p a = Inr cal' \<Longrightarrow> records_ok cal'"
proof -
  assume ok: "records_ok cal" and "record_outcome cal m p a = Inr cal'"
  then have "in_unit p" "cal' = dset m (records_of cal m @ [(p, a)]) cal"
    by (auto simp: record_outcome_def split: if_splits)
  then have "records_of cal' x = (if x = m then records_of cal m @ [(p, a)] else records_of cal x)" for x
    by (simp add: records_of_def)
  then show "records_ok cal'" using ok \<open>in_unit p\<close> by (fastforce simp: records_ok_def split: if_splits)
qed

lemma bin_index:
  assumes "in_unit p" "0 < n" "n \<le> 2 ^ 53" "length bins = n"
  shows "\<exists>i<n. add_to_bins n bins (p, a) = Inr (bins[i := (bins ! i)\<lparr>bin_total := f_add (bin_total (bins ! i)) p,
      bin_count := bin_count (bins ! i) + 1,
      bin_correct := (if a then f_add (bin_correct (bins ! i)) (Fin 1) else bin_correct (bins ! i))\<rparr>])"
proof -
  from assms(1) obtain r where r: "p = Fin r" "0 \<le> r" "r \<le> 1" using f_le_unit_Fin by blast
  have k: "0 \<le> int n" "int n \<le> 2 ^ 53" using assms(3) by (simp_all add: of_nat_le_iff[symmetric])
  have nf: "f_of_int (int n) = Inr (Fin (of_int (int n)))" by (rule f_of_int_small[OF k])
  have "0 \<le> r * of_int (int n)" "r * of_int (int n) \<le> of_int (int n)" using r k(1) by (simp_all add: mult_left_le_one_le)
  moreover have "(of_int (int n) :: rat) < 2 ^ 1024"
  proof -
    have "(of_int (int n) :: rat) \<le> of_int (2 ^ 53)" using k(2) by (simp only: of_int_le_iff)
    also have "\<dots> < 2 ^ 1024" by simp
    finally show ?thesis .
  qed
  moreover have "- (2 ^ 1024) < (0::rat)" by (simp only: neg_less_0_iff_less zero_less_power zero_less_numeral)
  ultimately obtain y where y: "f_mul p (Fin (of_int (int n))) = Fin y" "0 \<le> y"
    using f64_of_rat_between[of 0 "r * of_int (int n)" "of_int (int n)"] fl_of_int[OF k] r by auto
  let ?i = "min (trunc y) (int n - 1)"
  have i: "0 \<le> ?i" "nat ?i < n" using y(2) assms(2) by (auto simp: trunc_def)
  show ?thesis using i assms(4) y nf
    by (intro exI[of _ "nat ?i"]) (simp add: add_to_bins_def py_int_def py_at_def Let_def)
qed

lemma fill_bins:
  assumes "\<forall>(p, a)\<in>set rs. in_unit p" "0 < n" "n \<le> 2 ^ 53" "length bins = n" "\<forall>b\<in>set bins. bin_count b \<le> k"
  shows "\<exists>bins'. foldE (add_to_bins n) bins rs = Inr bins' \<and> length bins' = n \<and> (\<forall>b\<in>set bins'. bin_count b \<le> k + length rs)"
  using assms
proof (induction rs arbitrary: bins k)
  case (Cons r rs)
  obtain p a where r: "r = (p, a)" by (cases r)
  from bin_index[of p n bins a] Cons.prems obtain i where i: "i < n"
    "add_to_bins n bins r = Inr (bins[i := (bins ! i)\<lparr>bin_total := f_add (bin_total (bins ! i)) p,
      bin_count := bin_count (bins ! i) + 1,
      bin_correct := (if a then f_add (bin_correct (bins ! i)) (Fin 1) else bin_correct (bins ! i))\<rparr>])"
    by (auto simp: r)
  let ?b = "bins[i := (bins ! i)\<lparr>bin_total := f_add (bin_total (bins ! i)) p,
      bin_count := bin_count (bins ! i) + 1,
      bin_correct := (if a then f_add (bin_correct (bins ! i)) (Fin 1) else bin_correct (bins ! i))\<rparr>]"
  have "\<forall>b\<in>set ?b. bin_count b \<le> Suc k"
    using Cons.prems(4,5) i(1) by (auto dest!: set_update_subset_insert[THEN subsetD] intro: le_SucI)
  from Cons.IH[of ?b "Suc k"] this Cons.prems show ?case using i by auto
qed simp

lemma bin_error_returns:
  assumes "bin_count b \<le> n" "n \<le> 2 ^ 53"
  shows "\<exists>e. bin_error n ece b = Inr e"
proof (cases "bin_count b = 0")
  case False
  have k: "0 \<le> int (bin_count b)" "int (bin_count b) \<le> 2 ^ 53"
    using assms order_trans[OF assms] by (simp_all add: of_nat_le_iff[symmetric])
  have q: "0 \<le> (of_int (int (bin_count b)) / of_int (int n) :: rat)" "(of_int (int (bin_count b)) / of_int (int n) :: rat) \<le> 1"
    using assms(1) by (auto simp: divide_le_eq_1)
  have "n \<noteq> 0" using False assms(1) by simp
  then obtain w where w: "int_truediv (int (bin_count b)) (int n) = Inr w"
    using f64_of_rat_unit[OF q] by (auto simp: int_truediv_def)
  have d: "\<exists>y. f_div x (Fin (of_int (int (bin_count b)))) = Inr y" for x
    using False by (cases x) auto
  show ?thesis using False w d[of "bin_total b"] d[of "bin_correct b"] f_of_int_small[OF k] by (auto simp: bin_error_def)
qed (simp add: bin_error_def)

text \<open>
  Calibration arithmetic. Recorded predictions stay probabilities; with them the expected
  calibration error is computed without raising for any positive number of bins (no record
  falls outside the bins), and calibrating a raw confidence gives a number between zero and
  that confidence, with few records or many.
\<close>

theorem calibration_only_discounts:
  assumes "records_ok cal" "length (records_of cal m) \<le> 2 ^ 53" "0 < n_bins" "n_bins \<le> 2 ^ 53"
    and "0 \<le> r" "r \<le> 1" "is_fl r"
  shows "(\<forall>p a cal'. record_outcome cal m p a = Inr cal' \<longrightarrow> records_ok cal') \<and>
     returns (compute_ece cal m n_bins) \<and>
     (\<forall>c. calibrated_confidence cal m (Fin r) = Inr c \<longrightarrow> (\<exists>x. c = Fin x \<and> 0 \<le> x \<and> x \<le> r))"
proof (intro conjI allI impI)
  show "records_ok cal'" if "record_outcome cal m p a = Inr cal'" for p a cal'
    using record_outcome_ok[OF assms(1) that] .
  let ?bins = "replicate n_bins \<lparr>bin_total = Fin 0, bin_correct = Fin 0, bin_count = 0\<rparr>"
  from fill_bins[of "records_of cal m" n_bins ?bins 0] assms(1,3,4) obtain bins where
    b: "foldE (add_to_bins n_bins) ?bins (records_of cal m) = Inr bins" "\<forall>b\<in>set bins. bin_count b \<le> length (records_of cal m)"
    by (auto simp: records_ok_def)
  have "\<exists>e. foldE (bin_error (length (records_of cal m))) (Fin 0) bins = Inr e \<and> True"
    using bin_error_returns[OF _ assms(2)] b(2) by (intro foldE_returns) auto
  then show "returns (compute_ece cal m n_bins)"
    using b(1) assms(3) by (auto simp: compute_ece_def Let_def)
  show "\<exists>x. c = Fin x \<and> 0 \<le> x \<and> x \<le> r" if "calibrated_confidence cal m (Fin r) = Inr c" for c
  proof -
    from that consider f where "calibration_factor cal m = Inr f" "c = f_mul (Fin r) f"
      | "c = f_mul (Fin r) (Fin (1/2))"
      by (auto simp: calibrated_confidence_def bindE_eq_Inr fallback_calibration_factor_def split: if_splits)
    then show ?thesis
    proof cases
      case 1
      then show ?thesis using calibration_factor_unit[OF 1(1)] f_mul_unit_le[OF assms(5-7)] by auto
    next
      case 2
      then show ?thesis using f_mul_unit_le[OF assms(5-7), of "1/2"] by auto
    qed
  qed
qed

section \<open>Witnesses\<close>

definition obs :: "string \<Rightarrow> string \<Rightarrow> f64 \<Rightarrow> pydict" where
  "obs i k x = [(''evidence_id'', PStr i), (''kind'', PStr k), (''strength'', PFloat x)]"

definition sample_state :: es_state where
  "sample_state = new_state\<lparr>es_evidence := [(''m'', obs ''m'' ''model_assertion'' (Fin (9/10))),
     (''t'', obs ''t'' ''tool_result'' (Fin (3/4))), (''n'', obs ''n'' ''tool_result'' (Fin (1/4)))]\<rparr>"

definition claimed_state :: es_state where
  "claimed_state = (case add_claim sample_state ''c'' ''s'' [''m'', ''t''] (Fin (1/2)) of Inr (s, _) \<Rightarrow> s | Inl _ \<Rightarrow> sample_state)"

lemma claimed: "add_claim sample_state ''c'' ''s'' [''m'', ''t''] (Fin (1/2)) = Inr (claimed_state, ''supported'')"
  by code_simp

lemma asserted: "snd (the (case add_claim sample_state ''c'' ''s'' [''m''] (Fin (1/2)) of Inr x \<Rightarrow> Some x | Inl _ \<Rightarrow> None)) = ''unknown''"
  by code_simp

definition derived_state :: es_state where
  "derived_state = (case add_derived_claim sample_state ''d'' ''s'' [''m'', ''t''] (Fin (1/2)) of Inr (s, _) \<Rightarrow> s | Inl _ \<Rightarrow> sample_state)"

lemma derived: "add_derived_claim sample_state ''d'' ''s'' [''m'', ''t''] (Fin (1/2)) = Inr (derived_state, ''supported'')"
  by code_simp


theorem derived_claims_bounded_witness: "adjudicate derived_state ''d'' = Inr ''supported''"
  using derived_claims_bounded[OF derived] by simp

theorem conflicts_are_found_witness: "\<not> has_blocking_conflict claimed_state [''c'']"
proof -
  have "dict_ok (es_claims claimed_state)" "conflicted_claim_ids claimed_state = []" by code_simp+
  then show ?thesis using conflicts_are_found[of claimed_state "''c''" "[''c'']"] by simp
qed

theorem claim_log_replays_witness: "replay (snd (es_run []) @ es_transitions (fst (es_run []))) ''c'' = ''unknown''"
  using claim_log_replays[of "[]"] by (simp add: es_run_def new_state_def status_of_def)

theorem calibration_only_discounts_witness:
  "returns (compute_ece [] ''m'' 10) \<and>
   (\<exists>x. calibrated_confidence [] ''m'' (Fin 1) = Inr (Fin x) \<and> 0 \<le> x \<and> x \<le> 1)"
proof -
  have a: "records_ok []" "length (records_of [] ''m'') \<le> 2 ^ 53" by (simp_all add: records_ok_def records_of_def)
  obtain c where c: "calibrated_confidence [] ''m'' (Fin 1) = Inr c"
    by (simp add: calibrated_confidence_def record_count_def records_of_def min_calibration_records_def)
  show ?thesis using calibration_only_discounts[OF a, of 10 1] c by (auto simp: is_fl_def)
qed

end
