(* ===== verification/Rbac.thy ===== *)
theory Rbac
  imports Py_Val
begin

text \<open>
  \<^verbatim>\<open>reference/gateway/rbac.py\<close>: roles, permissions, the table of routes and the permission check.
  The two enums are datatypes, the two tables are lists in the order of the source. A reason
  that lists several missing permissions lists them in the order of the route's entry; the
  code iterates a set there, whose order Python leaves open.
\<close>

section \<open>Roles and permissions\<close>

datatype role = Admin | Operator | Auditor | Developer | Viewer

datatype permission =
    P_ChatCompletions
  | P_ResponsesApi
  | P_ModelsRead
  | P_ModelsWrite
  | P_ModelsLifecycle
  | P_BenchmarksRead
  | P_BenchmarksWrite
  | P_GovernanceRead
  | P_GovernanceWrite
  | P_RoutingRead
  | P_RoutingWrite
  | P_ApiKeysRead
  | P_ApiKeysWrite
  | P_AnalyticsRead
  | P_Export
  | P_Import
  | P_AdminBackup
  | P_AdminRestore
  | P_LedgerRead
  | P_LedgerVerify
  | P_AuditRead
  | P_TenantsRead
  | P_TenantsWrite
  | P_AlertsRead
  | P_AlertsWrite
  | P_WebhooksRead
  | P_WebhooksWrite
  | P_ConfigRead
  | P_ConfigWrite
  | P_SecretsRead
  | P_SecretsWrite

definition role_of :: "string \<Rightarrow> role option" where
  "role_of s = map_of [(''admin'', Admin), (''operator'', Operator), (''auditor'', Auditor), (''developer'', Developer), (''viewer'', Viewer)] s"

definition all_permissions :: "permission list" where
  "all_permissions = [P_ChatCompletions, P_ResponsesApi, P_ModelsRead, P_ModelsWrite, P_ModelsLifecycle, P_BenchmarksRead, P_BenchmarksWrite, P_GovernanceRead, P_GovernanceWrite, P_RoutingRead, P_RoutingWrite, P_ApiKeysRead, P_ApiKeysWrite, P_AnalyticsRead, P_Export, P_Import, P_AdminBackup, P_AdminRestore, P_LedgerRead, P_LedgerVerify, P_AuditRead, P_TenantsRead, P_TenantsWrite, P_AlertsRead, P_AlertsWrite, P_WebhooksRead, P_WebhooksWrite, P_ConfigRead, P_ConfigWrite, P_SecretsRead, P_SecretsWrite]"

fun permission_value :: "permission \<Rightarrow> string" where
  "permission_value P_ChatCompletions = ''chat.completions''"
| "permission_value P_ResponsesApi = ''responses.api''"
| "permission_value P_ModelsRead = ''models.read''"
| "permission_value P_ModelsWrite = ''models.write''"
| "permission_value P_ModelsLifecycle = ''models.lifecycle''"
| "permission_value P_BenchmarksRead = ''benchmarks.read''"
| "permission_value P_BenchmarksWrite = ''benchmarks.write''"
| "permission_value P_GovernanceRead = ''governance.read''"
| "permission_value P_GovernanceWrite = ''governance.write''"
| "permission_value P_RoutingRead = ''routing.read''"
| "permission_value P_RoutingWrite = ''routing.write''"
| "permission_value P_ApiKeysRead = ''api_keys.read''"
| "permission_value P_ApiKeysWrite = ''api_keys.write''"
| "permission_value P_AnalyticsRead = ''analytics.read''"
| "permission_value P_Export = ''export''"
| "permission_value P_Import = ''import''"
| "permission_value P_AdminBackup = ''admin.backup''"
| "permission_value P_AdminRestore = ''admin.restore''"
| "permission_value P_LedgerRead = ''ledger.read''"
| "permission_value P_LedgerVerify = ''ledger.verify''"
| "permission_value P_AuditRead = ''audit.read''"
| "permission_value P_TenantsRead = ''tenants.read''"
| "permission_value P_TenantsWrite = ''tenants.write''"
| "permission_value P_AlertsRead = ''alerts.read''"
| "permission_value P_AlertsWrite = ''alerts.write''"
| "permission_value P_WebhooksRead = ''webhooks.read''"
| "permission_value P_WebhooksWrite = ''webhooks.write''"
| "permission_value P_ConfigRead = ''config.read''"
| "permission_value P_ConfigWrite = ''config.write''"
| "permission_value P_SecretsRead = ''secrets.read''"
| "permission_value P_SecretsWrite = ''secrets.write''"

fun role_permissions :: "role \<Rightarrow> permission list" where
  "role_permissions Admin = all_permissions"
| "role_permissions Operator = [P_ChatCompletions, P_ResponsesApi, P_ModelsRead, P_ModelsWrite, P_ModelsLifecycle, P_BenchmarksRead, P_BenchmarksWrite, P_GovernanceRead, P_RoutingRead, P_LedgerRead]"
| "role_permissions Auditor = [P_ModelsRead, P_BenchmarksRead, P_GovernanceRead, P_RoutingRead, P_AnalyticsRead, P_Export, P_LedgerRead, P_LedgerVerify, P_AuditRead, P_TenantsRead, P_AlertsRead, P_WebhooksRead, P_ConfigRead]"
| "role_permissions Developer = [P_ChatCompletions, P_ResponsesApi, P_ModelsRead, P_BenchmarksRead, P_BenchmarksWrite, P_GovernanceRead, P_RoutingRead]"
| "role_permissions Viewer = [P_ModelsRead, P_GovernanceRead, P_RoutingRead]"

section \<open>Routes\<close>

type_synonym route = "string \<times> string \<times> permission list"

definition route_table :: "route list" where
  "route_table = [
     (''POST'', ''/v1/chat/completions'', [P_ChatCompletions]),
     (''POST'', ''/v1/responses'', [P_ResponsesApi]),
     (''GET'', ''/v1/models'', [P_ModelsRead]),
     (''GET'', ''/models/local'', [P_ModelsRead]),
     (''GET'', ''/models/recommendations'', [P_ModelsLifecycle]),
     (''GET'', ''/models/cloud'', [P_ModelsRead]),
     (''GET'', ''/models/ranking'', [P_ModelsLifecycle]),
     (''POST'', ''/v1/models/pull'', [P_ModelsWrite]),
     (''DELETE'', ''/v1/models'', [P_ModelsWrite]),
     (''POST'', ''/v1/models/register'', [P_ModelsWrite]),
     (''POST'', ''/v1/benchmarks/run'', [P_BenchmarksWrite]),
     (''GET'', ''/v1/benchmarks/results'', [P_BenchmarksRead]),
     (''GET'', ''/v1/benchmarks/compare'', [P_BenchmarksRead]),
     (''GET'', ''/v1/governance/policy'', [P_GovernanceRead]),
     (''POST'', ''/v1/governance/policy'', [P_GovernanceWrite]),
     (''PUT'', ''/v1/governance/policy'', [P_GovernanceWrite]),
     (''GET'', ''/v1/governance/risk-classes'', [P_GovernanceRead]),
     (''PUT'', ''/v1/governance/risk-class'', [P_GovernanceWrite]),
     (''GET'', ''/v1/routing/portfolio'', [P_RoutingRead]),
     (''POST'', ''/v1/routing/candidates'', [P_RoutingWrite]),
     (''DELETE'', ''/v1/routing/candidates'', [P_RoutingWrite]),
     (''PUT'', ''/v1/routing/candidates'', [P_RoutingWrite]),
     (''POST'', ''/v1/api-keys'', [P_ApiKeysWrite]),
     (''GET'', ''/v1/api-keys'', [P_ApiKeysRead]),
     (''DELETE'', ''/v1/api-keys'', [P_ApiKeysWrite]),
     (''GET'', ''/v1/analytics/cost'', [P_AnalyticsRead]),
     (''GET'', ''/v1/analytics/performance'', [P_AnalyticsRead]),
     (''GET'', ''/v1/analytics/usage'', [P_AnalyticsRead]),
     (''GET'', ''/v1/analytics/escalations'', [P_AnalyticsRead]),
     (''GET'', ''/v1/analytics/audit'', [P_AuditRead]),
     (''GET'', ''/v1/analytics/benchmarks'', [P_AnalyticsRead]),
     (''GET'', ''/v1/analytics/dashboard'', [P_AnalyticsRead]),
     (''GET'', ''/v1/export'', [P_Export]),
     (''POST'', ''/v1/import'', [P_Import]),
     (''POST'', ''/v1/admin/backup'', [P_AdminBackup]),
     (''POST'', ''/v1/admin/restore'', [P_AdminRestore]),
     (''GET'', ''/v1/admin/export'', [P_Export]),
     (''GET'', ''/v1/epr/ledger/events'', [P_LedgerRead]),
     (''GET'', ''/v1/epr/ledger/chain'', [P_LedgerRead]),
     (''POST'', ''/v1/epr/ledger/verify'', [P_LedgerVerify]),
     (''GET'', ''/v1/epr/ledger/export'', [P_LedgerRead]),
     (''GET'', ''/v1/epr/runs'', [P_LedgerRead]),
     (''GET'', ''/v1/epr/runs/trace'', [P_LedgerRead]),
     (''GET'', ''/v1/tenants'', [P_TenantsRead]),
     (''POST'', ''/v1/tenants'', [P_TenantsWrite]),
     (''PUT'', ''/v1/tenants'', [P_TenantsWrite]),
     (''DELETE'', ''/v1/tenants'', [P_TenantsWrite]),
     (''GET'', ''/v1/tenants/budget'', [P_TenantsRead]),
     (''GET'', ''/v1/alerts'', [P_AlertsRead]),
     (''POST'', ''/v1/alerts/acknowledge'', [P_AlertsWrite]),
     (''POST'', ''/v1/alerts/rules'', [P_AlertsWrite]),
     (''POST'', ''/v1/alerts'', [P_AlertsWrite]),
     (''GET'', ''/v1/webhooks'', [P_WebhooksRead]),
     (''POST'', ''/v1/webhooks'', [P_WebhooksWrite]),
     (''DELETE'', ''/v1/webhooks'', [P_WebhooksWrite]),
     (''GET'', ''/v1/config'', [P_ConfigRead]),
     (''PUT'', ''/v1/config'', [P_ConfigWrite]),
     (''GET'', ''/v1/secrets'', [P_SecretsRead]),
     (''POST'', ''/v1/secrets'', [P_SecretsWrite]),
     (''DELETE'', ''/v1/secrets'', [P_SecretsWrite]),
     (''GET'', ''/health'', []),
     (''GET'', ''/ready'', []),
     (''GET'', ''/metrics'', [P_AnalyticsRead]),
     (''GET'', ''/cache/stats'', [P_AnalyticsRead]),
     (''GET'', ''/dashboard'', [P_AnalyticsRead])]"

section \<open>The check\<close>

definition get_required_permissions :: "string \<Rightarrow> string \<Rightarrow> permission list option" where
  "get_required_permissions http_method path =
     (case find (\<lambda>(m, p, _). m = http_method \<and> p = path) route_table of
        Some (_, _, perms) \<Rightarrow> Some perms
      | None \<Rightarrow> (case find (\<lambda>(m, base, _). m = http_method \<and> startswith path base \<and> base \<noteq> path \<and>
            (startswith (drop (length base) path) ''/'' \<or> drop (length base) path = [])) route_table of
          Some (_, _, perms) \<Rightarrow> Some perms
        | None \<Rightarrow> None))"

definition check_permission :: "string \<Rightarrow> string \<Rightarrow> string option \<Rightarrow> bool \<times> string option" where
  "check_permission http_method path role =
     (case role of None \<Rightarrow> (True, None)
      | Some name \<Rightarrow> (case role_of name of
          None \<Rightarrow> (False, Some (''unknown role '' @ [CHR 0x27] @ name @ [CHR 0x27]))
        | Some r \<Rightarrow> (case get_required_permissions http_method path of
            None \<Rightarrow> if r = Admin then (True, None) else (False, Some ''route is not available to this role'')
          | Some required \<Rightarrow>
              if required = [] then (True, None) else
              (let missing = filter (\<lambda>p. p \<notin> set (role_permissions r)) (remdups required) in
               if missing \<noteq> []
               then (False, Some (''role '' @ [CHR 0x27] @ name @ [CHR 0x27] @ '' lacks permissions: '' @
                       join '', '' (map permission_value missing)))
               else (True, None)))))"

section \<open>What a route requires\<close>

text \<open>A path is covered by an entry when it is the entry's path or lies below it.\<close>

definition covers :: "string \<Rightarrow> string \<Rightarrow> bool" where
  "covers base path = (path = base \<or> startswith path (base @ ''/''))"

lemma startswith_drop: "startswith path base \<Longrightarrow> startswith (drop (length base) path) ''/'' \<Longrightarrow> startswith path (base @ ''/'')"
  by (auto simp: startswith_iff)

lemma required_entry:
  assumes "get_required_permissions http_method path = Some perms"
  shows "\<exists>base. (http_method, base, perms) \<in> set route_table \<and> covers base path"
proof (cases "find (\<lambda>(m, p, _). m = http_method \<and> p = path) route_table")
  case (Some e)
  obtain m p q where m: "e = (m, p, q)" by (cases e)
  have "q = perms" using assms Some m by (simp add: get_required_permissions_def)
  then show ?thesis using find_SomeD[OF Some] m by (auto simp: covers_def)
next
  case None
  let ?q = "\<lambda>(m, base, _). m = http_method \<and> startswith path base \<and> base \<noteq> path \<and>
            (startswith (drop (length base) path) ''/'' \<or> drop (length base) path = [])"
  from None assms obtain e where e: "find ?q route_table = Some e"
    by (cases "find ?q route_table") (simp_all add: get_required_permissions_def)
  obtain m p q where m: "e = (m, p, q)" by (cases e)
  have "q = perms" using assms None e m by (simp add: get_required_permissions_def)
  moreover have "e \<in> set route_table" "?q e" using find_SomeD[OF e] by blast+
  ultimately have *: "(http_method, p, perms) \<in> set route_table" "startswith path p" "p \<noteq> path"
    "startswith (drop (length p) path) ''/'' \<or> drop (length p) path = []" using m by simp_all
  have "startswith path (p @ ''/'')"
    using *(4)
  proof
    assume "drop (length p) path = []"
    then show ?thesis using *(2,3) by (auto simp: startswith_iff)
  qed (rule startswith_drop[OF *(2)])
  then show ?thesis using *(1) by (auto simp: covers_def)
qed

lemma check_permission_allowed:
  "fst (check_permission http_method path (Some name)) \<longleftrightarrow>
     (\<exists>r. role_of name = Some r \<and> (case get_required_permissions http_method path of
        None \<Rightarrow> r = Admin | Some required \<Rightarrow> set required \<subseteq> set (role_permissions r)))"
  by (auto simp: check_permission_def Let_def filter_empty_conv split: option.splits)

text \<open>Facts of the tables, each by evaluation of the whole table.\<close>

definition writing_methods :: "string list" where
  "writing_methods = [''POST'', ''PUT'', ''DELETE'', ''PATCH'']"

lemma admin_has_all: "p \<in> set (role_permissions Admin)"
  by (cases p) (simp_all add: all_permissions_def)

lemma readers_write_nothing: "list_all (\<lambda>(m, p, perms). m \<in> set writing_methods \<longrightarrow>
     perms \<noteq> [] \<and> (list_all (\<lambda>q. q \<in> set (role_permissions Auditor)) perms \<longrightarrow> p = ''/v1/epr/ledger/verify'') \<and>
     \<not> list_all (\<lambda>q. q \<in> set (role_permissions Viewer)) perms) route_table"
  by code_simp

lemma public_routes: "list_all (\<lambda>(m, p, perms). perms = [] \<longrightarrow> m = ''GET'' \<and> (p = ''/health'' \<or> p = ''/ready'')) route_table"
  by code_simp

section \<open>Properties\<close>

text \<open>
  Access is denied by default. With a role given, a request is allowed exactly when the name
  is one of the five roles and either the route has an entry (its own or, failing that, of a
  path above it) whose permissions the role all has, or the role is admin; so an unknown role
  is always denied, an unmapped route is denied to everyone but admin, and admin is denied
  nothing.
\<close>

theorem access_denied_by_default:
  "(fst (check_permission http_method path (Some name)) \<longleftrightarrow>
     (\<exists>r. role_of name = Some r \<and>
        (r = Admin \<or> (\<exists>required. get_required_permissions http_method path = Some required \<and>
           set required \<subseteq> set (role_permissions r))))) \<and>
   (\<forall>perms. get_required_permissions http_method path = Some perms \<longrightarrow>
      (\<exists>base. (http_method, base, perms) \<in> set route_table \<and> covers base path))"
  using required_entry admin_has_all unfolding check_permission_allowed
  by (auto split: option.splits)

text \<open>
  Readers cannot write. For any path at all, a viewer is never allowed a POST, PUT, DELETE or
  PATCH request, and an auditor only the verification of a ledger.
\<close>

theorem readers_cannot_write:
  assumes "http_method \<in> {''POST'', ''PUT'', ''DELETE'', ''PATCH''}"
  shows "\<not> fst (check_permission http_method path (Some ''viewer'')) \<and>
     (fst (check_permission http_method path (Some ''auditor'')) \<longrightarrow> covers ''/v1/epr/ledger/verify'' path)"
proof -
  have m: "http_method \<in> set writing_methods" using assms by (simp add: writing_methods_def)
  have row: "perms \<noteq> [] \<and> (set perms \<subseteq> set (role_permissions Auditor) \<longrightarrow> p = ''/v1/epr/ledger/verify'') \<and>
      \<not> set perms \<subseteq> set (role_permissions Viewer)" if "(http_method, p, perms) \<in> set route_table" for p perms
    using readers_write_nothing that m unfolding list_all_iff by (auto simp: subset_iff)
  show ?thesis
  proof (cases "get_required_permissions http_method path")
    case None
    then show ?thesis unfolding check_permission_allowed by (simp add: role_of_def)
  next
    case (Some perms)
    from required_entry[OF Some] obtain p where "(http_method, p, perms) \<in> set route_table" "covers p path" by blast
    with row Some show ?thesis unfolding check_permission_allowed by (auto simp: role_of_def)
  qed
qed

section \<open>Witnesses\<close>

lemma verify_route: "get_required_permissions ''POST'' ''/v1/epr/ledger/verify'' = Some [P_LedgerVerify]"
  by code_simp

theorem readers_cannot_write_witness: "\<not> fst (check_permission ''PUT'' ''/v1/tenants'' (Some ''viewer''))"
  using readers_cannot_write[of "''PUT''" "''/v1/tenants''"] by simp

theorem access_denied_by_default_witness:
  "fst (check_permission ''POST'' ''/v1/epr/ledger/verify'' (Some ''auditor''))"
  using access_denied_by_default[of "''POST''" "''/v1/epr/ledger/verify''" "''auditor''"] verify_route
  by (simp add: role_of_def)

end
