(* ===== verification/Access.thy ===== *)
theory Access
  imports Rbac Rate_Limit Py_Json
begin

text \<open>
  Who may call: the API-key table of \<^verbatim>\<open>reference/gateway/database.py\<close>,
  \<^verbatim>\<open>reference/gateway/api_keys.py\<close> and \<^verbatim>\<open>reference/gateway/auth.py\<close>. The table is the list of
  its rows in insertion order, with the \<^verbatim>\<open>PRIMARY KEY\<close> and \<^verbatim>\<open>UNIQUE\<close> constraints of its schema
  checked by the insertions, which otherwise raise. The digest, the uuids, the random tokens and
  the clocks are arguments.
\<close>

section \<open>The table of API keys\<close>

record api_key_row =
  ak_key_id :: string
  ak_key_hash :: string
  ak_name :: string
  ak_role :: string
  ak_created_at :: string
  ak_revoked_at :: "string option"
  ak_last_used_at :: "string option"
  ak_rate :: f64
  ak_burst :: int
  ak_tenant :: string

type_synonym key_table = "api_key_row list"

definition insert_key :: "key_table \<Rightarrow> api_key_row \<Rightarrow> key_table res" where
  "insert_key db row =
     (if list_ex (\<lambda>r. ak_key_id r = ak_key_id row) db then Inl (DbError ''UNIQUE constraint failed: api_keys.key_id'')
      else if list_ex (\<lambda>r. ak_key_hash r = ak_key_hash row) db then Inl (DbError ''UNIQUE constraint failed: api_keys.key_hash'')
      else Inr (db @ [row]))"

definition create_api_key ::
  "string \<Rightarrow> string \<Rightarrow> key_table \<Rightarrow> string \<Rightarrow> string \<Rightarrow> string \<Rightarrow> f64 \<Rightarrow> int \<Rightarrow> string \<Rightarrow> (key_table \<times> string) res" where
  "create_api_key uuid now db key_hash name role rate burst tenant =
     (let key_id = ''key-'' @ uuid in
      bindE (insert_key db \<lparr>ak_key_id = key_id, ak_key_hash = key_hash, ak_name = name, ak_role = role,
        ak_created_at = now, ak_revoked_at = None, ak_last_used_at = None, ak_rate = rate, ak_burst = burst,
        ak_tenant = tenant\<rparr>) (\<lambda>db'. Inr (db', key_id)))"

definition get_api_key_by_hash :: "key_table \<Rightarrow> string \<Rightarrow> api_key_row option" where
  "get_api_key_by_hash db key_hash = find (\<lambda>r. ak_key_hash r = key_hash \<and> ak_revoked_at r = None) db"

definition revoke_api_key :: "string \<Rightarrow> key_table \<Rightarrow> string \<Rightarrow> key_table \<times> bool" where
  "revoke_api_key now db key_id =
     (map (\<lambda>r. if ak_key_id r = key_id \<and> ak_revoked_at r = None then r\<lparr>ak_revoked_at := Some now\<rparr> else r) db,
      list_ex (\<lambda>r. ak_key_id r = key_id \<and> ak_revoked_at r = None) db)"

text \<open>The rotation is one transaction: a failed insertion leaves the table as it was.\<close>

definition rotate_api_key :: "string \<Rightarrow> string \<Rightarrow> key_table \<Rightarrow> string \<Rightarrow> string \<Rightarrow> (key_table \<times> api_key_row option) res" where
  "rotate_api_key uuid now db key_id new_key_hash =
     (case find (\<lambda>r. ak_key_id r = key_id \<and> ak_revoked_at r = None) db of
        None \<Rightarrow> Inr (db, None)
      | Some old \<Rightarrow>
          (let row = \<lparr>ak_key_id = ''key-'' @ uuid, ak_key_hash = new_key_hash, ak_name = ak_name old,
             ak_role = ak_role old, ak_created_at = now, ak_revoked_at = None, ak_last_used_at = None,
             ak_rate = ak_rate old, ak_burst = ak_burst old, ak_tenant = ak_tenant old\<rparr>
           in bindE (insert_key (map (\<lambda>r. if ak_key_id r = key_id then r\<lparr>ak_revoked_at := Some now\<rparr> else r) db) row)
                (\<lambda>db'. Inr (db', Some row))))"

definition update_last_used :: "string \<Rightarrow> key_table \<Rightarrow> string \<Rightarrow> key_table" where
  "update_last_used now db key_id = map (\<lambda>r. if ak_key_id r = key_id then r\<lparr>ak_last_used_at := Some now\<rparr> else r) db"

section \<open>The key manager\<close>

definition alnum_char :: "char \<Rightarrow> bool" where
  "alnum_char c = (let n = (of_char c :: nat) in
     48 \<le> n \<and> n \<le> 57 \<or> 65 \<le> n \<and> n \<le> 90 \<or> 97 \<le> n \<and> n \<le> 122)"

definition safe_identifier :: "string \<Rightarrow> bool" where
  "safe_identifier s = (case s of [] \<Rightarrow> False
     | c # r \<Rightarrow> alnum_char c \<and> length r \<le> 127 \<and> list_all (\<lambda>d. alnum_char d \<or> d \<in> set ''._:-'') r)"

text \<open>The checks of the arguments of \<open>create_key\<close>, in their order, and the values stored.\<close>

definition check_key_arguments ::
  "pyval \<Rightarrow> pyval \<Rightarrow> pyval \<Rightarrow> pyval \<Rightarrow> pyval \<Rightarrow> (string \<times> string \<times> f64 \<times> int \<times> string) res" where
  "check_key_arguments name role rate burst tenant =
     bindE (case name of PStr s \<Rightarrow> if strip s = [] \<or> 128 < length s
              then Inl (PyValueError ''name must be a non-empty string of at most 128 characters'') else Inr s
            | _ \<Rightarrow> Inl (PyValueError ''name must be a non-empty string of at most 128 characters'')) (\<lambda>n.
     bindE (case role of PStr s \<Rightarrow> if role_of s = None
              then Inl (PyValueError ''role must be one of admin, operator, auditor, developer, viewer'') else Inr s
            | _ \<Rightarrow> Inl (PyValueError ''role must be one of admin, operator, auditor, developer, viewer'')) (\<lambda>ro.
     bindE (if is_bool rate \<or> \<not> is_number rate then Inl (PyValueError ''rate_limit_rate must be a finite non-negative number'')
            else bindE (py_float rate) (\<lambda>f. if \<not> f_isfinite f \<or> f_lt f (Fin 0)
              then Inl (PyValueError ''rate_limit_rate must be a finite non-negative number'') else Inr f)) (\<lambda>ra.
     bindE (case burst of PInt i \<Rightarrow> if 1 \<le> i \<and> i \<le> 1000000 then Inr i
              else Inl (PyValueError ''rate_limit_burst must be an integer from 1 to 1000000'')
            | _ \<Rightarrow> Inl (PyValueError ''rate_limit_burst must be an integer from 1 to 1000000'')) (\<lambda>bu.
     bindE (case tenant of PStr s \<Rightarrow> if safe_identifier s then Inr s
              else Inl (PyValueError ''tenant_id contains unsupported characters'')
            | _ \<Rightarrow> Inl (PyValueError ''tenant_id contains unsupported characters'')) (\<lambda>te.
     Inr (n, ro, ra, bu, te))))))"

definition hash_key :: "(string \<Rightarrow> string) \<Rightarrow> string \<Rightarrow> string" where
  "hash_key sha raw_key = sha (utf8 raw_key)"

record created_key =
  cr_key_id :: string
  cr_key :: string
  cr_name :: string
  cr_role :: string

definition create_key ::
  "(string \<Rightarrow> string) \<Rightarrow> string \<Rightarrow> string \<Rightarrow> string \<Rightarrow> key_table \<Rightarrow> pyval \<Rightarrow> pyval \<Rightarrow> pyval \<Rightarrow> pyval \<Rightarrow> pyval \<Rightarrow>
    (key_table \<times> created_key) res" where
  "create_key sha token uuid now db name role rate burst tenant =
     bindE (check_key_arguments name role rate burst tenant) (\<lambda>(n, ro, ra, bu, te).
     let raw_key = ''noerelay-'' @ token in
     bindE (create_api_key uuid now db (hash_key sha raw_key) n ro ra bu te) (\<lambda>(db', key_id).
     Inr (db', \<lparr>cr_key_id = key_id, cr_key = raw_key, cr_name = n, cr_role = ro\<rparr>)))"

definition authenticate_key :: "(string \<Rightarrow> string) \<Rightarrow> string \<Rightarrow> key_table \<Rightarrow> string \<Rightarrow> key_table \<times> api_key_row option" where
  "authenticate_key sha now db raw_key =
     (case get_api_key_by_hash db (hash_key sha raw_key) of
        Some info \<Rightarrow> if ak_revoked_at info = None \<or> ak_revoked_at info = Some []
                     then (update_last_used now db (ak_key_id info), Some info) else (db, None)
      | None \<Rightarrow> (db, None))"

definition revoke_key :: "string \<Rightarrow> key_table \<Rightarrow> string \<Rightarrow> key_table \<times> bool" where
  "revoke_key now db key_id = revoke_api_key now db key_id"

definition rotate_key :: "(string \<Rightarrow> string) \<Rightarrow> string \<Rightarrow> string \<Rightarrow> string \<Rightarrow> key_table \<Rightarrow> string \<Rightarrow> (key_table \<times> api_key_row \<times> string) res" where
  "rotate_key sha token uuid now db key_id =
     (let raw_key = ''noerelay-'' @ token in
      bindE (rotate_api_key uuid now db key_id (hash_key sha raw_key)) (\<lambda>(db', rotated).
      case rotated of None \<Rightarrow> Inl (PyValueError (''key '' @ key_id @ '' not found''))
      | Some row \<Rightarrow> Inr (db', row, raw_key)))"

section \<open>Authentication of a request\<close>

datatype key_info = RowInfo api_key_row | EnvInfo string f64 int

fun info_key_id :: "key_info \<Rightarrow> string" where
  "info_key_id (RowInfo r) = ak_key_id r" | "info_key_id (EnvInfo i _ _) = i"

fun info_role :: "key_info \<Rightarrow> string" where
  "info_role (RowInfo r) = ak_role r" | "info_role (EnvInfo _ _ _) = ''admin''"

fun info_tenant :: "key_info \<Rightarrow> string" where
  "info_tenant (RowInfo r) = ak_tenant r" | "info_tenant (EnvInfo _ _ _) = ''default''"

fun info_rate :: "key_info \<Rightarrow> f64" where
  "info_rate (RowInfo r) = ak_rate r" | "info_rate (EnvInfo _ f _) = f"

fun info_burst :: "key_info \<Rightarrow> int" where
  "info_burst (RowInfo r) = ak_burst r" | "info_burst (EnvInfo _ _ b) = b"

record auth_middleware =
  am_api_keys :: "string list"
  am_manager :: bool
  am_limiter :: bool
  am_require :: bool
  am_default_rate :: f64
  am_default_burst :: int

text \<open>What a request changes: the key table of the manager and the buckets of the limiter.\<close>

record auth_state =
  as_keys :: key_table
  as_limiters :: limiters

definition new_middleware :: "string list \<Rightarrow> bool \<Rightarrow> bool \<Rightarrow> bool option \<Rightarrow> f64 \<Rightarrow> int \<Rightarrow> auth_middleware" where
  "new_middleware api_keys has_manager has_limiter require_auth rate burst =
     \<lparr>am_api_keys = api_keys, am_manager = has_manager, am_limiter = has_limiter,
      am_require = (case require_auth of None \<Rightarrow> api_keys \<noteq> [] \<or> has_manager | Some b \<Rightarrow> b),
      am_default_rate = rate, am_default_burst = burst\<rparr>"

definition keys_of_csv :: "string option \<Rightarrow> string list" where
  "keys_of_csv raw = (case raw of None \<Rightarrow> []
     | Some s \<Rightarrow> if s = [] then [] else uniq (filter (\<lambda>k. k \<noteq> []) (map strip (split_char CHR '','' s))))"

definition from_csv :: "string option \<Rightarrow> auth_middleware" where
  "from_csv raw = new_middleware (keys_of_csv raw) False False None (Fin 10) 20"

text \<open>\<^verbatim>\<open>s.partition(' ')\<close>: the parts around the first space, and whether there is one.\<close>

definition partition_space :: "string \<Rightarrow> string \<times> bool \<times> string" where
  "partition_space s = (takeWhile (\<lambda>c. c \<noteq> CHR '' '') s, CHR '' '' \<in> set s, tl (dropWhile (\<lambda>c. c \<noteq> CHR '' '') s))"

definition bearer_token :: "(string, string) dict \<Rightarrow> string option" where
  "bearer_token headers =
     (let auth = (case map_of headers ''Authorization'' of None \<Rightarrow> [] | Some a \<Rightarrow> a);
          (scheme, separator, token) = partition_space auth in
      if \<not> separator \<or> lower scheme \<noteq> ''bearer'' \<or> strip token = [] then None else Some (strip token))"

definition is_ascii :: "string \<Rightarrow> bool" where
  "is_ascii s = list_all (\<lambda>c. (of_char c :: nat) < 128) s"

text \<open>\<^verbatim>\<open>hmac.compare_digest\<close> of two texts accepts ASCII only.\<close>

definition compare_digest :: "string \<Rightarrow> string \<Rightarrow> bool res" where
  "compare_digest a b = (if is_ascii a \<and> is_ascii b then Inr (a = b) else Inl PyTypeError)"

definition matches_configured :: "string list \<Rightarrow> string \<Rightarrow> bool res" where
  "matches_configured api_keys raw_key =
     foldE (\<lambda>matched k. bindE (compare_digest raw_key k) (\<lambda>b. Inr (b \<or> matched))) False api_keys"

record auth_result =
  ar_allowed :: bool
  ar_info :: "key_info option"
  ar_rate_limited :: bool
  ar_headers :: "(string \<times> string) list"

definition plain_result :: "bool \<Rightarrow> auth_result" where
  "plain_result b = \<lparr>ar_allowed = b, ar_info = None, ar_rate_limited = False, ar_headers = []\<rparr>"

definition env_key_id :: "(string \<Rightarrow> string) \<Rightarrow> string \<Rightarrow> string" where
  "env_key_id sha raw_key = ''env-'' @ take 16 (hash_key sha raw_key)"

definition authenticate_with_metadata ::
  "(string \<Rightarrow> string) \<Rightarrow> string \<Rightarrow> f64 \<Rightarrow> int \<Rightarrow> auth_middleware \<Rightarrow> auth_state \<Rightarrow> (string, string) dict \<Rightarrow> auth_state \<times> auth_result res" where
  "authenticate_with_metadata sha now clk wall m st headers =
     (case bearer_token headers of
        None \<Rightarrow> (st, Inr (plain_result (\<not> am_require m)))
      | Some raw_key \<Rightarrow>
          if \<not> am_require m \<and> am_api_keys m = [] \<and> \<not> am_manager m then (st, Inr (plain_result True)) else
          (let (keys, found) = (if am_manager m then authenticate_key sha now (as_keys st) raw_key else (as_keys st, None));
               st1 = st\<lparr>as_keys := keys\<rparr> in
           case (case found of Some row \<Rightarrow> Inr (Some (RowInfo row))
                 | None \<Rightarrow> if am_api_keys m = [] then Inr None else
                     bindE (matches_configured (am_api_keys m) raw_key) (\<lambda>matched.
                       Inr (if matched then Some (EnvInfo (env_key_id sha raw_key) (am_default_rate m) (am_default_burst m)) else None))) of
             Inl e \<Rightarrow> (st1, Inl e)
           | Inr None \<Rightarrow> (st1, Inr (plain_result False))
           | Inr (Some info) \<Rightarrow>
               if \<not> am_limiter m
               then (st1, Inr \<lparr>ar_allowed = True, ar_info = Some info, ar_rate_limited = False, ar_headers = []\<rparr>)
               else (let (ls, r) = key_allow_with_metadata (as_limiters st1) (info_key_id info) (info_rate info) (info_burst info) clk wall;
                         st2 = st1\<lparr>as_limiters := ls\<rparr> in
                     (st2, bindE r (\<lambda>(allowed, hs).
                        Inr \<lparr>ar_allowed = allowed, ar_info = Some info, ar_rate_limited = \<not> allowed, ar_headers = hs\<rparr>)))))"

text \<open>With a manager the answer is the pair of the verdict and the identity, else the verdict alone.\<close>

definition authenticate ::
  "(string \<Rightarrow> string) \<Rightarrow> string \<Rightarrow> f64 \<Rightarrow> int \<Rightarrow> auth_middleware \<Rightarrow> auth_state \<Rightarrow> (string, string) dict \<Rightarrow>
    auth_state \<times> (bool \<times> (key_info option \<times> bool) option) res" where
  "authenticate sha now clk wall m st headers =
     (let (st', r) = authenticate_with_metadata sha now clk wall m st headers in
      (st', bindE r (\<lambda>a. Inr (ar_allowed a, if am_manager m then Some (ar_info a, ar_rate_limited a) else None))))"

section \<open>The life of a key\<close>

text \<open>One step of the table: a call of the manager that returns.\<close>

inductive key_step :: "(string \<Rightarrow> string) \<Rightarrow> key_table \<Rightarrow> key_table \<Rightarrow> bool" for sha where
  step_create: "create_key sha token uuid now db name role rate burst tenant = Inr (db', c) \<Longrightarrow> key_step sha db db'"
| step_rotate: "rotate_key sha token uuid now db key_id = Inr (db', row, raw) \<Longrightarrow> key_step sha db db'"
| step_revoke: "revoke_key now db key_id = (db', done) \<Longrightarrow> key_step sha db db'"
| step_authenticate: "authenticate_key sha now db raw = (db', found) \<Longrightarrow> key_step sha db db'"

inductive_cases key_stepE: "key_step sha db db'"

definition unique_keys :: "key_table \<Rightarrow> bool" where
  "unique_keys db = (distinct (map ak_key_id db) \<and> distinct (map ak_key_hash db))"

definition dead_hash :: "string \<Rightarrow> key_table \<Rightarrow> bool" where
  "dead_hash h db = list_ex (\<lambda>r. ak_key_hash r = h \<and> ak_revoked_at r \<noteq> None) db"

text \<open>Every call either rewrites the rows in place, keeping what identifies them and every
  revocation, or does that and appends one row with a new id and a new digest.\<close>

definition touches :: "key_table \<Rightarrow> key_table \<Rightarrow> bool" where
  "touches db db' = list_all2 (\<lambda>r r'. ak_key_id r' = ak_key_id r \<and> ak_key_hash r' = ak_key_hash r \<and>
     (ak_revoked_at r \<noteq> None \<longrightarrow> ak_revoked_at r' \<noteq> None)) db db'"

lemma touches_map: "(\<And>r. ak_key_id (f r) = ak_key_id r \<and> ak_key_hash (f r) = ak_key_hash r \<and>
    (ak_revoked_at r \<noteq> None \<longrightarrow> ak_revoked_at (f r) \<noteq> None)) \<Longrightarrow> touches db (map f db)"
  unfolding touches_def by (induction db) auto

lemma touches_keys: "touches db db' \<Longrightarrow> map ak_key_id db' = map ak_key_id db \<and> map ak_key_hash db' = map ak_key_hash db"
  unfolding touches_def by (induction rule: list_all2_induct) auto

lemma touches_dead: "touches db db' \<Longrightarrow> dead_hash h db \<Longrightarrow> dead_hash h db'"
  unfolding touches_def dead_hash_def by (induction rule: list_all2_induct) auto

lemma insert_key_Inr: "insert_key db row = Inr db' \<longleftrightarrow> db' = db @ [row] \<and>
    ak_key_id row \<notin> ak_key_id ` set db \<and> ak_key_hash row \<notin> ak_key_hash ` set db"
  unfolding insert_key_def list_ex_iff image_iff by (auto; metis)

lemma authenticate_key_touches: "authenticate_key sha now db raw = (db', found) \<Longrightarrow> touches db db'"
  by (auto simp: authenticate_key_def update_last_used_def split: option.splits if_splits
      intro!: touches_map[of "\<lambda>r. r", simplified] touches_map)

lemma rotate_key_Inr: "rotate_key sha token uuid now db key_id = Inr (db', row, raw) \<longleftrightarrow>
    raw = ''noerelay-'' @ token \<and> (\<exists>old. find (\<lambda>r. ak_key_id r = key_id \<and> ak_revoked_at r = None) db = Some old \<and>
      row = \<lparr>ak_key_id = ''key-'' @ uuid, ak_key_hash = hash_key sha raw, ak_name = ak_name old,
             ak_role = ak_role old, ak_created_at = now, ak_revoked_at = None, ak_last_used_at = None,
             ak_rate = ak_rate old, ak_burst = ak_burst old, ak_tenant = ak_tenant old\<rparr> \<and>
      insert_key (map (\<lambda>r. if ak_key_id r = key_id then r\<lparr>ak_revoked_at := Some now\<rparr> else r) db) row = Inr db')"
  by (auto simp: rotate_key_def rotate_api_key_def Let_def bindE_eq_Inr split: option.splits)

lemma key_step_touches: "key_step sha db db' \<Longrightarrow> touches db db' \<or>
    (\<exists>db1 row. touches db db1 \<and> insert_key db1 row = Inr db')"
proof (erule key_stepE)
  fix token uuid now name role rate burst tenant c
  assume "create_key sha token uuid now db name role rate burst tenant = Inr (db', c)"
  then obtain row where "insert_key db row = Inr db'"
    by (auto simp: create_key_def create_api_key_def Let_def bindE_eq_Inr split: prod.splits)
  moreover have "touches db db" using touches_map[of "\<lambda>r. r" db] by simp
  ultimately show ?thesis by blast
next
  fix token uuid now key_id row raw
  assume "rotate_key sha token uuid now db key_id = Inr (db', row, raw)"
  then have "insert_key (map (\<lambda>r. if ak_key_id r = key_id then r\<lparr>ak_revoked_at := Some now\<rparr> else r) db) row = Inr db'"
    by (auto simp: rotate_key_Inr)
  moreover have "touches db (map (\<lambda>r. if ak_key_id r = key_id then r\<lparr>ak_revoked_at := Some now\<rparr> else r) db)"
    by (rule touches_map) simp
  ultimately show ?thesis by blast
next
  fix now key_id res
  assume "revoke_key now db key_id = (db', res)"
  then show ?thesis by (auto simp: revoke_key_def revoke_api_key_def intro!: touches_map)
next
  fix now raw found
  assume "authenticate_key sha now db raw = (db', found)"
  then show ?thesis by (simp add: authenticate_key_touches)
qed

lemma key_step_unique: "key_step sha db db' \<Longrightarrow> unique_keys db \<Longrightarrow> unique_keys db'"
  by (drule key_step_touches) (auto simp: unique_keys_def insert_key_Inr dest!: touches_keys
      simp flip: set_map)

lemma dead_hash_append: "dead_hash h db \<Longrightarrow> dead_hash h (db @ rows)"
  by (simp add: dead_hash_def)

lemma key_step_dead: "key_step sha db db' \<Longrightarrow> dead_hash h db \<Longrightarrow> dead_hash h db'"
  by (drule key_step_touches) (auto simp: insert_key_Inr dead_hash_append dest: touches_dead)

lemma key_steps_unique: "(key_step sha)\<^sup>*\<^sup>* db db' \<Longrightarrow> unique_keys db \<Longrightarrow> unique_keys db'"
  by (induction rule: rtranclp_induct) (auto intro: key_step_unique)

lemma key_steps_dead: "(key_step sha)\<^sup>*\<^sup>* db db' \<Longrightarrow> dead_hash h db \<Longrightarrow> dead_hash h db'"
  by (induction rule: rtranclp_induct) (auto intro: key_step_dead)

lemma dead_hash_not_found: "unique_keys db \<Longrightarrow> dead_hash h db \<Longrightarrow> get_api_key_by_hash db h = None"
  unfolding unique_keys_def dead_hash_def get_api_key_by_hash_def
  by (auto simp: find_None_iff list_ex_iff distinct_map dest: inj_onD)

lemma dead_hash_refused: "unique_keys db \<Longrightarrow> dead_hash (hash_key sha raw) db \<Longrightarrow>
    authenticate_key sha now db raw = (db, None)"
  by (simp add: authenticate_key_def dead_hash_not_found)

lemma revoke_kills: "r \<in> set db \<Longrightarrow> dead_hash (ak_key_hash r) (fst (revoke_api_key now db (ak_key_id r)))"
  by (induction db) (auto simp: revoke_api_key_def dead_hash_def)

lemma rotate_kills:
  "old \<in> set db \<Longrightarrow> ak_key_id old = key_id \<Longrightarrow>
    dead_hash (ak_key_hash old) (map (\<lambda>r. if ak_key_id r = key_id then r\<lparr>ak_revoked_at := Some now\<rparr> else r) db @ rows)"
  by (induction db) (auto simp: dead_hash_def)

lemma rotate_keeps:
  "r \<in> set db \<Longrightarrow> ak_key_id r \<noteq> key_id \<Longrightarrow>
    r \<in> set (map (\<lambda>r. if ak_key_id r = key_id then r\<lparr>ak_revoked_at := Some now\<rparr> else r) db @ rows)"
  by (induction db) auto

text \<open>
  C32. A revoked key stays dead. In a table built by the manager's own calls, once
  \<^verbatim>\<open>revoke_key\<close> has answered true for an id, no sequence of creations, rotations, revocations
  and authentications makes a raw key with that row's digest authenticate again; and a call of
  \<^verbatim>\<open>authenticate\<close> with it changes nothing.
\<close>
theorem revoked_key_stays_dead:
  assumes "(key_step sha)\<^sup>*\<^sup>* [] db"
    and "revoke_key now db key_id = (db1, True)"
    and "(key_step sha)\<^sup>*\<^sup>* db1 db2"
    and "r \<in> set db" "ak_key_id r = key_id" "hash_key sha raw = ak_key_hash r"
  shows "authenticate_key sha now2 db2 raw = (db2, None)"
proof -
  have u: "unique_keys db" by (rule key_steps_unique[OF assms(1)]) (simp add: unique_keys_def)
  have step: "key_step sha db db1" using assms(2) by (rule step_revoke)
  have "dead_hash (hash_key sha raw) db1"
    using assms(2,4,5,6) revoke_kills[of r db now] by (auto simp: revoke_key_def)
  then show ?thesis
    using key_steps_unique[OF assms(3) key_step_unique[OF step u]] key_steps_dead[OF assms(3)]
    by (blast intro: dead_hash_refused)
qed

text \<open>
  A rotation hands the key over. When \<^verbatim>\<open>rotate_key\<close> returns, the new raw key
  authenticates at once as the new row, which has the name, role, rate, burst and tenant of the
  old one, the raw key of the old row is refused then and after any later calls, and every other
  row is as it was.
\<close>
theorem rotation_hands_over:
  assumes "(key_step sha)\<^sup>*\<^sup>* [] db"
    and "rotate_key sha token uuid now db key_id = Inr (db1, row, raw)"
  shows "\<exists>old. old \<in> set db \<and> ak_key_id old = key_id \<and> ak_revoked_at old = None \<and>
           ak_name row = ak_name old \<and> ak_role row = ak_role old \<and> ak_tenant row = ak_tenant old \<and>
           ak_rate row = ak_rate old \<and> ak_burst row = ak_burst old \<and>
           snd (authenticate_key sha now1 db1 raw) = Some row \<and>
           (\<forall>db2. (key_step sha)\<^sup>*\<^sup>* db1 db2 \<longrightarrow> (\<forall>raw_old. hash_key sha raw_old = ak_key_hash old \<longrightarrow>
              authenticate_key sha now2 db2 raw_old = (db2, None))) \<and>
           (\<forall>r\<in>set db. ak_key_id r \<noteq> key_id \<longrightarrow> r \<in> set db1)"
proof -
  let ?kill = "map (\<lambda>r. if ak_key_id r = key_id then r\<lparr>ak_revoked_at := Some now\<rparr> else r) db"
  have u: "unique_keys db" by (rule key_steps_unique[OF assms(1)]) (simp add: unique_keys_def)
  obtain old where old: "find (\<lambda>r. ak_key_id r = key_id \<and> ak_revoked_at r = None) db = Some old"
    and row: "ak_name row = ak_name old" "ak_role row = ak_role old" "ak_tenant row = ak_tenant old"
      "ak_rate row = ak_rate old" "ak_burst row = ak_burst old" "ak_key_hash row = hash_key sha raw" "ak_revoked_at row = None"
    and ins: "insert_key ?kill row = Inr db1"
    using assms(2) by (auto simp: rotate_key_Inr)
  have db1: "db1 = ?kill @ [row]" and new: "ak_key_hash row \<notin> ak_key_hash ` set ?kill"
    using ins by (auto simp: insert_key_Inr)
  have mem: "old \<in> set db" "ak_key_id old = key_id" "ak_revoked_at old = None" using find_SomeD[OF old] by auto
  have step: "key_step sha db db1" using assms(2) by (rule step_rotate)
  have "get_api_key_by_hash db1 (hash_key sha raw) = Some row"
    using new row(6,7) unfolding db1 get_api_key_by_hash_def by (induction db) auto
  then have auth: "snd (authenticate_key sha now1 db1 raw) = Some row" by (simp add: authenticate_key_def row(7))
  have dead: "dead_hash (ak_key_hash old) db1" unfolding db1 using mem(1,2) by (rule rotate_kills)
  have refused: "authenticate_key sha now2 db2 raw_old = (db2, None)"
    if "(key_step sha)\<^sup>*\<^sup>* db1 db2" "hash_key sha raw_old = ak_key_hash old" for db2 raw_old
    using key_steps_unique[OF that(1) key_step_unique[OF step u]] key_steps_dead[OF that(1) dead] that(2)
    by (simp add: dead_hash_refused)
  have kept: "\<forall>r\<in>set db. ak_key_id r \<noteq> key_id \<longrightarrow> r \<in> set db1" unfolding db1 by (blast intro: rotate_keeps)
  have hand: "ak_name row = ak_name old \<and> ak_role row = ak_role old \<and> ak_tenant row = ak_tenant old \<and>
      ak_rate row = ak_rate old \<and> ak_burst row = ak_burst old" using row(1-5) by simp
  show ?thesis
    by (rule exI[of _ old]) (intro conjI allI impI; (rule refused kept mem auth hand | simp add: row(1-5)); assumption?)
qed

section \<open>Requests\<close>

lemma matches_configured_member:
  "foldE (\<lambda>matched k. bindE (compare_digest raw_key k) (\<lambda>b. Inr (b \<or> matched))) m api_keys = Inr True \<Longrightarrow>
    m \<or> raw_key \<in> set api_keys"
  by (induction api_keys arbitrary: m) (auto simp: bindE_eq_Inr compare_digest_def split: if_splits)

lemma authenticate_key_found: "authenticate_key sha now db raw = (db', Some row) \<Longrightarrow>
    row \<in> set db \<and> ak_key_hash row = hash_key sha raw \<and> ak_revoked_at row = None"
  by (auto simp: authenticate_key_def get_api_key_by_hash_def split: option.splits if_splits dest: find_SomeD)

lemma authenticated_request:
  assumes "am_require m"
    and "authenticate_with_metadata sha now clk wall m st headers = (st', Inr a)"
    and "ar_allowed a"
  shows "\<exists>token. bearer_token headers = Some token \<and>
     ((\<exists>row\<in>set (as_keys st). am_manager m \<and> ak_key_hash row = hash_key sha token \<and> ak_revoked_at row = None \<and>
         ar_info a = Some (RowInfo row)) \<or>
      token \<in> set (am_api_keys m) \<and>
         ar_info a = Some (EnvInfo (env_key_id sha token) (am_default_rate m) (am_default_burst m)))"
proof (cases "bearer_token headers")
  case None
  with assms show ?thesis by (auto simp: authenticate_with_metadata_def plain_result_def)
next
  case (Some token)
  obtain keys found where f: "(if am_manager m then authenticate_key sha now (as_keys st) token else (as_keys st, None)) = (keys, found)"
    by fastforce
  show ?thesis
  proof (cases found)
    case (Some row)
    with f have man: "am_manager m" and row: "row \<in> set (as_keys st)" "ak_key_hash row = hash_key sha token" "ak_revoked_at row = None"
      using authenticate_key_found[of sha now "as_keys st" token keys row] by (auto split: if_splits)
    have "ar_info a = Some (RowInfo row)"
      using assms \<open>bearer_token headers = Some token\<close> f Some
      by (auto simp: authenticate_with_metadata_def Let_def bindE_eq_Inr split: if_splits prod.splits)
    with man row \<open>bearer_token headers = Some token\<close> show ?thesis by blast
  next
    case None
    have "matches_configured (am_api_keys m) token = Inr True \<and>
        ar_info a = Some (EnvInfo (env_key_id sha token) (am_default_rate m) (am_default_burst m))"
      using assms \<open>bearer_token headers = Some token\<close> f None
      by (auto simp: authenticate_with_metadata_def Let_def bindE_eq_Inr plain_result_def
          split: if_splits prod.splits sum.splits option.splits)
    with \<open>bearer_token headers = Some token\<close> show ?thesis
      using matches_configured_member[of token False "am_api_keys m"] by (auto simp: matches_configured_def)
  qed
qed

text \<open>
  Authentication fails closed. Where the middleware requires it, an allowed request carries a
  bearer token which is one of the configured keys, or the raw key of a row of the table that is
  not revoked; the identity attached to the result is that row, with its role, tenant and rates,
  or the administrator of the configured keys.
\<close>
theorem authentication_fails_closed:
  assumes "am_require m"
    and "authenticate_with_metadata sha now clk wall m st headers = (st', Inr a)"
    and "ar_allowed a"
  shows "\<exists>token. bearer_token headers = Some token \<and>
     ((\<exists>row\<in>set (as_keys st). am_manager m \<and> ak_key_hash row = hash_key sha token \<and> ak_revoked_at row = None \<and>
         ar_info a = Some (RowInfo row)) \<or>
      token \<in> set (am_api_keys m) \<and>
         ar_info a = Some (EnvInfo (env_key_id sha token) (am_default_rate m) (am_default_burst m)))"
  by (rule authenticated_request[OF assms])

section \<open>Witnesses\<close>

definition one_key :: api_key_row where
  "one_key = \<lparr>ak_key_id = ''key-1'', ak_key_hash = ''noerelay-a'', ak_name = ''ci'', ak_role = ''viewer'',
     ak_created_at = ''t0'', ak_revoked_at = None, ak_last_used_at = None, ak_rate = Fin 10, ak_burst = 20,
     ak_tenant = ''acme''\<rparr>"

lemma one_key_created: "(key_step id)\<^sup>*\<^sup>* [] [one_key]"
proof -
  have "create_key id ''a'' ''1'' ''t0'' [] (PStr ''ci'') (PStr ''viewer'') (PFloat (Fin 10)) (PInt 20) (PStr ''acme'') =
      Inr ([one_key], \<lparr>cr_key_id = ''key-1'', cr_key = ''noerelay-a'', cr_name = ''ci'', cr_role = ''viewer''\<rparr>)"
    by code_simp
  then show ?thesis by (blast intro: step_create)
qed

theorem revoked_key_stays_dead_witness:
  "authenticate_key id ''t2'' (fst (revoke_key ''t1'' [one_key] ''key-1'')) ''noerelay-a'' =
     (fst (revoke_key ''t1'' [one_key] ''key-1''), None)"
proof (rule revoked_key_stays_dead[OF one_key_created])
  show "revoke_key ''t1'' [one_key] ''key-1'' = (fst (revoke_key ''t1'' [one_key] ''key-1''), True)"
    by code_simp
  show "(key_step id)\<^sup>*\<^sup>* (fst (revoke_key ''t1'' [one_key] ''key-1'')) (fst (revoke_key ''t1'' [one_key] ''key-1''))"
    by simp
  show "one_key \<in> set [one_key]" by simp
  show "ak_key_id one_key = ''key-1''" by code_simp
  show "hash_key id ''noerelay-a'' = ak_key_hash one_key" by code_simp
qed

theorem rotation_hands_over_witness:
  "\<exists>db1 row. rotate_key id ''b'' ''2'' ''t1'' [one_key] ''key-1'' = Inr (db1, row, ''noerelay-b'') \<and>
     ak_tenant row = ''acme'' \<and> snd (authenticate_key id ''t2'' db1 ''noerelay-b'') = Some row"
proof -
  have "returns (rotate_key id ''b'' ''2'' ''t1'' [one_key] ''key-1'')" by code_simp
  then obtain db1 row raw where r: "rotate_key id ''b'' ''2'' ''t1'' [one_key] ''key-1'' = Inr (db1, row, raw)"
    by (metis returns_iff prod_cases3)
  then have "raw = ''noerelay-b''" by (simp add: rotate_key_Inr)
  with rotation_hands_over[OF one_key_created r] r show ?thesis by (auto simp: one_key_def)
qed

definition key_middleware :: auth_middleware where
  "key_middleware = new_middleware [''static''] True False None (Fin 10) 20"

theorem authentication_fails_closed_witness:
  "\<exists>a. snd (authenticate_with_metadata id ''t1'' (Fin 0) 0 key_middleware \<lparr>as_keys = [one_key], as_limiters = []\<rparr>
          [(''Authorization'', ''Bearer noerelay-a'')]) = Inr a \<and> ar_allowed a \<and>
     bearer_token [(''Authorization'', ''Bearer noerelay-a'')] \<noteq> None"
proof -
  let ?st = "\<lparr>as_keys = [one_key], as_limiters = []\<rparr>"
  let ?h = "[(''Authorization'', ''Bearer noerelay-a'')]"
  have "snd (authenticate_with_metadata id ''t1'' (Fin 0) 0 key_middleware ?st ?h) =
      Inr \<lparr>ar_allowed = True, ar_info = Some (RowInfo one_key), ar_rate_limited = False, ar_headers = []\<rparr>" (is "_ = Inr ?a")
    by code_simp
  then obtain st' where r: "authenticate_with_metadata id ''t1'' (Fin 0) 0 key_middleware ?st ?h = (st', Inr ?a)"
    by (metis prod.collapse)
  have "am_require key_middleware" by code_simp
  from authentication_fails_closed[OF this r] r show ?thesis by auto
qed

end
