(* ===== verification/Escalation.thy ===== *)
theory Escalation
  imports Policy
begin

text \<open>
  The local plane: the rolling-window policy of \<^verbatim>\<open>reference/gateway/escalation_policy.py\<close>, the
  two-tier router of \<^verbatim>\<open>reference/gateway/local_tier_router.py\<close> and the policy extension of
  \<^verbatim>\<open>reference/gateway/local_policy.py\<close>. The router takes any object with a method
  \<^verbatim>\<open>should_escalate_to_cloud\<close>, which is a function here; the locale \<open>escalation_signal\<close> states
  what the router's guarantees need of it, and the policy of this component satisfies it.
\<close>

section \<open>The rolling window\<close>

record escalation_policy =
  ep_hir_threshold :: f64
  ep_rr_threshold :: f64
  ep_min_sample :: int
  ep_history :: "pyval list"

definition new_policy :: "f64 \<Rightarrow> f64 \<Rightarrow> int \<Rightarrow> escalation_policy" where
  "new_policy hir rr min_sample =
     \<lparr>ep_hir_threshold = hir, ep_rr_threshold = rr, ep_min_sample = min_sample, ep_history = []\<rparr>"

definition record_run :: "escalation_policy \<Rightarrow> pyval \<Rightarrow> escalation_policy" where
  "record_run p run =
     (let h = ep_history p @ [run] in
      p\<lparr>ep_history := if 100 < length h then drop (length h - 100) h else h\<rparr>)"

definition flag_count :: "string \<Rightarrow> pyval list \<Rightarrow> nat res" where
  "flag_count key runs = bindE (filterE (\<lambda>r. bindE (py_get r key PNone) (\<lambda>v. Inr (truthy v))) runs) (\<lambda>hits. Inr (length hits))"

definition flag_rate :: "string \<Rightarrow> escalation_policy \<Rightarrow> f64 res" where
  "flag_rate key p =
     (if int (length (ep_history p)) < ep_min_sample p then Inr (Fin 0)
      else bindE (flag_count key (ep_history p)) (\<lambda>n. int_truediv (int n) (int (length (ep_history p)))))"

definition current_hir :: "escalation_policy \<Rightarrow> f64 res" where
  "current_hir = flag_rate ''required_human_intervention''"

definition current_rr :: "escalation_policy \<Rightarrow> f64 res" where
  "current_rr = flag_rate ''required_rework''"

definition history_size :: "escalation_policy \<Rightarrow> nat" where
  "history_size p = length (ep_history p)"

definition should_escalate_to_cloud :: "escalation_policy \<Rightarrow> bool \<Rightarrow> string \<Rightarrow> (bool \<times> string) res" where
  "should_escalate_to_cloud p local_model_failed risk_class =
     bindE (current_hir p) (\<lambda>hir. bindE (current_rr p) (\<lambda>rr. Inr (
       if local_model_failed then (True, ''local_model_failed'')
       else if risk_class \<in> set [''high'', ''critical''] then (True, ''high_risk_class_'' @ risk_class)
       else if f_lt (ep_hir_threshold p) hir then (True, ''hir_exceeded_threshold_'' @ fmt_fixed 2 hir)
       else if f_lt (ep_rr_threshold p) rr then (True, ''rr_exceeded_threshold_'' @ fmt_fixed 2 rr)
       else (False, ''local_model_sufficient''))))"

definition should_request_human_review :: "escalation_policy \<Rightarrow> bool \<Rightarrow> bool \<Rightarrow> string \<Rightarrow> (bool \<times> string) res" where
  "should_request_human_review p verification_failed has_blocking_conflict risk_class =
     (if risk_class = ''critical'' then Inr (True, ''critical_risk_requires_human'')
      else if has_blocking_conflict then Inr (True, ''blocking_epistemic_conflict'')
      else if \<not> verification_failed then Inr (False, ''no_human_review_needed'')
      else bindE (current_rr p) (\<lambda>rr.
        if f_lt (ep_rr_threshold p) rr
        then Inr (True, ''verification_failed_with_high_rr_'' @ fmt_fixed 2 rr)
        else Inr (False, ''no_human_review_needed'')))"

section \<open>The tier router\<close>

type_synonym tiers = "(string, (string, string) dict) dict"

definition fast_tier :: string where "fast_tier = ''fast''"
definition hard_tier :: string where "hard_tier = ''hard''"

definition default_local_tiers :: tiers where
  "default_local_tiers =
     [(''gpt-oss-20b-Q5_K_M'', [(''tier'', fast_tier), (''note'', ''operator-selected default Q5_K_M'')]),
      (''gpt-oss-20b'', [(''tier'', fast_tier), (''note'', ''routine work (default)'')]),
      (''gpt-oss-20b-q5'', [(''tier'', fast_tier), (''note'', ''routine work, Q5 quant'')]),
      (''gpt-oss-20b-q6'', [(''tier'', fast_tier), (''note'', ''routine work, Q6 quant'')]),
      (''qwen3.8-27b'', [(''tier'', hard_tier), (''note'', ''difficult work (escalation only)'')])]"

definition escalating_risk_classes :: "string list" where
  "escalating_risk_classes = [''high'', ''critical'']"

definition new_router :: "tiers option \<Rightarrow> tiers" where
  "new_router extra = (case extra of None \<Rightarrow> default_local_tiers | Some t \<Rightarrow> dupdate default_local_tiers t)"

definition tier_of :: "tiers \<Rightarrow> string \<Rightarrow> string option" where
  "tier_of tiers model_key = (case map_of tiers model_key of
     Some meta \<Rightarrow> if meta = [] then None else map_of meta ''tier'' | None \<Rightarrow> None)"

definition model_for_tier :: "tiers \<Rightarrow> string \<Rightarrow> string option" where
  "model_for_tier tiers tier = map_option fst (find (\<lambda>(key, meta). map_of meta ''tier'' = Some tier) tiers)"

record tier_decision =
  td_tier :: string
  td_model :: string
  td_escalated :: bool
  td_reason :: string

text \<open>The truth value of an optional model key: a key that is present and not empty.\<close>

definition named :: "string option \<Rightarrow> bool" where
  "named m = (case m of None \<Rightarrow> False | Some k \<Rightarrow> k \<noteq> [])"

definition tier_route :: "tiers \<Rightarrow> string \<Rightarrow> (bool \<Rightarrow> string \<Rightarrow> (bool \<times> string) res) option \<Rightarrow> bool \<Rightarrow> tier_decision res" where
  "tier_route tiers risk_class signal local_model_failed =
     (let fast_model = model_for_tier tiers fast_tier;
          hard_model = model_for_tier tiers hard_tier;
          hard = (\<lambda>escalated reason. \<lparr>td_tier = hard_tier, td_model = the hard_model, td_escalated = escalated, td_reason = reason\<rparr>) in
      if risk_class \<in> set escalating_risk_classes \<and> named hard_model
      then Inr (hard True (''risk_class_'' @ risk_class)) else
      bindE (case signal of None \<Rightarrow> Inr (False, [])
             | Some ask \<Rightarrow> catchE (\<lambda>_. True) (False, ''policy_unavailable'') (ask local_model_failed risk_class))
        (\<lambda>(should, reason).
      if should \<and> named hard_model then Inr (hard True reason)
      else if named fast_model
      then Inr \<lparr>td_tier = fast_tier, td_model = the fast_model, td_escalated = False, td_reason = ''default_fast_tier''\<rparr>
      else if named hard_model then Inr (hard False ''only_hard_tier_available'')
      else Inl (LookupError ''no local tier models configured'')))"

section \<open>The local extension of the policy\<close>

definition local_rules :: pyval where
  "local_rules = PDict [(''base_url_env'', PStr ''NOERELAY_LOCAL_MODEL_URL''),
     (''default_base_url'', PStr ''http://127.0.0.1:11434''),
     (''model_fallbacks_managed_by_noerelay'', PBool True),
     (''automatic_model_selection_allowed'', PBool False),
     (''escalate_to_cloud_on_failure'', PBool True)]"

text \<open>The policy is a parsed object, and so is its \<^verbatim>\<open>inference\<close> section where it has one.\<close>

definition extend_policy_with_local :: "(string, pyval) dict \<Rightarrow> pyval res" where
  "extend_policy_with_local policy =
     bindE (case map_of policy ''inference'' of None \<Rightarrow> Inr []
            | Some (PDict d) \<Rightarrow> Inr d | Some _ \<Rightarrow> Inl PyTypeError) (\<lambda>inference.
     bindE (bindE (py_get (PDict inference) ''allowed_gateways'' (PList [])) py_iter) (\<lambda>gateways.
     Inr (PDict (dset ''inference''
       (PDict (dset ''local'' local_rules
          (dset ''allowed_gateways'' (PList (gateways @ [PStr ''local''])) inference))) policy))))"

section \<open>Lemmas of the window\<close>

definition record_runs :: "escalation_policy \<Rightarrow> pyval list \<Rightarrow> escalation_policy" where
  "record_runs p runs = fold (\<lambda>r p. record_run p r) runs p"

lemma record_run_keeps [simp]:
  "ep_hir_threshold (record_run p r) = ep_hir_threshold p" "ep_rr_threshold (record_run p r) = ep_rr_threshold p"
  "ep_min_sample (record_run p r) = ep_min_sample p"
  by (simp_all add: record_run_def Let_def)

lemma record_runs_keeps [simp]:
  "ep_hir_threshold (record_runs p rs) = ep_hir_threshold p" "ep_rr_threshold (record_runs p rs) = ep_rr_threshold p"
  "ep_min_sample (record_runs p rs) = ep_min_sample p"
  unfolding record_runs_def by (induction rs arbitrary: p) simp_all

lemma record_runs_snoc: "record_runs p (rs @ [r]) = record_run (record_runs p rs) r"
  by (simp add: record_runs_def)

lemma window: "ep_history (record_runs (new_policy h r m) rs) = drop (length rs - 100) rs"
proof (induction rs rule: rev_induct)
  case (snoc x xs)
  show ?case
  proof (cases "100 \<le> length xs")
    case True
    then have "length (drop (length xs - 100) xs) = 100" by simp
    moreover have "tl (drop (length xs - 100) xs) = drop (length xs - 99) xs"
      using True drop_Suc[of "length xs - 100" xs] tl_drop[of "length xs - 100" xs] Suc_diff_le[of 100 "length xs"] by simp
    ultimately show ?thesis using snoc True drop_Suc[of "length xs - 100" xs] tl_drop[of "length xs - 100" xs] by (simp add: record_runs_snoc record_run_def Let_def)
  next
    case False
    with snoc show ?thesis by (simp add: record_runs_snoc record_run_def Let_def)
  qed
qed (simp add: record_runs_def new_policy_def)

definition flagged :: "string \<Rightarrow> pyval \<Rightarrow> bool" where
  "flagged key r = truthy (attr r key PNone)"

lemma flag_count_dicts: "\<forall>r\<in>set runs. is_dict r \<Longrightarrow> flag_count key runs = Inr (length (filter (flagged key) runs))"
proof -
  assume a: "\<forall>r\<in>set runs. is_dict r"
  have "filterE (\<lambda>r. bindE (py_get r key PNone) (\<lambda>v. Inr (truthy v))) runs = Inr (filter (flagged key) runs)"
  proof (rule filterE_total)
    fix r assume "r \<in> set runs"
    with a obtain d where "r = PDict d" by (cases r) (auto simp: is_dict_def)
    then show "bindE (py_get r key PNone) (\<lambda>v. Inr (truthy v)) = Inr (flagged key r)"
      by (simp add: flagged_def attr_def)
  qed
  then show ?thesis by (simp add: flag_count_def)
qed

definition window_ok :: "escalation_policy \<Rightarrow> bool" where
  "window_ok p = (1 \<le> ep_min_sample p \<and> (\<forall>r\<in>set (ep_history p). is_dict r))"

lemma flag_rate_ok:
  assumes "window_ok p"
  shows "\<exists>q. flag_rate key p = Inr (Fin q) \<and> 0 \<le> q \<and> q \<le> 1 \<and>
     (ep_min_sample p \<le> int (length (ep_history p)) \<longrightarrow>
        q = fl (of_nat (length (filter (flagged key) (ep_history p))) / of_nat (length (ep_history p))))"
proof (cases "int (length (ep_history p)) < ep_min_sample p")
  case False
  let ?n = "length (filter (flagged key) (ep_history p))" and ?m = "length (ep_history p)"
  from False assms have "0 < int ?m" unfolding window_ok_def by linarith
  then have m: "0 < ?m" by simp
  have le: "?n \<le> ?m" by (rule length_filter_le)
  have "0 \<le> (of_nat ?n / of_nat ?m :: rat)" "(of_nat ?n / of_nat ?m :: rat) \<le> 1"
    using m le by simp_all
  then obtain q where "f64_of_rat (of_nat ?n / of_nat ?m) = Fin q" "0 \<le> q" "q \<le> 1"
    by (metis f64_of_rat_unit)
  moreover from this have "q = fl (of_nat ?n / of_nat ?m)" by (blast dest: f64_of_rat_Fin)
  ultimately show ?thesis
    using False m flag_count_dicts[of "ep_history p" key] assms
    by (auto simp: flag_rate_def window_ok_def int_truediv_def)
qed (simp add: flag_rate_def)

lemma rates_ready:
  "window_ok p \<Longrightarrow> \<exists>hir rr. current_hir p = Inr hir \<and> current_rr p = Inr rr"
  using flag_rate_ok[of p "''required_human_intervention''"] flag_rate_ok[of p "''required_rework''"]
  by (auto simp: current_hir_def current_rr_def)

section \<open>What the router needs of a signal\<close>

text \<open>A signal answers whether an escalation is due, with a reason, whenever it is ready.\<close>

locale escalation_signal =
  fixes ask :: "'p \<Rightarrow> bool \<Rightarrow> string \<Rightarrow> (bool \<times> string) res"
    and due :: "'p \<Rightarrow> bool \<Rightarrow> string \<Rightarrow> bool"
    and ready :: "'p \<Rightarrow> bool"
  assumes answers: "ready p \<Longrightarrow> \<exists>reason. ask p failed risk = Inr (due p failed risk, reason)"
begin

lemma routed:
  assumes "ready p" "named (model_for_tier tiers fast_tier)" "named (model_for_tier tiers hard_tier)"
  shows "\<exists>d. tier_route tiers risk (Some (ask p)) failed = Inr d \<and>
     td_escalated d = (risk \<in> set escalating_risk_classes \<or> due p failed risk) \<and>
     td_tier d = (if td_escalated d then hard_tier else fast_tier) \<and>
     model_for_tier tiers (td_tier d) = Some (td_model d)"
proof -
  obtain reason where "ask p failed risk = Inr (due p failed risk, reason)" using answers[OF assms(1)] by blast
  moreover obtain f h where "model_for_tier tiers fast_tier = Some f" "f \<noteq> []" "model_for_tier tiers hard_tier = Some h" "h \<noteq> []"
    using assms(2,3) by (auto simp: named_def split: option.splits)
  ultimately show ?thesis by (auto simp: tier_route_def Let_def named_def)
qed

lemma unready_is_fast:
  assumes "ask p failed risk = Inl e" "risk \<notin> set escalating_risk_classes" "named (model_for_tier tiers fast_tier)"
  shows "\<exists>d. tier_route tiers risk (Some (ask p)) failed = Inr d \<and> td_tier d = fast_tier \<and> \<not> td_escalated d"
  using assms by (auto simp: tier_route_def Let_def)

end

definition escalation_due :: "escalation_policy \<Rightarrow> bool \<Rightarrow> string \<Rightarrow> bool" where
  "escalation_due p failed risk = (failed \<or> risk \<in> set [''high'', ''critical''] \<or>
     (\<exists>hir. current_hir p = Inr hir \<and> f_lt (ep_hir_threshold p) hir) \<or>
     (\<exists>rr. current_rr p = Inr rr \<and> f_lt (ep_rr_threshold p) rr))"

interpretation rolling: escalation_signal should_escalate_to_cloud escalation_due window_ok
proof unfold_locales
  fix p failed risk
  assume "window_ok p"
  then obtain hir rr where "current_hir p = Inr hir" "current_rr p = Inr rr" using rates_ready by blast
  then show "\<exists>reason. should_escalate_to_cloud p failed risk = Inr (escalation_due p failed risk, reason)"
    by (auto simp: should_escalate_to_cloud_def escalation_due_def)
qed

section \<open>Properties\<close>

lemma model_for_tier_tier_of:
  assumes "dict_ok tiers" "model_for_tier tiers tier = Some key"
  shows "tier_of tiers key = Some tier"
proof -
  obtain meta where m: "(key, meta) \<in> set tiers" "map_of meta ''tier'' = Some tier"
    using assms(2) by (auto simp: model_for_tier_def dest!: find_SomeD)
  then have "map_of tiers key = Some meta" using assms(1) by (simp add: map_of_iff_in_set)
  with m(2) show ?thesis by (auto simp: tier_of_def)
qed

lemma tier_route_cases:
  assumes "tier_route tiers risk signal failed = Inr d"
  shows "model_for_tier tiers (td_tier d) = Some (td_model d) \<and>
     (td_tier d = hard_tier \<and> td_escalated d \<and> risk \<in> set escalating_risk_classes \<or>
      td_tier d = hard_tier \<and> td_escalated d \<and> (\<exists>ask. signal = Some ask \<and> ask failed risk = Inr (True, td_reason d)) \<or>
      td_tier d = hard_tier \<and> \<not> td_escalated d \<and> \<not> named (model_for_tier tiers fast_tier) \<or>
      td_tier d = fast_tier \<and> \<not> td_escalated d)"
  using assms
  by (auto simp: tier_route_def Let_def named_def bindE_eq_Inr catchE_eq_Inr split: if_splits option.splits)

text \<open>
  The hard tier is never chosen implicitly. A routing decision that names the hard tier either
  follows a declared condition -- an escalating risk class, or a signal that was asked and
  answered yes with the reason recorded -- and is marked as escalated, or is the only tier there
  is and is not; every other decision is the fast tier, not escalated. The model named is
  registered under the tier named.
\<close>
theorem hard_tier_needs_declared_condition:
  assumes "dict_ok tiers" "tier_route tiers risk signal failed = Inr d"
  shows "tier_of tiers (td_model d) = Some (td_tier d) \<and>
     (td_escalated d \<longrightarrow> td_tier d = hard_tier \<and> (risk \<in> set escalating_risk_classes \<or>
        (\<exists>ask. signal = Some ask \<and> ask failed risk = Inr (True, td_reason d)))) \<and>
     (td_tier d = hard_tier \<and> \<not> td_escalated d \<longrightarrow> \<not> named (model_for_tier tiers fast_tier)) \<and>
     (td_tier d = hard_tier \<or> td_tier d = fast_tier)"
proof -
  note d = tier_route_cases[OF assms(2)]
  have "tier_of tiers (td_model d) = Some (td_tier d)" using d by (blast intro: model_for_tier_tier_of[OF assms(1)])
  moreover have "hard_tier \<noteq> fast_tier" by (simp add: hard_tier_def fast_tier_def)
  ultimately show ?thesis using d by auto
qed


text \<open>The inference section of an extended policy, and what the kernel reads from it.\<close>

definition extended_inference :: "pyval list \<Rightarrow> (string, pyval) dict \<Rightarrow> (string, pyval) dict" where
  "extended_inference gateways inference =
     dset ''local'' local_rules (dset ''allowed_gateways'' (PList (gateways @ [PStr ''local''])) inference)"

lemma extend_policy_form:
  assumes "map_of policy ''inference'' = Some (PDict inference)" "map_of inference ''allowed_gateways'' = Some (PList gateways)"
  shows "extend_policy_with_local policy = Inr (PDict (dset ''inference'' (PDict (extended_inference gateways inference)) policy))"
  using assms by (simp add: extend_policy_with_local_def extended_inference_def)

lemma extended_inference_other:
  assumes "k \<noteq> ''allowed_gateways''" "k \<noteq> ''local''"
  shows "lower_items (PDict (extended_inference gateways inference)) k = lower_items (PDict inference) k"
    "map_of (extended_inference gateways inference) k = map_of inference k"
  using assms by (simp_all add: lower_items_def extended_inference_def)

lemma extended_inference_gateways:
  "lower_items (PDict (extended_inference gateways inference)) ''allowed_gateways'' =
     Inr (map (\<lambda>x. lower (py_str x)) gateways @ [''local''])"
  by (simp add: lower_items_def extended_inference_def) code_simp

text \<open>
  The local extension opens one gateway and nothing else. With a policy that lists its allowed
  gateways, a candidate whose gateway is not \<^verbatim>\<open>local\<close> is denied by the kernel under the extended
  policy for exactly the reasons of the shipped one; a local candidate is denied for the same
  reasons less the gateway.
\<close>
theorem local_extension_is_conservative:
  assumes "map_of policy ''inference'' = Some (PDict inference)"
    and "map_of inference ''allowed_gateways'' = Some (PList (g # gs))"
    and "extend_policy_with_local policy = Inr extended"
    and "inference_policy_reasons candidate (PDict policy) = Inr why"
  shows "\<exists>gateway why'. lower_get candidate ''inference_gateway'' = Inr gateway \<and>
     inference_policy_reasons candidate extended = Inr why' \<and>
     why' = (if gateway = ''local'' then removeAll ''inference_gateway_not_allowed'' why else why)"
proof -
  obtain c where c: "candidate = PDict c"
    using assms(4) by (cases candidate) (auto simp: inference_policy_reasons_def py_get_def)
  let ?inference' = "extended_inference (g # gs) inference"
  have ext: "extended = PDict (dset ''inference'' (PDict ?inference') policy)"
    using extend_policy_form[OF assms(1,2)] assms(3) by simp
  note same = extended_inference_other[of _ "g # gs" inference]
  have before: "lower_items (PDict inference) ''allowed_gateways'' = Inr (map (\<lambda>x. lower (py_str x)) (g # gs))"
    using assms(2) by (simp add: lower_items_def)
  obtain gateway where gw: "lower_get candidate ''inference_gateway'' = Inr gateway" by (simp add: lower_get_def c)
  obtain kind where kind: "py_get candidate ''action_kind'' PNone = Inr kind" by (simp add: c)
  show ?thesis
  proof (cases "py_eq kind (PStr ''model'')")
    case False
    with assms(4) kind gw show ?thesis by (auto simp: inference_policy_reasons_def)
  next
    case True
    then have k: "kind = PStr ''model''" by simp
    obtain model_id family where m: "lower_get candidate ''model_id'' = Inr model_id" "lower_get candidate ''provider_family'' = Inr family"
      by (simp add: lower_get_def c)
    define explicit where "explicit = (case map_of inference ''explicit_model_id_required'' of None \<Rightarrow> PBool False | Some w \<Rightarrow> w)"
    have e: "py_get (PDict inference) ''explicit_model_id_required'' (PBool False) = Inr explicit" by (simp add: explicit_def)
    obtain fams ids pres where f: "lower_items (PDict inference) ''forbidden_model_families'' = Inr fams"
      "lower_items (PDict inference) ''forbidden_model_ids'' = Inr ids"
      "lower_items (PDict inference) ''forbidden_model_prefixes'' = Inr pres"
      using assms(4) by (simp add: inference_policy_reasons_def kind k assms(1) gw m before e bindE_eq_Inr) blast
    define gws where "gws = map (\<lambda>x. lower (py_str x)) (g # gs)"
    have ne: "gws \<noteq> []" by (simp add: gws_def)
    have gws': "lower_items (PDict ?inference') ''allowed_gateways'' = Inr (gws @ [''local''])"
      unfolding gws_def by (rule extended_inference_gateways)
    define others where "others = (if truthy explicit \<and> model_id = [] then [''model_id_required''] else []) @
          (if family \<in> set fams then [''model_family_denied''] else []) @
          (if model_id \<in> set ids \<or> model_id \<noteq> [] \<and> list_ex (startswith model_id) pres then [''model_id_denied''] else [])"
    have other: "removeAll ''inference_gateway_not_allowed'' others = others" by (simp add: others_def)
    have old: "why = (if gateway \<notin> set gws then [''inference_gateway_not_allowed''] else []) @ others"
      using assms(4) ne unfolding others_def
      by (simp add: inference_policy_reasons_def kind k assms(1) gw m before[folded gws_def] f flip: explicit_def split del: if_split)
    have new: "inference_policy_reasons candidate extended =
        Inr ((if gateway \<notin> set gws \<union> {''local''} then [''inference_gateway_not_allowed''] else []) @ others)"
      unfolding others_def
      by (simp add: inference_policy_reasons_def kind k ext gw m gws' same[simplified] f flip: explicit_def split del: if_split)
    show ?thesis using gw new other by (auto simp: old)
  qed
qed

section \<open>Witnesses\<close>

definition ten_runs :: "pyval list" where
  "ten_runs = replicate 10 (PDict [(''required_rework'', PBool True)])"

theorem hard_tier_needs_declared_condition_witness:
  "\<exists>d. tier_route (new_router None) ''low'' (Some (should_escalate_to_cloud (record_runs (new_policy (Fin 1) (lit 0.25) 10) ten_runs))) False = Inr d \<and>
     td_model d = ''qwen3.8-27b'' \<and> td_escalated d \<and> tier_of (new_router None) (td_model d) = Some (td_tier d)"
proof -
  let ?p = "record_runs (new_policy (Fin 1) (lit 0.25) 10) ten_runs"
  have "tier_route (new_router None) ''low'' (Some (should_escalate_to_cloud ?p)) False =
      Inr \<lparr>td_tier = ''hard'', td_model = ''qwen3.8-27b'', td_escalated = True, td_reason = ''rr_exceeded_threshold_1.00''\<rparr>" (is "_ = Inr ?d")
    by code_simp
  moreover have "dict_ok (new_router None)" by code_simp
  ultimately show ?thesis using hard_tier_needs_declared_condition[of "new_router None" "''low''" _ False ?d]
    by auto
qed


definition open_policy :: "(string, pyval) dict" where
  "open_policy = [(''inference'', PDict [(''allowed_gateways'', PList [PStr ''openrouter''])])]"

theorem local_extension_is_conservative_witness:
  "\<exists>extended. extend_policy_with_local open_policy = Inr extended \<and>
     inference_policy_reasons (PDict [(''action_kind'', PStr ''model''), (''inference_gateway'', PStr ''local'')]) extended = Inr []"
proof -
  let ?c = "PDict [(''action_kind'', PStr ''model''), (''inference_gateway'', PStr ''local'')]"
  obtain extended where e: "extend_policy_with_local open_policy = Inr extended"
    by (simp add: extend_policy_with_local_def open_policy_def)
  have "inference_policy_reasons ?c (PDict open_policy) = Inr [''inference_gateway_not_allowed'']" by code_simp
  moreover have "lower_get ?c ''inference_gateway'' = Inr ''local''" by code_simp
  moreover have "map_of open_policy ''inference'' = Some (PDict [(''allowed_gateways'', PList [PStr ''openrouter''])])"
    by (simp add: open_policy_def)
  moreover have "map_of [(''allowed_gateways'', PList [PStr ''openrouter''])] ''allowed_gateways'' = Some (PList [PStr ''openrouter''])"
    by simp
  ultimately show ?thesis using local_extension_is_conservative[OF _ _ e, of _ _ _ ?c] e by fastforce
qed

end
