(* ===== verification/Governance.thy ===== *)
theory Governance
  imports Py_Val
begin

text \<open>
  Dependency-free validation at the request boundary: the governance profile of
  \<^verbatim>\<open>reference/gateway/governance.py\<close> and the state vocabularies of
  \<^verbatim>\<open>reference/gateway/state_vocabulary.py\<close>. Requests are parsed JSON objects.
\<close>

section \<open>Governance\<close>

definition risk_classes :: "string list" where
  "risk_classes = [''low'', ''medium'', ''high'', ''critical'']"

definition data_policies :: "string list" where
  "data_policies = [''standard'', ''no_training'', ''zdr'', ''local_only'']"

definition retention_classes :: "string list" where
  "retention_classes = [''ephemeral'', ''project'', ''regulated'']"

definition governance_fields :: "string list" where
  "governance_fields = [''project_id'', ''risk_class'', ''max_cost_usd'', ''max_latency_ms'',
     ''required_acceptance_probability'', ''data_policy'', ''retention_class'', ''return_evidence_receipt'', ''canary'']"

definition default_governance :: "pyval \<Rightarrow> pyval \<Rightarrow> (string, pyval) dict" where
  "default_governance max_cost_usd max_latency_ms =
     [(''risk_class'', PStr ''low''), (''data_policy'', PStr ''zdr''), (''max_cost_usd'', max_cost_usd),
      (''max_latency_ms'', max_latency_ms), (''retention_class'', PStr ''ephemeral''),
      (''return_evidence_receipt'', PBool True), (''canary'', PBool False)]"

definition merge_governance :: "(string, pyval) dict option \<Rightarrow> (string, pyval) dict \<Rightarrow> (string, pyval) dict" where
  "merge_governance request defaults = (case request of None \<Rightarrow> defaults | Some r \<Rightarrow> if r = [] then defaults else dupdate defaults r)"

text \<open>The check of one field, present or not: its errors.\<close>

definition choice_errors :: "string \<Rightarrow> bool \<Rightarrow> string list \<Rightarrow> (string, pyval) dict \<Rightarrow> string list res" where
  "choice_errors field required choices g =
     (let v = (case map_of g field of None \<Rightarrow> PNone | Some v \<Rightarrow> v) in
      if v = PNone then Inr (if required then [field @ ''_required''] else [])
      else bindE (py_in_strs v choices) (\<lambda>known. Inr (if known then [] else [field @ ''_invalid:'' @ py_str v])))"

text \<open>\<^verbatim>\<open>math.isfinite\<close>: an integer beyond the range of floats raises.\<close>

definition py_isfinite :: "pyval \<Rightarrow> bool res" where
  "py_isfinite v = bindE (py_float v) (\<lambda>f. Inr (f_isfinite f))"

definition is_real_number :: "pyval \<Rightarrow> bool" where
  "is_real_number v = (\<not> is_bool v \<and> is_number v)"

definition cost_errors :: "(string, pyval) dict \<Rightarrow> string list res" where
  "cost_errors g = (case map_of g ''max_cost_usd'' of None \<Rightarrow> Inr [''max_cost_usd_required'']
     | Some cost \<Rightarrow>
         if \<not> is_real_number cost then Inr [''max_cost_usd_must_be_number''] else
         bindE (py_isfinite cost) (\<lambda>finite.
         if \<not> finite then Inr [''max_cost_usd_must_be_finite'']
         else if f_le (the (num_of cost)) (Fin 0) then Inr [''max_cost_usd_must_be_positive''] else Inr []))"

definition latency_errors :: "(string, pyval) dict \<Rightarrow> string list" where
  "latency_errors g = (case map_of g ''max_latency_ms'' of None \<Rightarrow> [''max_latency_ms_required'']
     | Some (PInt i) \<Rightarrow> if i \<le> 0 then [''max_latency_ms_must_be_positive''] else []
     | Some _ \<Rightarrow> [''max_latency_ms_must_be_integer''])"

definition probability_errors :: "(string, pyval) dict \<Rightarrow> string list res" where
  "probability_errors g = (case map_of g ''required_acceptance_probability'' of None \<Rightarrow> Inr []
     | Some p \<Rightarrow>
         if \<not> is_real_number p then Inr [''required_acceptance_probability_must_be_number''] else
         bindE (py_isfinite p) (\<lambda>finite.
         if \<not> finite then Inr [''required_acceptance_probability_must_be_finite'']
         else if f_le (Fin 0) (the (num_of p)) \<and> f_le (the (num_of p)) (Fin 1) then Inr []
         else Inr [''required_acceptance_probability_out_of_range'']))"

definition flag_errors :: "string \<Rightarrow> (string, pyval) dict \<Rightarrow> string list" where
  "flag_errors field g = (case map_of g field of None \<Rightarrow> []
     | Some v \<Rightarrow> if is_bool v then [] else [field @ ''_must_be_boolean''])"

definition unknown_errors :: "(string, pyval) dict \<Rightarrow> string list" where
  "unknown_errors g = (let unknown = sort (uniq (filter (\<lambda>k. k \<notin> set governance_fields) (map fst g))) in
     if unknown = [] then [] else [''unknown_governance_fields:'' @ join '','' unknown])"

definition project_errors :: "(string, pyval) dict \<Rightarrow> string list" where
  "project_errors g = (case map_of g ''project_id'' of None \<Rightarrow> []
     | Some v \<Rightarrow> if is_str v then [] else [''project_id_must_be_string''])"

definition validate_governance :: "pyval \<Rightarrow> string list res" where
  "validate_governance governance = (case governance of
     PDict g \<Rightarrow>
       bindE (choice_errors ''risk_class'' True risk_classes g) (\<lambda>risk.
       bindE (choice_errors ''data_policy'' True data_policies g) (\<lambda>data.
       bindE (choice_errors ''retention_class'' False retention_classes g) (\<lambda>retention.
       bindE (cost_errors g) (\<lambda>cost.
       bindE (probability_errors g) (\<lambda>probability.
       Inr (unknown_errors g @ project_errors g @ risk @ data @ retention @ cost @ latency_errors g @
            probability @ flag_errors ''return_evidence_receipt'' g @ flag_errors ''canary'' g))))))
   | _ \<Rightarrow> Inr [''governance_must_be_an_object''])"

section \<open>State vocabularies\<close>

definition state_signals :: "(string \<times> string list) list" where
  "state_signals =
     [(''requirement'', [''shall'', ''must'', ''should'']),
      (''preference'', [''prefer'', ''would like'', ''want'', ''desire'']),
      (''decision'', [''approve'', ''approved'', ''reject'', ''rejected'', ''decide'', ''decision'']),
      (''assumption'', [''assume'', ''assumption'', ''presume'', ''unverified premise'']),
      (''prediction'', [''predict'', ''prediction'', ''forecast'', ''likely'', ''expected to'']),
      (''observation'', [''observe'', ''observation'', ''measured'', ''sensor'', ''tool output'']),
      (''artifact'', [''artifact'', ''produced'', ''build'', ''hash'', ''file''])]"

definition all_vocabularies :: "string list" where
  "all_vocabularies = [''requirement'', ''fact'', ''decision'', ''assumption'', ''observation'', ''prediction'', ''preference'', ''artifact'']"

definition classify :: "pyval \<Rightarrow> string" where
  "classify statement =
     (let txt = lower (py_str statement) in
      case find (\<lambda>(_, signals). list_ex (\<lambda>s. contains s txt) signals) state_signals of
        Some (vocabulary, _) \<Rightarrow> vocabulary | None \<Rightarrow> ''fact'')"

definition is_blank :: "(string, pyval) dict \<Rightarrow> string \<Rightarrow> bool" where
  "is_blank item field = (strip (py_str (case map_of item field of None \<Rightarrow> PStr [] | Some v \<Rightarrow> v)) = [])"

definition item_value :: "(string, pyval) dict \<Rightarrow> string \<Rightarrow> pyval" where
  "item_value item field = (case map_of item field of None \<Rightarrow> PNone | Some v \<Rightarrow> v)"

definition vocabulary_errors :: "string \<Rightarrow> (string, pyval) dict \<Rightarrow> string list res" where
  "vocabulary_errors kind item =
     (if kind = ''fact''
      then bindE (py_in_strs (item_value item ''status'') [''supported'', ''refuted'', ''unknown'', ''conflicted''])
             (\<lambda>ok. Inr (if ok then [] else [''fact_missing_four_valued_status'']))
      else if kind = ''decision''
      then bindE (py_in_strs (item_value item ''status'') [''approved'', ''rejected''])
             (\<lambda>ok. Inr ((if ok then [] else [''decision_missing_status'']) @
                        (if is_blank item ''rationale'' then [''decision_missing_rationale''] else [])))
      else if kind = ''observation''
      then Inr (if is_blank item ''content_hash'' then [''observation_missing_content_hash''] else [])
      else if kind = ''artifact''
      then Inr (if is_blank item ''content_hash'' \<and> is_blank item ''artifact_id'' then [''artifact_missing_hash''] else [])
      else Inr (if is_blank item ''statement'' then [kind @ ''_missing_statement''] else []))"

definition validate_state_item :: "pyval \<Rightarrow> string list res" where
  "validate_state_item state_item = (case state_item of
     PDict item \<Rightarrow>
       bindE (py_in_strs (item_value item ''kind'') all_vocabularies) (\<lambda>known.
       if \<not> known then Inr [''invalid_kind:'' @ py_str (item_value item ''kind'')]
       else vocabulary_errors (py_str (item_value item ''kind'')) item)
   | _ \<Rightarrow> Inr [''state_item_must_be_an_object''])"

section \<open>Lemmas\<close>

text \<open>The accepted values of each field.\<close>

definition field_ok :: "string \<Rightarrow> pyval \<Rightarrow> bool" where
  "field_ok k v =
     (if k = ''project_id'' then is_str v
      else if k = ''risk_class'' then v \<in> PStr ` set risk_classes
      else if k = ''data_policy'' then v \<in> PStr ` set data_policies
      else if k = ''retention_class'' then v = PNone \<or> v \<in> PStr ` set retention_classes
      else if k = ''max_cost_usd'' then (\<exists>q. v = PFloat (Fin q) \<and> 0 < q) \<or> (\<exists>i. v = PInt i \<and> 0 < i \<and> returns (f_of_int i))
      else if k = ''max_latency_ms'' then \<exists>i. v = PInt i \<and> 0 < i
      else if k = ''required_acceptance_probability''
      then (\<exists>q. v = PFloat (Fin q) \<and> 0 \<le> q \<and> q \<le> 1) \<or> v = PInt 0 \<or> v = PInt 1
      else if k = ''return_evidence_receipt'' \<or> k = ''canary'' then is_bool v
      else False)"

definition governance_required :: "string list" where
  "governance_required = [''risk_class'', ''data_policy'', ''max_cost_usd'', ''max_latency_ms'']"

lemma choice_ok: "choice_errors field required choices g = Inr [] \<longleftrightarrow>
    (case map_of g field of None \<Rightarrow> \<not> required | Some v \<Rightarrow> v \<in> PStr ` set choices \<or> v = PNone \<and> \<not> required)"
proof (cases "map_of g field")
  case (Some v)
  then show ?thesis
    by (cases "v = PNone") (auto simp: choice_errors_def py_in_strs_def hashable_def split: if_splits)
qed (simp add: choice_errors_def)

lemma py_isfinite_num: "is_real_number v \<Longrightarrow> py_isfinite v = Inr True \<longleftrightarrow>
    (\<exists>q. v = PFloat (Fin q)) \<or> (\<exists>i. v = PInt i \<and> returns (f_of_int i))"
  by (cases v) (auto simp: is_real_number_def is_bool_def is_number_def py_isfinite_def py_float_def f_isfinite_def
      f_of_int_def returns_def bindE_eq_Inr split: f64.splits)

lemma cost_ok: "cost_errors g = Inr [] \<longleftrightarrow> (\<exists>v. map_of g ''max_cost_usd'' = Some v \<and> field_ok ''max_cost_usd'' v)"
proof (cases "map_of g ''max_cost_usd''")
  case (Some v)
  have "is_real_number v \<Longrightarrow> py_isfinite v = Inr True \<or> py_isfinite v = Inr False \<or> (\<exists>e. py_isfinite v = Inl e)"
    by (cases "py_isfinite v") auto
  with Some show ?thesis
    using py_isfinite_num[of v]
    by (cases v) (auto simp: cost_errors_def field_ok_def is_real_number_def is_bool_def is_number_def bindE_eq_Inr f_le_def split: if_splits)
qed (simp add: cost_errors_def)

lemma probability_ok: "probability_errors g = Inr [] \<longleftrightarrow>
    (\<forall>v. map_of g ''required_acceptance_probability'' = Some v \<longrightarrow> field_ok ''required_acceptance_probability'' v)"
proof (cases "map_of g ''required_acceptance_probability''")
  case (Some v)
  show ?thesis
  proof (cases v)
    case (PInt i)
    have "f_of_int i = Inr (Fin (of_int i))" if "i = 0 \<or> i = 1" using that by auto
    moreover have "0 \<le> i \<and> i \<le> 1 \<longleftrightarrow> i = 0 \<or> i = 1" by arith
    ultimately show ?thesis using Some PInt
      by (cases "f_of_int i") (auto simp: probability_errors_def field_ok_def is_real_number_def is_bool_def is_number_def
          py_isfinite_def py_float_def f_of_int_def f_isfinite_def split: f64.splits)
  next
    case (PFloat f)
    with Some show ?thesis
      by (cases f) (simp_all add: probability_errors_def field_ok_def is_real_number_def is_bool_def is_number_def py_isfinite_def f_isfinite_def)
  qed (use Some in \<open>simp_all add: probability_errors_def field_ok_def is_real_number_def is_bool_def is_number_def\<close>)
qed (simp add: probability_errors_def)

lemma latency_ok: "latency_errors g = [] \<longleftrightarrow> (\<exists>v. map_of g ''max_latency_ms'' = Some v \<and> field_ok ''max_latency_ms'' v)"
  by (auto simp: latency_errors_def field_ok_def split: option.splits pyval.splits if_splits)

lemma flag_ok: "flag_errors field g = [] \<longleftrightarrow> (\<forall>v. map_of g field = Some v \<longrightarrow> is_bool v)"
  by (auto simp: flag_errors_def split: option.splits)

lemma unknown_ok: "unknown_errors g = [] \<longleftrightarrow> (\<forall>k v. map_of g k = Some v \<longrightarrow> k \<in> set governance_fields)"
proof -
  have "unknown_errors g = [] \<longleftrightarrow> filter (\<lambda>k. k \<notin> set governance_fields) (map fst g) = []"
    using uniq_Nil_iff[of "filter (\<lambda>k. k \<notin> set governance_fields) (map fst g)"]
    by (auto simp: unknown_errors_def Let_def simp flip: set_empty)
  also have "\<dots> \<longleftrightarrow> (\<forall>k\<in>fst ` set g. k \<in> set governance_fields)" by (simp add: filter_empty_conv)
  also have "\<dots> \<longleftrightarrow> (\<forall>k v. map_of g k = Some v \<longrightarrow> k \<in> set governance_fields)"
    by (simp flip: dom_map_of_conv_image_fst) (auto simp: dom_def)
  finally show ?thesis .
qed

lemma project_ok: "project_errors g = [] \<longleftrightarrow> (\<forall>v. map_of g ''project_id'' = Some v \<longrightarrow> is_str v)"
  by (auto simp: project_errors_def split: option.splits)

lemma field_ok_simps:
  "field_ok ''project_id'' v = is_str v" "field_ok ''risk_class'' v = (v \<in> PStr ` set risk_classes)"
  "field_ok ''data_policy'' v = (v \<in> PStr ` set data_policies)"
  "field_ok ''retention_class'' v = (v = PNone \<or> v \<in> PStr ` set retention_classes)"
  "field_ok ''return_evidence_receipt'' v = is_bool v" "field_ok ''canary'' v = is_bool v"
  by (simp_all add: field_ok_def)

lemma all_fields: "(\<forall>k v. map_of g k = Some v \<longrightarrow> field_ok k v) \<longleftrightarrow>
    (\<forall>k v. map_of g k = Some v \<longrightarrow> k \<in> set governance_fields) \<and>
    (\<forall>k\<in>set governance_fields. \<forall>v. map_of g k = Some v \<longrightarrow> field_ok k v)"
proof -
  have "field_ok k v \<Longrightarrow> k \<in> set governance_fields" for k v
    by (auto simp: field_ok_def governance_fields_def split: if_splits)
  then show ?thesis by blast
qed

lemma nine_fields:
  "((case map_of g ''risk_class'' of None \<Rightarrow> \<not> True | Some v \<Rightarrow> v \<in> PStr ` set risk_classes \<or> v = PNone \<and> \<not> True) \<and>
    (case map_of g ''data_policy'' of None \<Rightarrow> \<not> True | Some v \<Rightarrow> v \<in> PStr ` set data_policies \<or> v = PNone \<and> \<not> True) \<and>
    (case map_of g ''retention_class'' of None \<Rightarrow> \<not> False | Some v \<Rightarrow> v \<in> PStr ` set retention_classes \<or> v = PNone \<and> \<not> False) \<and>
    (\<exists>v. map_of g ''max_cost_usd'' = Some v \<and> field_ok ''max_cost_usd'' v) \<and>
    (\<forall>v. map_of g ''required_acceptance_probability'' = Some v \<longrightarrow> field_ok ''required_acceptance_probability'' v) \<and>
    U \<and>
    (\<forall>v. map_of g ''project_id'' = Some v \<longrightarrow> is_str v) \<and>
    (\<exists>v. map_of g ''max_latency_ms'' = Some v \<and> field_ok ''max_latency_ms'' v) \<and>
    (\<forall>v. map_of g ''return_evidence_receipt'' = Some v \<longrightarrow> is_bool v) \<and>
    (\<forall>v. map_of g ''canary'' = Some v \<longrightarrow> is_bool v)) \<longleftrightarrow>
   (\<forall>k\<in>set governance_required. map_of g k \<noteq> None) \<and> U \<and>
   (\<forall>k\<in>set governance_fields. \<forall>v. map_of g k = Some v \<longrightarrow> field_ok k v)"
proof -
  have choice: "(case map_of g f of None \<Rightarrow> \<not> True | Some v \<Rightarrow> v \<in> S \<or> v = PNone \<and> \<not> True) \<longleftrightarrow>
      map_of g f \<noteq> None \<and> (\<forall>v. map_of g f = Some v \<longrightarrow> v \<in> S)" for f S
    by (cases "map_of g f") auto
  have optional: "(case map_of g f of None \<Rightarrow> \<not> False | Some v \<Rightarrow> v \<in> S \<or> v = PNone \<and> \<not> False) \<longleftrightarrow>
      (\<forall>v. map_of g f = Some v \<longrightarrow> v = PNone \<or> v \<in> S)" for f S
    by (cases "map_of g f") auto
  have present: "(\<exists>v. map_of g f = Some v \<and> field_ok f v) \<longleftrightarrow> map_of g f \<noteq> None \<and> (\<forall>v. map_of g f = Some v \<longrightarrow> field_ok f v)" for f
    by (cases "map_of g f") auto
  show ?thesis
    unfolding choice optional present governance_required_def governance_fields_def list.set ball_simps field_ok_simps
    by argo
qed

lemma governance_ok_iff:
  "validate_governance v = Inr [] \<longleftrightarrow> (\<exists>g. v = PDict g \<and>
     (\<forall>k\<in>set governance_required. map_of g k \<noteq> None) \<and> (\<forall>k w. map_of g k = Some w \<longrightarrow> field_ok k w))"
proof (cases v)
  case (PDict g)
  have "validate_governance v = Inr [] \<longleftrightarrow>
      choice_errors ''risk_class'' True risk_classes g = Inr [] \<and> choice_errors ''data_policy'' True data_policies g = Inr [] \<and>
      choice_errors ''retention_class'' False retention_classes g = Inr [] \<and> cost_errors g = Inr [] \<and>
      probability_errors g = Inr [] \<and> unknown_errors g = [] \<and> project_errors g = [] \<and> latency_errors g = [] \<and>
      flag_errors ''return_evidence_receipt'' g = [] \<and> flag_errors ''canary'' g = []"
    by (auto simp: validate_governance_def PDict bindE_eq_Inr)
  also have "\<dots> \<longleftrightarrow> (\<forall>k\<in>set governance_required. map_of g k \<noteq> None) \<and>
      (\<forall>k v. map_of g k = Some v \<longrightarrow> k \<in> set governance_fields) \<and>
      (\<forall>k\<in>set governance_fields. \<forall>v. map_of g k = Some v \<longrightarrow> field_ok k v)"
    unfolding choice_ok cost_ok probability_ok latency_ok flag_ok unknown_ok project_ok
    by (rule nine_fields)
  finally show ?thesis using all_fields[of g] by (simp add: PDict)
qed (simp_all add: validate_governance_def)

section \<open>Properties\<close>


text \<open>
  The default profile is safe and overrides keep it so. A request whose own fields are all
  acceptable, merged over the defaults with a valid cost and latency ceiling, validates; the
  merged profile has the request's value in every field the request names and the default
  elsewhere, and an absent request leaves the defaults.
\<close>
theorem merged_governance_validates:
  assumes "field_ok ''max_cost_usd'' cost" "field_ok ''max_latency_ms'' latency"
    and "dict_ok request" "\<forall>(k, v)\<in>set request. field_ok k v"
  shows "validate_governance (PDict (merge_governance (Some request) (default_governance cost latency))) = Inr [] \<and>
     validate_governance (PDict (merge_governance None (default_governance cost latency))) = Inr [] \<and>
     (\<forall>k. map_of (merge_governance (Some request) (default_governance cost latency)) k =
        (case map_of request k of Some v \<Rightarrow> Some v | None \<Rightarrow> map_of (default_governance cost latency) k))"
proof -
  let ?d = "default_governance cost latency"
  have dflt: "map_of ?d k = Some w \<Longrightarrow> field_ok k w" for k w
    using assms(1,2)
    by (auto simp: default_governance_def field_ok_simps risk_classes_def data_policies_def retention_classes_def is_bool_def split: if_splits)
  have req: "map_of ?d k \<noteq> None" if "k \<in> set governance_required" for k
    using that by (auto simp: governance_required_def default_governance_def)
  have merged: "map_of (merge_governance (Some request) ?d) k =
      (case map_of request k of Some v \<Rightarrow> Some v | None \<Rightarrow> map_of ?d k)" for k
    using map_of_rev_dict_ok[OF assms(3)]
    by (auto simp: merge_governance_def map_of_dupdate split: option.splits)
  have "\<forall>k w. map_of (merge_governance (Some request) ?d) k = Some w \<longrightarrow> field_ok k w"
    using assms(4) dflt unfolding merged by (fastforce split: option.splits dest: map_of_SomeD)
  moreover have "\<forall>k\<in>set governance_required. map_of (merge_governance (Some request) ?d) k \<noteq> None"
    using req unfolding merged by (simp split: option.splits)
  ultimately show ?thesis
    using merged dflt req by (simp add: governance_ok_iff merge_governance_def)
qed

text \<open>A word that merely contains a signal classifies its statement.\<close>

lemma classify_by_substring: "classify (PStr ''Pass the mustard'') = ''requirement''"
  by code_simp

section \<open>Witnesses\<close>


theorem merged_governance_validates_witness:
  "validate_governance (PDict (merge_governance (Some [(''risk_class'', PStr ''high'')]) (default_governance (PFloat (Fin 5)) (PInt 30000)))) = Inr []"
proof -
  have "field_ok ''max_cost_usd'' (PFloat (Fin 5))" "field_ok ''max_latency_ms'' (PInt 30000)" by (simp_all add: field_ok_def)
  moreover have "dict_ok [(''risk_class'', PStr ''high'')]" by (simp add: dict_ok_def)
  moreover have "\<forall>(k, v)\<in>set [(''risk_class'', PStr ''high'')]. field_ok k v" by (simp add: field_ok_def risk_classes_def)
  ultimately show ?thesis using merged_governance_validates by blast
qed

end
