(* ===== verification/Contracts.thy ===== *)
theory Contracts
  imports Governance Epr_Kernel
begin

text \<open>
  \<^verbatim>\<open>reference/gateway/contracts.py\<close>: the deterministic compiler of task contracts. Messages, the
  merged governance profile, the pass-through fields and a proposal are parsed JSON values; the
  call of the optional proposer is the result it returned, an exception included. The compiled
  contract is the JSON object the code builds.
\<close>

section \<open>Reading the messages\<close>

definition max_goal_length :: nat where
  "max_goal_length = 10000"

definition block_text :: "pyval \<Rightarrow> string list" where
  "block_text block = (case block of
     PDict d \<Rightarrow> if map_of d ''type'' = Some (PStr ''text'')
                then [py_str (case map_of d ''text'' of None \<Rightarrow> PStr [] | Some t \<Rightarrow> t)] else []
   | _ \<Rightarrow> [])"

definition message_parts :: "pyval \<Rightarrow> string list res" where
  "message_parts message =
     bindE (py_get message ''role'' PNone) (\<lambda>role.
     if role \<noteq> PStr ''user'' then Inr [] else
     bindE (py_get message ''content'' (PStr [])) (\<lambda>content.
     Inr (case content of PStr s \<Rightarrow> [s] | PList blocks \<Rightarrow> concat (map block_text blocks) | _ \<Rightarrow> [])))"

definition extract_goal :: "pyval list \<Rightarrow> string res" where
  "extract_goal messages =
     bindE (mapE message_parts messages) (\<lambda>parts.
     let goal = strip (join [CHR 10] (concat parts)) in
     Inr (if goal \<noteq> [] then take max_goal_length goal else ''<non-text input>''))"

definition has_image_block :: "pyval \<Rightarrow> bool" where
  "has_image_block content = (case content of
     PList blocks \<Rightarrow> list_ex (\<lambda>b. case b of PDict d \<Rightarrow> map_of d ''type'' = Some (PStr ''image_url'') | _ \<Rightarrow> False) blocks
   | _ \<Rightarrow> False)"

definition detect_image :: "pyval list \<Rightarrow> bool res" where
  "detect_image messages =
     anyE (\<lambda>m. bindE (py_get m ''content'' (PStr [])) (\<lambda>content. Inr (has_image_block content))) messages"

section \<open>Governance and acceptance criteria\<close>

definition dict_item :: "(string, pyval) dict \<Rightarrow> string \<Rightarrow> pyval res" where
  "dict_item d k = (case map_of d k of None \<Rightarrow> Inl (KeyError k) | Some v \<Rightarrow> Inr v)"

definition build_contract_governance :: "(string, pyval) dict \<Rightarrow> pyval \<Rightarrow> (string, pyval) dict res" where
  "build_contract_governance merged risk_class =
     bindE (dict_item merged ''data_policy'') (\<lambda>data.
     bindE (dict_item merged ''max_cost_usd'') (\<lambda>cost.
     bindE (dict_item merged ''max_latency_ms'') (\<lambda>latency.
     let probability = item_value merged ''required_acceptance_probability'';
         retention = item_value merged ''retention_class'' in
     Inr ([(''data_policy'', data), (''max_cost_usd'', cost), (''max_latency_ms'', latency),
           (''human_approval_required'', PBool (risk_class = PStr ''critical''))] @
          (if probability \<noteq> PNone then [(''required_acceptance_probability'', probability)] else []) @
          (if retention \<noteq> PNone then [(''retention_class'', retention)] else [])))))"

definition acceptance_kinds :: "string list" where
  "acceptance_kinds = [''executable'', ''observable'', ''judgmental'', ''missing'']"

definition task_kinds :: "string list" where
  "task_kinds = [''conversation'', ''factual_research'', ''requirements'', ''architecture'', ''coding'',
     ''verification'', ''image_understanding'', ''image_generation'', ''computer_use'', ''other'']"

definition executable_tokens :: "string list" where
  "executable_tokens = [''test'', ''run'', ''execute'', ''assert'', ''compile'', ''build'', ''lint'',
     ''script'', ''command'', ''code'', ''pass'']"

definition observable_tokens :: "string list" where
  "observable_tokens = [''observe'', ''display'', ''output'', ''response'', ''show'', ''render'',
     ''visible'', ''appear'', ''inspect'']"

definition classify_acceptance_criterion :: "string \<Rightarrow> pyval \<Rightarrow> string res" where
  "classify_acceptance_criterion description kind_hint =
     (if strip description = [] then Inr ''missing'' else
      bindE (py_in_strs kind_hint acceptance_kinds) (\<lambda>known.
      if known then Inr (py_str kind_hint) else
      let txt = lower description in
      Inr (if list_ex (\<lambda>t. contains t txt) executable_tokens then ''executable''
           else if list_ex (\<lambda>t. contains t txt) observable_tokens then ''observable''
           else ''judgmental'')))"

definition requires_clarification :: "pyval \<Rightarrow> bool res" where
  "requires_clarification contract =
     bindE (py_get contract ''risk_class'' PNone) (\<lambda>risk.
     if \<not> py_mem risk [PStr ''high'', PStr ''critical''] then Inr False else
     bindE (py_get contract ''acceptance_criteria'' (PList [])) (\<lambda>criteria.
     if \<not> truthy criteria then Inr True else
     bindE (py_iter criteria) (\<lambda>cs.
     allE' (\<lambda>c. bindE (py_get c ''kind'' PNone) (\<lambda>k. Inr (k = PStr ''missing''))) cs)))"

text \<open>The errors of one criterion, and of the list with its indices.\<close>

definition criterion_errors :: "nat \<Rightarrow> pyval \<Rightarrow> string list res" where
  "criterion_errors index criterion =
     (let pre = ''acceptance_criteria['' @ dec_nat index @ '']'' in
      bindE (py_get criterion ''id'' PNone) (\<lambda>cid.
      bindE (py_get criterion ''description'' (PStr [])) (\<lambda>description.
      bindE (py_get criterion ''kind'' PNone) (\<lambda>kind.
      bindE (py_in_strs kind acceptance_kinds) (\<lambda>known.
      bindE (py_get criterion ''mandatory'' PNone) (\<lambda>mandatory.
      Inr ((if truthy cid then [] else [pre @ ''.id_required'']) @
           (if strip (py_str description) = [] then [pre @ ''.description_required''] else []) @
           (if known then [] else [pre @ ''.kind_invalid'']) @
           (if is_bool mandatory then [] else [pre @ ''.mandatory_invalid'']))))))))"

definition criteria_errors :: "pyval \<Rightarrow> string list res" where
  "criteria_errors criteria =
     (if \<not> truthy criteria then Inr [''acceptance_criteria_required''] else
      bindE (py_iter criteria) (\<lambda>cs.
      bindE (mapE (\<lambda>(i, c). criterion_errors i c) (enumerate 0 cs)) (\<lambda>es. Inr (concat es))))"

definition contract_governance_errors :: "pyval \<Rightarrow> string list res" where
  "contract_governance_errors governance =
     (if \<not> truthy governance then Inr [''governance_required''] else
      bindE (py_get governance ''data_policy'' PNone) (\<lambda>p.
      Inr (if truthy p then [] else [''governance_data_policy_required''])))"

definition validate_task_contract :: "pyval \<Rightarrow> string list res" where
  "validate_task_contract contract =
     bindE (py_get contract ''version'' PNone) (\<lambda>version.
     bindE (py_get contract ''task_id'' PNone) (\<lambda>task_id.
     bindE (py_get contract ''goal'' PNone) (\<lambda>goal.
     bindE (py_get contract ''task_kind'' PNone) (\<lambda>task_kind.
     bindE (py_in_strs task_kind task_kinds) (\<lambda>kind_ok.
     bindE (py_get contract ''risk_class'' PNone) (\<lambda>risk.
     bindE (py_in_strs risk risk_classes) (\<lambda>risk_ok.
     bindE (py_get contract ''acceptance_criteria'' PNone) (\<lambda>criteria.
     bindE (criteria_errors criteria) (\<lambda>ces.
     bindE (py_get contract ''governance'' PNone) (\<lambda>governance.
     bindE (contract_governance_errors governance) (\<lambda>ges.
     Inr ((if version = PStr ''1.0'' then [] else [''version_must_be_1_0'']) @
          (if truthy task_id then [] else [''task_id_required'']) @
          (if truthy goal then [] else [''goal_required'']) @
          (if kind_ok then [] else [''task_kind_invalid'']) @
          (if risk_ok then [] else [''risk_class_invalid'']) @ ces @ ges))))))))))))"

definition criterion_item :: "pyval \<Rightarrow> pyval res" where
  "criterion_item criterion =
     bindE (py_get criterion ''description'' (PStr [])) (\<lambda>description.
     bindE (py_get criterion ''id'' PNone) (\<lambda>cid.
     Inr (PDict [(''kind'', PStr ''requirement''), (''statement'', description),
                 (''source'', PStr (''acceptance_criterion:'' @ py_str cid))])))"

definition contract_state_items :: "pyval \<Rightarrow> pyval list res" where
  "contract_state_items contract =
     bindE (py_get contract ''goal'' (PStr [])) (\<lambda>goal.
     bindE (bindE (py_get contract ''acceptance_criteria'' (PList [])) py_iter) (\<lambda>criteria.
     bindE (mapE criterion_item criteria) (\<lambda>items.
     bindE (py_get contract ''governance'' (PDict [])) (\<lambda>governance.
     bindE (py_get governance ''human_approval_required'' PNone) (\<lambda>approval.
     bindE (py_get contract ''risk_class'' PNone) (\<lambda>risk.
     Inr ((if truthy goal
           then [PDict [(''kind'', PStr (classify goal)), (''statement'', goal), (''source'', PStr ''goal'')]] else []) @
          items @
          [PDict [(''kind'', PStr ''decision''), (''status'', PStr (if truthy approval then ''rejected'' else ''approved'')),
                  (''rationale'', PStr (''risk_class='' @ py_str risk)), (''source'', PStr ''governance'')]])))))))"

definition default_acceptance_criterion :: pyval where
  "default_acceptance_criterion = PDict [(''id'', PStr ''ac-default-response''),
     (''description'', PStr ''A schema-valid response was produced within policy.''),
     (''kind'', PStr ''observable''), (''mandatory'', PBool True)]"

definition finalize_criterion :: "nat \<Rightarrow> pyval \<Rightarrow> pyval res" where
  "finalize_criterion index criterion =
     bindE (py_get criterion ''description'' (PStr [])) (\<lambda>d.
     let description = strip (py_str d) in
     bindE (py_get criterion ''kind'' PNone) (\<lambda>hint.
     bindE (classify_acceptance_criterion description hint) (\<lambda>kind.
     bindE (py_get criterion ''mandatory'' PNone) (\<lambda>mandatory.
     bindE (py_get criterion ''id'' PNone) (\<lambda>cid.
     bindE (py_get criterion ''evaluator_ref'' PNone) (\<lambda>evaluator.
     bindE (py_get criterion ''requirement_refs'' PNone) (\<lambda>refs.
     Inr (PDict ([(''id'', if truthy cid then cid else PStr (''ac-proposed-'' @ dec_nat index)),
                  (''description'', PStr (if description = [] then ''A schema-valid response was produced within policy.'' else description)),
                  (''kind'', PStr kind),
                  (''mandatory'', if is_bool mandatory then mandatory else PBool True)] @
                 (if evaluator \<noteq> PNone then [(''evaluator_ref'', evaluator)] else []) @
                 (if refs \<noteq> PNone then [(''requirement_refs'', refs)] else []))))))))))"

definition finalize_acceptance_criteria :: "pyval \<Rightarrow> pyval list res" where
  "finalize_acceptance_criteria proposed =
     (if \<not> truthy proposed then Inr [default_acceptance_criterion] else
      bindE (py_iter proposed) (\<lambda>cs. mapE (\<lambda>(i, c). finalize_criterion i c) (enumerate 0 cs)))"

section \<open>Compilation\<close>

definition required_capabilities :: "(string, pyval) dict \<Rightarrow> bool \<Rightarrow> string list" where
  "required_capabilities passthrough has_image =
     [''text''] @
     (if truthy (item_value passthrough ''tools'') then [''tool_calling''] else []) @
     (if truthy (item_value passthrough ''response_format'') \<or> truthy (item_value passthrough ''text'')
      then [''structured_output''] else []) @
     (if has_image then [''vision''] else [])"

definition input_modalities :: "bool \<Rightarrow> string list" where
  "input_modalities has_image = [''text''] @ (if has_image then [''image''] else [])"

text \<open>\<^verbatim>\<open>goal[:_MAX_GOAL_LENGTH]\<close> of a proposed goal, which may be any value.\<close>

definition cut_goal :: "pyval \<Rightarrow> pyval res" where
  "cut_goal goal = (case goal of PStr s \<Rightarrow> Inr (PStr (take max_goal_length s))
     | PList xs \<Rightarrow> Inr (PList (take max_goal_length xs)) | _ \<Rightarrow> Inl PyTypeError)"

definition finalize_contract ::
  "pyval list \<Rightarrow> (string, pyval) dict \<Rightarrow> (string, pyval) dict \<Rightarrow> string \<Rightarrow> (string, pyval) dict \<Rightarrow> pyval res" where
  "finalize_contract messages merged passthrough tid proposal =
     bindE (detect_image messages) (\<lambda>has_image.
     bindE (dict_item merged ''risk_class'') (\<lambda>risk_class.
     bindE (if truthy (item_value proposal ''goal'') then Inr (item_value proposal ''goal'')
            else bindE (extract_goal messages) (\<lambda>g. Inr (PStr g))) (\<lambda>goal0.
     bindE (cut_goal goal0) (\<lambda>goal.
     bindE (finalize_acceptance_criteria (item_value proposal ''acceptance_criteria'')) (\<lambda>criteria.
     bindE (build_contract_governance merged risk_class) (\<lambda>governance.
     Inr (PDict [
       (''version'', PStr ''1.0''),
       (''task_id'', PStr tid),
       (''project_id'', case map_of merged ''project_id'' of None \<Rightarrow> PStr ''project-default'' | Some p \<Rightarrow> p),
       (''goal'', goal),
       (''task_kind'', if truthy (item_value proposal ''task_kind'') then item_value proposal ''task_kind'' else PStr ''conversation''),
       (''risk_class'', risk_class),
       (''input_modalities'', PList (map PStr (input_modalities has_image))),
       (''required_capabilities'', PList (map PStr (required_capabilities passthrough has_image))),
       (''acceptance_criteria'', PList criteria),
       (''governance'', PDict governance)])))))))"

definition accepted_proposal :: "pyval res option \<Rightarrow> (string, pyval) dict" where
  "accepted_proposal proposer = (case proposer of Some (Inr (PDict d)) \<Rightarrow> d | _ \<Rightarrow> [])"

definition compile_task_contract ::
  "pyval list \<Rightarrow> (string, pyval) dict \<Rightarrow> (string, pyval) dict \<Rightarrow> string \<Rightarrow> pyval res option \<Rightarrow> pyval res" where
  "compile_task_contract messages merged passthrough tid proposer =
     bindE (finalize_contract messages merged passthrough tid (accepted_proposal proposer)) (\<lambda>contract.
     bindE (validate_task_contract contract) (\<lambda>errors.
     if errors \<noteq> [] then Inl (PyValueError (''compiled contract failed schema validation: '' @ join ''; '' errors))
     else Inr contract))"

section \<open>Lemmas\<close>

lemma dict_item_Inr: "dict_item d k = Inr v \<longleftrightarrow> map_of d k = Some v"
  by (simp add: dict_item_def split: option.splits)

lemma build_contract_governance_fields:
  assumes "build_contract_governance merged risk = Inr gov"
  shows "map_of gov ''data_policy'' = map_of merged ''data_policy'' \<and> map_of gov ''max_cost_usd'' = map_of merged ''max_cost_usd'' \<and>
     map_of gov ''max_latency_ms'' = map_of merged ''max_latency_ms'' \<and>
     map_of gov ''human_approval_required'' = Some (PBool (risk = PStr ''critical'')) \<and> map_of merged ''data_policy'' \<noteq> None"
  using assms by (auto simp: build_contract_governance_def bindE_eq_Inr dict_item_Inr Let_def)

lemma finalize_contract_fields:
  assumes "finalize_contract messages merged passthrough tid proposal = Inr c"
  shows "\<exists>d img gov risk. c = PDict d \<and> detect_image messages = Inr img \<and> map_of merged ''risk_class'' = Some risk \<and>
     build_contract_governance merged risk = Inr gov \<and>
     map_of d ''version'' = Some (PStr ''1.0'') \<and> map_of d ''task_id'' = Some (PStr tid) \<and>
     map_of d ''risk_class'' = Some risk \<and> map_of d ''governance'' = Some (PDict gov) \<and>
     map_of d ''input_modalities'' = Some (PList (map PStr (input_modalities img))) \<and>
     map_of d ''required_capabilities'' = Some (PList (map PStr (required_capabilities passthrough img)))"
  using assms by (auto simp: finalize_contract_def bindE_eq_Inr dict_item_Inr)

lemma detect_image_dicts: "\<forall>m\<in>set messages. is_dict m \<Longrightarrow> \<exists>b. detect_image messages = Inr b"
  unfolding detect_image_def
  by (induction messages) (auto simp: is_dict_def split: pyval.splits)

lemma extract_goal_dicts: "\<forall>m\<in>set messages. is_dict m \<Longrightarrow>
    \<exists>g. extract_goal messages = Inr g \<and> g \<noteq> [] \<and> length g \<le> max_goal_length"
proof -
  assume a: "\<forall>m\<in>set messages. is_dict m"
  have "returns (message_parts m)" if "m \<in> set messages" for m
    using a that by (cases m) (auto simp: message_parts_def is_dict_def)
  then have "\<exists>ps. mapE message_parts messages = Inr ps" unfolding returns_iff
    by (induction messages) fastforce+
  then show ?thesis by (auto simp: extract_goal_def Let_def max_goal_length_def)
qed

lemma default_criteria: "finalize_acceptance_criteria PNone = Inr [default_acceptance_criterion]"
  by (simp add: finalize_acceptance_criteria_def)

lemma default_criteria_valid: "criteria_errors (PList [default_acceptance_criterion]) = Inr []"
  by code_simp

lemma default_compiled:
  assumes "validate_governance (PDict merged) = Inr []" "\<forall>m\<in>set messages. is_dict m"
  shows "\<exists>d g risk gov. finalize_contract messages merged passthrough tid [] = Inr (PDict d) \<and>
     g \<noteq> [] \<and> length g \<le> max_goal_length \<and> risk \<in> set risk_classes \<and> truthy (item_value gov ''data_policy'') \<and>
     map_of d ''version'' = Some (PStr ''1.0'') \<and> map_of d ''task_id'' = Some (PStr tid) \<and> map_of d ''goal'' = Some (PStr g) \<and>
     map_of d ''task_kind'' = Some (PStr ''conversation'') \<and> map_of d ''risk_class'' = Some (PStr risk) \<and>
     map_of d ''acceptance_criteria'' = Some (PList [default_acceptance_criterion]) \<and> map_of d ''governance'' = Some (PDict gov)"
proof -
  have req: "\<forall>k\<in>set governance_required. map_of merged k \<noteq> None" and ok: "\<And>k w. map_of merged k = Some w \<Longrightarrow> field_ok k w"
    using assms(1) by (auto simp: governance_ok_iff)
  obtain risk where risk: "map_of merged ''risk_class'' = Some (PStr risk)" "risk \<in> set risk_classes"
    using req ok[of "''risk_class''"] by (auto simp: governance_required_def field_ok_simps)
  obtain data where data: "map_of merged ''data_policy'' = Some (PStr data)" "data \<in> set data_policies"
    using req ok[of "''data_policy''"] by (auto simp: governance_required_def field_ok_simps)
  obtain cost latency where cl: "map_of merged ''max_cost_usd'' = Some cost" "map_of merged ''max_latency_ms'' = Some latency"
    using req by (auto simp: governance_required_def)
  obtain gov where gov: "build_contract_governance merged (PStr risk) = Inr gov"
    using data cl by (simp add: build_contract_governance_def dict_item_def Let_def)
  have "map_of gov ''data_policy'' = Some (PStr data)" using build_contract_governance_fields[OF gov] data by simp
  then have t: "truthy (item_value gov ''data_policy'')" using data(2) by (auto simp: item_value_def data_policies_def)
  obtain img where img: "detect_image messages = Inr img" using detect_image_dicts[OF assms(2)] by blast
  obtain g where g: "extract_goal messages = Inr g" "g \<noteq> []" "length g \<le> max_goal_length" using extract_goal_dicts[OF assms(2)] by blast
  show ?thesis using img risk g gov t
    by (simp add: finalize_contract_def dict_item_def item_value_def default_criteria cut_goal_def)
qed

section \<open>Properties\<close>


text \<open>
  C31. The deterministic compiler always answers. For governance that passes its check, messages
  that are objects and a task id, and with no proposer, one that raised, or one whose answer is
  not an object, compilation returns one and the same valid contract: its goal is not empty and
  within the limit, it needs no clarification, and the routing kernel does not find its
  acceptance criteria missing.
\<close>
theorem deterministic_compile_succeeds:
  assumes "validate_governance (PDict merged) = Inr []" "\<forall>m\<in>set messages. is_dict m" "tid \<noteq> []"
    and "proposer = None \<or> (\<exists>e. proposer = Some (Inl e)) \<or> (\<exists>v. proposer = Some (Inr v) \<and> \<not> is_dict v)"
  shows "\<exists>c d g. compile_task_contract messages merged passthrough tid proposer = Inr c \<and>
     compile_task_contract messages merged passthrough tid None = Inr c \<and>
     c = PDict d \<and> map_of d ''goal'' = Some (PStr g) \<and> g \<noteq> [] \<and> length g \<le> max_goal_length \<and>
     validate_task_contract c = Inr [] \<and> requires_clarification c = Inr False \<and> missing_acceptance c = Inr False"
proof -
  obtain d g risk gov where f: "finalize_contract messages merged passthrough tid [] = Inr (PDict d)"
    and d: "g \<noteq> []" "length g \<le> max_goal_length" "risk \<in> set risk_classes" "truthy (item_value gov ''data_policy'')"
      "map_of d ''version'' = Some (PStr ''1.0'')" "map_of d ''task_id'' = Some (PStr tid)" "map_of d ''goal'' = Some (PStr g)"
      "map_of d ''task_kind'' = Some (PStr ''conversation'')" "map_of d ''risk_class'' = Some (PStr risk)"
      "map_of d ''acceptance_criteria'' = Some (PList [default_acceptance_criterion])" "map_of d ''governance'' = Some (PDict gov)"
    using default_compiled[OF assms(1,2)] by blast
  have p: "accepted_proposal proposer = []"
    using assms(4)
  proof (elim disjE exE conjE)
    fix v assume "proposer = Some (Inr v)" "\<not> is_dict v"
    then show ?thesis by (cases v) (simp_all add: accepted_proposal_def is_dict_def)
  qed (simp_all add: accepted_proposal_def)
  have "gov \<noteq> []" using d(4) by (auto simp: item_value_def)
  then have "contract_governance_errors (PDict gov) = Inr []"
    using d(4) by (simp add: contract_governance_errors_def item_value_def)
  then have valid: "validate_task_contract (PDict d) = Inr []"
    using d assms(3) default_criteria_valid
    by (simp add: validate_task_contract_def py_in_strs_def hashable_def task_kinds_def)
  have "requires_clarification (PDict d) = Inr False"
    using d by (simp add: requires_clarification_def default_acceptance_criterion_def)
  moreover have "missing_acceptance (PDict d) = Inr False"
    using d by (simp add: missing_acceptance_def default_acceptance_criterion_def)
  ultimately show ?thesis
    using f p valid d(1,2,7) by (simp add: compile_task_contract_def accepted_proposal_def)
qed

text \<open>A proposal that is an object with a bad field is not replaced by the deterministic one.\<close>

lemma bad_proposal_raises:
  "compile_task_contract [] (default_governance (PInt 1) (PInt 1)) [] ''t'' (Some (Inr (PDict [(''goal'', PInt 5)]))) = Inl PyTypeError"
  by code_simp

section \<open>Witnesses\<close>


theorem deterministic_compile_succeeds_witness:
  "\<exists>c. compile_task_contract [] (default_governance (PInt 1) (PInt 1)) [] ''t'' (Some (Inl PyTypeError)) = Inr c \<and>
     requires_clarification c = Inr False"
proof -
  have "validate_governance (PDict (default_governance (PInt 1) (PInt 1))) = Inr []" by code_simp
  from deterministic_compile_succeeds[OF this, of "[]" "''t''" "Some (Inl PyTypeError)" "[]"] show ?thesis by auto
qed

end
