(* ===== verification/Verification_Dag.thy ===== *)
theory Verification_Dag
  imports Epistemic_State Contracts
begin

text \<open>
  The verification engine: \<^verbatim>\<open>reference/gateway/verification.py\<close> and the test-independence check
  \<^verbatim>\<open>reference/gateway/test_independence.py\<close>. Evidence records and results are the JSON objects
  the code builds. The uuid and the timestamp of the evidence record number \<open>k\<close> of a run are
  \<open>uuid k\<close> and \<open>now k\<close>; the steps are called with their default activity and producer, as the
  evaluation calls them.
\<close>

section \<open>Test independence\<close>

definition valid_independence :: "string list" where
  "valid_independence = [''worker_generated'', ''independent'', ''hidden'', ''mutation'', ''formal'', ''human'']"

definition high_risk_sufficient :: "string list" where
  "high_risk_sufficient = [''independent'', ''hidden'', ''mutation'', ''formal'', ''human'']"

definition coverage_ok :: "pyval \<Rightarrow> bool res" where
  "coverage_ok coverage =
     (if is_bool coverage \<or> \<not> is_number coverage then Inr False
      else bindE (py_float coverage) (\<lambda>f. Inr (f_le (Fin 0) f \<and> f_le f (Fin 1))))"

definition validate_test_metadata :: "pyval \<Rightarrow> string list res" where
  "validate_test_metadata evidence =
     bindE (py_get evidence ''kind'' PNone) (\<lambda>kind.
     if kind \<noteq> PStr ''test_result'' then Inr [] else
     bindE (py_get evidence ''test_metadata'' PNone) (\<lambda>metadata.
     case metadata of
       PDict m \<Rightarrow>
         bindE (py_in_strs (item_value m ''independence'') valid_independence) (\<lambda>known.
         bindE (coverage_ok (item_value m ''coverage'')) (\<lambda>covered.
         Inr (concat (map (\<lambda>f. if is_str (item_value m f) \<and> truthy (item_value m f) then []
                               else [''test_metadata.'' @ f @ ''_required'']) [''test_suite_id'', ''test_version'']) @
              (if is_int (item_value m ''exit_code'') \<and> \<not> is_bool (item_value m ''exit_code'') then []
               else [''test_metadata.exit_code_must_be_integer'']) @
              (if known then [] else [''test_metadata.independence_invalid'']) @
              (if covered then [] else [''test_metadata.coverage_out_of_range'']))))
     | _ \<Rightarrow> Inr [''test_result_evidence_requires_test_metadata'']))"

text \<open>One record of \<open>classify_test_evidence\<close>: the evidence id joins the group of its independence.\<close>

definition add_to_group :: "(string, string list) dict \<Rightarrow> pyval \<Rightarrow> (string, string list) dict res" where
  "add_to_group groups evidence =
     bindE (py_get evidence ''kind'' PNone) (\<lambda>kind.
     if kind \<noteq> PStr ''test_result'' then Inr groups else
     bindE (py_get evidence ''test_metadata'' PNone) (\<lambda>m.
     bindE (py_get (if truthy m then m else PDict []) ''independence'' PNone) (\<lambda>independence.
     bindE (py_in_strs independence valid_independence) (\<lambda>known.
     bindE (py_get evidence ''evidence_id'' (PStr [])) (\<lambda>eid.
     Inr (if known
          then (let k = py_str independence in dset k ((case map_of groups k of None \<Rightarrow> [] | Some g \<Rightarrow> g) @ [py_str eid]) groups)
          else groups))))))"

definition classify_test_evidence :: "pyval list \<Rightarrow> (string, string list) dict res" where
  "classify_test_evidence records = foldE add_to_group (map (\<lambda>k. (k, [])) valid_independence) records"

definition is_test_result :: "pyval \<Rightarrow> bool res" where
  "is_test_result e = bindE (py_get e ''kind'' PNone) (\<lambda>k. Inr (k = PStr ''test_result''))"

definition check_independence :: "pyval list \<Rightarrow> string \<Rightarrow> (bool \<times> string) res" where
  "check_independence records risk_class =
     (if risk_class \<notin> set [''high'', ''critical''] then Inr (True, ''test_independence_not_required'') else
      bindE (classify_test_evidence records) (\<lambda>groups.
      bindE (filterE is_test_result records) (\<lambda>tests.
      Inr (if tests = [] then (True, ''no_test_evidence'')
           else if list_ex (\<lambda>k. map_of groups k \<noteq> Some []) high_risk_sufficient
           then (True, ''independent_test_evidence_present'')
           else (False, ''worker_generated_tests_alone_are_insufficient_for_high_or_critical_risk'')))))"

section \<open>Evidence and results\<close>

definition make_evidence ::
  "(string \<Rightarrow> string) \<Rightarrow> (nat \<Rightarrow> string) \<Rightarrow> (nat \<Rightarrow> string) \<Rightarrow> nat \<Rightarrow> string \<Rightarrow> string \<Rightarrow> pyval \<Rightarrow> string \<Rightarrow> f64 \<Rightarrow> pyval" where
  "make_evidence sha uuid now k kind activity content location strength =
     PDict [(''evidence_id'', PStr (''evidence-'' @ uuid k)), (''kind'', PStr kind), (''produced_at'', PStr (now k)),
       (''producer'', gateway_producer), (''activity_id'', PStr activity),
       (''content_hash'', PStr (sha256_tag sha (json_compact True content))),
       (''location'', PStr location), (''strength'', PFloat strength)]"

definition evidence_name :: "(nat \<Rightarrow> string) \<Rightarrow> nat \<Rightarrow> pyval" where
  "evidence_name uuid k = PStr (''evidence-'' @ uuid k)"

definition passed_text :: "bool \<Rightarrow> string" where
  "passed_text b = (if b then ''passed'' else ''failed'')"

definition full_strength :: "bool \<Rightarrow> f64" where
  "full_strength b = (if b then Fin 1 else Fin 0)"

definition simple_result :: "(nat \<Rightarrow> string) \<Rightarrow> nat \<Rightarrow> string \<Rightarrow> bool \<Rightarrow> pyval \<Rightarrow> pyval" where
  "simple_result uuid k criterion passed evidence =
     PDict [(''criterion_id'', PStr criterion), (''status'', PStr (passed_text passed)), (''mandatory'', PBool True),
       (''evidence_ids'', PList [evidence_name uuid k]), (''_evidence'', PList [evidence])]"

text \<open>The exceptions of a lookup in a malformed response.\<close>

definition lookup_failed :: "pyexc \<Rightarrow> bool" where
  "lookup_failed e = (case e of KeyError _ \<Rightarrow> True | IndexError \<Rightarrow> True | PyTypeError \<Rightarrow> True | _ \<Rightarrow> False)"

definition response_content :: "pyval \<Rightarrow> pyval res" where
  "response_content response =
     bindE (py_index response ''choices'') (\<lambda>choices.
     bindE (py_index_int choices 0) (\<lambda>choice.
     bindE (py_index choice ''message'') (\<lambda>message. py_index message ''content'')))"

section \<open>The steps\<close>

definition schema_check :: "(string \<Rightarrow> string) \<Rightarrow> (nat \<Rightarrow> string) \<Rightarrow> (nat \<Rightarrow> string) \<Rightarrow> nat \<Rightarrow> pyval \<Rightarrow> pyval res" where
  "schema_check sha uuid now k response =
     bindE (catchE lookup_failed False
       (bindE (response_content response) (\<lambda>content. Inr (is_str content \<and> truthy content)))) (\<lambda>passed.
     Inr (simple_result uuid k ''schema'' passed
       (make_evidence sha uuid now k ''direct_observation'' ''verify-schema''
          (PDict [(''schema_valid'', PBool passed), (''response_shape'', PStr ''OpenAI chat.completion'')])
          ''verification.schema_check'' (full_strength passed))))"

definition policy_check :: "(string \<Rightarrow> string) \<Rightarrow> (nat \<Rightarrow> string) \<Rightarrow> (nat \<Rightarrow> string) \<Rightarrow> nat \<Rightarrow> pyval \<Rightarrow> pyval res" where
  "policy_check sha uuid now k decision =
     bindE (py_get decision ''status'' PNone) (\<lambda>status.
     let passed = (status = PStr ''route_selected'') in
     Inr (simple_result uuid k ''policy'' passed
       (make_evidence sha uuid now k ''direct_observation'' ''verify-policy''
          (PDict [(''policy_admissible'', PBool passed), (''decision_status'', status)])
          ''verification.policy_check'' (full_strength passed))))"

definition sub_result :: "pyval \<Rightarrow> pyval \<Rightarrow> string \<Rightarrow> pyval \<Rightarrow> pyval list \<Rightarrow> pyval" where
  "sub_result cid kind st mandatory ids =
     PDict [(''criterion_id'', cid), (''kind'', kind), (''status'', PStr st), (''mandatory'', mandatory),
       (''evidence_ids'', PList ids)]"

text \<open>One criterion: its sub-result, and its evidence when it is observable.\<close>

definition check_criterion ::
  "(string \<Rightarrow> string) \<Rightarrow> (nat \<Rightarrow> string) \<Rightarrow> (nat \<Rightarrow> string) \<Rightarrow> nat \<Rightarrow> pyval \<Rightarrow> pyval list \<times> pyval list \<Rightarrow> pyval \<Rightarrow>
    (pyval list \<times> pyval list) res" where
  "check_criterion sha uuid now k0 response = (\<lambda>(subs, evs) criterion.
     bindE (py_get criterion ''kind'' (PStr ''missing'')) (\<lambda>kind.
     bindE (py_index criterion ''id'') (\<lambda>cid.
     bindE (py_get criterion ''mandatory'' (PBool False)) (\<lambda>mandatory.
     if kind \<noteq> PStr ''observable'' then Inr (subs @ [sub_result cid kind ''not_run'' mandatory []], evs) else
     bindE (catchE lookup_failed False (bindE (response_content response) (\<lambda>content. Inr (truthy content)))) (\<lambda>passed.
     bindE (py_get response ''model'' PNone) (\<lambda>model.
     let k = k0 + length evs in
     Inr (subs @ [sub_result cid kind (passed_text passed) mandatory [evidence_name uuid k]],
          evs @ [make_evidence sha uuid now k ''direct_observation'' ''verify-acceptance''
            (PDict [(''criterion_id'', cid), (''kind'', kind), (''status'', PStr (passed_text passed)), (''response_model'', model)])
            (''verification.deterministic_acceptance.'' @ py_str cid) (full_strength passed)])))))))"

definition test_sub_result :: "string \<Rightarrow> pyval list \<Rightarrow> string \<Rightarrow> pyval" where
  "test_sub_result criterion ids detail =
     PDict [(''criterion_id'', PStr criterion), (''kind'', PStr ''test_result''), (''status'', PStr ''failed''),
       (''mandatory'', PBool True), (''evidence_ids'', PList ids), (''detail'', PStr detail)]"

definition test_evidence_ids :: "pyval list \<Rightarrow> pyval list res" where
  "test_evidence_ids records =
     collectE (\<lambda>e. bindE (py_get e ''evidence_id'' PNone) (\<lambda>i. Inr (truthy i))) (\<lambda>e. py_index e ''evidence_id'') records"

text \<open>The sub-results that enforce test metadata and independence for high and critical risk.\<close>

definition test_sub_results :: "pyval list \<Rightarrow> string \<Rightarrow> pyval list res" where
  "test_sub_results test_evidence risk_class =
     bindE (filterE is_test_result test_evidence) (\<lambda>records.
     if risk_class \<notin> set [''high'', ''critical''] \<or> records = [] then Inr [] else
     bindE (bindE (mapE validate_test_metadata records) (\<lambda>es. Inr (concat es))) (\<lambda>errors.
     bindE (if errors = [] then Inr []
            else bindE (test_evidence_ids records) (\<lambda>ids. Inr [test_sub_result ''test_metadata'' ids (join ''; '' errors)])) (\<lambda>subs.
     bindE (check_independence records risk_class) (\<lambda>(ok, detail).
     if ok then Inr subs
     else bindE (test_evidence_ids records) (\<lambda>ids. Inr (subs @ [test_sub_result ''test_independence'' ids detail]))))))"

definition all_mandatory_passed :: "pyval list \<Rightarrow> bool res" where
  "all_mandatory_passed subs =
     allE' (\<lambda>r. bindE (py_get r ''mandatory'' PNone) (\<lambda>m.
       if truthy m then bindE (py_index r ''status'') (\<lambda>s. Inr (s = PStr ''passed'')) else Inr True)) subs"

definition deterministic_acceptance_check ::
  "(string \<Rightarrow> string) \<Rightarrow> (nat \<Rightarrow> string) \<Rightarrow> (nat \<Rightarrow> string) \<Rightarrow> nat \<Rightarrow> pyval \<Rightarrow> pyval \<Rightarrow> string \<Rightarrow> pyval list \<Rightarrow> pyval res" where
  "deterministic_acceptance_check sha uuid now k contract response risk_class test_evidence =
     bindE (bindE (py_get contract ''acceptance_criteria'' (PList [])) py_iter) (\<lambda>criteria.
     bindE (foldE (check_criterion sha uuid now k response) ([], []) criteria) (\<lambda>(subs, evs).
     bindE (test_sub_results test_evidence risk_class) (\<lambda>tests.
     bindE (all_mandatory_passed (subs @ tests)) (\<lambda>all_passed.
     bindE (mapE (\<lambda>e. py_index e ''evidence_id'') evs) (\<lambda>ids.
     Inr (PDict [(''criterion_id'', PStr ''deterministic_acceptance''), (''status'', PStr (passed_text all_passed)),
       (''mandatory'', PBool True), (''sub_results'', PList (subs @ tests)), (''evidence_ids'', PList ids),
       (''_evidence'', PList evs)]))))))"

definition family_verdict :: "pyval \<Rightarrow> pyval \<Rightarrow> bool \<times> string" where
  "family_verdict worker verifier =
     (if verifier = PNone then (False, ''no_verifier_assigned'')
      else if \<not> py_eq worker verifier
      then (True, ''independent: worker='' @ py_str worker @ '', verifier='' @ py_str verifier)
      else (False, ''not_independent: both families are '' @ py_str worker))"

definition independent_family_review_check ::
  "(string \<Rightarrow> string) \<Rightarrow> (nat \<Rightarrow> string) \<Rightarrow> (nat \<Rightarrow> string) \<Rightarrow> nat \<Rightarrow> pyval \<Rightarrow> pyval res" where
  "independent_family_review_check sha uuid now k pl =
     bindE (py_get pl ''provider_family'' (PStr [])) (\<lambda>worker.
     bindE (py_get pl ''verifier_family'' PNone) (\<lambda>verifier.
     let (passed, detail) = family_verdict worker verifier in
     Inr (simple_result uuid k ''independent_family_review'' passed
       (make_evidence sha uuid now k ''direct_observation'' ''verify-independence''
          (PDict [(''independent'', PBool passed), (''worker_family'', worker), (''verifier_family'', verifier), (''detail'', PStr detail)])
          ''verification.independent_family_review'' (full_strength passed)))))"

definition human_approval_check :: "(string \<Rightarrow> string) \<Rightarrow> (nat \<Rightarrow> string) \<Rightarrow> (nat \<Rightarrow> string) \<Rightarrow> nat \<Rightarrow> string \<Rightarrow> pyval" where
  "human_approval_check sha uuid now k risk_class =
     (let critical = (risk_class = ''critical'');
          detail = (if critical then ''human_approval_required_but_not_available_in_skeleton''
                    else ''human_approval_not_required_for_risk_class_'' @ risk_class) in
      PDict [(''criterion_id'', PStr ''human_approval''), (''status'', PStr (if critical then ''not_run'' else ''waived'')),
        (''mandatory'', PBool True), (''evidence_ids'', PList (if critical then [evidence_name uuid k] else [])),
        (''_evidence'', PList [make_evidence sha uuid now k ''direct_observation'' ''verify-human-approval''
           (PDict [(''risk_class'', PStr risk_class), (''detail'', PStr detail)]) ''verification.human_approval'' (full_strength (\<not> critical))]),
        (''_blocks_acceptance'', PBool critical)])"

section \<open>The evaluation of the declared steps\<close>

definition run_step ::
  "(string \<Rightarrow> string) \<Rightarrow> (nat \<Rightarrow> string) \<Rightarrow> (nat \<Rightarrow> string) \<Rightarrow> pyval \<Rightarrow> pyval \<Rightarrow> string \<Rightarrow> pyval \<Rightarrow> pyval list \<Rightarrow> pyval \<Rightarrow> pyval option res" where
  "run_step sha uuid now contract response risk_class plan evidence step =
     (let k = length evidence; some = (\<lambda>m. bindE m (\<lambda>r. Inr (Some r))) in
      if step = PStr ''schema'' then some (schema_check sha uuid now k response)
      else if step = PStr ''policy'' then some (policy_check sha uuid now k (PDict [(''status'', PStr ''route_selected'')]))
      else if step = PStr ''deterministic_acceptance''
      then some (deterministic_acceptance_check sha uuid now k contract response risk_class evidence)
      else if step = PStr ''independent_family_review'' then some (independent_family_review_check sha uuid now k plan)
      else if step = PStr ''human_approval'' then some (Inr (human_approval_check sha uuid now k risk_class))
      else Inr None)"

definition step_passes :: "pyval \<Rightarrow> bool res" where
  "step_passes result =
     bindE (py_get result ''status'' PNone) (\<lambda>status.
     bindE (py_get result ''mandatory'' (PBool False)) (\<lambda>mandatory.
     bindE (py_get result ''_blocks_acceptance'' (PBool False)) (\<lambda>blocks.
     Inr (\<not> (status = PStr ''failed'' \<and> truthy mandatory) \<and> \<not> truthy blocks))))"

definition evaluate_step ::
  "(string \<Rightarrow> string) \<Rightarrow> (nat \<Rightarrow> string) \<Rightarrow> (nat \<Rightarrow> string) \<Rightarrow> pyval \<Rightarrow> pyval \<Rightarrow> string \<Rightarrow> pyval \<Rightarrow>
    pyval list \<times> bool \<times> pyval list \<Rightarrow> pyval \<Rightarrow> (pyval list \<times> bool \<times> pyval list) res" where
  "evaluate_step sha uuid now contract response risk_class plan = (\<lambda>(rs, ok, evidence) step.
     bindE (run_step sha uuid now contract response risk_class plan evidence step) (\<lambda>result.
     case result of None \<Rightarrow> Inr (rs, ok, evidence)
     | Some r \<Rightarrow>
         bindE (bindE (py_get r ''_evidence'' (PList [])) py_iter) (\<lambda>evs.
         bindE (step_passes r) (\<lambda>passes.
         Inr (rs @ [r], ok \<and> passes, evidence @ evs)))))"

definition declared_steps :: "pyval \<Rightarrow> string \<Rightarrow> pyval list res" where
  "declared_steps policy risk_class =
     bindE (py_get policy ''verification'' (PDict [])) (\<lambda>v.
     bindE (py_get v risk_class (PList [])) py_iter)"

definition evaluate_verification ::
  "(string \<Rightarrow> string) \<Rightarrow> (nat \<Rightarrow> string) \<Rightarrow> (nat \<Rightarrow> string) \<Rightarrow> pyval \<Rightarrow> pyval \<Rightarrow> string \<Rightarrow> pyval \<Rightarrow> pyval \<Rightarrow>
    (pyval list \<times> bool \<times> pyval list) res" where
  "evaluate_verification sha uuid now contract response risk_class policy plan =
     bindE (declared_steps policy risk_class) (\<lambda>steps.
     foldE (evaluate_step sha uuid now contract response risk_class plan) ([], True, []) steps)"

section \<open>The evidence of a run\<close>

definition own_evidence :: "(string \<Rightarrow> string) \<Rightarrow> (nat \<Rightarrow> string) \<Rightarrow> (nat \<Rightarrow> string) \<Rightarrow> pyval \<Rightarrow> bool" where
  "own_evidence sha uuid now e = (\<exists>k activity content location strength.
     e = make_evidence sha uuid now k ''direct_observation'' activity content location strength)"

lemma own_make [simp]: "own_evidence sha uuid now (make_evidence sha uuid now k ''direct_observation'' a c l s)"
  unfolding own_evidence_def by blast

lemma own_not_test: "own_evidence sha uuid now e \<Longrightarrow> is_test_result e = Inr False"
  by (auto simp: own_evidence_def make_evidence_def is_test_result_def)

lemma no_test_sub_results: "\<forall>e\<in>set evs. own_evidence sha uuid now e \<Longrightarrow> test_sub_results evs risk = Inr []"
proof -
  assume "\<forall>e\<in>set evs. own_evidence sha uuid now e"
  then have "filterE is_test_result evs = Inr (filter (\<lambda>_. False) evs)"
    by (intro filterE_total) (auto intro: own_not_test)
  then show ?thesis by (simp add: test_sub_results_def)
qed

lemma check_criterion_Inr:
  assumes "check_criterion sha uuid now k response (subs, evs) c = Inr (subs', evs')"
  shows "\<exists>cid kind st m ids. subs' = subs @ [sub_result cid kind st m ids] \<and> py_get c ''mandatory'' (PBool False) = Inr m \<and>
     (st = ''passed'' \<longrightarrow> py_get c ''kind'' (PStr ''missing'') = Inr (PStr ''observable'') \<and>
        (\<exists>v. response_content response = Inr v \<and> truthy v)) \<and>
     (\<forall>e\<in>set evs'. e \<in> set evs \<or> own_evidence sha uuid now e)"
proof -
  obtain kind cid m where c: "py_get c ''kind'' (PStr ''missing'') = Inr kind" "py_index c ''id'' = Inr cid"
    "py_get c ''mandatory'' (PBool False) = Inr m"
    using assms by (auto simp: check_criterion_def bindE_eq_Inr)
  show ?thesis
  proof (cases "kind = PStr ''observable''")
    case False
    with assms c have "subs' = subs @ [sub_result cid kind ''not_run'' m []]" "evs' = evs"
      by (simp_all add: check_criterion_def)
    with c show ?thesis 
      by - (rule exI[of _ cid], rule exI[of _ kind], rule exI[of _ "''not_run''"], rule exI[of _ m], rule exI[of _ "[]"], simp)
  next
    case True
    let ?k = "k + length evs"
    obtain passed model where p: "catchE lookup_failed False (bindE (response_content response) (\<lambda>content. Inr (truthy content))) = Inr passed"
      and subs': "subs' = subs @ [sub_result cid kind (passed_text passed) m [evidence_name uuid ?k]]"
      and evs': "evs' = evs @ [make_evidence sha uuid now ?k ''direct_observation'' ''verify-acceptance''
            (PDict [(''criterion_id'', cid), (''kind'', kind), (''status'', PStr (passed_text passed)), (''response_model'', model)])
            (''verification.deterministic_acceptance.'' @ py_str cid) (full_strength passed)]"
      using assms c True by (auto simp: check_criterion_def bindE_eq_Inr Let_def)
    have "passed_text passed = ''passed'' \<longrightarrow> (\<exists>v. response_content response = Inr v \<and> truthy v)"
      using p by (auto simp: passed_text_def catchE_eq_Inr bindE_eq_Inr)
    then show ?thesis using subs' evs' c True
      by - (rule exI[of _ cid], rule exI[of _ kind], rule exI[of _ "passed_text passed"], rule exI[of _ m],
        rule exI[of _ "[evidence_name uuid ?k]"], auto)
  qed
qed

text \<open>A criterion has its sub-result, which passes only where the response was observed.\<close>

definition criterion_reported :: "pyval \<Rightarrow> pyval list \<Rightarrow> pyval \<Rightarrow> bool" where
  "criterion_reported response subs c = (\<exists>cid kind st m ids. sub_result cid kind st m ids \<in> set subs \<and>
     py_get c ''mandatory'' (PBool False) = Inr m \<and>
     (st = ''passed'' \<longrightarrow> py_get c ''kind'' (PStr ''missing'') = Inr (PStr ''observable'') \<and>
        (\<exists>v. response_content response = Inr v \<and> truthy v)))"

lemma criterion_reportedI:
  "sub_result cid kind st m ids \<in> set subs \<Longrightarrow> py_get c ''mandatory'' (PBool False) = Inr m \<Longrightarrow>
    (st = ''passed'' \<Longrightarrow> py_get c ''kind'' (PStr ''missing'') = Inr (PStr ''observable'') \<and>
        (\<exists>v. response_content response = Inr v \<and> truthy v)) \<Longrightarrow> criterion_reported response subs c"
  unfolding criterion_reported_def by blast

lemma criterion_reported_subset: "criterion_reported response subs c \<Longrightarrow> set subs \<subseteq> set subs' \<Longrightarrow> criterion_reported response subs' c"
  unfolding criterion_reported_def by blast

lemma check_criteria_Inr:
  assumes "foldE (check_criterion sha uuid now k response) (subs, evs) cs = Inr (subs', evs')"
  shows "length subs' = length subs + length cs \<and> set subs \<subseteq> set subs' \<and> (\<forall>c\<in>set cs. criterion_reported response subs' c) \<and>
     (\<forall>e\<in>set evs'. e \<in> set evs \<or> own_evidence sha uuid now e)"
  using assms
proof (induction cs arbitrary: subs evs)
  case (Cons c cs)
  obtain subs1 evs1 where 1: "check_criterion sha uuid now k response (subs, evs) c = Inr (subs1, evs1)"
    and 2: "foldE (check_criterion sha uuid now k response) (subs1, evs1) cs = Inr (subs', evs')"
    using Cons.prems by (auto simp: bindE_eq_Inr)
  note c = check_criterion_Inr[OF 1] and ih = Cons.IH[OF 2]
  from c have len: "length subs1 = Suc (length subs)" "set subs \<subseteq> set subs1" by auto
  have "criterion_reported response subs1 c" using c by (elim exE conjE) (rule criterion_reportedI, auto)
  then have "criterion_reported response subs' c" using ih by (blast intro: criterion_reported_subset)
  moreover have "\<forall>e\<in>set evs1. e \<in> set evs \<or> own_evidence sha uuid now e" using c by blast
  ultimately show ?case using ih len by auto
qed simp

lemma all_mandatory_passed_sub:
  "all_mandatory_passed subs = Inr True \<Longrightarrow> sub_result cid kind st m ids \<in> set subs \<Longrightarrow> truthy m \<Longrightarrow> st = ''passed''"
  by (fastforce simp: all_mandatory_passed_def allE'_eq_True sub_result_def)

lemma step_passes_simple: "step_passes (simple_result uuid k c passed e) = Inr passed"
  by (simp add: step_passes_def simple_result_def passed_text_def)

lemma review_Inr:
  assumes "independent_family_review_check sha uuid now k pl = Inr r"
  shows "\<exists>worker verifier passed detail content. py_get pl ''provider_family'' (PStr []) = Inr worker \<and>
     py_get pl ''verifier_family'' PNone = Inr verifier \<and> family_verdict worker verifier = (passed, detail) \<and>
     r = simple_result uuid k ''independent_family_review'' passed (make_evidence sha uuid now k ''direct_observation''
       ''verify-independence'' content ''verification.independent_family_review'' (full_strength passed))"
proof -
  obtain worker verifier where "py_get pl ''provider_family'' (PStr []) = Inr worker" "py_get pl ''verifier_family'' PNone = Inr verifier"
    using assms by (auto simp: independent_family_review_check_def bindE_eq_Inr)
  moreover obtain passed detail where "family_verdict worker verifier = (passed, detail)" by fastforce
  ultimately show ?thesis using assms by (auto simp: independent_family_review_check_def)
qed

lemma result_evidence: "run_step sha uuid now contract response risk plan evidence step = Inr (Some r) \<Longrightarrow>
    bindE (py_get r ''_evidence'' (PList [])) py_iter = Inr evs \<Longrightarrow> \<forall>e\<in>set evs. own_evidence sha uuid now e"
proof -
  assume r: "run_step sha uuid now contract response risk plan evidence step = Inr (Some r)"
    and evs: "bindE (py_get r ''_evidence'' (PList [])) py_iter = Inr evs"
  consider "schema_check sha uuid now (length evidence) response = Inr r"
    | "policy_check sha uuid now (length evidence) (PDict [(''status'', PStr ''route_selected'')]) = Inr r"
    | "deterministic_acceptance_check sha uuid now (length evidence) contract response risk evidence = Inr r"
    | "independent_family_review_check sha uuid now (length evidence) plan = Inr r"
    | "r = human_approval_check sha uuid now (length evidence) risk"
    using r by (auto simp: run_step_def Let_def bindE_eq_Inr split: if_splits)
  then show ?thesis
  proof cases
    case 1 then show ?thesis using evs by (auto simp: schema_check_def bindE_eq_Inr simple_result_def)
  next
    case 2 then show ?thesis using evs by (auto simp: policy_check_def bindE_eq_Inr simple_result_def Let_def)
  next
    case 3
    then obtain criteria subs evs' where f: "foldE (check_criterion sha uuid now (length evidence) response) ([], []) criteria = Inr (subs, evs')"
      and "py_get r ''_evidence'' (PList []) = Inr (PList evs')"
      by (auto simp: deterministic_acceptance_check_def bindE_eq_Inr)
    then have "evs' = evs" using evs by simp
    with f have "foldE (check_criterion sha uuid now (length evidence) response) ([], []) criteria = Inr (subs, evs)" by simp
    from check_criteria_Inr[OF this] show ?thesis by simp
  next
    case 4 then show ?thesis using evs by (auto simp: simple_result_def dest!: review_Inr)
  next
    case 5 then show ?thesis using evs by (auto simp: human_approval_check_def Let_def)
  qed
qed

section \<open>What a passed step shows\<close>

lemma schema_passed:
  assumes "schema_check sha uuid now k response = Inr r" "step_passes r = Inr True"
  shows "\<exists>s. response_content response = Inr (PStr s) \<and> s \<noteq> []"
proof -
  obtain passed e where p: "catchE lookup_failed False (bindE (response_content response) (\<lambda>content. Inr (is_str content \<and> truthy content))) = Inr passed"
    and r: "r = simple_result uuid k ''schema'' passed e"
    using assms(1) by (auto simp: schema_check_def bindE_eq_Inr)
  have passed using assms(2) by (simp add: r step_passes_simple)
  with p obtain content where "response_content response = Inr content" "is_str content" "truthy content"
    by (auto simp: catchE_eq_Inr bindE_eq_Inr)
  then show ?thesis by (cases content) (auto simp: is_str_def)
qed

lemma acceptance_passed:
  assumes "deterministic_acceptance_check sha uuid now k contract response risk evidence = Inr r" "step_passes r = Inr True"
    and "py_get contract ''acceptance_criteria'' (PList []) = Inr (PList criteria)" "c \<in> set criteria"
    and "py_get c ''mandatory'' (PBool False) = Inr m" "truthy m"
  shows "py_get c ''kind'' (PStr ''missing'') = Inr (PStr ''observable'') \<and> (\<exists>v. response_content response = Inr v \<and> truthy v)"
proof -
  obtain subs evs where f: "foldE (check_criterion sha uuid now k response) ([], []) criteria = Inr (subs, evs)"
    using assms(1,3) by (auto simp: deterministic_acceptance_check_def bindE_eq_Inr)
  obtain tests all ids where all: "all_mandatory_passed (subs @ tests) = Inr all"
    and r: "r = PDict [(''criterion_id'', PStr ''deterministic_acceptance''), (''status'', PStr (passed_text all)),
       (''mandatory'', PBool True), (''sub_results'', PList (subs @ tests)), (''evidence_ids'', PList ids), (''_evidence'', PList evs)]"
    using assms(1,3) f by (auto simp: deterministic_acceptance_check_def bindE_eq_Inr)
  have "all" using assms(2) r by (simp add: step_passes_def passed_text_def split: if_splits)
  with all have all: "all_mandatory_passed (subs @ tests) = Inr True" by simp
  have "criterion_reported response subs c" using check_criteria_Inr[OF f] assms(4) by blast
  then obtain cid kind st ids where "sub_result cid kind st m ids \<in> set subs"
    "st = ''passed'' \<longrightarrow> py_get c ''kind'' (PStr ''missing'') = Inr (PStr ''observable'') \<and>
       (\<exists>v. response_content response = Inr v \<and> truthy v)"
    using assms(5) unfolding criterion_reported_def by auto
  then show ?thesis using all_mandatory_passed_sub[OF all, of cid kind st m ids] assms(6) by auto
qed

lemma review_passed:
  "independent_family_review_check sha uuid now k pl = Inr r \<Longrightarrow> step_passes r = Inr True \<Longrightarrow>
    \<exists>worker verifier. py_get pl ''provider_family'' (PStr []) = Inr worker \<and>
       py_get pl ''verifier_family'' PNone = Inr verifier \<and> verifier \<noteq> PNone \<and> \<not> py_eq worker verifier"
  by (auto simp: family_verdict_def step_passes_simple dest!: review_Inr split: if_splits)

lemma human_passed: "step_passes (human_approval_check sha uuid now k risk) = Inr True \<longleftrightarrow> risk \<noteq> ''critical''"
  by (simp add: step_passes_def human_approval_check_def Let_def)

lemma evaluate_steps_passed:
  assumes "foldE (evaluate_step sha uuid now contract response risk plan) (rs, ok, ev) steps = Inr (rs', ok', ev')"
    and "\<forall>e\<in>set ev. own_evidence sha uuid now e"
  shows "(\<forall>e\<in>set ev'. own_evidence sha uuid now e) \<and> (ok' \<longrightarrow> ok \<and> (\<forall>step\<in>set steps. \<exists>ev1.
     (\<forall>e\<in>set ev1. own_evidence sha uuid now e) \<and>
     (run_step sha uuid now contract response risk plan ev1 step = Inr None \<or>
      (\<exists>r. run_step sha uuid now contract response risk plan ev1 step = Inr (Some r) \<and> step_passes r = Inr True))))"
  using assms
proof (induction steps arbitrary: rs ok ev)
  case (Cons step steps)
  obtain rs1 ok1 ev1 where 1: "evaluate_step sha uuid now contract response risk plan (rs, ok, ev) step = Inr (rs1, ok1, ev1)"
    and 2: "foldE (evaluate_step sha uuid now contract response risk plan) (rs1, ok1, ev1) steps = Inr (rs', ok', ev')"
    using Cons.prems(1) by (auto simp: bindE_eq_Inr)
  have own: "\<forall>e\<in>set ev1. own_evidence sha uuid now e"
    using 1 Cons.prems(2) result_evidence[of sha uuid now contract response risk plan ev step]
    by (auto simp: evaluate_step_def bindE_eq_Inr split: option.splits)
  have "ok1 \<Longrightarrow> ok \<and> (run_step sha uuid now contract response risk plan ev step = Inr None \<or>
      (\<exists>r. run_step sha uuid now contract response risk plan ev step = Inr (Some r) \<and> step_passes r = Inr True))"
    using 1 by (auto simp: evaluate_step_def bindE_eq_Inr split: option.splits)
  with Cons.IH[OF 2 own] Cons.prems(2) show ?case by auto
qed auto

section \<open>Groups of test evidence\<close>

definition test_record :: "pyval \<Rightarrow> bool" where
  "test_record e = (\<exists>d. e = PDict d \<and> (item_value d ''test_metadata'' = PNone \<or>
     (\<exists>m. item_value d ''test_metadata'' = PDict m \<and> hashable (item_value m ''independence''))))"

definition declares :: "string \<Rightarrow> pyval \<Rightarrow> bool" where
  "declares k e = (\<exists>d m. e = PDict d \<and> item_value d ''kind'' = PStr ''test_result'' \<and>
     item_value d ''test_metadata'' = PDict m \<and> item_value m ''independence'' = PStr k)"

lemma py_get_item: "py_get (PDict d) k PNone = Inr (item_value d k)"
  by (simp add: item_value_def)

lemma add_to_group_ok:
  assumes "test_record e" "\<forall>k\<in>set valid_independence. map_of groups k \<noteq> None"
  shows "\<exists>groups'. add_to_group groups e = Inr groups' \<and> (\<forall>k\<in>set valid_independence. map_of groups' k \<noteq> None \<and>
     (map_of groups' k \<noteq> Some [] \<longleftrightarrow> map_of groups k \<noteq> Some [] \<or> declares k e))"
proof -
  obtain d where e: "e = PDict d" using assms(1) by (auto simp: test_record_def)
  show ?thesis
  proof (cases "item_value d ''kind'' = PStr ''test_result''")
    case False
    then show ?thesis using assms(2) by (simp add: add_to_group_def e py_get_item declares_def del: py_get_PDict)
  next
    case kind: True
    define m where "m = (case item_value d ''test_metadata'' of PDict m \<Rightarrow> m | _ \<Rightarrow> [])"
    have m: "(if truthy (item_value d ''test_metadata'') then item_value d ''test_metadata'' else PDict []) = PDict m"
      "hashable (item_value m ''independence'')"
      using assms(1) by (auto simp: test_record_def e m_def item_value_def hashable_def)
    have dec: "declares k e \<longleftrightarrow> item_value m ''independence'' = PStr k" for k
      using assms(1) kind by (auto simp: declares_def test_record_def e m_def item_value_def)
    obtain eid where eid: "py_get e ''evidence_id'' (PStr []) = Inr eid" by (simp add: e)
    show ?thesis
      using kind m assms(2) eid
      by (auto simp: add_to_group_def e py_get_item dec[unfolded e] py_in_strs_def Let_def simp del: py_get_PDict)
  qed
qed

lemma classify_groups:
  assumes "\<forall>e\<in>set records. test_record e"
  shows "\<exists>groups. classify_test_evidence records = Inr groups \<and>
     (\<forall>k\<in>set valid_independence. map_of groups k \<noteq> Some [] \<longleftrightarrow> (\<exists>e\<in>set records. declares k e))"
proof -
  have "\<exists>groups. foldE add_to_group g0 records = Inr groups \<and>
     (\<forall>k\<in>set valid_independence. map_of groups k \<noteq> Some [] \<longleftrightarrow> map_of g0 k \<noteq> Some [] \<or> (\<exists>e\<in>set records. declares k e))"
    if "\<forall>k\<in>set valid_independence. map_of g0 k \<noteq> None" for g0
    using assms that
  proof (induction records arbitrary: g0)
    case (Cons e records)
    then obtain g1 where "add_to_group g0 e = Inr g1" "\<forall>k\<in>set valid_independence. map_of g1 k \<noteq> None \<and>
        (map_of g1 k \<noteq> Some [] \<longleftrightarrow> map_of g0 k \<noteq> Some [] \<or> declares k e)"
      using add_to_group_ok[of e g0] by auto
    moreover from this Cons.IH[of g1] Cons.prems(1) obtain groups where "foldE add_to_group g1 records = Inr groups"
      "\<forall>k\<in>set valid_independence. map_of groups k \<noteq> Some [] \<longleftrightarrow> map_of g1 k \<noteq> Some [] \<or> (\<exists>e\<in>set records. declares k e)"
      by auto
    ultimately show ?case by auto
  qed simp
  moreover have "\<forall>k\<in>set valid_independence. map_of (map (\<lambda>k. (k, [])) valid_independence) k = Some []"
    by (simp add: valid_independence_def)
  ultimately show ?thesis by (fastforce simp: classify_test_evidence_def)
qed

lemma sufficient_valid: "k \<in> set high_risk_sufficient \<Longrightarrow> k \<in> set valid_independence"
  by (auto simp: high_risk_sufficient_def valid_independence_def)

lemma run_named_step:
  "run_step sha uuid now contract response risk pl ev (PStr ''schema'') =
     bindE (schema_check sha uuid now (length ev) response) (\<lambda>r. Inr (Some r))"
  "run_step sha uuid now contract response risk pl ev (PStr ''deterministic_acceptance'') =
     bindE (deterministic_acceptance_check sha uuid now (length ev) contract response risk ev) (\<lambda>r. Inr (Some r))"
  "run_step sha uuid now contract response risk pl ev (PStr ''independent_family_review'') =
     bindE (independent_family_review_check sha uuid now (length ev) pl) (\<lambda>r. Inr (Some r))"
  "run_step sha uuid now contract response risk pl ev (PStr ''human_approval'') =
     Inr (Some (human_approval_check sha uuid now (length ev) risk))"
  by (simp_all add: run_step_def)

lemma some_passed:
  "bindE m (\<lambda>r. Inr (Some r)) = Inr None \<or> (\<exists>r. bindE m (\<lambda>r. Inr (Some r)) = Inr (Some r) \<and> P r) \<longleftrightarrow>
    (\<exists>r. m = Inr r \<and> P r)"
  by (cases m) auto

section \<open>Properties\<close>


text \<open>
  The independence rule is exact on what it is given: for high or critical risk, test evidence
  is insufficient precisely when there is some and none of it declares an independence class other
  than the worker's own.
\<close>
theorem independence_rule_exact:
  assumes "\<forall>e\<in>set records. test_record e" and "risk \<in> set [''high'', ''critical'']"
  shows "\<exists>detail. check_independence records risk =
     Inr ((\<exists>e\<in>set records. is_test_result e = Inr True) \<longrightarrow> (\<exists>e\<in>set records. \<exists>k\<in>set high_risk_sufficient. declares k e), detail)"
proof -
  obtain groups where g: "classify_test_evidence records = Inr groups"
    "\<And>k. k \<in> set valid_independence \<Longrightarrow> map_of groups k \<noteq> Some [] \<longleftrightarrow> (\<exists>e\<in>set records. declares k e)"
    using classify_groups[OF assms(1)] by blast
  have "filterE is_test_result records = Inr (filter (\<lambda>e. is_test_result e = Inr True) records)"
    using assms(1) by (auto simp: filterE_eq_Inr test_record_def is_test_result_def)
  moreover have "list_ex (\<lambda>k. map_of groups k \<noteq> Some []) high_risk_sufficient \<longleftrightarrow>
      (\<exists>e\<in>set records. \<exists>k\<in>set high_risk_sufficient. declares k e)"
    unfolding list_ex_iff using g(2) sufficient_valid by blast
  ultimately have "check_independence records risk = Inr (
      if \<forall>e\<in>set records. is_test_result e \<noteq> Inr True then (True, ''no_test_evidence'')
      else if \<exists>e\<in>set records. \<exists>k\<in>set high_risk_sufficient. declares k e then (True, ''independent_test_evidence_present'')
      else (False, ''worker_generated_tests_alone_are_insufficient_for_high_or_critical_risk''))"
    using assms(2) g(1) by (simp add: check_independence_def filter_empty_conv)
  then show ?thesis by simp
qed

text \<open>The evidence of a run holds no test results, so the rule is never reached from it.\<close>

lemma run_never_checks_independence:
  assumes "evaluate_verification sha uuid now contract response risk policy pl = Inr (rs, ok, evs)"
  shows "test_sub_results evs risk' = Inr []"
proof -
  obtain steps where "foldE (evaluate_step sha uuid now contract response risk pl) ([], True, []) steps = Inr (rs, ok, evs)"
    using assms by (auto simp: evaluate_verification_def bindE_eq_Inr)
  from evaluate_steps_passed[OF this] show ?thesis by (auto intro: no_test_sub_results)
qed

section \<open>Witnesses\<close>

definition one_answer :: pyval where
  "one_answer = PDict [(''choices'', PList [PDict [(''message'', PDict [(''content'', PStr ''ok'')])]])]"

definition schema_policy :: pyval where
  "schema_policy = PDict [(''verification'', PDict [(''low'', PList [PStr ''schema'', PStr ''policy''])])]"


definition worker_test :: pyval where
  "worker_test = PDict [(''kind'', PStr ''test_result''), (''test_metadata'', PDict [(''independence'', PStr ''worker_generated'')])]"

theorem independence_rule_exact_witness:
  "\<exists>detail. check_independence [worker_test] ''high'' = Inr (False, detail)"
proof -
  have "test_record worker_test" by (simp add: test_record_def worker_test_def item_value_def hashable_def)
  moreover have "is_test_result worker_test = Inr True" by code_simp
  moreover have "\<not> declares k worker_test" if "k \<in> set high_risk_sufficient" for k
    using that by (auto simp: declares_def worker_test_def item_value_def high_risk_sufficient_def)
  ultimately show ?thesis using independence_rule_exact[of "[worker_test]" "''high''"] by auto
qed

end
