(* ===== verification/Epistemic_Ledger.thy ===== *)
theory Epistemic_Ledger
  imports Verification_Dag "HOL-Library.Sublist"
begin

text \<open>
  The enricher of ledger events, \<^verbatim>\<open>reference/gateway/epistemic_ledger.py\<close>: for each decision it
  builds a payload with the reasons and a snapshot of the epistemic state, and appends an entry
  to its decision history. Payloads and entries are the JSON objects the code builds; the
  epistemic state is the one of \<open>Epistemic_State\<close>, the timestamps are arguments, and the keys of
  objects are texts, so an evidence kind that is not one is an error here.
\<close>

section \<open>The snapshot\<close>

definition strs :: "string list \<Rightarrow> pyval" where
  "strs ss = PList (map PStr ss)"

definition claim_to_py :: "claim \<Rightarrow> pyval" where
  "claim_to_py c = PDict [(''claim_id'', PStr (cl_id c)), (''statement'', PStr (cl_statement c)),
     (''status'', PStr (cl_status c)), (''confidence'', PFloat (cl_confidence c)),
     (''refutation_confidence'', PFloat (cl_refutation c)), (''evidence_ids'', strs (cl_evidence_ids c)),
     (''is_derived'', PBool (cl_is_derived c)), (''premise_evidence_ids'', strs (cl_premises c))]"

definition unresolved_ids :: "es_state \<Rightarrow> string list" where
  "unresolved_ids s = map fst (filter (\<lambda>(_, c). cl_status c \<in> set [''unknown'', ''conflicted'']) (es_claims s))"

definition calibration_summary :: "es_state \<Rightarrow> (string, pyval) dict res" where
  "calibration_summary s =
     mapE (\<lambda>(m, _). bindE (compute_ece (es_calibration s) m 10) (\<lambda>e. Inr (m, PFloat e))) (es_calibration s)"

record snapshot =
  sn_claims :: "(string, claim) dict"
  sn_evidence :: "(string, pydict) dict"
  sn_unresolved :: "string list"
  sn_conflicted :: "string list"
  sn_calibration :: "(string, pyval) dict"

definition snapshot_epistemic_state :: "es_state \<Rightarrow> snapshot res" where
  "snapshot_epistemic_state s =
     bindE (calibration_summary s) (\<lambda>cal.
     Inr \<lparr>sn_claims = es_claims s, sn_evidence = es_evidence s, sn_unresolved = unresolved_ids s,
          sn_conflicted = conflicted_claim_ids s, sn_calibration = cal\<rparr>)"

definition snapshot_to_py :: "snapshot \<Rightarrow> pyval" where
  "snapshot_to_py sn = PDict [
     (''claims'', PDict (map (\<lambda>(k, c). (k, claim_to_py c)) (sn_claims sn))),
     (''evidence'', PDict (map (\<lambda>(k, e). (k, PDict e)) (sn_evidence sn))),
     (''evidence_count'', PInt (int (length (sn_evidence sn)))),
     (''unresolved_claim_ids'', strs (sn_unresolved sn)),
     (''conflicted_claim_ids'', strs (sn_conflicted sn)),
     (''calibration_summary'', PDict (sn_calibration sn))]"

section \<open>Formatting\<close>

text \<open>\<^verbatim>\<open>format(v, '.nf')\<close> of a value: a number, through its float.\<close>

definition fmt_value :: "nat \<Rightarrow> pyval \<Rightarrow> string res" where
  "fmt_value n v = (case v of
     PStr _ \<Rightarrow> Inl (PyValueError ''format'')
   | PNone \<Rightarrow> Inl PyTypeError | PList _ \<Rightarrow> Inl PyTypeError | PDict _ \<Rightarrow> Inl PyTypeError
   | _ \<Rightarrow> bindE (py_float v) (\<lambda>f. Inr (fmt_fixed n f)))"

definition fmt_percent :: "nat \<Rightarrow> f64 \<Rightarrow> string" where
  "fmt_percent n f = (case f of Fin _ \<Rightarrow> fmt_fixed n (f_mul f (Fin 100)) | _ \<Rightarrow> fmt_fixed n f) @ ''%''"

definition show_list :: "string list \<Rightarrow> string" where
  "show_list ss = py_str (strs ss)"

definition count_of :: "'a list \<Rightarrow> string" where
  "count_of xs = dec_nat (length xs)"

definition history_entry :: "string \<Rightarrow> string \<Rightarrow> string \<Rightarrow> (string, pyval) dict \<Rightarrow> pyval" where
  "history_entry step now reasoning rest =
     PDict ([(''step'', PStr step), (''timestamp'', PStr now), (''reasoning'', PStr reasoning)] @ rest)"

section \<open>Route selection\<close>

definition route_reasoning :: "pyval \<Rightarrow> pyval \<Rightarrow> string \<Rightarrow> string" where
  "route_reasoning model gateway cost =
     (if gateway = PStr ''local''
      then ''Selected '' @ py_str model @ '' (local, $'' @ cost @ ''/call) because it was the lowest-cost admissible plan meeting all hard constraints''
      else ''Selected '' @ py_str model @ '' (cloud, $'' @ cost @ ''/call) as the admissible plan meeting all hard constraints'')"

definition candidate_audit :: "pyval \<Rightarrow> pyval \<Rightarrow> pyval res" where
  "candidate_audit rejected cand =
     bindE (py_get cand ''model_id'' (PStr ''unknown'')) (\<lambda>model.
     bindE (py_get cand ''candidate_id'' model) (\<lambda>cid.
     bindE (py_get_key rejected cid (PStr [])) (\<lambda>why.
     bindE (py_get cand ''model_id'' (PStr [])) (\<lambda>model_id.
     bindE (py_get cand ''inference_gateway'' (PStr [])) (\<lambda>gateway.
     bindE (py_get cand ''expected_total_cost_usd'' (PFloat (Fin 0))) (\<lambda>cost.
     bindE (py_in cid rejected) (\<lambda>is_rejected.
     Inr (PDict [(''candidate_id'', cid), (''model_id'', model_id), (''gateway'', gateway), (''cost'', cost),
       (''admissible'', PBool (\<not> is_rejected)), (''rejection_reason'', if is_rejected then why else PNone)]))))))))"

definition contract_context :: "pyval \<Rightarrow> pyval res" where
  "contract_context contract =
     bindE (py_get contract ''task_id'' (PStr [])) (\<lambda>task.
     bindE (py_get contract ''goal'' (PStr [])) (\<lambda>goal.
     bindE (py_get contract ''task_kind'' (PStr [])) (\<lambda>kind.
     bindE (py_get contract ''required_capabilities'' (PList [])) (\<lambda>caps.
     bindE (bindE (py_get contract ''governance'' (PDict [])) (\<lambda>g. py_get g ''data_policy'' (PStr []))) (\<lambda>data.
     Inr (PDict [(''task_id'', task), (''goal'', goal), (''task_kind'', kind), (''required_capabilities'', caps), (''data_policy'', data)]))))))"

definition enrich_route_selection ::
  "string \<Rightarrow> pyval list \<Rightarrow> pyval \<Rightarrow> es_state \<Rightarrow> pyval \<Rightarrow> pyval \<Rightarrow> (pyval list \<times> pyval) res" where
  "enrich_route_selection now history decision es contract policy =
     bindE (py_get decision ''selected_plan'' (PDict [])) (\<lambda>plan.
     bindE (py_get decision ''candidates_evaluated'' (PList [])) (\<lambda>candidates.
     bindE (py_get decision ''rejected_reasons'' (PDict [])) (\<lambda>rejected.
     bindE (py_get plan ''model_id'' (PStr ''unknown'')) (\<lambda>model.
     bindE (py_get plan ''inference_gateway'' (PStr ''unknown'')) (\<lambda>gateway.
     bindE (py_get plan ''expected_total_cost_usd'' (PFloat (Fin 0))) (\<lambda>cost.
     bindE (py_get contract ''risk_class'' (PStr ''low'')) (\<lambda>risk.
     bindE (fmt_value 4 cost) (\<lambda>cost_text.
     bindE (py_get contract ''required_capabilities'' (PList [])) (\<lambda>caps.
     bindE (if truthy caps then bindE (bindE (py_iter caps) (py_join '', '')) (\<lambda>t. Inr [''Required capabilities: '' @ t]) else Inr []) (\<lambda>caps_part.
     bindE (bindE (py_iter candidates) (mapE (candidate_audit rejected))) (\<lambda>audit.
     bindE (snapshot_epistemic_state es) (\<lambda>sn.
     bindE (py_get policy ''version'' (PStr [])) (\<lambda>version.
     bindE (py_get policy ''acceptance_lcb_floor'' (PFloat (Fin 0))) (\<lambda>lcb_floor.
     bindE (contract_context contract) (\<lambda>ctx.
     bindE (py_get policy ''acceptance_lcb_floor'' (PFloat (lit 0.85))) (\<lambda>required.
     bindE (py_get decision ''decision_id'' (PStr [])) (\<lambda>did.
     bindE (py_get decision ''status'' (PStr [])) (\<lambda>status.
     let reasoning = join '' '' ([route_reasoning model gateway cost_text] @ caps_part @ [''Risk class: '' @ py_str risk]) in
     Inr (history @ [history_entry ''route_selection'' now reasoning
            [(''epistemic_state'', snapshot_to_py sn), (''evidence'', PList (map (\<lambda>(_, e). PDict e) (es_evidence es))),
             (''decision'', PDict [(''selected_plan'', plan), (''candidates_evaluated'', PList audit), (''rejected_reasons'', rejected)])]],
          PDict [(''decision_id'', did), (''selected_plan'', plan), (''status'', status), (''reasoning'', PStr reasoning),
            (''candidates_evaluated'', PList audit), (''epistemic_state_snapshot'', snapshot_to_py sn),
            (''policy_context'', PDict [(''version'', version), (''acceptance_lcb_floor'', lcb_floor), (''risk_class'', risk)]),
            (''contract_context'', ctx),
            (''risk_assessment'', PDict [(''risk_class'', risk), (''required_lcb'', required)])])))))))))))))))))))"

section \<open>Verification\<close>

definition count_kind :: "(string, pyval) dict \<Rightarrow> pydict \<Rightarrow> (string, pyval) dict res" where
  "count_kind kinds ev =
     (case (case map_of ev ''kind'' of None \<Rightarrow> PStr ''unknown'' | Some k \<Rightarrow> k) of
        PStr k \<Rightarrow> Inr (dset k (case map_of kinds k of Some (PInt n) \<Rightarrow> PInt (n + 1) | _ \<Rightarrow> PInt 1) kinds)
      | _ \<Rightarrow> Inl PyTypeError)"

definition is_mandatory :: "pyval \<Rightarrow> bool res" where
  "is_mandatory r = bindE (py_get r ''mandatory'' PNone) (\<lambda>m. Inr (truthy m))"

definition status_is :: "string \<Rightarrow> pyval \<Rightarrow> bool res" where
  "status_is st r = bindE (py_get r ''status'' PNone) (\<lambda>s. Inr (s = PStr st))"

definition mandatory_all_passed :: "pyval list \<Rightarrow> bool res" where
  "mandatory_all_passed results =
     allE' (\<lambda>r. bindE (is_mandatory r) (\<lambda>m. if m then status_is ''passed'' r else Inr True)) results"

definition failed_criteria :: "pyval list \<Rightarrow> pyval list res" where
  "failed_criteria results =
     collectE (\<lambda>r. bindE (is_mandatory r) (\<lambda>m. if m then bindE (status_is ''passed'' r) (\<lambda>p. Inr (\<not> p)) else Inr False))
       (\<lambda>r. py_index r ''criterion_id'') results"

definition verification_reasoning :: "string \<Rightarrow> pyval list \<Rightarrow> bool \<Rightarrow> pyval list \<Rightarrow> string list \<Rightarrow> string" where
  "verification_reasoning risk steps all_passed failed conflicts =
     ''Verification DAG for '' @ risk @ '' risk: '' @ py_str (PList steps) @ ''. '' @
     (if all_passed
      then ''All mandatory criteria passed. '' @
        (if conflicts \<noteq> [] then ''However, '' @ count_of conflicts @ '' blocking conflicts exist: '' @ show_list conflicts @ ''.''
         else ''No blocking conflicts.'')
      else ''Failed mandatory criteria: '' @ py_str (PList failed) @ ''. '' @
        (if conflicts \<noteq> [] then ''Blocking conflicts: '' @ show_list conflicts @ ''.'' else []))"

definition enrich_verification ::
  "string \<Rightarrow> pyval list \<Rightarrow> pyval list \<Rightarrow> es_state \<Rightarrow> string \<Rightarrow> pyval list \<Rightarrow> (pyval list \<times> pyval) res" where
  "enrich_verification now history results es risk dag_steps =
     bindE (snapshot_epistemic_state es) (\<lambda>sn.
     bindE (foldE count_kind [] (map snd (es_evidence es))) (\<lambda>kinds.
     bindE (mandatory_all_passed results) (\<lambda>all_passed.
     bindE (failed_criteria results) (\<lambda>failed.
     let conflicts = conflicted_claim_ids es;
         reasoning = verification_reasoning risk dag_steps all_passed failed conflicts in
     Inr (history @ [history_entry ''verification'' now reasoning
            [(''epistemic_state'', snapshot_to_py sn), (''verification_results'', PList results), (''dag_steps'', PList dag_steps)]],
          PDict [(''verification_results'', PList results), (''dag_steps'', PList dag_steps),
            (''epistemic_state_snapshot'', snapshot_to_py sn), (''blocking_conflicts'', strs conflicts),
            (''evidence_summary'', PDict [(''total_evidence'', PInt (int (length (es_evidence es)))), (''by_kind'', PDict kinds)]),
            (''risk_class'', PStr risk), (''reasoning'', PStr reasoning)])))))"

section \<open>Outcome\<close>

definition status_count :: "string \<Rightarrow> snapshot \<Rightarrow> nat" where
  "status_count st sn = length (filter (\<lambda>(_, c). cl_status c = st) (sn_claims sn))"

definition epistemic_summary :: "snapshot \<Rightarrow> pyval" where
  "epistemic_summary sn = PDict [
     (''total_claims'', PInt (int (length (sn_claims sn)))),
     (''supported_claims'', PInt (int (status_count ''supported'' sn))),
     (''refuted_claims'', PInt (int (status_count ''refuted'' sn))),
     (''unknown_claims'', PInt (int (status_count ''unknown'' sn))),
     (''conflicted_claims'', PInt (int (status_count ''conflicted'' sn))),
     (''unresolved_claim_ids'', strs (sn_unresolved sn)),
     (''conflicted_claim_ids'', strs (sn_conflicted sn))]"

definition cost_item :: "(string, pyval) dict \<Rightarrow> string \<Rightarrow> pyval \<Rightarrow> pyval" where
  "cost_item d k dflt = (case map_of d k of None \<Rightarrow> dflt | Some v \<Rightarrow> v)"

definition cost_summary :: "(string, pyval) dict \<Rightarrow> f64 \<Rightarrow> pyval" where
  "cost_summary breakdown total_cost = PDict [
     (''direct'', cost_item breakdown ''direct_cost'' (PFloat total_cost)),
     (''rework'', cost_item breakdown ''rework_cost'' (PFloat (Fin 0))),
     (''human'', cost_item breakdown ''human_cost'' (PFloat (Fin 0))),
     (''escalation'', cost_item breakdown ''escalation_cost'' (PFloat (Fin 0))),
     (''latency'', cost_item breakdown ''latency_cost'' (PFloat (Fin 0))),
     (''infrastructure'', cost_item breakdown ''infrastructure_cost'' (PFloat (Fin 0))),
     (''total'', PFloat total_cost)]"

definition evidence_chain :: "es_state \<Rightarrow> pyval list" where
  "evidence_chain es = map (\<lambda>(_, e). attr (PDict e) ''content_hash'' (PStr []))
     (filter (\<lambda>(_, e). truthy (attr (PDict e) ''content_hash'' PNone)) (es_evidence es))"

definition outcome_reasoning :: "string \<Rightarrow> string list \<Rightarrow> string list \<Rightarrow> nat \<Rightarrow> nat \<Rightarrow> pyval \<Rightarrow> f64 \<Rightarrow> string" where
  "outcome_reasoning st unresolved conflicted n_passed n_failed gateway total_cost =
     (if st = ''accepted''
      then ''Outcome accepted. All verification criteria passed. '' @
        (if unresolved \<noteq> [] then count_of unresolved @ '' unresolved claims remain: '' @ show_list unresolved @ ''. ''
         else ''No unresolved claims. '') @
        (if conflicted \<noteq> [] then count_of conflicted @ '' blocking conflicts: '' @ show_list conflicted @ ''. ''
         else ''No blocking conflicts. '') @
        ''Total cost: $'' @ fmt_fixed 4 total_cost @ '' ('' @ py_str gateway @ '' model). Evidence receipt issued.''
      else ''Outcome rejected. Verification: '' @ dec_nat n_passed @ '' passed, '' @ dec_nat n_failed @ '' failed. '' @
        (if unresolved \<noteq> [] then count_of unresolved @ '' unresolved claims. '' else []) @
        (if conflicted \<noteq> [] then count_of conflicted @ '' blocking conflicts. '' else []) @
        ''Total cost: $'' @ fmt_fixed 4 total_cost @ ''.'')"

definition enrich_outcome ::
  "string \<Rightarrow> pyval list \<Rightarrow> string \<Rightarrow> pyval \<Rightarrow> es_state \<Rightarrow> pyval list \<Rightarrow> f64 \<Rightarrow> (string, pyval) dict option \<Rightarrow>
    (pyval list \<times> pyval) res" where
  "enrich_outcome now history st decision es results total_cost breakdown =
     bindE (snapshot_epistemic_state es) (\<lambda>sn.
     bindE (py_get decision ''selected_plan'' (PDict [])) (\<lambda>plan.
     bindE (py_get plan ''model_id'' (PStr ''unknown'')) (\<lambda>model.
     bindE (py_get plan ''inference_gateway'' (PStr ''unknown'')) (\<lambda>gateway.
     bindE (filterE (status_is ''passed'') results) (\<lambda>passed.
     bindE (filterE (status_is ''failed'') results) (\<lambda>failed.
     let costs = cost_summary (case breakdown of None \<Rightarrow> [] | Some b \<Rightarrow> b) total_cost;
         reasoning = outcome_reasoning st (sn_unresolved sn) (sn_conflicted sn) (length passed) (length failed) gateway total_cost in
     Inr (history @ [history_entry ''outcome'' now reasoning
            [(''epistemic_state'', snapshot_to_py sn), (''cost_summary'', costs), (''unresolved_claims'', strs (sn_unresolved sn))]],
          PDict [(''status'', PStr st),
            (''decision_summary'', PDict [(''route'', model), (''gateway'', gateway), (''cost'', PFloat total_cost)]),
            (''epistemic_summary'', epistemic_summary sn),
            (''verification_summary'', PDict [(''passed'', PInt (int (length passed))), (''failed'', PInt (int (length failed))),
               (''total'', PInt (int (length results))), (''evidence_count'', PInt (int (length (sn_evidence sn))))]),
            (''cost_summary'', costs), (''reasoning'', PStr reasoning),
            (''unresolved_claims'', strs (sn_unresolved sn)), (''evidence_chain'', PList (evidence_chain es))])))))))"

section \<open>Fallback, human review, claim transitions, compression\<close>

definition decision_context :: "pyval list \<Rightarrow> pyval res" where
  "decision_context history =
     (if history = [] then Inr (PDict []) else
      bindE (py_get (List.last history) ''step'' (PStr [])) (\<lambda>step.
      bindE (py_get (List.last history) ''reasoning'' (PStr [])) (\<lambda>reasoning.
      Inr (PDict [(''last_step'', step), (''last_reasoning'', reasoning)]))))"

definition enrich_fallback ::
  "string \<Rightarrow> pyval list \<Rightarrow> string \<Rightarrow> string \<Rightarrow> string \<Rightarrow> string \<Rightarrow> es_state \<Rightarrow> (pyval list \<times> pyval) res" where
  "enrich_fallback now history fallback_class from_model to_model why es =
     bindE (snapshot_epistemic_state es) (\<lambda>sn.
     bindE (decision_context history) (\<lambda>ctx.
     let reasoning = ''Fallback triggered ('' @ fallback_class @ ''): from '' @ from_model @ '' to '' @ to_model @ ''. Reason: '' @ why @ ''.'' in
     Inr (history @ [history_entry ''fallback'' now reasoning
            [(''epistemic_state'', snapshot_to_py sn), (''fallback_class'', PStr fallback_class),
             (''from_model'', PStr from_model), (''to_model'', PStr to_model)]],
          PDict [(''fallback_class'', PStr fallback_class), (''from'', PStr from_model), (''to'', PStr to_model),
            (''reason'', PStr why), (''reasoning'', PStr reasoning), (''epistemic_state_snapshot'', snapshot_to_py sn),
            (''decision_context'', ctx)])))"

definition evidence_line :: "pydict \<Rightarrow> pyval" where
  "evidence_line e = PDict [(''evidence_id'', attr (PDict e) ''evidence_id'' (PStr [])),
     (''kind'', attr (PDict e) ''kind'' (PStr [])), (''strength'', attr (PDict e) ''strength'' (PFloat (Fin 0)))]"

definition review_reasoning :: "string \<Rightarrow> string \<Rightarrow> string list \<Rightarrow> string list \<Rightarrow> string" where
  "review_reasoning risk why unresolved conflicted =
     ''Human review requested for '' @ risk @ '' risk task. Reason: '' @ why @ ''. '' @
     (if unresolved \<noteq> [] then count_of unresolved @ '' claims require human resolution: '' @ show_list unresolved @ ''. '' else []) @
     (if conflicted \<noteq> [] then count_of conflicted @ '' conflicted claims: '' @ show_list conflicted @ ''. '' else [])"

definition enrich_human_review ::
  "string \<Rightarrow> pyval list \<Rightarrow> string \<Rightarrow> es_state \<Rightarrow> pyval list \<Rightarrow> string \<Rightarrow> (pyval list \<times> pyval) res" where
  "enrich_human_review now history why es results risk =
     bindE (snapshot_epistemic_state es) (\<lambda>sn.
     let reasoning = review_reasoning risk why (sn_unresolved sn) (sn_conflicted sn) in
     Inr (history @ [history_entry ''human_review'' now reasoning
            [(''epistemic_state'', snapshot_to_py sn), (''reason'', PStr why), (''risk_class'', PStr risk)]],
          PDict [(''reason'', PStr why), (''reasoning'', PStr reasoning), (''epistemic_state_snapshot'', snapshot_to_py sn),
            (''verification_results'', PList results), (''risk_class'', PStr risk),
            (''unresolved_claims'', strs (sn_unresolved sn)),
            (''evidence_summary'', PList (map (\<lambda>(_, e). evidence_line e) (es_evidence es)))]))"

definition enrich_claim_transition ::
  "string \<Rightarrow> pyval list \<Rightarrow> claim_transition \<Rightarrow> pyval list \<times> pyval" where
  "enrich_claim_transition now history t =
     (history @ [history_entry ''claim_transition'' now (ct_reasoning t)
        [(''claim_id'', PStr (ct_claim_id t)), (''old_status'', PStr (ct_old t)), (''new_status'', PStr (ct_new t)),
         (''evidence_ids'', strs (ct_evidence_ids t))]],
      PDict [(''claim_id'', PStr (ct_claim_id t)), (''old_status'', PStr (ct_old t)), (''new_status'', PStr (ct_new t)),
        (''evidence_ids'', strs (ct_evidence_ids t)), (''reasoning'', PStr (ct_reasoning t)),
        (''support_lcb'', PFloat (Fin 0)), (''refutation_lcb'', PFloat (Fin 0))])"

record compression_report =
  co_original :: int
  co_compressed :: int
  co_ratio :: f64
  co_strategy :: string
  co_duration :: f64
  co_saved :: int
  co_skipped :: bool

definition compression_reasoning :: "compression_report \<Rightarrow> string" where
  "compression_reasoning c =
     (if co_skipped c then ''Compression skipped (disabled or below threshold).''
      else ''Context compressed using '' @ [CHR 39] @ co_strategy c @ [CHR 39] @ '' strategy: '' @ dec_int (co_original c) @ '' -> '' @
        dec_int (co_compressed c) @ '' tokens ('' @ fmt_percent 1 (co_ratio c) @ '' reduction, '' @ dec_int (co_saved c) @
        '' tokens saved, '' @ fmt_fixed 1 (co_duration c) @ ''ms).'')"

definition enrich_context_compressed ::
  "string \<Rightarrow> pyval list \<Rightarrow> compression_report \<Rightarrow> es_state \<Rightarrow> (pyval list \<times> pyval) res" where
  "enrich_context_compressed now history c es =
     bindE (snapshot_epistemic_state es) (\<lambda>sn.
     let reasoning = compression_reasoning c in
     Inr (history @ [history_entry ''context_compressed'' now reasoning
            [(''epistemic_state'', snapshot_to_py sn), (''strategy'', PStr (co_strategy c)),
             (''compression_ratio'', PFloat (co_ratio c)), (''tokens_saved'', PInt (co_saved c))]],
          PDict [(''original_token_count'', PInt (co_original c)), (''compressed_token_count'', PInt (co_compressed c)),
            (''compression_ratio'', PFloat (co_ratio c)), (''strategy'', PStr (co_strategy c)), (''duration_ms'', PFloat (co_duration c)),
            (''tokens_saved'', PInt (co_saved c)), (''skipped'', PBool (co_skipped c)), (''reasoning'', PStr reasoning),
            (''epistemic_state_snapshot'', snapshot_to_py sn)]))"

text \<open>The trace is the whole history; the run id it is asked for is not used.\<close>

definition decision_trace :: "pyval list \<Rightarrow> string \<Rightarrow> pyval list" where
  "decision_trace history run_id = history"

section \<open>Sequences of decisions\<close>

datatype enrichment =
    RouteSelected pyval es_state pyval pyval
  | VerificationDone "pyval list" es_state string "pyval list"
  | OutcomeReached string pyval es_state "pyval list" f64 "(string, pyval) dict option"
  | FallbackTriggered string string string string es_state
  | ReviewRequested string es_state "pyval list" string
  | ClaimMoved claim_transition
  | ContextCompressed compression_report es_state

fun step_name :: "enrichment \<Rightarrow> string" where
  "step_name (RouteSelected _ _ _ _) = ''route_selection''"
| "step_name (VerificationDone _ _ _ _) = ''verification''"
| "step_name (OutcomeReached _ _ _ _ _ _) = ''outcome''"
| "step_name (FallbackTriggered _ _ _ _ _) = ''fallback''"
| "step_name (ReviewRequested _ _ _ _) = ''human_review''"
| "step_name (ClaimMoved _) = ''claim_transition''"
| "step_name (ContextCompressed _ _) = ''context_compressed''"

fun enrich :: "string \<Rightarrow> pyval list \<Rightarrow> enrichment \<Rightarrow> (pyval list \<times> pyval) res" where
  "enrich now h (RouteSelected d es c p) = enrich_route_selection now h d es c p"
| "enrich now h (VerificationDone rs es risk steps) = enrich_verification now h rs es risk steps"
| "enrich now h (OutcomeReached st d es rs tot b) = enrich_outcome now h st d es rs tot b"
| "enrich now h (FallbackTriggered k f t why es) = enrich_fallback now h k f t why es"
| "enrich now h (ReviewRequested why es rs risk) = enrich_human_review now h why es rs risk"
| "enrich now h (ClaimMoved t) = Inr (enrich_claim_transition now h t)"
| "enrich now h (ContextCompressed c es) = enrich_context_compressed now h c es"

text \<open>One call on the history; a call that raises leaves the history as it was.\<close>

definition enrich_call :: "pyval list \<Rightarrow> string \<times> enrichment \<Rightarrow> pyval list" where
  "enrich_call h = (\<lambda>(now, e). case enrich now h e of Inl _ \<Rightarrow> h | Inr (h', _) \<Rightarrow> h')"

lemma enrich_appends:
  assumes "enrich now h e = Inr (h', payload)"
  shows "\<exists>reasoning rest. h' = h @ [history_entry (step_name e) now reasoning rest] \<and> attr payload ''reasoning'' PNone = PStr reasoning"
proof (cases e)
  case (RouteSelected d es c p)
  with assms show ?thesis by (auto simp: enrich_route_selection_def bindE_eq_Inr Let_def attr_def)
next
  case (VerificationDone rs es risk steps)
  with assms show ?thesis by (auto simp: enrich_verification_def bindE_eq_Inr Let_def attr_def)
next
  case (OutcomeReached st d es rs tot b)
  with assms show ?thesis by (auto simp: enrich_outcome_def bindE_eq_Inr Let_def attr_def)
next
  case (FallbackTriggered k f t why es)
  with assms show ?thesis by (auto simp: enrich_fallback_def bindE_eq_Inr Let_def attr_def)
next
  case (ReviewRequested why es rs risk)
  with assms show ?thesis by (auto simp: enrich_human_review_def bindE_eq_Inr Let_def attr_def)
next
  case (ClaimMoved t)
  with assms show ?thesis by (auto simp: enrich_claim_transition_def attr_def)
next
  case (ContextCompressed c es)
  with assms show ?thesis by (auto simp: enrich_context_compressed_def bindE_eq_Inr Let_def attr_def)
qed

lemma enrich_call_appends:
  "\<exists>added. enrich_call h (now, e) = h @ added \<and>
     (added = [] \<or> (\<exists>reasoning rest. added = [history_entry (step_name e) now reasoning rest]))"
proof (cases "enrich now h e")
  case (Inr r)
  then show ?thesis using enrich_appends[of now h e "fst r" "snd r"] by (cases r) (auto simp: enrich_call_def)
qed (simp add: enrich_call_def)

definition entry_step :: "pyval \<Rightarrow> string" where
  "entry_step e = py_str (attr e ''step'' PNone)"

lemma entry_step_history [simp]: "entry_step (history_entry st now reasoning rest) = st"
  by (simp add: entry_step_def history_entry_def attr_def)

section \<open>Counting claims\<close>

definition four_statuses :: "es_state \<Rightarrow> bool" where
  "four_statuses s = (\<forall>c\<in>snd ` set (es_claims s). cl_status c \<in> set fact_statuses)"

lemma dset_values: "v \<in> snd ` set (dset k x d) \<Longrightarrow> v = x \<or> v \<in> snd ` set d"
  by (induction d) (auto split: if_splits)

lemma store_claim_statuses: "four_statuses s \<Longrightarrow> cl_status c \<in> set fact_statuses \<Longrightarrow> four_statuses (store_claim s c ids r)"
  unfolding four_statuses_def store_claim_claims by (rule ballI, drule dset_values, elim disjE) (simp, blast)

lemma corroborated_status: "raw \<in> set fact_statuses \<Longrightarrow> corroborated raw sups \<in> set fact_statuses"
  by (auto simp: corroborated_def fact_statuses_def)

lemma es_step_statuses: "four_statuses (fst sl) \<Longrightarrow> four_statuses (fst (es_step sl op))"
proof -
  assume i: "four_statuses (fst sl)"
  obtain s drained where sl: "sl = (s, drained)" by (cases sl)
  show ?thesis
  proof (cases op)
    case (AddEvidence ev)
    then show ?thesis using i sl
      by (auto simp: es_step_def add_evidence_def four_statuses_def bindE_def split: sum.splits pyval.splits)
  next
    case (AddClaim c st es t)
    show ?thesis
    proof (cases "add_claim s c st es t")
      case (Inr r)
      then obtain s' status where r: "add_claim s c st es t = Inr (s', status)" by (cases r) auto
      from add_claim_Inr[OF this] have "four_statuses s'"
        using i sl by (auto intro!: store_claim_statuses corroborated_status dest: adjudicate_fact_status)
      with r AddClaim sl show ?thesis by (simp add: es_step_def)
    qed (use i sl AddClaim in \<open>simp add: es_step_def\<close>)
  next
    case (AddDerived c st es t)
    show ?thesis
    proof (cases "add_derived_claim s c st es t")
      case (Inr r)
      then obtain s' status where r: "add_derived_claim s c st es t = Inr (s', status)" by (cases r) auto
      then obtain cl ids why where "s' = store_claim s cl ids why" "cl_status cl \<in> set fact_statuses"
        by (elim add_derived_Inr) (auto simp: fact_statuses_def split: if_splits)
      then have "four_statuses s'" using i sl by (simp add: store_claim_statuses)
      with r AddDerived sl show ?thesis by (simp add: es_step_def)
    qed (use i sl AddDerived in \<open>simp add: es_step_def\<close>)
  next
    case DrainTransitions
    then show ?thesis using i sl by (simp add: es_step_def get_claim_transitions_def four_statuses_def)
  qed
qed

lemma es_run_statuses: "four_statuses (fst (es_run ops))"
  unfolding es_run_def
  by (induction ops rule: rev_induct) (simp_all add: es_step_statuses, simp add: four_statuses_def new_state_def)

definition count_status :: "string \<Rightarrow> (string, claim) dict \<Rightarrow> nat" where
  "count_status st cs = length (filter (\<lambda>(_, c). cl_status c = st) cs)"

lemma counts_add_up:
  "\<forall>c\<in>snd ` set cs. cl_status c \<in> set fact_statuses \<Longrightarrow>
    length cs = count_status ''supported'' cs + count_status ''refuted'' cs + count_status ''unknown'' cs + count_status ''conflicted'' cs \<and>
    length (filter (\<lambda>(_, c). cl_status c \<in> set [''unknown'', ''conflicted'']) cs) = count_status ''unknown'' cs + count_status ''conflicted'' cs"
  unfolding count_status_def by (induction cs) (auto simp: fact_statuses_def)

section \<open>Properties\<close>

text \<open>
  The decision history is append-only. However calls of the enricher follow one another, the
  history before them is a prefix of the history after, what was added names the steps of the
  calls in their order (a call that raises adds nothing), and each returned payload carries the
  reasoning of the entry it recorded.
\<close>
theorem decision_history_append_only:
  "(\<exists>added. foldl enrich_call h calls = h @ added \<and> subseq (map entry_step added) (map (step_name \<circ> snd) calls)) \<and>
   (enrich now h e = Inr (h', payload) \<longrightarrow>
      (\<exists>reasoning rest. h' = h @ [history_entry (step_name e) now reasoning rest] \<and> attr payload ''reasoning'' PNone = PStr reasoning))"
proof (rule conjI)
  show "\<exists>added. foldl enrich_call h calls = h @ added \<and> subseq (map entry_step added) (map (step_name \<circ> snd) calls)"
  proof (induction calls arbitrary: h)
    case (Cons c calls)
    obtain now e where c: "c = (now, e)" by (cases c)
    obtain one where one: "enrich_call h c = h @ one" "one = [] \<or> (\<exists>reasoning rest. one = [history_entry (step_name e) now reasoning rest])"
      using enrich_call_appends[of h now e] c by auto
    obtain more where more: "foldl enrich_call (h @ one) calls = (h @ one) @ more" "subseq (map entry_step more) (map (step_name \<circ> snd) calls)"
      using Cons.IH[of "h @ one"] by blast
    then have "foldl enrich_call h (c # calls) = h @ (one @ more)" using one(1) by simp
    moreover have "subseq (map entry_step (one @ more)) (map (step_name \<circ> snd) (c # calls))"
      using one(2) more(2) c by auto
    ultimately show ?case by blast
  qed simp
  show "enrich now h e = Inr (h', payload) \<longrightarrow>
      (\<exists>reasoning rest. h' = h @ [history_entry (step_name e) now reasoning rest] \<and> attr payload ''reasoning'' PNone = PStr reasoning)"
    by (blast dest: enrich_appends)
qed

text \<open>
  The summary of an outcome accounts for every claim. For an epistemic state built by its own
  operations, the counts of supported, refuted, unknown and conflicted claims add up to the number
  of claims, the unresolved ids are those of exactly the unknown and the conflicted ones, and every
  conflicted id is among them.
\<close>
theorem outcome_accounts_for_all_claims:
  assumes "es = fst (es_run ops)" "snapshot_epistemic_state es = Inr sn"
  shows "length (es_claims es) = status_count ''supported'' sn + status_count ''refuted'' sn +
       status_count ''unknown'' sn + status_count ''conflicted'' sn \<and>
     length (sn_unresolved sn) = status_count ''unknown'' sn + status_count ''conflicted'' sn \<and>
     set (sn_conflicted sn) \<subseteq> set (sn_unresolved sn) \<and>
     (\<forall>(i, c)\<in>set (es_claims es). cl_status c = ''unknown'' \<or> cl_status c = ''conflicted'' \<longrightarrow> i \<in> set (sn_unresolved sn))"
proof -
  have "four_statuses es" using assms(1) by (simp add: es_run_statuses)
  then have c: "\<forall>c\<in>snd ` set (es_claims es). cl_status c \<in> set fact_statuses" by (simp add: four_statuses_def)
  have sn: "sn_claims sn = es_claims es" "sn_unresolved sn = unresolved_ids es" "sn_conflicted sn = conflicted_claim_ids es"
    using assms(2) by (auto simp: snapshot_epistemic_state_def bindE_eq_Inr)
  show ?thesis
    using counts_add_up[OF c] by (force simp: sn status_count_def count_status_def unresolved_ids_def conflicted_claim_ids_def)
qed

section \<open>Witnesses\<close>

theorem decision_history_append_only_witness:
  "\<exists>h' payload reasoning rest. enrich ''t'' [] (ClaimMoved \<lparr>ct_claim_id = ''c'', ct_old = ''unknown'', ct_new = ''supported'', ct_evidence_ids = [], ct_reasoning = ''r''\<rparr>) = Inr (h', payload) \<and>
     h' = [history_entry ''claim_transition'' ''t'' reasoning rest] \<and> attr payload ''reasoning'' PNone = PStr reasoning"
  using decision_history_append_only[of "[]" "[]" "''t''" "ClaimMoved \<lparr>ct_claim_id = ''c'', ct_old = ''unknown'', ct_new = ''supported'', ct_evidence_ids = [], ct_reasoning = ''r''\<rparr>"]
  by simp (metis surj_pair)

theorem outcome_accounts_for_all_claims_witness:
  "\<exists>sn. snapshot_epistemic_state (fst (es_run [])) = Inr sn \<and> status_count ''unknown'' sn = 0"
proof -
  have "snapshot_epistemic_state (fst (es_run [])) = Inr \<lparr>sn_claims = [], sn_evidence = [], sn_unresolved = [], sn_conflicted = [], sn_calibration = []\<rparr>" (is "_ = Inr ?sn")
    by code_simp
  from outcome_accounts_for_all_claims[OF refl this] this show ?thesis by (auto simp: es_run_def new_state_def)
qed

end
