(* ===== verification/Context.thy ===== *)
theory Context
  imports Epr_Memory Epistemic_Ledger
begin

text \<open>
  Context and compaction, \<^verbatim>\<open>reference/gateway/context.py\<close>: the canonical state, the compaction that
  must not drop it, and the compilation of context packages by reachability. Claims and evidence
  are what the iteration of the epistemic state returned, dictionaries of JSON objects; sets of
  ids are lists in first-seen order, and every place that observes one sorts it.
\<close>

section \<open>Canonical state\<close>

record canonical_state =
  cs_requirements :: "string list"
  cs_decisions :: "string list"
  cs_unresolved :: "string list"
  cs_failed_checks :: "pyval list"
  cs_evidence :: "(string, pyval) dict"
  cs_artifacts :: "(string, string) dict"

datatype claim_class = ActiveRequirement | ApprovedDecision | Unresolved | Settled

definition classify_claim :: "pyval \<Rightarrow> claim_class res" where
  "classify_claim claim =
     bindE (py_get claim ''kind'' (PStr ''fact'')) (\<lambda>kind.
     bindE (bindE (py_get claim ''status'' PNone) (py_get claim ''state'')) (\<lambda>status.
     if kind = PStr ''requirement'' \<and> status = PStr ''active'' then Inr ActiveRequirement
     else if kind = PStr ''decision'' \<and> status = PStr ''approved'' then Inr ApprovedDecision
     else bindE (if kind = PStr ''fact'' then py_in_strs status [''unknown'', ''conflicted''] else Inr False) (\<lambda>open_fact.
       Inr (if open_fact \<or> kind = PStr ''assumption'' \<and> status = PStr ''open'' then Unresolved else Settled))))"

definition ids_of_class :: "claim_class \<Rightarrow> (string \<times> claim_class) list \<Rightarrow> string list" where
  "ids_of_class k cs = map fst (filter (\<lambda>(_, c). c = k) cs)"

definition evidence_handle :: "(string \<Rightarrow> string) \<Rightarrow> pyval \<Rightarrow> pyval res" where
  "evidence_handle sha ev =
     bindE (py_get ev ''content_hash'' PNone) (\<lambda>h.
     Inr (if truthy h then h else PStr (sha256_tag sha (json_dumps True '', '' '': '' ev))))"

text \<open>The failed mandatory checks named by the verification results of one ledger event.\<close>

definition failed_check :: "pyval list \<Rightarrow> pyval \<Rightarrow> pyval list res" where
  "failed_check acc result =
     bindE (is_mandatory result) (\<lambda>mandatory.
     if \<not> mandatory then Inr acc else
     bindE (bindE (py_get result ''status'' PNone) (\<lambda>s. py_in_strs s [''failed'', ''not_run''])) (\<lambda>bad.
     if \<not> bad then Inr acc else
     bindE (py_get result ''criterion_id'' PNone) (\<lambda>cid.
     if \<not> truthy cid then Inr acc
     else if \<not> hashable cid then Inl PyTypeError
     else Inr (if py_mem cid acc then acc else acc @ [cid]))))"

definition or_empty :: "pyval \<Rightarrow> pyval \<Rightarrow> pyval" where
  "or_empty e v = (if truthy v then v else e)"

definition event_failed_checks :: "pyval list \<Rightarrow> pyval \<Rightarrow> pyval list res" where
  "event_failed_checks acc event =
     bindE (py_get event ''payload'' (PDict [])) (\<lambda>p.
     bindE (py_get (or_empty (PDict []) p) ''verification_results'' PNone) (\<lambda>rs.
     bindE (py_iter (or_empty (PList []) rs)) (foldE failed_check acc)))"

definition build_canonical_state ::
  "(string \<Rightarrow> string) \<Rightarrow> (string, pyval) dict \<Rightarrow> (string, pyval) dict \<Rightarrow> pyval list \<Rightarrow> canonical_state res" where
  "build_canonical_state sha claims evidence ledger_events =
     bindE (mapE (\<lambda>(i, c). bindE (classify_claim c) (\<lambda>k. Inr (i, k))) claims) (\<lambda>classes.
     bindE (mapE (\<lambda>(i, e). bindE (evidence_handle sha e) (\<lambda>h. Inr (i, h))) evidence) (\<lambda>handles.
     bindE (foldE event_failed_checks [] ledger_events) (\<lambda>failed.
     Inr \<lparr>cs_requirements = ids_of_class ActiveRequirement classes, cs_decisions = ids_of_class ApprovedDecision classes,
          cs_unresolved = ids_of_class Unresolved classes, cs_failed_checks = failed, cs_evidence = handles, cs_artifacts = []\<rparr>)))"

section \<open>Compaction\<close>

definition sorted_strs :: "string list \<Rightarrow> pyval" where
  "sorted_strs ss = strs (sort ss)"

definition compact ::
  "(string \<Rightarrow> string) \<Rightarrow> string \<Rightarrow> string \<Rightarrow> canonical_state \<Rightarrow> string \<Rightarrow> pyval list \<Rightarrow> pyval list option \<Rightarrow>
    string option \<Rightarrow> string option \<Rightarrow> pyval res" where
  "compact sha uuid now cs narrative canonical_claims mandatory_failed tid source_hash =
     bindE (py_sorted (case mandatory_failed of Some ids \<Rightarrow> ids | None \<Rightarrow> cs_failed_checks cs)) (\<lambda>failed_ids.
     let ledger_hash = (case source_hash of None \<Rightarrow> sha256_tag sha narrative | Some h \<Rightarrow> if h = [] then sha256_tag sha narrative else h);
         capsule = PDict [(''capsule_id'', PStr (''capsule-'' @ uuid)),
           (''task_id'', PStr (case tid of None \<Rightarrow> ''task-unknown'' | Some t \<Rightarrow> if t = [] then ''task-unknown'' else t)),
           (''generated_at'', PStr now), (''source_ledger_head_hash'', PStr ledger_hash),
           (''active_requirement_ids'', sorted_strs (cs_requirements cs)),
           (''approved_decision_ids'', sorted_strs (cs_decisions cs)),
           (''unresolved_claim_ids'', sorted_strs (cs_unresolved cs)),
           (''failed_mandatory_check_ids'', PList failed_ids),
           (''evidence_handles'', sorted_strs (map fst (cs_evidence cs))),
           (''artifact_hashes'', sorted_strs (map snd (cs_artifacts cs))),
           (''narrative'', PStr narrative),
           (''invariants'', PDict (map (\<lambda>k. (k, PBool True)) capsule_invariants))] in
     bindE (validate_context_capsule capsule canonical_claims (PList failed_ids)) (\<lambda>errors.
     if errors \<noteq> [] then Inl (PyValueError (''invalid context capsule: '' @ join ''; '' errors)) else Inr capsule))"

section \<open>The dependency graph\<close>

type_synonym graph = "(string, string list) dict"

definition ensure_node :: "string \<Rightarrow> graph \<Rightarrow> graph" where
  "ensure_node a g = (if dhas g a then g else g @ [(a, [])])"

definition add_edge :: "string \<Rightarrow> string \<Rightarrow> graph \<Rightarrow> graph" where
  "add_edge a b g =
     (let ns = (case map_of g a of None \<Rightarrow> [] | Some ns \<Rightarrow> ns) in
      ensure_node b (dset a (if b \<in> set ns then ns else ns @ [b]) g))"

definition node :: "string \<Rightarrow> string \<Rightarrow> string" where
  "node kind i = kind @ '':'' @ i"

text \<open>An edge to the claim or the evidence a criterion refers to, where there is one.\<close>

definition add_reference :: "string list \<Rightarrow> string list \<Rightarrow> string \<Rightarrow> graph \<Rightarrow> pyval \<Rightarrow> graph res" where
  "add_reference cids eids from_node g r =
     (if \<not> hashable r then Inl PyTypeError
      else case r of PStr i \<Rightarrow>
          Inr (if i \<in> set cids then add_edge from_node (node ''claim'' i) g
               else if i \<in> set eids then add_edge from_node (node ''evidence'' i) g else g)
      | _ \<Rightarrow> Inr g)"

definition add_criterion :: "string list \<Rightarrow> string list \<Rightarrow> graph \<Rightarrow> pyval \<Rightarrow> graph res" where
  "add_criterion cids eids g criterion =
     bindE (py_get criterion ''id'' PNone) (\<lambda>cid.
     let n = node ''criterion'' (py_str cid) in
     bindE (bindE (py_get criterion ''requirement_refs'' (PList [])) py_iter) (\<lambda>refs.
     foldE (add_reference cids eids n) (add_edge ''task'' n (ensure_node n g)) refs))"

definition claim_evidence_ids :: "pyval \<Rightarrow> pyval list res" where
  "claim_evidence_ids claim =
     bindE (bindE (py_get claim ''evidence_ids'' (PList [])) py_iter) (\<lambda>es.
     bindE (bindE (py_get claim ''premise_evidence_ids'' (PList [])) py_iter) (\<lambda>ps. Inr (es @ ps)))"

definition add_claim_node :: "string list \<Rightarrow> graph \<Rightarrow> string \<times> pyval \<Rightarrow> graph res" where
  "add_claim_node eids g = (\<lambda>(i, claim).
     let n = node ''claim'' i in
     bindE (claim_evidence_ids claim) (\<lambda>ids. foldE (add_reference [] eids n) (ensure_node n g) ids))"

definition build_graph :: "pyval list \<Rightarrow> (string, pyval) dict \<Rightarrow> (string, pyval) dict \<Rightarrow> graph res" where
  "build_graph criteria claims evidence =
     bindE (foldE (add_criterion (map fst claims) (map fst evidence)) [(''task'', [])] criteria) (\<lambda>g1.
     bindE (foldE (add_claim_node (map fst evidence)) g1 claims) (\<lambda>g2.
     Inr (fold (\<lambda>(i, _). ensure_node (node ''evidence'' i)) evidence g2)))"

definition neighbours :: "graph \<Rightarrow> string \<Rightarrow> string list" where
  "neighbours g n = (case map_of g n of None \<Rightarrow> [] | Some ns \<Rightarrow> remdups ns)"

definition is_trivial :: "graph \<Rightarrow> bool" where
  "is_trivial g = (neighbours g ''task'' = [])"

section \<open>Reachability\<close>

definition unseen :: "graph \<Rightarrow> string list \<Rightarrow> nat" where
  "unseen g seen = card (\<Union>(set ` snd ` set g) - set seen)"

text \<open>The queue of the search: a node leaves it, its new neighbours join both the queue and the seen.\<close>

function bfs :: "graph \<Rightarrow> string list \<Rightarrow> string list \<Rightarrow> string list" where
  "bfs g seen [] = seen"
| "bfs g seen (n # queue) =
     (let new = filter (\<lambda>m. m \<notin> set seen) (neighbours g n) in bfs g (seen @ new) (queue @ new))"
  by pat_completeness auto

lemma in_neighbours: "m \<in> set (neighbours g n) \<longleftrightarrow> (\<exists>ns. map_of g n = Some ns \<and> m \<in> set ns)"
  by (cases "map_of g n") (simp_all add: neighbours_def)

lemma neighbours_in: "set (neighbours g n) \<subseteq> \<Union>(set ` snd ` set g)"
proof
  fix m assume "m \<in> set (neighbours g n)"
  then obtain ns where "map_of g n = Some ns" "m \<in> set ns" by (auto simp: in_neighbours)
  moreover from this have "ns \<in> snd ` set g" by (metis map_of_SomeD image_eqI snd_conv)
  ultimately show "m \<in> \<Union>(set ` snd ` set g)" by blast
qed

lemma unseen_step:
  "unseen g (seen @ filter (\<lambda>m. m \<notin> set seen) (neighbours g n)) + length (filter (\<lambda>m. m \<notin> set seen) (neighbours g n)) = unseen g seen"
proof -
  let ?U = "\<Union>(set ` snd ` set g)" and ?new = "filter (\<lambda>m. m \<notin> set seen) (neighbours g n)"
  have "distinct ?new" by (simp add: neighbours_def split: option.splits)
  then have l: "length ?new = card (set ?new)" by (rule distinct_card[symmetric])
  have sub: "set ?new \<subseteq> ?U - set seen" using neighbours_in[of g n] by auto
  have "?U - set (seen @ ?new) = (?U - set seen) - set ?new" by auto
  then have "card (?U - set (seen @ ?new)) = card (?U - set seen) - card (set ?new)"
    using sub by (simp add: card_Diff_subset)
  moreover have "card (set ?new) \<le> card (?U - set seen)" using sub by (intro card_mono) auto
  ultimately show ?thesis unfolding unseen_def l by linarith
qed

termination bfs
proof (relation "measure (\<lambda>(g, seen, queue). unseen g seen + length queue)", simp)
  fix g seen n queue new
  assume "new = filter (\<lambda>m. m \<notin> set seen) (neighbours g n)"
  then show "((g, seen @ new, queue @ new), g, seen, n # queue) \<in> measure (\<lambda>(g, seen, queue). unseen g seen + length queue)"
    using unseen_step[of g seen n] by simp
qed

definition reach :: "graph \<Rightarrow> string \<Rightarrow> string list" where
  "reach g r = bfs g [r] [r]"

section \<open>Packages\<close>

text \<open>The values of a payload that are not containers.\<close>

function flatten_value :: "pyval \<Rightarrow> pyval list" where
  "flatten_value v = (case v of
     PDict d \<Rightarrow> concat (map (\<lambda>(_, x). flatten_value x) d)
   | PList xs \<Rightarrow> concat (map flatten_value xs)
   | _ \<Rightarrow> [v])"
  by pat_completeness auto
termination
  by (relation "measure size") (auto simp: less_Suc_eq_le intro: size_elem_list size_value_dict)

declare flatten_value.simps [simp del]

definition references :: "pyval \<Rightarrow> string list \<Rightarrow> bool" where
  "references payload ids =
     (ids \<noteq> [] \<and> list_ex (\<lambda>v. case v of PStr s \<Rightarrow> list_ex (\<lambda>i. i \<noteq> [] \<and> contains i s) ids | _ \<Rightarrow> False) (flatten_value payload))"

definition reachable_events :: "pyval list \<Rightarrow> pyval \<Rightarrow> string list \<Rightarrow> pyval list res" where
  "reachable_events events tid ids =
     filterE (\<lambda>e. bindE (py_get e ''subject_id'' PNone) (\<lambda>subject.
       if py_eq subject tid then Inr True
       else bindE (py_get e ''payload'' PNone) (\<lambda>p. Inr (references p ids)))) events"

definition ids_under :: "string \<Rightarrow> string list \<Rightarrow> string list" where
  "ids_under kind nodes = map (drop (length kind + 1)) (filter (\<lambda>n. startswith n (kind @ '':'')) nodes)"

definition named_ids :: "string \<Rightarrow> pyval list \<Rightarrow> pyval res" where
  "named_ids key items =
     bindE (collectE (\<lambda>c. bindE (py_get c key PNone) (\<lambda>v. Inr (truthy v))) (\<lambda>c. bindE (py_index c key) (\<lambda>v. Inr (py_str v))) items)
       (\<lambda>ids. Inr (sorted_strs ids))"

definition package :: "string \<Rightarrow> string \<Rightarrow> pyval \<Rightarrow> pyval list \<Rightarrow> pyval list \<Rightarrow> pyval list \<Rightarrow> nat \<Rightarrow> pyval res" where
  "package uuid strategy tid claims evidence events n_items =
     bindE (named_ids ''claim_id'' claims) (\<lambda>cids.
     bindE (named_ids ''evidence_id'' evidence) (\<lambda>eids.
     bindE (named_ids ''event_id'' events) (\<lambda>evids.
     Inr (PDict [(''package_id'', PStr (''context-'' @ uuid)), (''task_id'', tid), (''compilation_strategy'', PStr strategy),
       (''reachable_claim_ids'', cids), (''reachable_evidence_ids'', eids), (''reachable_event_ids'', evids),
       (''claims'', PList claims), (''evidence'', PList evidence), (''ledger_events'', PList events),
       (''excluded_item_count'', PInt (max 0 (int n_items - int (length claims + length evidence + length events))))]))))"

definition pick :: "(string, pyval) dict \<Rightarrow> string list \<Rightarrow> pyval list" where
  "pick d ids = List.map_filter (map_of d) (sort (remdups ids))"

definition compile_context ::
  "string \<Rightarrow> (string, pyval) dict \<Rightarrow> (string, pyval) dict \<Rightarrow> (string, pyval) dict \<Rightarrow> pyval list \<Rightarrow> pyval res" where
  "compile_context uuid contract claims evidence events =
     (let tid = (case map_of contract ''task_id'' of None \<Rightarrow> PStr ''task-unknown'' | Some t \<Rightarrow> t);
          n_items = length claims + length evidence + length events in
      bindE (py_iter (case map_of contract ''acceptance_criteria'' of None \<Rightarrow> PList [] | Some cs \<Rightarrow> cs)) (\<lambda>criteria.
      bindE (build_graph criteria claims evidence) (\<lambda>g.
      if is_trivial g
      then package uuid ''include_everything'' tid (map snd claims) (map snd evidence) events n_items
      else
        (let nodes = reach g ''task''; cids = ids_under ''claim'' nodes; eids = ids_under ''evidence'' nodes in
         bindE (reachable_events events tid (cids @ eids @ ids_under ''criterion'' nodes)) (\<lambda>evs.
         package uuid ''graph_reachability'' tid (pick claims cids) (pick evidence eids) evs n_items)))))"

section \<open>The search computes reachability\<close>

definition edge :: "graph \<Rightarrow> string \<Rightarrow> string \<Rightarrow> bool" where
  "edge g a b = (b \<in> set (neighbours g a))"

text \<open>Every seen node that is not queued has its neighbours seen, and only reachable nodes are seen.\<close>

lemma bfs_reach:
  assumes "set queue \<subseteq> set seen" "\<forall>n\<in>set seen. (edge g)\<^sup>*\<^sup>* r n"
    and "\<forall>n\<in>set seen - set queue. \<forall>m. edge g n m \<longrightarrow> m \<in> set seen"
  shows "set seen \<subseteq> set (bfs g seen queue) \<and> (\<forall>n\<in>set (bfs g seen queue). (edge g)\<^sup>*\<^sup>* r n) \<and>
     (\<forall>n\<in>set (bfs g seen queue). \<forall>m. edge g n m \<longrightarrow> m \<in> set (bfs g seen queue))"
  using assms
proof (induction g seen queue rule: bfs.induct)
  case (1 g seen)
  then show ?case by simp
next
  case (2 g seen n queue)
  define new where "new = filter (\<lambda>m. m \<notin> set seen) (neighbours g n)"
  have q: "set (queue @ new) \<subseteq> set (seen @ new)" using 2(2) by auto
  have "(edge g)\<^sup>*\<^sup>* r m" if "m \<in> set new" for m
  proof -
    have "(edge g)\<^sup>*\<^sup>* r n" using 2(2,3) by auto
    moreover have "edge g n m" using that by (simp add: new_def edge_def)
    ultimately show ?thesis by (rule rtranclp.rtrancl_into_rtrancl)
  qed
  then have r: "\<forall>m\<in>set (seen @ new). (edge g)\<^sup>*\<^sup>* r m" using 2(3) by auto
  have c: "\<forall>x\<in>set (seen @ new) - set (queue @ new). \<forall>m. edge g x m \<longrightarrow> m \<in> set (seen @ new)"
  proof (intro ballI allI impI)
    fix x m assume x: "x \<in> set (seen @ new) - set (queue @ new)" "edge g x m"
    show "m \<in> set (seen @ new)"
    proof (cases "x = n")
      case True
      then show ?thesis using x(2) by (auto simp: new_def edge_def)
    next
      case False
      then have "x \<in> set seen - set (n # queue)" using x(1) by auto
      with 2(4) x(2) have "m \<in> set seen" by blast
      then show ?thesis by simp
    qed
  qed
  have "bfs g seen (n # queue) = bfs g (seen @ new) (queue @ new)" by (simp add: new_def Let_def)
  with 2(1)[OF new_def q r c] show ?case by auto
qed

lemma reach_iff: "n \<in> set (reach g r) \<longleftrightarrow> (edge g)\<^sup>*\<^sup>* r n"
proof -
  have b: "set [r] \<subseteq> set (bfs g [r] [r])" "\<forall>n\<in>set (bfs g [r] [r]). (edge g)\<^sup>*\<^sup>* r n"
    "\<forall>n\<in>set (bfs g [r] [r]). \<forall>m. edge g n m \<longrightarrow> m \<in> set (bfs g [r] [r])"
    using bfs_reach[of "[r]" "[r]" g r] by auto
  show ?thesis unfolding reach_def
  proof
    assume "(edge g)\<^sup>*\<^sup>* r n"
    then show "n \<in> set (bfs g [r] [r])" by (induction rule: rtranclp_induct) (use b in auto)
  qed (use b(2) in blast)
qed

section \<open>The edges of the graph\<close>

lemma neighbours_ensure [simp]: "neighbours (ensure_node a g) n = neighbours g n"
  by (cases "map_of g n") (auto simp: ensure_node_def neighbours_def dhas_def map_add_def)

lemma edge_ensure [simp]: "edge (ensure_node a g) = edge g"
  by (intro ext) (simp add: edge_def)

lemma edge_add_edge: "edge (add_edge a b g) x y \<longleftrightarrow> edge g x y \<or> x = a \<and> y = b"
proof -
  let ?ns = "case map_of g a of None \<Rightarrow> [] | Some ns \<Rightarrow> ns"
  have "edge (dset a (if b \<in> set ?ns then ?ns else ?ns @ [b]) g) x y \<longleftrightarrow> edge g x y \<or> x = a \<and> y = b"
    by (cases "map_of g a") (auto simp: edge_def in_neighbours)
  then show ?thesis unfolding add_edge_def Let_def edge_ensure .
qed

definition refers :: "string list \<Rightarrow> string list \<Rightarrow> pyval list \<Rightarrow> string \<Rightarrow> bool" where
  "refers cids eids refs y = (\<exists>i. PStr i \<in> set refs \<and>
     (i \<in> set cids \<and> y = node ''claim'' i \<or> i \<notin> set cids \<and> i \<in> set eids \<and> y = node ''evidence'' i))"

lemma add_reference_Inr: "add_reference cids eids a g r = Inr g' \<Longrightarrow>
    edge g' x y \<longleftrightarrow> edge g x y \<or> x = a \<and> refers cids eids [r] y"
  by (auto simp: add_reference_def refers_def edge_add_edge split: if_splits pyval.splits)

lemma add_references_Inr: "foldE (add_reference cids eids a) g refs = Inr g' \<Longrightarrow>
    edge g' x y \<longleftrightarrow> edge g x y \<or> x = a \<and> refers cids eids refs y"
proof (induction refs arbitrary: g)
  case (Cons r refs)
  then obtain g1 where "add_reference cids eids a g r = Inr g1" "foldE (add_reference cids eids a) g1 refs = Inr g'"
    by (auto simp: bindE_eq_Inr)
  with Cons.IH[of g1] add_reference_Inr[of cids eids a g r g1 x y] show ?case by (auto simp: refers_def)
qed (simp add: refers_def)

definition items_of :: "pyval \<Rightarrow> string \<Rightarrow> pyval list" where
  "items_of v k = (case py_iter (attr v k (PList [])) of Inr xs \<Rightarrow> xs | Inl _ \<Rightarrow> [])"

definition refs_of :: "pyval \<Rightarrow> pyval list" where
  "refs_of criterion = items_of criterion ''requirement_refs''"

definition criterion_node :: "pyval \<Rightarrow> string" where
  "criterion_node c = node ''criterion'' (py_str (attr c ''id'' PNone))"

lemma add_criterion_Inr: "add_criterion cids eids g c = Inr g' \<Longrightarrow>
    edge g' x y \<longleftrightarrow> edge g x y \<or> x = ''task'' \<and> y = criterion_node c \<or> x = criterion_node c \<and> refers cids eids (refs_of c) y"
  by (auto simp: add_criterion_def bindE_eq_Inr Let_def criterion_node_def refs_of_def items_of_def edge_add_edge attr_Inr dest: add_references_Inr[of _ _ _ _ _ _ x y])

lemma add_criteria_Inr: "foldE (add_criterion cids eids) g cs = Inr g' \<Longrightarrow>
    edge g' x y \<longleftrightarrow> edge g x y \<or> (\<exists>c\<in>set cs. x = ''task'' \<and> y = criterion_node c \<or> x = criterion_node c \<and> refers cids eids (refs_of c) y)"
proof (induction cs arbitrary: g)
  case (Cons c cs)
  then obtain g1 where "add_criterion cids eids g c = Inr g1" "foldE (add_criterion cids eids) g1 cs = Inr g'"
    by (auto simp: bindE_eq_Inr)
  with Cons.IH[of g1] add_criterion_Inr[of cids eids g c g1 x y] show ?case by auto
qed simp

definition evidence_refs :: "pyval \<Rightarrow> pyval list" where
  "evidence_refs claim = items_of claim ''evidence_ids'' @ items_of claim ''premise_evidence_ids''"

lemma claim_evidence_ids_Inr: "claim_evidence_ids claim = Inr es \<Longrightarrow> es = evidence_refs claim"
  by (auto simp: claim_evidence_ids_def bindE_eq_Inr evidence_refs_def items_of_def attr_Inr)

lemma add_claim_node_Inr: "add_claim_node eids g (i, claim) = Inr g' \<Longrightarrow>
    edge g' x y \<longleftrightarrow> edge g x y \<or> x = node ''claim'' i \<and> refers [] eids (evidence_refs claim) y"
  by (auto simp: add_claim_node_def bindE_eq_Inr Let_def dest!: claim_evidence_ids_Inr dest: add_references_Inr[of _ _ _ _ _ _ x y])

lemma add_claim_nodes_Inr: "foldE (add_claim_node eids) g cls = Inr g' \<Longrightarrow>
    edge g' x y \<longleftrightarrow> edge g x y \<or> (\<exists>(i, claim)\<in>set cls. x = node ''claim'' i \<and> refers [] eids (evidence_refs claim) y)"
proof (induction cls arbitrary: g)
  case (Cons c cls)
  then obtain g1 where "add_claim_node eids g c = Inr g1" "foldE (add_claim_node eids) g1 cls = Inr g'"
    by (auto simp: bindE_eq_Inr)
  with Cons.IH[of g1] add_claim_node_Inr[of eids g "fst c" "snd c" g1 x y] show ?case by auto
qed simp

lemma edge_ensure_all: "edge (fold (\<lambda>(i, _). ensure_node (node ''evidence'' i)) evs g) = edge g"
  by (induction evs arbitrary: g) auto

lemma build_graph_edges:
  assumes "build_graph criteria claims evidence = Inr g"
  shows "edge g x y \<longleftrightarrow>
    (\<exists>c\<in>set criteria. x = ''task'' \<and> y = criterion_node c \<or> x = criterion_node c \<and> refers (map fst claims) (map fst evidence) (refs_of c) y) \<or>
    (\<exists>(i, claim)\<in>set claims. x = node ''claim'' i \<and> refers [] (map fst evidence) (evidence_refs claim) y)"
proof -
  obtain g1 g2 where 1: "foldE (add_criterion (map fst claims) (map fst evidence)) [(''task'', [])] criteria = Inr g1"
    and 2: "foldE (add_claim_node (map fst evidence)) g1 claims = Inr g2"
    and g: "g = fold (\<lambda>(i, _). ensure_node (node ''evidence'' i)) evidence g2"
    using assms by (auto simp: build_graph_def bindE_eq_Inr)
  have "\<not> edge [(''task'', [])] x y" by (simp add: edge_def in_neighbours)
  then show ?thesis using add_criteria_Inr[OF 1, of x y] add_claim_nodes_Inr[OF 2, of x y] by (simp add: g edge_ensure_all)
qed

lemma node_inject [simp]: "node k i = node k j \<longleftrightarrow> i = j"
  by (simp add: node_def)

lemma node_kinds [simp]:
  "node ''claim'' i \<noteq> node ''evidence'' j" "node ''evidence'' j \<noteq> node ''claim'' i"
  "node ''claim'' i \<noteq> criterion_node c" "criterion_node c \<noteq> node ''claim'' i"
  "node ''evidence'' i \<noteq> criterion_node c" "criterion_node c \<noteq> node ''evidence'' i"
  "node ''claim'' i \<noteq> ''task''" "node ''evidence'' i \<noteq> ''task''" "criterion_node c \<noteq> ''task''"
  "''task'' \<noteq> node ''claim'' i" "''task'' \<noteq> node ''evidence'' i" "''task'' \<noteq> criterion_node c"
  by (simp_all add: node_def criterion_node_def)

lemma refers_claim: "refers cids eids refs (node ''claim'' i) \<longleftrightarrow> PStr i \<in> set refs \<and> i \<in> set cids"
  and refers_evidence: "refers cids eids refs (node ''evidence'' i) \<longleftrightarrow> PStr i \<in> set refs \<and> i \<notin> set cids \<and> i \<in> set eids"
  by (auto simp: refers_def)

lemma refers_cases: "refers cids eids refs y \<Longrightarrow> (\<exists>i. y = node ''claim'' i) \<or> (\<exists>i. y = node ''evidence'' i)"
  by (auto simp: refers_def)

text \<open>What a package needs: claims a criterion refers to, evidence it or such a claim refers to.\<close>

definition needed_claim :: "pyval list \<Rightarrow> string \<Rightarrow> bool" where
  "needed_claim criteria i = (\<exists>c\<in>set criteria. PStr i \<in> set (refs_of c))"

definition needed_evidence :: "pyval list \<Rightarrow> (string, pyval) dict \<Rightarrow> string \<Rightarrow> bool" where
  "needed_evidence criteria claims i =
     ((\<exists>c\<in>set criteria. PStr i \<in> set (refs_of c) \<and> i \<notin> fst ` set claims) \<or>
      (\<exists>(j, claim)\<in>set claims. needed_claim criteria j \<and> PStr i \<in> set (evidence_refs claim)))"

lemma claim_edge:
  "build_graph criteria claims evidence = Inr g \<Longrightarrow>
    edge g x (node ''claim'' i) \<longleftrightarrow> i \<in> fst ` set claims \<and> (\<exists>c\<in>set criteria. x = criterion_node c \<and> PStr i \<in> set (refs_of c))"
  by (auto simp: build_graph_edges refers_claim)

lemma evidence_edge:
  "build_graph criteria claims evidence = Inr g \<Longrightarrow>
    edge g x (node ''evidence'' i) \<longleftrightarrow> i \<in> fst ` set evidence \<and>
      ((\<exists>c\<in>set criteria. x = criterion_node c \<and> PStr i \<in> set (refs_of c) \<and> i \<notin> fst ` set claims) \<or>
       (\<exists>(j, claim)\<in>set claims. x = node ''claim'' j \<and> PStr i \<in> set (evidence_refs claim)))"
  by (auto simp: build_graph_edges refers_evidence)

lemma criterion_edge:
  "build_graph criteria claims evidence = Inr g \<Longrightarrow> edge g x (criterion_node c) \<Longrightarrow> x = ''task''"
  by (auto simp: build_graph_edges dest: refers_cases)

lemma task_edge: "build_graph criteria claims evidence = Inr g \<Longrightarrow> edge g ''task'' y \<longleftrightarrow> (\<exists>c\<in>set criteria. y = criterion_node c)"
  by (auto simp: build_graph_edges)

lemma reach_pred: "y \<noteq> r \<Longrightarrow> (edge g)\<^sup>*\<^sup>* r y \<longleftrightarrow> (\<exists>x. (edge g)\<^sup>*\<^sup>* r x \<and> edge g x y)"
  by (metis rtranclp.cases rtranclp.rtrancl_into_rtrancl)

lemma reach_criterion: "build_graph criteria claims evidence = Inr g \<Longrightarrow> c \<in> set criteria \<Longrightarrow> (edge g)\<^sup>*\<^sup>* ''task'' (criterion_node c)"
  using task_edge by blast

lemma reach_claim: "build_graph criteria claims evidence = Inr g \<Longrightarrow>
    (edge g)\<^sup>*\<^sup>* ''task'' (node ''claim'' i) \<longleftrightarrow> i \<in> fst ` set claims \<and> needed_claim criteria i"
  using reach_pred[of "node ''claim'' i" "''task''" g] claim_edge[of criteria claims evidence g _ i] reach_criterion[of criteria claims evidence g]
  by (auto simp: needed_claim_def)

lemma reach_evidence: "build_graph criteria claims evidence = Inr g \<Longrightarrow>
    (edge g)\<^sup>*\<^sup>* ''task'' (node ''evidence'' i) \<longleftrightarrow> i \<in> fst ` set evidence \<and> needed_evidence criteria claims i"
proof -
  assume b: "build_graph criteria claims evidence = Inr g"
  have "(edge g)\<^sup>*\<^sup>* ''task'' (node ''claim'' j) \<longleftrightarrow> needed_claim criteria j" if "(j, claim) \<in> set claims" for j claim
    using reach_claim[OF b, of j] that by force
  then show ?thesis
    unfolding reach_pred[of "node ''evidence'' i" "''task''" g, simplified] evidence_edge[OF b] needed_evidence_def
    using reach_criterion[OF b] by blast
qed

lemma reach_criterion_iff: "build_graph criteria claims evidence = Inr g \<Longrightarrow>
    (edge g)\<^sup>*\<^sup>* ''task'' (node ''criterion'' i) \<longleftrightarrow> (\<exists>c\<in>set criteria. i = py_str (attr c ''id'' PNone))"
proof -
  assume b: "build_graph criteria claims evidence = Inr g"
  have n: "node ''criterion'' i \<noteq> ''task''" "edge g x (node ''criterion'' i) \<Longrightarrow> \<exists>c\<in>set criteria. node ''criterion'' i = criterion_node c" for x
    using b by (auto simp: build_graph_edges node_def dest!: refers_cases)
  show ?thesis
    using reach_pred[OF n(1), of g] n(2) reach_criterion[OF b] by (auto simp: criterion_node_def)
qed

text \<open>The events a package needs: those about the task, and those whose payload has a text that
  contains the id of something needed.\<close>

definition needed_id :: "pyval list \<Rightarrow> (string, pyval) dict \<Rightarrow> (string, pyval) dict \<Rightarrow> string \<Rightarrow> bool" where
  "needed_id criteria claims evidence i =
     (i \<in> fst ` set claims \<and> needed_claim criteria i \<or> i \<in> fst ` set evidence \<and> needed_evidence criteria claims i \<or>
      (\<exists>c\<in>set criteria. i = py_str (attr c ''id'' PNone)))"

definition needed_event :: "pyval list \<Rightarrow> (string, pyval) dict \<Rightarrow> (string, pyval) dict \<Rightarrow> pyval \<Rightarrow> pyval \<Rightarrow> bool" where
  "needed_event criteria claims evidence tid e =
     (py_eq (attr e ''subject_id'' PNone) tid \<or>
      (\<exists>s i. PStr s \<in> set (flatten_value (attr e ''payload'' PNone)) \<and> needed_id criteria claims evidence i \<and> i \<noteq> [] \<and> contains i s))"

lemma references_iff: "references payload ids \<longleftrightarrow> (\<exists>s. PStr s \<in> set (flatten_value payload) \<and> (\<exists>i\<in>set ids. i \<noteq> [] \<and> contains i s))"
proof -
  have "(case v of PStr s \<Rightarrow> list_ex (\<lambda>i. i \<noteq> [] \<and> contains i s) ids | _ \<Rightarrow> False) \<longleftrightarrow>
      (\<exists>s. v = PStr s \<and> (\<exists>i\<in>set ids. i \<noteq> [] \<and> contains i s))" for v
    by (cases v) (simp_all add: list_ex_iff)
  then have "references payload ids \<longleftrightarrow> ids \<noteq> [] \<and> (\<exists>v\<in>set (flatten_value payload). \<exists>s. v = PStr s \<and> (\<exists>i\<in>set ids. i \<noteq> [] \<and> contains i s))"
    unfolding references_def list_ex_iff[of _ "flatten_value payload"] by simp
  then show ?thesis by (metis empty_iff empty_set)
qed

lemma reachable_events_Inr:
  assumes "reachable_events events tid ids = Inr evs"
  shows "set evs = {e \<in> set events. py_eq (attr e ''subject_id'' PNone) tid \<or> references (attr e ''payload'' PNone) ids}"
proof -
  define keep where "keep = (\<lambda>e. bindE (py_get e ''subject_id'' PNone) (\<lambda>subject.
     if py_eq subject tid then Inr True else bindE (py_get e ''payload'' PNone) (\<lambda>p. Inr (references p ids))))"
  have "b \<longleftrightarrow> py_eq (attr e ''subject_id'' PNone) tid \<or> references (attr e ''payload'' PNone) ids" if "keep e = Inr b" for e b
    using that by (auto simp: keep_def bindE_eq_Inr dest!: attr_Inr split: if_splits)
  moreover have "\<forall>e\<in>set events. returns (keep e)" "evs = filter (\<lambda>e. keep e = Inr True) events"
    using assms by (auto simp: reachable_events_def filterE_eq_Inr keep_def)
  ultimately show ?thesis by (fastforce simp: returns_iff)
qed

lemma set_ids_under: "set (ids_under k nodes) = {i. node k i \<in> set nodes}"
proof -
  have "drop (length k + 1) (node k i) = i" "startswith (node k i) (k @ '':'')" for i
    by (simp_all add: node_def startswith_iff)
  moreover have "startswith n (k @ '':'') \<Longrightarrow> n = node k (drop (length k + 1) n)" for n
    by (auto simp: startswith_iff node_def)
  ultimately show ?thesis unfolding ids_under_def by (auto simp: image_iff) metis
qed

lemma set_pick: "dict_ok d \<Longrightarrow> set (pick d ids) = {v. \<exists>i\<in>set ids. (i, v) \<in> set d}"
proof -
  have "set (List.map_filter f xs) = {v. \<exists>x\<in>set xs. f x = Some v}" for f :: "string \<Rightarrow> pyval option" and xs
    by (induction xs) (auto simp: List.map_filter_simps split: option.splits)
  then show "dict_ok d \<Longrightarrow> ?thesis" by (simp add: pick_def map_of_iff_in_set)
qed

section \<open>Properties\<close>

text \<open>
  The search terminates and computes reachability: for every graph and root it returns exactly
  the nodes a path of edges leads to.
\<close>
theorem reach_is_reachability:
  "set (reach g r) = {n. (edge g)\<^sup>*\<^sup>* r n}"
  by (auto simp: reach_iff)

text \<open>
  C37. A context package holds what the task needs and nothing else. When compilation returns, a
  task with acceptance criteria gets exactly the claims its criteria refer to and the evidence
  that those claims, or the criteria themselves, refer to, and exactly the events about the task or mentioning one of these;
  a task without criteria gets everything.
\<close>
theorem context_package_exact:
  assumes "compile_context uuid contract claims evidence events = Inr pkg"
    and "map_of contract ''acceptance_criteria'' = Some (PList criteria)"
    and "dict_ok claims" "dict_ok evidence"
  shows "\<exists>d cs es evs. pkg = PDict d \<and> map_of d ''claims'' = Some (PList cs) \<and> map_of d ''evidence'' = Some (PList es) \<and>
     map_of d ''ledger_events'' = Some (PList evs) \<and>
     (criteria = [] \<longrightarrow> cs = map snd claims \<and> es = map snd evidence \<and> evs = events) \<and>
     (criteria \<noteq> [] \<longrightarrow> set cs = {c. \<exists>i. (i, c) \<in> set claims \<and> needed_claim criteria i} \<and>
        set es = {e. \<exists>i. (i, e) \<in> set evidence \<and> needed_evidence criteria claims i} \<and>
        set evs = {e \<in> set events. needed_event criteria claims evidence (attr (PDict contract) ''task_id'' (PStr ''task-unknown'')) e})"
proof -
  obtain g where b: "build_graph criteria claims evidence = Inr g" using assms(1,2) by (auto simp: compile_context_def Let_def bindE_eq_Inr)
  have t: "is_trivial g \<longleftrightarrow> criteria = []"
  proof -
    have "is_trivial g \<longleftrightarrow> (\<forall>y. \<not> edge g ''task'' y)" by (simp add: is_trivial_def edge_def flip: set_empty)
    then show ?thesis using task_edge[OF b] by (cases criteria) auto
  qed
  show ?thesis
  proof (cases "criteria = []")
    case True
    then obtain tid n where "package uuid ''include_everything'' tid (map snd claims) (map snd evidence) events n = Inr pkg"
      using assms(1,2) b t by (auto simp: compile_context_def Let_def)
    then obtain d where "pkg = PDict d" "map_of d ''claims'' = Some (PList (map snd claims))"
      "map_of d ''evidence'' = Some (PList (map snd evidence))" "map_of d ''ledger_events'' = Some (PList events)"
      by (auto simp: package_def bindE_eq_Inr)
    with True show ?thesis by auto
  next
    case False
    define nodes where "nodes = reach g ''task''"
    define tid where "tid = (case map_of contract ''task_id'' of None \<Rightarrow> PStr ''task-unknown'' | Some t \<Rightarrow> t)"
    have "compile_context uuid contract claims evidence events =
        bindE (reachable_events events tid (ids_under ''claim'' nodes @ ids_under ''evidence'' nodes @ ids_under ''criterion'' nodes))
          (\<lambda>evs. package uuid ''graph_reachability'' tid (pick claims (ids_under ''claim'' nodes)) (pick evidence (ids_under ''evidence'' nodes)) evs
            (length claims + length evidence + length events))"
      using b t False assms(2) by (simp add: compile_context_def Let_def nodes_def tid_def)
    then obtain evs where evs: "reachable_events events tid (ids_under ''claim'' nodes @ ids_under ''evidence'' nodes @ ids_under ''criterion'' nodes) = Inr evs"
      and p: "package uuid ''graph_reachability'' tid (pick claims (ids_under ''claim'' nodes)) (pick evidence (ids_under ''evidence'' nodes)) evs
          (length claims + length evidence + length events) = Inr pkg"
      unfolding assms(1) by (auto simp: bindE_eq_Inr dest!: sym[of "Inr pkg"])
    have "set (pick claims (ids_under ''claim'' nodes)) = {c. \<exists>i. (i, c) \<in> set claims \<and> needed_claim criteria i}"
      unfolding set_pick[OF assms(3)] set_ids_under nodes_def reach_iff reach_claim[OF b] by force
    moreover have "set (pick evidence (ids_under ''evidence'' nodes)) = {e. \<exists>i. (i, e) \<in> set evidence \<and> needed_evidence criteria claims i}"
      unfolding set_pick[OF assms(4)] set_ids_under nodes_def reach_iff reach_evidence[OF b] by force
    moreover have "set evs = {e \<in> set events. needed_event criteria claims evidence tid e}"
      unfolding reachable_events_Inr[OF evs] needed_event_def needed_id_def references_iff set_append set_ids_under nodes_def reach_iff
        reach_claim[OF b] reach_evidence[OF b] reach_criterion_iff[OF b] by blast
    moreover have "attr (PDict contract) ''task_id'' (PStr ''task-unknown'') = tid" by (simp add: attr_def tid_def)
    moreover obtain d where "pkg = PDict d" "map_of d ''claims'' = Some (PList (pick claims (ids_under ''claim'' nodes)))"
      "map_of d ''evidence'' = Some (PList (pick evidence (ids_under ''evidence'' nodes)))" "map_of d ''ledger_events'' = Some (PList evs)"
      using p by (auto simp: package_def bindE_eq_Inr)
    ultimately show ?thesis using False by blast
  qed
qed


section \<open>Witnesses\<close>

definition small_claims :: "(string, pyval) dict" where
  "small_claims = [(''c1'', PDict [(''claim_id'', PStr ''c1''), (''evidence_ids'', PList [PStr ''e1''])]),
     (''c2'', PDict [(''claim_id'', PStr ''c2'')])]"

definition small_evidence :: "(string, pyval) dict" where
  "small_evidence = [(''e1'', PDict [(''evidence_id'', PStr ''e1'')]), (''e2'', PDict [(''evidence_id'', PStr ''e2'')])]"

definition small_criteria :: "pyval list" where
  "small_criteria = [PDict [(''id'', PStr ''a''), (''requirement_refs'', PList [PStr ''c1''])]]"

theorem context_package_exact_witness:
  "\<exists>pkg cs. compile_context ''u'' [(''acceptance_criteria'', PList small_criteria)] small_claims small_evidence [] = Inr pkg \<and>
     attr pkg ''claims'' PNone = PList cs \<and> set cs = {PDict [(''claim_id'', PStr ''c1''), (''evidence_ids'', PList [PStr ''e1''])]}"
proof -
  have "returns (compile_context ''u'' [(''acceptance_criteria'', PList small_criteria)] small_claims small_evidence [])" by code_simp
  then obtain pkg where p: "compile_context ''u'' [(''acceptance_criteria'', PList small_criteria)] small_claims small_evidence [] = Inr pkg"
    by (auto simp: returns_iff)
  have ok: "dict_ok small_claims" "dict_ok small_evidence" by code_simp+
  have "{c. \<exists>i. (i, c) \<in> set small_claims \<and> needed_claim small_criteria i} = {PDict [(''claim_id'', PStr ''c1''), (''evidence_ids'', PList [PStr ''e1''])]}"
    by (auto simp: small_claims_def needed_claim_def small_criteria_def refs_of_def items_of_def attr_def)
  moreover have "small_criteria \<noteq> []" by (simp add: small_criteria_def)
  ultimately show ?thesis using context_package_exact[OF p _ ok, of small_criteria] p by (auto simp: attr_def)
qed


end
