(* ===== verification/Py_Repr.thy ===== *)
theory Py_Repr
  imports Py_Val
begin

text \<open>
  Decimal texts read back: \<^verbatim>\<open>int(str(n)) == n\<close> and \<^verbatim>\<open>float(repr(x)) == x\<close>. A binary64 number is the
  one nearest to every decimal within half a unit of its seventeenth digit, so the search of
  \<^verbatim>\<open>repr\<close> for the shortest digits succeeds by then, and each of the layouts of \<^verbatim>\<open>repr\<close> denotes
  those digits.
\<close>

section \<open>Rounding near a representable number\<close>

lemma rne_near: assumes "\<bar>z - of_int k\<bar> < 1/2" shows "rne z = k"
proof -
  have "\<bar>of_int (rne z) - of_int k\<bar> < (1::rat)" using rne_close[of z] assms by linarith
  then have "\<bar>rne z - k\<bar> < 1" by linarith
  then show ?thesis by simp
qed

lemma fl_pos_near:
  assumes "x = of_int k * two_pow (ulp_exp y)" "\<bar>y - x\<bar> < two_pow (ulp_exp y) / 2"
  shows "fl_pos y = x"
proof -
  let ?u = "two_pow (ulp_exp y)"
  have "y / ?u - of_int k = (y - x) / ?u" by (simp add: assms(1) diff_divide_distrib)
  then have "\<bar>y / ?u - of_int k\<bar> = \<bar>y - x\<bar> / ?u" by (simp add: abs_divide)
  also have "\<dots> < 1/2" using assms(2) by (simp add: pos_divide_less_eq)
  finally show ?thesis using rne_near[of "y / ?u" k] by (simp add: fl_pos_def assms(1))
qed

text \<open>A representable number is a multiple of its last place, below \<open>2 ^ 53\<close> of them.\<close>

lemma is_fl_multiple:
  assumes "0 < x" "is_fl x"
  obtains k where "x = of_int k * two_pow (ulp_exp x)" "1 \<le> k" "k < 2 ^ 53"
proof
  let ?u = "two_pow (ulp_exp x)"
  define k where "k = rne (x / ?u)"
  show x: "x = of_int k * ?u" using assms by (simp add: is_fl_def fl_def fl_pos_def k_def)
  have "0 < (of_int k :: rat)" using assms(1) x by (metis two_pow_pos zero_less_mult_pos2)
  then show "1 \<le> k" by simp
  have "x < two_pow (ilog2 x + 1)" by (rule ilog2_bounds(2)[OF assms(1)])
  also have "\<dots> \<le> two_pow (53 + ulp_exp x)" by (rule two_pow_mono) (simp add: ulp_exp_def)
  also have "\<dots> = 2 ^ 53 * ?u" by (simp add: power_int_add)
  finally have "of_int k * ?u < 2 ^ 53 * ?u" using x by simp
  then have "of_int k < (of_int (2 ^ 53) :: rat)" by simp
  then show "k < 2 ^ 53" by (simp only: of_int_less_iff)
qed

lemma ilog2_eqI: "0 < r \<Longrightarrow> two_pow k \<le> r \<Longrightarrow> r < two_pow (k + 1) \<Longrightarrow> ilog2 r = k"
  using two_pow_le_iff_ilog2[of r k] two_pow_le_iff_ilog2[of r "k + 1"] by linarith

lemma fl_near:
  assumes "0 < x" "is_fl x" "\<bar>y - x\<bar> \<le> x * (5 / 10 ^ 17)"
  shows "fl y = x"
proof -
  obtain k where k: "x = of_int k * two_pow (ulp_exp x)" "1 \<le> k" "k < 2 ^ 53" using is_fl_multiple[OF assms(1,2)] by blast
  define e where "e = max (ilog2 x) (-1022)"
  define u where "u = two_pow (e - 52)"
  have u: "0 < u" "two_pow (ulp_exp x) = u" by (simp_all add: u_def e_def ulp_exp_def)
  have x: "x = of_int k * u" using k(1) u(2) by simp
  have k1: "of_int k \<le> (2 ^ 53 - 1 :: rat)" using k(3) by (simp flip: of_int_le_iff)
  have top: "two_pow (e + 1) = 2 ^ 53 * u" "two_pow e = 2 ^ 52 * u"
    unfolding u_def by (simp_all flip: power_int_add add: power_int_numeral[symmetric] add.commute del: power_int_numeral)
  have "x * (5 / 10 ^ 17) \<le> (2 ^ 53 * u) * (5 / 10 ^ 17)" unfolding x using k1 u(1) by (intro mult_right_mono) auto
  also have "\<dots> < u / 2" using u(1) by (simp add: field_simps)
  finally have d: "\<bar>y - x\<bar> < u / 2" using assms(3) by linarith
  have "x * (5 / 10 ^ 17) < x * 1" using assms(1) by (intro mult_strict_left_mono) auto
  then have y: "0 < y" using assms(3) by linarith
  have "x \<le> (2 ^ 53 - 1) * u" unfolding x using k1 u(1) by (intro mult_right_mono) auto
  then have y_top: "y < two_pow (e + 1)" using abs_ge_self[of "y - x"] d u(1) unfolding top left_diff_distrib by linarith
  have e_y: "ilog2 y \<le> e" using y_top two_pow_le_iff_ilog2[OF y, of "e + 1"] by linarith
  have "fl_pos y = x"
  proof (cases "e = -1022 \<or> two_pow e \<le> y")
    case True
    then have "max (ilog2 y) (-1022) = e"
    proof
      assume "two_pow e \<le> y"
      then have "e \<le> ilog2 y" using two_pow_le_iff_ilog2[OF y, of e] by simp
      then have "ilog2 y = e" using e_y by simp
      moreover have "-1022 \<le> e" by (simp add: e_def)
      ultimately show ?thesis by simp
    qed (use e_y in simp)
    then have "two_pow (ulp_exp y) = u" by (simp add: ulp_exp_def u_def)
    then show ?thesis using fl_pos_near[of x k y] x d by simp
  next
    case False
    then have e: "e = ilog2 x" "-1022 < e" "y < two_pow e" by (auto simp: e_def max_def split: if_splits)
    have "two_pow e \<le> x" using ilog2_bounds(1)[OF assms(1)] e(1) by simp
    then have "2 ^ 52 * u \<le> of_int k * u" "of_int k * u < 2 ^ 52 * u + u / 2" using d e(3) unfolding top x by linarith+
    then have "2 ^ 52 \<le> (of_int k :: rat)" "of_int k < (2 ^ 52 + 1 / 2 :: rat)"
      using u(1) by (simp_all add: field_simps)
    then have "of_int (2 ^ 52) \<le> (of_int k :: rat)" "of_int k < (of_int (2 ^ 52 + 1) :: rat)" by simp_all
    then have k52: "k = 2 ^ 52" unfolding of_int_le_iff of_int_less_iff by linarith
    have d4: "\<bar>y - x\<bar> < u / 4"
    proof -
      have "x * (5 / 10 ^ 17) < u / 4" unfolding x k52 using u(1) by (simp add: field_simps)
      then show ?thesis using assms(3) by linarith
    qed
    have half: "two_pow (e - 1) = 2 ^ 51 * u" unfolding u_def
      by (simp flip: power_int_add add: power_int_numeral[symmetric] del: power_int_numeral)
    have x52: "x = 2 ^ 52 * u" by (simp add: x k52)
    have "2 ^ 52 * u - 2 ^ 51 * u = 2 ^ 51 * u" by simp
    moreover have "u \<le> 2 ^ 51 * u" using u(1) by simp
    ultimately have "two_pow (e - 1) \<le> y" using d4 abs_ge_minus_self[of "y - x"] u(1) unfolding half x52 by linarith
    then have "ilog2 y = e - 1" by (rule ilog2_eqI[OF y]) (use e(3) in simp)
    then have "ulp_exp y = e - 52 - 1" using e(2) by (simp add: ulp_exp_def)
    then have "two_pow (ulp_exp y) = two_pow (e - 52 - 1)" by simp
    also have "\<dots> = u / 2" unfolding u_def by (simp add: power_int_diff)
    finally have "two_pow (ulp_exp y) = u / 2" .
    then show ?thesis using fl_pos_near[of x "2 * k" y] x d4 by simp
  qed
  then show ?thesis using y by (simp add: fl_def)
qed

section \<open>Decimal digits\<close>

lemma nat_of_digits_append: "nat_of_digits (a @ b) = nat_of_digits a * 10 ^ length b + nat_of_digits b"
proof -
  have "foldl (\<lambda>n c. 10 * n + digit_val c) n b = n * 10 ^ length b + foldl (\<lambda>n c. 10 * n + digit_val c) 0 b" for n b
  proof (induction b arbitrary: n)
    case (Cons c b)
    show ?case unfolding foldl.simps Cons[of "10 * n + digit_val c"] Cons[of "10 * 0 + digit_val c"] by (simp add: algebra_simps)
  qed simp
  from this[of "foldl (\<lambda>n c. 10 * n + digit_val c) 0 a" b] show ?thesis by (simp add: nat_of_digits_def)
qed

lemma digit_char_digit: "d < 10 \<Longrightarrow> is_digit (digit_char d) \<and> digit_val (digit_char d) = d"
  by (simp add: digit_char_def is_digit_def digit_val_def of_char_of)

lemma nat_of_digits_Nil [simp]: "nat_of_digits [] = 0"
  by (simp add: nat_of_digits_def)

lemma nat_of_digits_single [simp]: "nat_of_digits [c] = digit_val c"
  by (simp add: nat_of_digits_def)

lemma dec_nat_reads: "nat_of_digits (dec_nat n) = n" and dec_nat_digits: "list_all is_digit (dec_nat n)"
  and dec_nat_nonempty [simp]: "dec_nat n \<noteq> []"
proof -
  have "nat_of_digits (dec_nat n) = n \<and> list_all is_digit (dec_nat n) \<and> dec_nat n \<noteq> []"
  proof (induction n rule: dec_nat.induct)
    case (1 n)
    show ?case
    proof (cases "n < 10")
      case True
      then show ?thesis by (subst (1 2 3) dec_nat.simps) (simp add: digit_char_digit)
    next
      case False
      then show ?thesis using 1 digit_char_digit[of "n mod 10"]
        by (subst (1 2 3) dec_nat.simps) (simp add: nat_of_digits_append)
    qed
  qed
  then show "nat_of_digits (dec_nat n) = n" "list_all is_digit (dec_nat n)" "dec_nat n \<noteq> []" by simp_all
qed

lemma dec_nat_length: "0 < n \<Longrightarrow> 10 ^ (length (dec_nat n) - 1) \<le> n"
proof (induction n rule: dec_nat.induct)
  case (1 n)
  show ?case
  proof (cases "n < 10")
    case True
    with 1 show ?thesis by (subst dec_nat.simps) simp
  next
    case False
    then have "10 ^ (length (dec_nat (n div 10)) - 1) \<le> n div 10" using 1 by simp
    moreover have "length (dec_nat (n div 10)) = Suc (length (dec_nat (n div 10)) - 1)" by (simp add: Suc_leI)
    ultimately have "10 ^ length (dec_nat (n div 10)) \<le> n" by (metis (no_types, opaque_lifting) mult_le_mono2 times_div_less_eq_dividend order_trans power_Suc)
    then show ?thesis using False by (subst dec_nat.simps) simp
  qed
qed

text \<open>The first digit is zero only in the text of zero.\<close>

lemma dec_nat_hd: "0 < n \<Longrightarrow> hd (dec_nat n) \<noteq> CHR ''0''"
proof (induction n rule: dec_nat.induct)
  case (1 n)
  show ?case
  proof (cases "n < 10")
    case True
    have "digit_char n \<noteq> CHR ''0''"
      using 1(2) True digit_char_digit[of n] by (auto simp: digit_val_def)
    with True show ?thesis by (subst dec_nat.simps) simp
  next
    case False
    with 1 show ?thesis by (subst dec_nat.simps) simp
  qed
qed

section \<open>Seventeen digits suffice\<close>

text \<open>The finite doubles: representable, below \<open>2 ^ 1024\<close>.\<close>

definition is_f64 :: "f64 \<Rightarrow> bool" where
  "is_f64 f = (case f of Fin x \<Rightarrow> is_fl x \<and> \<bar>x\<bar> < 2 ^ 1024 | _ \<Rightarrow> True)"

lemma ilog10_le:
  assumes "0 < x" "is_fl x" shows "10 powi (ilog10 x) \<le> x"
proof (cases "1 \<le> x")
  case True
  define n where "n = nat \<lfloor>x\<rfloor>"
  have n: "0 < n" "of_nat n \<le> x" using True by (simp_all add: n_def)
  have "(10::rat) ^ (length (dec_nat n) - 1) \<le> of_nat n" using dec_nat_length[OF n(1)]
    by (metis of_nat_le_iff of_nat_numeral of_nat_power)
  then have "10 ^ (length (dec_nat n) - 1) \<le> x" using n(2) by linarith
  moreover have "ilog10 x = int (length (dec_nat n) - 1)"
    using True by (simp only: ilog10_def n_def[symmetric] if_True) (simp add: of_nat_diff Suc_leI)
  ultimately show ?thesis by simp
next
  case False
  obtain k where k: "x = of_int k * two_pow (ulp_exp x)" "1 \<le> k" using is_fl_multiple[OF assms] by blast
  have "two_pow (-1074) \<le> two_pow (ulp_exp x)" by (rule two_pow_mono) (simp add: ulp_exp_def)
  also have "\<dots> \<le> of_int k * two_pow (ulp_exp x)" using k(2) by simp
  finally have x: "two_pow (-1074) \<le> x" using k(1) by simp
  have low: "1 \<le> x * 10 ^ m" if "two_pow (- int n) \<le> x" "n \<le> 3 * m" for n m :: nat
  proof -
    have "1 = two_pow (- int n) * 2 ^ n" by (simp add: power_int_minus)
    also have "\<dots> \<le> x * 2 ^ n" using that(1) by (intro mult_right_mono) auto
    also have "\<dots> \<le> x * 2 ^ (3 * m)" using assms(1) that(2) by (intro mult_left_mono power_increasing) auto
    also have "\<dots> = x * 8 ^ m" by (simp add: power_mult)
    also have "\<dots> \<le> x * 10 ^ m" using assms(1) by (intro mult_left_mono power_mono) auto
    finally show ?thesis .
  qed
  have "399 \<in> set [1..<400::nat]" by simp
  moreover have "1 \<le> x * 10 ^ 399" by (rule low[of 1074]) (use x in simp_all)
  ultimately have "find (\<lambda>k. 1 \<le> x * 10 ^ k) [1..<400] \<noteq> None"
    unfolding find_None_iff by blast
  then obtain j where j: "find (\<lambda>k. 1 \<le> x * 10 ^ k) [1..<400] = Some j" by blast
  then have "1 \<le> x * 10 ^ j" by (auto dest: find_SomeD)
  moreover have "10 powi (- int j) = (1::rat) / 10 ^ j" by (simp add: power_int_minus_divide)
  ultimately show ?thesis using False j by (simp add: ilog10_def pos_divide_le_eq)
qed

lemma digits_at_17: assumes "0 < x" "is_fl x" shows "digits_at x 17 \<noteq> None"
proof -
  define e where "e = ilog10 x - 17 + 1"
  define s :: rat where "s = 10 powi e"
  have s: "0 < s" by (simp add: s_def)
  have "s = 10 powi (ilog10 x) / 10 ^ 16" unfolding s_def e_def by (simp add: power_int_diff)
  then have small: "s \<le> x / 10 ^ 16" using ilog10_le[OF assms] by (simp add: divide_right_mono)
  have "\<bar>of_int (rne (x / s)) * s - x\<bar> = \<bar>of_int (rne (x / s)) - x / s\<bar> * s"
    using s by (simp add: abs_mult_pos left_diff_distrib)
  also have "\<dots> \<le> 1 / 2 * s" using s rne_close[of "x / s"] by (intro mult_right_mono) auto
  also have "\<dots> \<le> x * (5 / 10 ^ 17)" using small by simp
  finally have "fl (of_int (rne (x / s)) * s) = x" by (rule fl_near[OF assms])
  then show ?thesis by (simp add: digits_at_def Let_def e_def[symmetric] s_def[symmetric])
qed

lemma shortest_reads_back:
  assumes "0 < x" "is_fl x" "shortest x = (m, e)"
  shows "0 < m" "fl (of_nat m * 10 powi e) = x"
proof -
  have "17 \<in> set [1..<18::nat]" by simp
  then have "List.find (\<lambda>n. digits_at x n \<noteq> None) [1..<18] \<noteq> None"
    using digits_at_17[OF assms(1,2)] \<open>17 \<in> set [1..<18]\<close> unfolding find_None_iff by blast
  then obtain n where n: "List.find (\<lambda>n. digits_at x n \<noteq> None) [1..<18] = Some n" by blast
  then have "digits_at x n \<noteq> None" by (auto dest: find_SomeD)
  then have "digits_at x n = Some (m, e)" using n assms(3) by (auto simp: shortest_def)
  then obtain i where i: "m = nat i" "fl (of_int i * 10 powi e) = x"
    by (auto simp: digits_at_def Let_def split: if_splits)
  have "0 < i"
  proof (rule ccontr)
    assume "\<not> 0 < i"
    then have "of_int i * 10 powi e \<le> (0::rat)" by (intro mult_nonpos_nonneg) auto
    then have "fl (of_int i * 10 powi e) \<le> 0" using fl_mono[of _ 0] by simp
    with i(2) assms(1) show False by simp
  qed
  with i show "0 < m" "fl (of_nat m * 10 powi e) = x" by simp_all
qed

section \<open>The layouts of a float\<close>

text \<open>\<open>ip\<close>, \<open>fp\<close> and \<open>ep\<close> are the integer, fraction and exponent part of a decimal text.\<close>

definition float_text :: "string \<Rightarrow> string \<Rightarrow> string \<Rightarrow> string" where
  "float_text ip fp ep = ip @ (if fp = [] then [] else CHR ''.'' # fp) @ ep"

definition exp_text :: "string \<Rightarrow> int \<Rightarrow> bool" where
  "exp_text ep k = (ep = [] \<and> k = 0 \<or>
     (\<exists>neg ds. ep = CHR ''e'' # (if neg then CHR ''-'' else CHR ''+'') # ds \<and> ds \<noteq> [] \<and> list_all is_digit ds \<and>
        k = (if neg then - int (nat_of_digits ds) else int (nat_of_digits ds))))"

definition int_text :: "string \<Rightarrow> bool" where
  "int_text ip = (ip \<noteq> [] \<and> list_all is_digit ip \<and> (hd ip = CHR ''0'' \<longrightarrow> length ip = 1))"

definition denotes :: "string \<Rightarrow> string \<Rightarrow> string \<Rightarrow> rat \<Rightarrow> bool" where
  "denotes ip fp ep v = (int_text ip \<and> list_all is_digit fp \<and> (fp \<noteq> [] \<or> ep \<noteq> []) \<and>
     (\<exists>k. exp_text ep k \<and> of_nat (nat_of_digits (ip @ fp)) * 10 powi (k - int (length fp)) = v))"

lemma zeros_read [simp]: "nat_of_digits (replicate n CHR ''0'') = 0" "list_all is_digit (replicate n CHR ''0'')"
proof (induction n)
  case (Suc n)
  have "replicate (Suc n) CHR ''0'' = [CHR ''0''] @ replicate n CHR ''0''" by simp
  { case 1 show ?case unfolding \<open>replicate (Suc n) _ = _\<close> nat_of_digits_append Suc(1) by (simp add: digit_val_def) }
  { case 2 show ?case using Suc(2) by (simp add: is_digit_def) }
qed simp_all

lemma zero_digit [simp]: "nat_of_digits (CHR ''0'' # ds) = nat_of_digits ds" "is_digit CHR ''0''" "digit_val CHR ''0'' = 0"
  using nat_of_digits_append[of "[CHR ''0'']" ds] by (simp_all add: digit_val_def is_digit_def)

lemma pad_left_reads: "nat_of_digits (pad_left n (dec_nat k)) = k" "list_all is_digit (pad_left n (dec_nat k))" "pad_left n (dec_nat k) \<noteq> []"
  by (simp_all add: pad_left_def nat_of_digits_append dec_nat_reads dec_nat_digits)

text \<open>The significant digits of a positive number: its digits less the trailing zeros.\<close>

lemma significant_digits:
  assumes "0 < m"
  obtains z where "dec_nat m = strip_zeros (dec_nat m) @ replicate z CHR ''0''" "int_text (strip_zeros (dec_nat m))"
    "nat_of_digits (strip_zeros (dec_nat m)) * 10 ^ z = m" "hd (strip_zeros (dec_nat m)) \<noteq> CHR ''0''"
proof
  let ?s = "dec_nat m" and ?ds = "strip_zeros (dec_nat m)"
  define z where "z = length (takeWhile (\<lambda>c. c = CHR ''0'') (rev ?s))"
  have "takeWhile (\<lambda>c. c = CHR ''0'') (rev ?s) = replicate z CHR ''0''"
    unfolding z_def by (rule replicate_length_same[symmetric]) (auto dest: set_takeWhileD)
  then have "rev ?s = replicate z CHR ''0'' @ rev ?ds"
    using takeWhile_dropWhile_id[of "\<lambda>c. c = CHR ''0''" "rev ?s"] by (simp add: strip_zeros_def)
  then have "rev (rev ?s) = rev (replicate z CHR ''0'' @ rev ?ds)" by (rule arg_cong)
  then show split: "?s = ?ds @ replicate z CHR ''0''" by simp
  have r: "nat_of_digits ?ds * 10 ^ z = m"
    using arg_cong[OF split, of nat_of_digits] by (simp add: nat_of_digits_append dec_nat_reads)
  then show "nat_of_digits ?ds * 10 ^ z = m" .
  have ne: "?ds \<noteq> []" using r assms by (cases ?ds) auto
  have "list_all is_digit ?ds" using dec_nat_digits[of m] split by (metis list_all_append)
  moreover have "hd ?ds \<noteq> CHR ''0''" using dec_nat_hd[OF assms] split ne by (metis hd_append2)
  ultimately show "int_text ?ds" "hd ?ds \<noteq> CHR ''0''" using ne by (simp_all add: int_text_def)
qed

lemma ten_powi: "(10::rat) powi (a + b) = 10 powi a * 10 powi b"
  by (rule power_int_add) simp

lemma powi_shift: "of_nat d * 10 ^ n * (10::rat) powi (a - int n) = of_nat d * 10 powi a"
  using ten_powi[of "int n" "a - int n"] by simp

text \<open>Each layout of \<open>repr\<close> denotes the significant digits at their exponent.\<close>

lemma layout_small: "int_text ds \<Longrightarrow> denotes ''0'' (replicate n CHR ''0'' @ ds) [] (of_nat (nat_of_digits ds) * 10 powi (- int (n + length ds)))"
  by (auto simp: denotes_def int_text_def exp_text_def nat_of_digits_append)

lemma layout_whole: "int_text ds \<Longrightarrow> hd ds \<noteq> CHR ''0'' \<Longrightarrow>
    denotes (ds @ replicate n CHR ''0'') ''0'' [] (of_nat (nat_of_digits ds) * 10 powi (int n))"
  using powi_shift[of "nat_of_digits ds" "Suc n" "int n"]
  by (auto simp: denotes_def int_text_def exp_text_def nat_of_digits_append digit_val_def)

lemma layout_point:
  assumes "int_text ds" "hd ds \<noteq> CHR ''0''" "0 < n" "n < length ds"
  shows "denotes (take n ds) (drop n ds) [] (of_nat (nat_of_digits ds) * 10 powi (int n - int (length ds)))"
proof -
  have "list_all is_digit (take n ds)" "list_all is_digit (drop n ds)"
    using assms(1) by (auto simp: int_text_def list_all_iff dest: in_set_takeD in_set_dropD)
  then show ?thesis using assms by (auto simp: denotes_def int_text_def exp_text_def of_nat_diff)
qed

lemma layout_exponent:
  assumes "int_text ds" "hd ds \<noteq> CHR ''0''"
  shows "denotes (take 1 ds) (drop 1 ds) (CHR ''e'' # (if k < 0 then CHR ''-'' else CHR ''+'') # pad_left 2 (dec_nat (nat \<bar>k\<bar>)))
    (of_nat (nat_of_digits ds) * 10 powi (k - int (length ds) + 1))"
proof -
  have "list_all is_digit (take 1 ds)" "list_all is_digit (drop 1 ds)" "ds \<noteq> []"
    using assms(1) by (auto simp: int_text_def list_all_iff dest: in_set_takeD in_set_dropD)
  moreover have "exp_text (CHR ''e'' # (if k < 0 then CHR ''-'' else CHR ''+'') # pad_left 2 (dec_nat (nat \<bar>k\<bar>))) k"
    unfolding exp_text_def
    by (rule disjI2, rule exI[of _ "k < 0"], rule exI[of _ "pad_left 2 (dec_nat (nat \<bar>k\<bar>))"]) (simp add: pad_left_reads)
  moreover have "k - int (length (drop 1 ds)) = k - int (length ds) + 1" using \<open>ds \<noteq> []\<close> by (cases ds) simp_all
  ultimately show ?thesis using assms by (cases ds) (auto simp: denotes_def int_text_def)
qed

lemma repr_pos_layout:
  assumes "0 < x" "is_fl x"
  obtains ip fp ep v where "repr_pos x = float_text ip fp ep" "denotes ip fp ep v" "fl v = x"
proof -
  obtain m e where me: "shortest x = (m, e)" by fastforce
  note rb = shortest_reads_back[OF assms me]
  obtain z where z: "dec_nat m = strip_zeros (dec_nat m) @ replicate z CHR ''0''" "int_text (strip_zeros (dec_nat m))"
    "nat_of_digits (strip_zeros (dec_nat m)) * 10 ^ z = m" "hd (strip_zeros (dec_nat m)) \<noteq> CHR ''0''"
    using significant_digits[OF rb(1)] .
  define ds where "ds = strip_zeros (dec_nat m)"
  define pt where "pt = int (length (dec_nat m)) + e"
  define v where "v = (of_nat (nat_of_digits ds) * 10 powi (pt - int (length ds)) :: rat)"
  note d = z(2,4)[folded ds_def]
  have len: "length (dec_nat m) = length ds + z" using z(1) by (simp add: ds_def) (metis length_append length_replicate)
  have "of_nat m * 10 powi e = (of_nat (nat_of_digits ds) * 10 ^ z * 10 powi e :: rat)"
    using arg_cong[OF z(3), of "of_nat :: nat \<Rightarrow> rat"] by (simp add: ds_def)
  also have "\<dots> = v" unfolding v_def pt_def len by (simp add: ten_powi)
  finally have v: "fl v = x" using rb(2) by simp
  have r: "repr_pos x = (if -4 < pt \<and> pt \<le> 16 then
       (if pt \<le> 0 then ''0.'' @ replicate (nat (- pt)) CHR ''0'' @ ds
        else if int (length ds) \<le> pt then ds @ replicate (nat pt - length ds) CHR ''0'' @ ''.0''
        else take (nat pt) ds @ ''.'' @ drop (nat pt) ds)
     else take 1 ds @ (if length ds = 1 then [] else CHR ''.'' # drop 1 ds) @ ''e'' @
       (if pt - 1 < 0 then ''-'' else ''+'') @ pad_left 2 (dec_nat (nat \<bar>pt - 1\<bar>)))"
    unfolding repr_pos_def me ds_def pt_def Let_def by simp
  have ne: "ds \<noteq> []" using d(1) by (simp add: int_text_def)
  consider "-4 < pt" "pt \<le> 16" "pt \<le> 0" | "0 < pt" "pt \<le> 16" "int (length ds) \<le> pt"
    | "0 < pt" "pt \<le> 16" "pt < int (length ds)" | "\<not> (-4 < pt \<and> pt \<le> 16)" by linarith
  then show thesis
  proof cases
    case 1
    have "denotes ''0'' (replicate (nat (- pt)) CHR ''0'' @ ds) [] v"
      using layout_small[OF d(1), of "nat (- pt)"] 1 by (simp add: v_def algebra_simps)
    from that[OF _ this v] show ?thesis using 1 ne by (simp add: r float_text_def)
  next
    case 2
    have "denotes (ds @ replicate (nat pt - length ds) CHR ''0'') ''0'' [] v"
      using layout_whole[OF d, of "nat pt - length ds"] 2 by (simp add: v_def of_nat_diff)
    from that[OF _ this v] show ?thesis using 2 by (simp add: r float_text_def)
  next
    case 3
    have "denotes (take (nat pt) ds) (drop (nat pt) ds) [] v"
      using layout_point[OF d, of "nat pt"] 3 by (simp add: v_def)
    from that[OF _ this v] show ?thesis using 3 by (simp add: r float_text_def)
  next
    case 4
    have "denotes (take 1 ds) (drop 1 ds) (CHR ''e'' # (if pt - 1 < 0 then CHR ''-'' else CHR ''+'') # pad_left 2 (dec_nat (nat \<bar>pt - 1\<bar>))) v"
      using layout_exponent[OF d, of "pt - 1"] by (simp add: v_def)
    from that[OF _ this v] show ?thesis using 4 ne by (cases ds) (auto simp: r float_text_def)
  qed
qed

section \<open>Reading them back\<close>

lemma digit_simps: assumes "is_digit c"
  shows "\<not> is_space c" "c \<noteq> CHR ''_''" "c \<noteq> CHR ''-''" "c \<noteq> CHR ''+''" "c \<noteq> CHR ''e''" "c \<noteq> CHR ''E''" "c \<noteq> CHR ''.''"
    "char_lower c \<noteq> CHR ''i''" "char_lower c \<noteq> CHR ''n''"
  using assms by (auto simp: is_digit_def is_space_def char_lower_def Let_def)

lemma drop_underscores_none: "CHR ''_'' \<notin> set s \<Longrightarrow> drop_underscores p s = Some s"
  by (induction s arbitrary: p) auto

lemma strip_clean: "\<forall>c\<in>set s. \<not> is_space c \<Longrightarrow> strip s = s"
proof -
  assume a: "\<forall>c\<in>set s. \<not> is_space c"
  then have "dropWhile is_space t = t" if "set t = set s" for t
    using that by (cases t) auto
  then have "dropWhile is_space s = s" "dropWhile is_space (rev s) = rev s" by simp_all
  then show "strip s = s" by (simp add: strip_def)
qed

lemma takeWhile_digits: "list_all is_digit s \<Longrightarrow> r = [] \<or> \<not> is_digit (hd r) \<Longrightarrow> takeWhile is_digit (s @ r) = s \<and> dropWhile is_digit (s @ r) = r"
  by (cases r) (auto simp: list_all_iff takeWhile_append dropWhile_append)

lemma exp_text_reads: "exp_text ep k \<Longrightarrow> parse_exp ep = Some k"
  by (auto simp: exp_text_def parse_exp_def take_sign_def)

lemma exp_text_hd: "exp_text ep k \<Longrightarrow> ep = [] \<or> hd ep = CHR ''e''"
  by (auto simp: exp_text_def)

definition clean :: "string \<Rightarrow> bool" where
  "clean s = (\<forall>c\<in>set s. \<not> is_space c \<and> c \<noteq> CHR ''_'')"

lemma clean_reads: "clean s \<Longrightarrow> strip s = s \<and> drop_underscores p s = Some s"
  unfolding clean_def by (blast intro: strip_clean drop_underscores_none)

lemma clean_digits: "list_all is_digit s \<Longrightarrow> clean s"
  by (auto simp: clean_def list_all_iff dest: digit_simps)

lemma clean_parts: "clean []" "clean (a @ b) \<longleftrightarrow> clean a \<and> clean b"
  "clean (c # s) \<longleftrightarrow> \<not> is_space c \<and> c \<noteq> CHR ''_'' \<and> clean s"
  by (auto simp: clean_def)

lemma clean_float_text: "denotes ip fp ep v \<Longrightarrow> clean (float_text ip fp ep)"
  by (auto simp: denotes_def float_text_def int_text_def exp_text_def clean_parts clean_digits is_space_def)

lemma parse_unsigned:
  assumes "denotes ip fp ep v" "sg \<in> {[], ''-''}"
  shows "parse_float (sg @ float_text ip fp ep) = Some (f64_of_rat (if sg = [] then v else - v))"
proof -
  let ?t = "float_text ip fp ep"
  obtain k where k: "exp_text ep k" "of_nat (nat_of_digits (ip @ fp)) * 10 powi (k - int (length fp)) = v"
    and i: "int_text ip" "list_all is_digit fp" using assms(1) by (auto simp: denotes_def)
  obtain c ip' where c: "ip = c # ip'" "is_digit c" using i(1) by (cases ip) (auto simp: int_text_def)
  have cl: "clean (sg @ ?t)" using assms(2) clean_float_text[OF assms(1)] by (auto simp: clean_parts is_space_def)
  have s: "strip (sg @ ?t) = sg @ ?t" "drop_underscores False (sg @ ?t) = Some (sg @ ?t)"
    using clean_reads[OF cl] by simp_all
  have sign: "take_sign (sg @ ?t) = (sg \<noteq> [], ?t)"
    using assms(2) digit_simps[OF c(2)] by (auto simp: take_sign_def float_text_def c(1))
  have notword: "lower ?t \<noteq> ''inf''" "lower ?t \<noteq> ''infinity''" "lower ?t \<noteq> ''nan''"
    using digit_simps(8,9)[OF c(2)] by (simp_all add: lower_def float_text_def c(1))
  have e: "ep = [] \<or> \<not> is_digit (hd ep)" "ep = [] \<or> hd ep = CHR ''e''" using exp_text_hd[OF k(1)] by (auto simp: is_digit_def)
  have ip: "list_all is_digit ip" using i(1) by (simp add: int_text_def)
  have tw: "takeWhile is_digit ?t = ip" "dropWhile is_digit ?t = (if fp = [] then [] else CHR ''.'' # fp) @ ep"
    using takeWhile_digits[OF ip, of "(if fp = [] then [] else CHR ''.'' # fp) @ ep"] e(1)
    by (auto simp: float_text_def is_digit_def)
  have "(case (if fp = [] then [] else CHR ''.'' # fp) @ ep of [] \<Rightarrow> ([], [])
       | c # r' \<Rightarrow> if c = CHR ''.'' then (takeWhile is_digit r', dropWhile is_digit r') else ([], (if fp = [] then [] else CHR ''.'' # fp) @ ep)) = (fp, ep)"
    using takeWhile_digits[OF i(2) e(1)] e(2) by (cases ep) auto
  moreover have "ip \<noteq> []" by (simp add: c(1))
  ultimately show ?thesis using exp_text_reads[OF k(1)] k(2) notword
    by (simp add: parse_float_def s sign tw Let_def split del: if_split) simp
qed

lemma f64_of_rat_exact: "fl v = x \<Longrightarrow> \<bar>x\<bar> < 2 ^ 1024 \<Longrightarrow> f64_of_rat v = Fin x"
  by (simp add: f64_of_rat_def Let_def abs_less_iff)

text \<open>The text of a finite float, with its sign.\<close>

lemma repr_float_layout:
  assumes "is_f64 (Fin x)"
  obtains sg ip fp ep v where "repr_float (Fin x) = sg @ float_text ip fp ep" "sg \<in> {[], ''-''}" "denotes ip fp ep v"
    "f64_of_rat (if sg = [] then v else - v) = Fin x"
proof -
  have x: "is_fl x" "\<bar>x\<bar> < 2 ^ 1024" using assms by (simp_all add: is_f64_def)
  consider "x = 0" | "0 < x" | "x < 0" by linarith
  then show thesis
  proof cases
    case 1
    have "denotes ''0'' ''0'' [] 0" by (simp add: denotes_def int_text_def exp_text_def)
    moreover have "repr_float (Fin x) = [] @ float_text ''0'' ''0'' []" using 1 by (simp add: repr_float_def float_text_def)
    moreover have "f64_of_rat 0 = Fin x" using 1 by (simp add: f64_of_rat_exact)
    ultimately show ?thesis using that[of "[]" "''0''" "''0''" "[]" 0] by simp
  next
    case 2
    obtain ip fp ep v where l: "repr_pos x = float_text ip fp ep" "denotes ip fp ep v" "fl v = x"
      using repr_pos_layout[OF 2 x(1)] .
    then show ?thesis using that[of "[]" ip fp ep v] 2 x(2) by (simp add: repr_float_def f64_of_rat_exact)
  next
    case 3
    then have n: "0 < - x" "is_fl (- x)" using x(1) by (simp_all add: is_fl_def fl_minus)
    obtain ip fp ep v where l: "repr_pos (- x) = float_text ip fp ep" "denotes ip fp ep v" "fl v = - x"
      using repr_pos_layout[OF n] .
    have "fl (- v) = x" using l(3) by (simp add: fl_minus)
    then show ?thesis using that[of "''-''" ip fp ep v] l 3 x(2) by (simp add: repr_float_def f64_of_rat_exact)
  qed
qed

theorem float_of_repr: "is_f64 f \<Longrightarrow> parse_float (repr_float f) = Some f"
proof (cases f)
  case (Fin x)
  moreover assume "is_f64 f"
  ultimately obtain sg ip fp ep v where "repr_float (Fin x) = sg @ float_text ip fp ep" "sg \<in> {[], ''-''}" "denotes ip fp ep v"
    "f64_of_rat (if sg = [] then v else - v) = Fin x" using repr_float_layout[of x] by blast
  then show ?thesis using parse_unsigned[of ip fp ep v sg] Fin by simp
qed (simp_all add: repr_float_def, (code_simp)+)

lemma int_text_dec_nat: "int_text (dec_nat n)"
  using dec_nat_hd[of n] dec_nat_digits[of n] by (cases "n = 0") (auto simp: int_text_def, (simp add: dec_nat.simps)+)

theorem int_of_dec: "parse_int (dec_int i) = Some i"
proof -
  have d: "hd (dec_nat n) \<noteq> CHR ''-'' \<and> hd (dec_nat n) \<noteq> CHR ''+''" for n
    using dec_nat_digits[of n] digit_simps by (cases "dec_nat n") auto
  have sign: "take_sign (dec_int i) = (i < 0, dec_nat (nat \<bar>i\<bar>))"
    using d[of "nat i"] by (cases "dec_nat (nat i)") (auto simp: dec_int_def take_sign_def)
  have "clean (dec_int i)" using clean_digits[OF dec_nat_digits] by (simp add: dec_int_def clean_parts is_space_def)
  from clean_reads[OF this] have "strip (dec_int i) = dec_int i" "drop_underscores False (dec_int i) = Some (dec_int i)"
    by simp_all
  then show ?thesis by (simp add: parse_int_def sign dec_nat_digits dec_nat_reads)
qed

end
