(* ===== verification/Py_Json_Load.thy ===== *)
theory Py_Json_Load
  imports Py_Json Py_Repr
begin

text \<open>
  \<^verbatim>\<open>json.dumps(v)\<close> without sorting and \<^verbatim>\<open>json.loads(s)\<close> of the standard library: the reader of the
  module (strict, with \<^verbatim>\<open>NaN\<close> and the infinities) over the texts of the model, whose code points are
  below 256, and the theorem that it reads back every value that was written.
\<close>

section \<open>Writing in the order of the dict\<close>

function json_text :: "bool \<Rightarrow> string \<Rightarrow> string \<Rightarrow> pyval \<Rightarrow> string" where
  "json_text a i k v = (case v of
     PNone \<Rightarrow> ''null''
   | PBool b \<Rightarrow> (if b then ''true'' else ''false'')
   | PInt n \<Rightarrow> dec_int n
   | PFloat f \<Rightarrow> json_float f
   | PStr s \<Rightarrow> json_str a s
   | PList xs \<Rightarrow> ''['' @ join i (map (json_text a i k) xs) @ '']''
   | PDict d \<Rightarrow> ''{'' @ join i (map (\<lambda>(x, y). json_str a x @ k @ json_text a i k y) d) @ ''}'')"
  by pat_completeness auto
termination
  by (relation "measure (\<lambda>(a, i, k, v). size v)")
    (auto simp: less_Suc_eq_le intro: size_elem_list size_value_dict)

lemma json_text_simps [simp]:
  "json_text a i k PNone = ''null''" "json_text a i k (PBool b) = (if b then ''true'' else ''false'')"
  "json_text a i k (PInt n) = dec_int n" "json_text a i k (PFloat f) = json_float f"
  "json_text a i k (PStr s) = json_str a s"
  "json_text a i k (PList xs) = ''['' @ join i (map (json_text a i k) xs) @ '']''"
  "json_text a i k (PDict d) = ''{'' @ join i (map (\<lambda>(x, y). json_str a x @ k @ json_text a i k y) d) @ ''}''"
  by (subst json_text.simps, simp)+

declare json_text.simps [simp del]

section \<open>The reader\<close>

definition is_ws :: "char \<Rightarrow> bool" where
  "is_ws c = (c = CHR '' '' \<or> c = CHR 0x09 \<or> c = CHR 0x0A \<or> c = CHR 0x0D)"

definition skip_ws :: "string \<Rightarrow> string" where
  "skip_ws s = dropWhile is_ws s"

definition hex_val :: "char \<Rightarrow> nat option" where
  "hex_val c = (let n = (of_char c :: nat) in
     if 48 \<le> n \<and> n \<le> 57 then Some (n - 48) else if 97 \<le> n \<and> n \<le> 102 then Some (n - 87)
     else if 65 \<le> n \<and> n \<le> 70 then Some (n - 55) else None)"

fun hex_number :: "nat \<Rightarrow> string \<Rightarrow> nat option" where
  "hex_number n [] = Some n"
| "hex_number n (c # s) = (case hex_val c of None \<Rightarrow> None | Some d \<Rightarrow> hex_number (16 * n + d) s)"

definition unescape :: "char \<Rightarrow> char option" where
  "unescape c = map_of [(CHR 0x22, CHR 0x22), (CHR 0x5C, CHR 0x5C), (CHR ''/'', CHR ''/''), (CHR ''b'', CHR 0x08),
     (CHR ''f'', CHR 0x0C), (CHR ''n'', CHR 0x0A), (CHR ''r'', CHR 0x0D), (CHR ''t'', CHR 0x09)] c"

text \<open>The rest of a string after its opening quote.\<close>

function read_chars :: "string \<Rightarrow> (string \<times> string) option" where
  "read_chars s = (case s of [] \<Rightarrow> None | c # t \<Rightarrow>
     if c = CHR 0x22 then Some ([], t)
     else if c = CHR 0x5C then
       (case t of [] \<Rightarrow> None | d # u \<Rightarrow>
          if d = CHR ''u'' then
            (if length u < 4 then None else
             case hex_number 0 (take 4 u) of None \<Rightarrow> None
             | Some n \<Rightarrow> if n < 256 then map_option (apfst (Cons (char_of n))) (read_chars (drop 4 u)) else None)
          else (case unescape d of None \<Rightarrow> None | Some e \<Rightarrow> map_option (apfst (Cons e)) (read_chars u)))
     else if (of_char c :: nat) < 32 then None
     else map_option (apfst (Cons c)) (read_chars t))"
  by pat_completeness auto
termination by (relation "measure length") auto

declare read_chars.simps [simp del]

text \<open>A number: the longest text of an integer part, a fraction and an exponent.\<close>

definition exp_part :: "string \<Rightarrow> string" where
  "exp_part r = (case r of [] \<Rightarrow> [] | c # t \<Rightarrow>
     if c = CHR ''e'' \<or> c = CHR ''E'' then
       (let sg = (case t of [] \<Rightarrow> [] | d # _ \<Rightarrow> if d = CHR ''+'' \<or> d = CHR ''-'' then [d] else []);
            ds = takeWhile is_digit (drop (length sg) t)
        in if ds = [] then [] else c # sg @ ds)
     else [])"

definition frac_part :: "string \<Rightarrow> string" where
  "frac_part r = (case r of [] \<Rightarrow> [] | c # t \<Rightarrow> if c = CHR ''.'' then takeWhile is_digit t else [])"

definition int_part :: "string \<Rightarrow> string" where
  "int_part s = (case s of [] \<Rightarrow> [] | c # t \<Rightarrow> if c = CHR ''0'' then ''0'' else takeWhile is_digit s)"

definition read_unsigned :: "string \<Rightarrow> string \<Rightarrow> (pyval \<times> string) option" where
  "read_unsigned sg s =
     (let ip = int_part s; r1 = drop (length ip) s;
          fp = frac_part r1; r2 = (if fp = [] then r1 else drop (Suc (length fp)) r1);
          ep = exp_part r2; r3 = drop (length ep) r2
      in if ip = [] then None
         else if fp = [] \<and> ep = [] then map_option (\<lambda>n. (PInt n, r3)) (parse_int (sg @ ip))
         else map_option (\<lambda>f. (PFloat f, r3)) (parse_float (sg @ float_text ip fp ep)))"

definition read_number :: "string \<Rightarrow> (pyval \<times> string) option" where
  "read_number s = (case s of [] \<Rightarrow> None | c # t \<Rightarrow> if c = CHR ''-'' then read_unsigned ''-'' t else read_unsigned [] s)"

text \<open>The words, tried where no number is read.\<close>

definition words :: "(string \<times> pyval) list" where
  "words = [(''null'', PNone), (''true'', PBool True), (''false'', PBool False),
     (''NaN'', PFloat NaN), (''Infinity'', PFloat PInf), (''-Infinity'', PFloat NInf)]"

definition read_atom :: "string \<Rightarrow> (pyval \<times> string) option" where
  "read_atom s = (case read_number s of Some x \<Rightarrow> Some x
     | None \<Rightarrow> (case find (\<lambda>(w, _). startswith s w) words of None \<Rightarrow> None
         | Some (w, v) \<Rightarrow> Some (v, drop (length w) s)))"

text \<open>Values, the items of an array from its first one on, the members of an object. The first
  argument bounds the number of calls; \<open>json_loads\<close> gives twice the length of the text.\<close>

fun read_value :: "nat \<Rightarrow> string \<Rightarrow> (pyval \<times> string) option"
  and read_items :: "nat \<Rightarrow> pyval list \<Rightarrow> string \<Rightarrow> (pyval \<times> string) option"
  and read_members :: "nat \<Rightarrow> (string, pyval) dict \<Rightarrow> string \<Rightarrow> (pyval \<times> string) option" where
  "read_value 0 s = None"
| "read_value (Suc n) s = (case s of [] \<Rightarrow> None | c # t \<Rightarrow>
     if c = CHR 0x22 then map_option (apfst PStr) (read_chars t)
     else if c = CHR ''['' then
       (let u = skip_ws t in if u \<noteq> [] \<and> hd u = CHR '']'' then Some (PList [], tl u) else read_items n [] u)
     else if c = CHR ''{'' then
       (let u = skip_ws t in if u \<noteq> [] \<and> hd u = CHR ''}'' then Some (PDict [], tl u) else read_members n [] u)
     else read_atom s)"
| "read_items 0 acc s = None"
| "read_items (Suc n) acc s = (case read_value n s of None \<Rightarrow> None | Some (v, r) \<Rightarrow>
     (case skip_ws r of [] \<Rightarrow> None | c # u \<Rightarrow>
        if c = CHR '']'' then Some (PList (acc @ [v]), u)
        else if c = CHR '','' then read_items n (acc @ [v]) (skip_ws u) else None))"
| "read_members 0 acc s = None"
| "read_members (Suc n) acc s = (if s = [] \<or> hd s \<noteq> CHR 0x22 then None else
     (case read_chars (tl s) of None \<Rightarrow> None | Some (key, r) \<Rightarrow>
        (case skip_ws r of [] \<Rightarrow> None | c # u \<Rightarrow> if c \<noteq> CHR '':'' then None else
           (case read_value n (skip_ws u) of None \<Rightarrow> None | Some (v, r') \<Rightarrow>
              (case skip_ws r' of [] \<Rightarrow> None | c' # u' \<Rightarrow>
                 if c' = CHR ''}'' then Some (PDict (dset key v acc), u')
                 else if c' = CHR '','' then read_members n (dset key v acc) (skip_ws u') else None)))))"

definition json_loads :: "string \<Rightarrow> pyval res" where
  "json_loads s = (case read_value (Suc (2 * length s)) (skip_ws s) of
     None \<Rightarrow> Inl (PyValueError ''json'')
   | Some (v, r) \<Rightarrow> if skip_ws r = [] then Inr v else Inl (PyValueError ''json''))"

section \<open>Strings and numbers read back\<close>

lemma hex_digit_val: "d < 16 \<Longrightarrow> hex_val (hex_digit d) = Some d"
  by (auto simp: hex_digit_def hex_val_def Let_def of_char_of)

lemma hex4_read: "n < 256 \<Longrightarrow> hex_number 0 (json_hex4 n) = Some n"
proof -
  assume n: "n < 256"
  have z: "hex_val CHR ''0'' = Some 0" by (simp add: hex_val_def)
  have "n div 16 < 16" "n mod 16 < 16" using n by auto
  from hex_digit_val[OF this(1)] hex_digit_val[OF this(2)] show ?thesis by (simp add: json_hex4_def hex2_def z)
qed

lemma read_escape:
  "unescape d = Some e \<Longrightarrow> read_chars (CHR 0x5C # d # t) = map_option (apfst (Cons e)) (read_chars t)"
  by (subst read_chars.simps) (auto simp: unescape_def split: if_splits)

lemma read_hex_escape:
  assumes "n < 256"
  shows "read_chars (CHR 0x5C # CHR ''u'' # json_hex4 n @ t) = map_option (apfst (Cons (char_of n))) (read_chars t)"
proof -
  have "length (json_hex4 n) = 4" by (simp add: json_hex4_def hex2_def)
  then show ?thesis using assms by (subst read_chars.simps) (simp add: hex4_read)
qed

lemma read_plain: "c \<noteq> CHR 0x22 \<Longrightarrow> c \<noteq> CHR 0x5C \<Longrightarrow> \<not> (of_char c :: nat) < 32 \<Longrightarrow>
    read_chars (c # t) = map_option (apfst (Cons c)) (read_chars t)"
  by (subst read_chars.simps) simp

lemma read_json_char: "read_chars (json_char a c @ t) = map_option (apfst (Cons c)) (read_chars t)"
  using read_hex_escape[of "of_char c" t]
  by (auto simp: json_char_def unescape_def read_plain read_escape[of _ c] read_escape[of "CHR ''n''"] read_escape[of "CHR ''r''"]
      read_escape[of "CHR ''t''"] read_escape[of "CHR ''b''"] read_escape[of "CHR ''f''"])

lemma read_json_chars: "read_chars (concat (map (json_char a) s) @ CHR 0x22 # r) = Some (s, r)"
  by (induction s) (simp_all add: read_json_char read_chars.simps[of "CHR 0x22 # r"])

text \<open>A number ends where no character continues it.\<close>

definition stops :: "string \<Rightarrow> bool" where
  "stops r = (r = [] \<or> \<not> is_digit (hd r) \<and> hd r \<noteq> CHR ''.'' \<and> hd r \<noteq> CHR ''e'' \<and> hd r \<noteq> CHR ''E'')"

lemma int_part_read:
  assumes "int_text ip" "r = [] \<or> \<not> is_digit (hd r)" shows "int_part (ip @ r) = ip"
proof (cases "hd ip = CHR ''0''")
  case True
  with assms(1) have "ip = ''0''" by (cases ip) (auto simp: int_text_def)
  then show ?thesis by (simp add: int_part_def)
next
  case False
  with assms show ?thesis using takeWhile_digits[of ip r] by (cases ip) (auto simp: int_text_def int_part_def)
qed

lemma exp_part_read:
  assumes "exp_text ep k" "stops r" shows "exp_part (ep @ r) = ep"
proof (cases "ep = []")
  case True
  then show ?thesis using assms(2) by (cases r) (auto simp: exp_part_def stops_def)
next
  case False
  then obtain neg ds where ep: "ep = CHR ''e'' # (if neg then CHR ''-'' else CHR ''+'') # ds" "ds \<noteq> []" "list_all is_digit ds"
    using assms(1) by (auto simp: exp_text_def)
  have "takeWhile is_digit (ds @ r) = ds" using takeWhile_digits[OF ep(3), of r] assms(2) by (auto simp: stops_def)
  then show ?thesis using ep by (simp add: exp_part_def Let_def)
qed

lemma frac_part_read:
  assumes "list_all is_digit fp" "r = [] \<or> \<not> is_digit (hd r) \<and> hd r \<noteq> CHR ''.''"
  shows "frac_part ((if fp = [] then [] else CHR ''.'' # fp) @ r) = fp"
  using takeWhile_digits[OF assms(1), of r] assms(2) by (cases r) (auto simp: frac_part_def)

lemma read_unsigned_eq:
  assumes "int_part t = ip" "drop (length ip) t = r1" "frac_part r1 = fp"
    "(if fp = [] then r1 else drop (Suc (length fp)) r1) = r2" "exp_part r2 = ep" "drop (length ep) r2 = r3"
  shows "read_unsigned sg t = (if ip = [] then None
     else if fp = [] \<and> ep = [] then map_option (\<lambda>n. (PInt n, r3)) (parse_int (sg @ ip))
     else map_option (\<lambda>f. (PFloat f, r3)) (parse_float (sg @ float_text ip fp ep)))"
  using assms by (simp only: read_unsigned_def Let_def)

lemma read_float_text:
  assumes "denotes ip fp ep v" "sg \<in> {[], ''-''}" "stops r"
  shows "read_unsigned sg (float_text ip fp ep @ r) = Some (PFloat (f64_of_rat (if sg = [] then v else - v)), r)"
proof -
  obtain k where k: "exp_text ep k" and i: "int_text ip" "list_all is_digit fp" "fp \<noteq> [] \<or> ep \<noteq> []"
    using assms(1) by (auto simp: denotes_def)
  let ?r1 = "(if fp = [] then [] else CHR ''.'' # fp) @ ep @ r"
  have e: "ep @ r = [] \<or> \<not> is_digit (hd (ep @ r)) \<and> hd (ep @ r) \<noteq> CHR ''.''"
    using exp_text_hd[OF k] assms(3) by (cases ep) (auto simp: stops_def is_digit_def)
  then have r1: "?r1 = [] \<or> \<not> is_digit (hd ?r1)" by (auto simp: is_digit_def)
  have "int_part (float_text ip fp ep @ r) = ip" using int_part_read[OF i(1) r1] by (simp add: float_text_def)
  moreover have "drop (length ip) (float_text ip fp ep @ r) = ?r1" by (simp add: float_text_def)
  moreover have "frac_part ?r1 = fp" by (rule frac_part_read[OF i(2) e])
  moreover have "(if fp = [] then ?r1 else drop (Suc (length fp)) ?r1) = ep @ r" by simp
  moreover have "exp_part (ep @ r) = ep" by (rule exp_part_read[OF k assms(3)])
  ultimately have "read_unsigned sg (float_text ip fp ep @ r) = (if ip = [] then None
     else if fp = [] \<and> ep = [] then map_option (\<lambda>n. (PInt n, r)) (parse_int (sg @ ip))
     else map_option (\<lambda>f. (PFloat f, r)) (parse_float (sg @ float_text ip fp ep)))"
    by (rule read_unsigned_eq) simp
  moreover have "ip \<noteq> []" using i(1) by (simp add: int_text_def)
  ultimately show ?thesis using parse_unsigned[OF assms(1,2)] i(3) by simp
qed

lemma read_int_text:
  assumes "int_text ip" "stops r" "parse_int (sg @ ip) = Some n"
  shows "read_unsigned sg (ip @ r) = Some (PInt n, r)"
proof -
  have "int_part (ip @ r) = ip" by (rule int_part_read[OF assms(1)]) (use assms(2) in \<open>auto simp: stops_def\<close>)
  moreover have "frac_part r = []" "exp_part r = []" using assms(2) by (cases r; auto simp: stops_def frac_part_def exp_part_def)+
  ultimately show ?thesis using assms(1,3) by (simp add: read_unsigned_def Let_def int_text_def)
qed

lemma int_text_hd: "int_text ip \<Longrightarrow> ip \<noteq> [] \<and> hd ip \<noteq> CHR ''-''"
  by (cases ip) (auto simp: int_text_def dest: digit_simps)

lemma read_dec_int: "stops r \<Longrightarrow> read_number (dec_int n @ r) = Some (PInt n, r)"
proof -
  assume r: "stops r"
  show ?thesis
  proof (cases "n < 0")
    case True
    then have "dec_int n = CHR ''-'' # dec_nat (nat (- n))" by (simp add: dec_int_def)
    then show ?thesis using read_int_text[OF int_text_dec_nat r, of "''-''" "nat (- n)" n] int_of_dec[of n] by (simp add: read_number_def)
  next
    case False
    then have d: "dec_int n = dec_nat (nat n)" by (simp add: dec_int_def)
    obtain c t where "dec_nat (nat n) = c # t" "c \<noteq> CHR ''-''" using int_text_hd[OF int_text_dec_nat, of "nat n"] by (cases "dec_nat (nat n)") auto
    then have "read_number (dec_nat (nat n) @ r) = read_unsigned [] (dec_nat (nat n) @ r)" by (simp add: read_number_def)
    then show ?thesis using read_int_text[OF int_text_dec_nat r, of "[]" "nat n" n] int_of_dec[of n] d by simp
  qed
qed

lemma read_repr_float: assumes "is_f64 (Fin x)" "stops r" shows "read_number (repr_float (Fin x) @ r) = Some (PFloat (Fin x), r)"
proof -
  obtain sg ip fp ep v where l: "repr_float (Fin x) = sg @ float_text ip fp ep" "sg \<in> {[], ''-''}" "denotes ip fp ep v"
    "f64_of_rat (if sg = [] then v else - v) = Fin x" using repr_float_layout[OF assms(1)] .
  obtain c t where "float_text ip fp ep = c # t" "c \<noteq> CHR ''-''"
    using l(3) int_text_hd[of ip] by (cases ip) (auto simp: denotes_def float_text_def)
  then have "read_number (sg @ float_text ip fp ep @ r) = read_unsigned sg (float_text ip fp ep @ r)"
    using l(2) by (auto simp: read_number_def)
  then show ?thesis using read_float_text[OF l(3,2) assms(2)] l(1,4) by simp
qed

section \<open>Values read back\<close>

text \<open>The values that come back as they are: floats of the format, and no key twice in a dict.\<close>

fun json_ok :: "pyval \<Rightarrow> bool" where
  "json_ok (PFloat f) = is_f64 f"
| "json_ok (PList xs) = (\<forall>x\<in>set xs. json_ok x)"
| "json_ok (PDict d) = (dict_ok d \<and> (\<forall>(k, x)\<in>set d. json_ok x))"
| "json_ok PNone = True"
| "json_ok (PBool b) = True"
| "json_ok (PInt n) = True"
| "json_ok (PStr s) = True"

lemma read_word: "(w, v) \<in> set words \<Longrightarrow> read_atom (w @ r) = Some (v, r)"
  by (auto simp: words_def read_atom_def read_number_def read_unsigned_def Let_def int_part_def startswith_def is_digit_def)

lemma read_number_atom: "read_number s = Some x \<Longrightarrow> read_atom s = Some x"
  by (simp add: read_atom_def)

lemma read_float_atom: "is_f64 f \<Longrightarrow> stops r \<Longrightarrow> read_atom (json_float f @ r) = Some (PFloat f, r)"
proof (cases f)
  case (Fin x)
  moreover assume "is_f64 f" "stops r"
  ultimately show ?thesis using read_number_atom[OF read_repr_float[of x r]] by (simp add: json_float_def)
qed (use read_word[of "json_float f" "PFloat f" r] in \<open>simp_all add: json_float_def words_def\<close>)

text \<open>Where a text of a value starts.\<close>

definition starts :: "string \<Rightarrow> bool" where
  "starts s = (s \<noteq> [] \<and> \<not> is_ws (hd s) \<and> hd s \<noteq> CHR '']'' \<and> hd s \<noteq> CHR ''}'')"

definition atomic :: "string \<Rightarrow> bool" where
  "atomic s = (starts s \<and> hd s \<noteq> CHR 0x22 \<and> hd s \<noteq> CHR ''['' \<and> hd s \<noteq> CHR ''{'')"

lemma atomic_digit: "is_digit c \<Longrightarrow> atomic (c # s)"
  by (auto simp: atomic_def starts_def is_ws_def is_digit_def)

lemma atomic_dec_nat: "atomic (dec_nat n @ s)"
  using dec_nat_digits[of n] atomic_digit by (cases "dec_nat n") auto

lemma atomic_float: "is_f64 f \<Longrightarrow> atomic (json_float f)"
proof (cases f)
  case (Fin x)
  assume "is_f64 f"
  with Fin obtain sg ip fp ep v where l: "repr_float (Fin x) = sg @ float_text ip fp ep" "sg \<in> {[], ''-''}" "denotes ip fp ep v"
    using repr_float_layout[of x] by metis
  have "int_text ip" using l(3) by (simp only: denotes_def)
  then obtain c t where "ip = c # t" "is_digit c" by (cases ip) (auto simp: int_text_def)
  then have "atomic (float_text ip fp ep)" by (simp add: float_text_def atomic_digit)
  moreover have "atomic (''-'' @ s)" for s by (simp add: atomic_def starts_def is_ws_def)
  ultimately have "atomic (repr_float (Fin x))" unfolding l(1) using l(2) by fastforce
  then show ?thesis using Fin by (simp add: json_float_def)
qed (simp_all add: json_float_def atomic_def starts_def is_ws_def)

lemma atomic_text: "json_ok v \<Longrightarrow> is_atom v \<Longrightarrow> atomic (json_text a i k v)"
  using atomic_dec_nat[of _ "[]"] atomic_float
  by (cases v) (auto simp: is_atom_def dec_int_def atomic_def starts_def is_ws_def)

lemma starts_text: "json_ok v \<Longrightarrow> starts (json_text a i k v)"
  using atomic_text[of v a i k]
  by (cases v) (auto simp: is_atom_def json_str_def starts_def atomic_def is_ws_def)

lemma starts_append: "starts s \<Longrightarrow> starts (s @ t)"
  by (auto simp: starts_def)

lemma skip_starts: "list_all is_ws w \<Longrightarrow> starts s \<Longrightarrow> skip_ws (w @ s) = s"
  by (cases s) (auto simp: skip_ws_def starts_def list_all_iff dropWhile_append)

lemma skip_mark: "\<not> is_ws c \<Longrightarrow> skip_ws (c # s) = c # s"
  by (simp add: skip_ws_def)

lemma marks [simp]: "\<not> is_ws CHR '',''" "\<not> is_ws CHR '':''" "\<not> is_ws CHR '']''" "\<not> is_ws CHR ''}''"
  by (simp_all add: is_ws_def)

lemma read_atom_value: "atomic s \<Longrightarrow> read_value (Suc n) (s @ r) = read_atom (s @ r)"
  by (cases s) (auto simp: atomic_def starts_def)

lemma atom_value: "json_ok v \<Longrightarrow> is_atom v \<Longrightarrow> stops r \<Longrightarrow> read_value (Suc n) (json_text a i k v @ r) = Some (v, r)"
proof -
  assume v: "json_ok v" "is_atom v" and r: "stops r"
  have "read_atom (json_text a i k v @ r) = Some (v, r)"
  proof (cases v)
    case (PInt n) then show ?thesis using read_number_atom[OF read_dec_int[OF r]] by simp
  next
    case (PFloat f) then show ?thesis using v r by (simp add: read_float_atom)
  next
    case (PBool b) then show ?thesis using read_word[of "''true''" "PBool True"] read_word[of "''false''" "PBool False"] by (simp add: words_def)
  next
    case PNone then show ?thesis using read_word[of "''null''" PNone] by (simp add: words_def)
  qed (use v in \<open>simp_all add: is_atom_def\<close>)
  then show ?thesis using read_atom_value[OF atomic_text[OF v]] by metis
qed

text \<open>\<open>reads n v s\<close>: whatever follows, the text \<open>s\<close> is read as \<open>v\<close> with more than \<open>n\<close> calls.\<close>

definition reads :: "pyval \<Rightarrow> string \<Rightarrow> bool" where
  "reads v s = (starts s \<and> (\<forall>n r. size v < n \<longrightarrow> stops r \<longrightarrow> read_value n (s @ r) = Some (v, r)))"

lemma stops_mark [simp]: "stops (CHR '','' # r)" "stops (CHR '']'' # r)" "stops (CHR ''}'' # r)"
  by (simp_all add: stops_def is_digit_def)

lemma join_Cons: "xs \<noteq> [] \<Longrightarrow> join i (x # xs) = x @ i @ join i xs"
  by (cases xs) simp_all

lemma starts_join: "xs \<noteq> [] \<Longrightarrow> starts (f (hd xs)) \<Longrightarrow> starts (join i (map f xs) @ t)"
  by (cases xs; cases "tl xs") (auto simp: starts_append)

lemma read_items_text:
  assumes "list_all is_ws w" "\<forall>x\<in>set xs. reads x (f x)" "xs \<noteq> []" "size_list size xs < n"
  shows "read_items n acc (join (CHR '','' # w) (map f xs) @ CHR '']'' # r) = Some (PList (acc @ xs), r)"
  using assms(2-4)
proof (induction xs arbitrary: n acc)
  case (Cons x xs)
  obtain m where n: "n = Suc m" using Cons.prems(3) by (cases n) auto
  have x: "size x < m \<Longrightarrow> stops t \<Longrightarrow> read_value m (f x @ t) = Some (x, t)" for t
    using Cons.prems(1) by (simp add: reads_def)
  have size_x: "size x < m" using Cons.prems(3) n by simp
  show ?case
  proof (cases "xs = []")
    case True
    then show ?thesis using x[OF size_x] by (simp add: n skip_mark)
  next
    case False
    let ?t = "join (CHR '','' # w) (map f xs) @ CHR '']'' # r"
    have "starts ?t" using starts_join[OF False, of f] Cons.prems(1) False by (simp add: reads_def)
    then have "skip_ws (w @ ?t) = ?t" by (rule skip_starts[OF assms(1)])
    moreover have "read_items m (acc @ [x]) ?t = Some (PList ((acc @ [x]) @ xs), r)"
      using Cons.prems False n by (intro Cons.IH) auto
    ultimately show ?thesis using x[OF size_x] False by (simp add: n join_Cons skip_mark)
  qed
qed simp

lemma atom_reads: "json_ok v \<Longrightarrow> is_atom v \<Longrightarrow> reads v (json_text a i k v)"
  unfolding reads_def by (metis atom_value gr0_conv_Suc starts_text zero_less_iff_neq_zero not_less_zero)

abbreviation member_text :: "bool \<Rightarrow> string \<Rightarrow> (pyval \<Rightarrow> string) \<Rightarrow> string \<times> pyval \<Rightarrow> string" where
  "member_text a k f \<equiv> (\<lambda>(x, y). json_str a x @ k @ f y)"

lemma read_key: "hd (json_str a x @ t) = CHR 0x22" "json_str a x @ t \<noteq> []" "read_chars (tl (json_str a x @ t)) = Some (x, t)"
  "starts (json_str a x @ t)"
  using read_json_chars[of a x t] by (simp_all add: json_str_def starts_def is_ws_def)

lemma read_members_text:
  assumes "list_all is_ws w" "list_all is_ws w'" "\<forall>(x, y)\<in>set d. reads y (f y)" "d \<noteq> []"
    "size_list (size_prod (\<lambda>_. 0) size) d < n" "distinct (map fst (acc @ d))"
  shows "read_members n acc (join (CHR '','' # w) (map (member_text a (CHR '':'' # w') f) d) @ CHR ''}'' # r) = Some (PDict (acc @ d), r)"
  using assms(3-6)
proof (induction d arbitrary: n acc)
  case (Cons p d)
  obtain x y where p: "p = (x, y)" by fastforce
  obtain m where n: "n = Suc m" using Cons.prems(3) by (cases n) auto
  have y: "read_value m (f y @ t) = Some (y, t)" if "stops t" for t
    using Cons.prems(1,3) that n by (simp add: reads_def p)
  have ws: "skip_ws (w' @ f y @ t) = f y @ t" for t
    using Cons.prems(1) by (intro skip_starts[OF assms(2)] starts_append) (simp add: reads_def p)
  have new: "dset x y acc = acc @ [(x, y)]"
    using Cons.prems(4) by (intro dset_new) (auto simp: p map_of_eq_None_iff)
  show ?case
  proof (cases "d = []")
    case True
    then show ?thesis using y by (simp add: n p read_key skip_mark ws new)
  next
    case False
    let ?t = "join (CHR '','' # w) (map (member_text a (CHR '':'' # w') f) d) @ CHR ''}'' # r"
    have "starts ?t" using starts_join[OF False, of "member_text a (CHR '':'' # w') f"] read_key(4)
      by (simp add: case_prod_beta)
    then have "skip_ws (w @ ?t) = ?t" by (rule skip_starts[OF assms(1)])
    moreover have "read_members m (acc @ [(x, y)]) ?t = Some (PDict ((acc @ [(x, y)]) @ d), r)"
      using Cons.prems False n p by (intro Cons.IH) auto
    ultimately show ?thesis using y False by (simp add: n p read_key join_Cons skip_mark ws new)
  qed
qed simp

theorem text_reads:
  assumes "list_all is_ws w" "list_all is_ws w'"
  shows "json_ok v \<Longrightarrow> reads v (json_text a (CHR '','' # w) (CHR '':'' # w') v)"
proof (induction v)
  case (PStr s)
  have "read_value n (json_str a s @ r) = Some (PStr s, r)" if "0 < n" for n r
    using that read_json_chars[of a s r] by (cases n) (simp_all add: json_str_def)
  then show ?case using starts_text[OF PStr] by (simp add: reads_def)
next
  case (PList xs)
  let ?f = "json_text a (CHR '','' # w) (CHR '':'' # w')"
  have xs: "\<forall>x\<in>set xs. reads x (?f x)" using PList by simp
  have "read_value n (?f (PList xs) @ r) = Some (PList xs, r)" if n: "size (PList xs) < n" for n r
  proof (cases n)
    case (Suc m)
    show ?thesis
    proof (cases "xs = []")
      case True
      then show ?thesis by (simp add: Suc skip_mark)
    next
      case False
      let ?t = "join (CHR '','' # w) (map ?f xs) @ CHR '']'' # r"
      have s: "starts ?t" using starts_join[OF False, of ?f] xs False by (simp add: reads_def)
      then have "skip_ws ?t = ?t" using skip_starts[of "[]"] by simp
      moreover have "read_items m [] ?t = Some (PList ([] @ xs), r)"
        by (rule read_items_text[OF assms(1) xs False]) (use n Suc in simp)
      ultimately show ?thesis using s by (simp add: Suc starts_def)
    qed
  qed (use n in simp)
  then show ?case using starts_text[OF PList.prems] by (simp add: reads_def)
next
  case (PDict d)
  let ?f = "json_text a (CHR '','' # w) (CHR '':'' # w')"
  have d: "\<forall>(x, y)\<in>set d. reads y (?f y)" using PDict by (fastforce simp: dict_ok_def)
  have "read_value n (?f (PDict d) @ r) = Some (PDict d, r)" if n: "size (PDict d) < n" for n r
  proof (cases n)
    case (Suc m)
    show ?thesis
    proof (cases "d = []")
      case True
      then show ?thesis by (simp add: Suc skip_mark)
    next
      case False
      let ?t = "join (CHR '','' # w) (map (member_text a (CHR '':'' # w') ?f) d) @ CHR ''}'' # r"
      have s: "starts ?t" using starts_join[OF False, of "member_text a (CHR '':'' # w') ?f"] read_key(4) by (simp add: case_prod_beta)
      then have "skip_ws ?t = ?t" using skip_starts[of "[]"] by simp
      moreover have "read_members m [] ?t = Some (PDict ([] @ d), r)"
        by (rule read_members_text[OF assms d False]) (use n Suc PDict.prems in \<open>auto simp: dict_ok_def\<close>)
      ultimately show ?thesis using s by (simp add: Suc starts_def)
    qed
  qed (use n in simp)
  then show ?case using starts_text[OF PDict.prems, of a "CHR '','' # w" "CHR '':'' # w'"] unfolding reads_def by blast
qed (rule atom_reads; simp add: is_atom_def)+

text \<open>The bound on the calls is never reached.\<close>

lemma size_join: "(\<And>x. x \<in> set xs \<Longrightarrow> g x < 2 * length (f x)) \<Longrightarrow> xs \<noteq> [] \<Longrightarrow>
    size_list g xs < 2 * length (join (c # w) (map f xs)) + 1"
proof (induction xs)
  case (Cons x xs)
  show ?case
  proof (cases "xs = []")
    case True
    then show ?thesis using Cons.prems(1)[of x] by simp
  next
    case False
    then have "size_list g xs < 2 * length (join (c # w) (map f xs)) + 1" using Cons by simp
    then show ?thesis using Cons.prems(1)[of x] False by (simp add: join_Cons)
  qed
qed simp

lemma text_size: "size v < 2 * length (json_text a (CHR '','' # w) (CHR '':'' # w') v)"
proof (induction v)
  case (PList xs)
  then show ?case using size_join[of xs size "json_text a (CHR '','' # w) (CHR '':'' # w')" "CHR '',''" w] by (cases "xs = []") auto
next
  case (PDict d)
  let ?f = "json_text a (CHR '','' # w) (CHR '':'' # w')"
  have "size_prod (\<lambda>_. 0) size p < 2 * length (member_text a (CHR '':'' # w') ?f p)" if "p \<in> set d" for p
    using PDict[of p "snd p"] that by (cases p) (auto simp: json_str_def)
  then show ?case using size_join[of d "size_prod (\<lambda>_. 0) size" "member_text a (CHR '':'' # w') ?f" "CHR '',''" w] by (cases "d = []") auto
qed (use dec_nat_nonempty in \<open>auto simp: json_str_def dec_int_def json_float_atom\<close>)

text \<open>\<^verbatim>\<open>json.loads(json.dumps(v)) == v\<close>, with any white space in the separators.\<close>

theorem loads_of_text:
  assumes "list_all is_ws w" "list_all is_ws w'" "json_ok v"
  shows "json_loads (json_text a (CHR '','' # w) (CHR '':'' # w') v) = Inr v"
proof -
  let ?t = "json_text a (CHR '','' # w) (CHR '':'' # w') v"
  have r: "reads v ?t" by (rule text_reads[OF assms])
  then have "skip_ws ?t = ?t" using skip_starts[of "[]" ?t] by (simp add: reads_def)
  moreover have "read_value (Suc (2 * length ?t)) (?t @ []) = Some (v, [])"
  proof -
    have "stops []" "size v < Suc (2 * length ?t)" using text_size[of v a w w'] by (simp_all add: stops_def)
    then show ?thesis using r unfolding reads_def by blast
  qed
  moreover have "skip_ws [] = []" by (simp add: skip_ws_def)
  ultimately show ?thesis by (simp add: json_loads_def)
qed

text \<open>\<^verbatim>\<open>json.dumps(v)\<close> and \<^verbatim>\<open>json.dumps(v, ensure_ascii=False)\<close>.\<close>

definition dumps :: "bool \<Rightarrow> pyval \<Rightarrow> string" where
  "dumps ascii v = json_text ascii '', '' '': '' v"

lemma loads_dumps: "json_ok v \<Longrightarrow> json_loads (dumps a v) = Inr v"
  unfolding dumps_def by (rule loads_of_text) (simp_all add: is_ws_def)

end
