(* ===== verification/Runs.thy ===== *)
theory Runs
  imports Context Py_Json_Load
begin

text \<open>
  The run registry, \<^verbatim>\<open>reference/gateway/runs.py\<close>, with the fallback recorder of a run
  (\<^verbatim>\<open>fallback.py\<close>) and the registry that keeps its runs in files (\<^verbatim>\<open>persistence.py\<close>). A run record is
  one object the registry and its callers share; the model keeps it in the registry alone. A
  directory is a dict from file names to texts.
\<close>

section \<open>Fallbacks\<close>

record fallbacks =
  fb_provider :: "pyval list"
  fb_semantic :: "pyval list"
  fb_capability :: "pyval list"
  fb_other :: "pyval list"

definition no_fallbacks :: fallbacks where
  "no_fallbacks = \<lparr>fb_provider = [], fb_semantic = [], fb_capability = [], fb_other = []\<rparr>"

definition fallback_event :: "string \<Rightarrow> string \<Rightarrow> pyval \<Rightarrow> pyval \<Rightarrow> string \<Rightarrow> pyval" where
  "fallback_event now cls source target reason =
     (let keys = (if cls = ''provider_fallback'' then (''from_provider'', ''to_provider'') else (''from_model'', ''to_model'')) in
      PDict [(''fallback_class'', PStr cls), (''from_id'', source), (''to_id'', target), (''reason'', PStr reason),
        (''timestamp'', PStr now), (fst keys, source), (snd keys, target)])"

definition record_fallback :: "string \<Rightarrow> fallbacks \<Rightarrow> string \<Rightarrow> pyval \<Rightarrow> pyval \<Rightarrow> string \<Rightarrow> fallbacks \<times> pyval" where
  "record_fallback now f cls source target reason =
     (let event = fallback_event now cls source target reason in
      (if cls = ''provider_fallback'' then f\<lparr>fb_provider := fb_provider f @ [event]\<rparr>
       else if cls = ''semantic_fallback'' then f\<lparr>fb_semantic := fb_semantic f @ [event]\<rparr>
       else if cls = ''capability_fallback'' then f\<lparr>fb_capability := fb_capability f @ [event]\<rparr>
       else f\<lparr>fb_other := fb_other f @ [event]\<rparr>, event))"

definition get_fallback_summary :: "fallbacks \<Rightarrow> pyval" where
  "get_fallback_summary f =
     PDict [(''provider_fallback_count'', PInt (int (length (fb_provider f)))),
       (''semantic_fallback_count'', PInt (int (length (fb_semantic f))))]"

section \<open>Runs\<close>

record run_record =
  rr_run_id :: string
  rr_trace_id :: string
  rr_tenant_id :: string
  rr_task_id :: pyval
  rr_contract :: pyval
  rr_decision :: pyval
  rr_request :: pyval
  rr_response :: pyval
  rr_events :: pyval
  rr_receipt :: pyval
  rr_epistemic_state :: "es_state option"
  rr_canonical_state :: "canonical_state option"
  rr_context_package :: pyval
  rr_fallbacks :: fallbacks
  rr_canary :: bool
  rr_policy_version :: pyval
  rr_total_tokens :: int
  rr_prompt_tokens :: int
  rr_completion_tokens :: int
  rr_actual_cost_usd :: f64
  rr_latency_ms :: f64
  rr_original_prompt_tokens :: int
  rr_human_intervention :: bool
  rr_rework :: bool
  rr_human_reason :: "string option"
  rr_rework_reason :: "string option"
  rr_decision_trace :: pyval
  rr_epistemic_ledger :: "pyval list option"

text \<open>\<^verbatim>\<open>RunRecord(run_id=..., trace_id=...)\<close>: every other field at its default.\<close>

definition blank_record :: "string \<Rightarrow> string \<Rightarrow> run_record" where
  "blank_record run trace =
     \<lparr>rr_run_id = run, rr_trace_id = trace, rr_tenant_id = ''default'', rr_task_id = PNone, rr_contract = PNone,
      rr_decision = PNone, rr_request = PNone, rr_response = PNone, rr_events = PList [], rr_receipt = PNone,
      rr_epistemic_state = None, rr_canonical_state = None, rr_context_package = PNone, rr_fallbacks = no_fallbacks,
      rr_canary = False, rr_policy_version = PNone, rr_total_tokens = 0, rr_prompt_tokens = 0, rr_completion_tokens = 0,
      rr_actual_cost_usd = Fin 0, rr_latency_ms = Fin 0, rr_original_prompt_tokens = 0, rr_human_intervention = False,
      rr_rework = False, rr_human_reason = None, rr_rework_reason = None, rr_decision_trace = PList [], rr_epistemic_ledger = None\<rparr>"

record run_registry =
  rg_runs :: "(string, run_record) dict"
  rg_max :: int

definition new_registry :: "int \<Rightarrow> run_registry res" where
  "new_registry max_runs =
     (if max_runs < 1 then Inl (PyValueError ''max_runs must be at least 1'') else Inr \<lparr>rg_runs = [], rg_max = max_runs\<rparr>)"

text \<open>The eviction loop: the first key of the dict goes while there are too many.\<close>

function trim_runs :: "int \<Rightarrow> (string, run_record) dict \<Rightarrow> (string, run_record) dict" where
  "trim_runs n runs = (if n < int (length runs) \<and> runs \<noteq> [] then trim_runs n (tl runs) else runs)"
  by pat_completeness auto
termination by (relation "measure (length \<circ> snd)") auto

declare trim_runs.simps [simp del]

definition trim :: "run_registry \<Rightarrow> run_registry" where
  "trim g = g\<lparr>rg_runs := trim_runs (rg_max g) (rg_runs g)\<rparr>"

definition begin_registry :: "run_registry \<Rightarrow> string \<Rightarrow> string \<Rightarrow> run_registry \<times> run_record" where
  "begin_registry g run trace =
     (let rr = (blank_record run trace)\<lparr>rr_epistemic_state := Some new_state, rr_epistemic_ledger := Some []\<rparr>
      in (trim (g\<lparr>rg_runs := dset run rr (rg_runs g)\<rparr>), rr))"

definition get_run :: "run_registry \<Rightarrow> string \<Rightarrow> run_record option" where
  "get_run g run = map_of (rg_runs g) run"

definition require_run :: "run_registry \<Rightarrow> string \<Rightarrow> run_record res" where
  "require_run g run = (case map_of (rg_runs g) run of None \<Rightarrow> Inl (KeyError run) | Some rr \<Rightarrow> Inr rr)"

text \<open>An assignment to the fields of a stored record.\<close>

definition put_run :: "run_registry \<Rightarrow> string \<Rightarrow> run_record \<Rightarrow> run_registry" where
  "put_run g run rr = g\<lparr>rg_runs := dset run rr (rg_runs g)\<rparr>"

definition record_human_intervention :: "run_registry \<Rightarrow> string \<Rightarrow> string \<Rightarrow> run_registry res" where
  "record_human_intervention g run reason =
     bindE (require_run g run) (\<lambda>rr. Inr (put_run g run (rr\<lparr>rr_human_intervention := True, rr_human_reason := Some reason\<rparr>)))"

definition record_rework :: "run_registry \<Rightarrow> string \<Rightarrow> string \<Rightarrow> run_registry res" where
  "record_rework g run reason =
     bindE (require_run g run) (\<lambda>rr. Inr (put_run g run (rr\<lparr>rr_rework := True, rr_rework_reason := Some reason\<rparr>)))"

text \<open>The events of a run as the list of dicts the ledger functions work on; a list of anything else
  can only come from a file the registry did not write, and is an error here.\<close>

definition event_list :: "pyval \<Rightarrow> pydict list res" where
  "event_list v = bindE (py_iter v) (mapE (\<lambda>e. case e of PDict d \<Rightarrow> Inr d | _ \<Rightarrow> Inl PyTypeError))"

definition run_event :: "string \<Rightarrow> string \<Rightarrow> string \<Rightarrow> string \<Rightarrow> pyval \<Rightarrow> pyval \<Rightarrow> pyval \<Rightarrow> pydict" where
  "run_event uuid now run event_type actor subject payload =
     [(''event_id'', PStr (''event-'' @ uuid)), (''run_id'', PStr run), (''timestamp'', PStr now), (''actor'', actor),
      (''event_type'', PStr event_type), (''subject_id'', subject), (''payload'', payload)]"

definition append_to_run :: "(string \<Rightarrow> string) \<Rightarrow> run_record \<Rightarrow> pydict \<Rightarrow> (run_record \<times> pydict) res" where
  "append_to_run sha rr event =
     bindE (event_list (rr_events rr)) (\<lambda>es.
     bindE (append_event sha es event) (\<lambda>(es', e). Inr (rr\<lparr>rr_events := PList (map PDict es')\<rparr>, e)))"

definition ledger ::
  "(string \<Rightarrow> string) \<Rightarrow> string \<Rightarrow> string \<Rightarrow> run_registry \<Rightarrow> string \<Rightarrow> string \<Rightarrow> pyval \<Rightarrow> pyval \<Rightarrow> pyval \<Rightarrow> (run_registry \<times> pydict) res" where
  "ledger sha uuid now g run event_type actor subject payload =
     bindE (require_run g run) (\<lambda>rr.
     bindE (append_to_run sha rr (run_event uuid now run event_type actor subject payload)) (\<lambda>(rr', e).
     Inr (put_run g run rr', e)))"

definition head_hash :: "run_registry \<Rightarrow> string \<Rightarrow> pyval res" where
  "head_hash g run =
     bindE (require_run g run) (\<lambda>rr.
     bindE (event_list (rr_events rr)) (\<lambda>es.
     if es = [] then Inr (PStr ''GENESIS'') else py_index (PDict (last es)) ''event_hash''))"

definition issue_receipt ::
  "string \<Rightarrow> string \<Rightarrow> run_registry \<Rightarrow> string \<Rightarrow> string \<Rightarrow> pyval \<Rightarrow> pyval \<Rightarrow> (run_registry \<times> pyval) res" where
  "issue_receipt uuid now g run outcome results cost =
     bindE (require_run g run) (\<lambda>rr.
     let decision = or_empty (PDict []) (rr_decision rr); contract = or_empty (PDict []) (rr_contract rr) in
     bindE (py_get contract ''task_id'' (rr_task_id rr)) (\<lambda>task.
     bindE (py_get decision ''policy_version'' (PStr [])) (\<lambda>version.
     bindE (py_get decision ''decision_id'' (PStr [])) (\<lambda>did.
     bindE (head_hash g run) (\<lambda>head.
     let receipt = PDict [(''receipt_id'', PStr (''receipt-'' @ uuid)), (''run_id'', PStr run), (''task_id'', task),
       (''status'', PStr outcome), (''issued_at'', PStr now), (''policy_version'', version), (''route_decision_id'', did),
       (''artifact_hashes'', PList []), (''verification_results'', results), (''unresolved_claim_ids'', PList []),
       (''total_cost'', PDict [(''currency'', PStr ''USD''), (''amount'', cost)]), (''trace_id'', PStr (rr_trace_id rr)),
       (''ledger_head_hash'', head)] in
     Inr (put_run g run (rr\<lparr>rr_receipt := receipt\<rparr>), receipt))))))"

definition get_receipt :: "run_registry \<Rightarrow> string \<Rightarrow> pyval" where
  "get_receipt g run = (case map_of (rg_runs g) run of None \<Rightarrow> PNone | Some rr \<Rightarrow> rr_receipt rr)"

text \<open>The deprecated verification: criteria that could be checked count as passed.\<close>

definition stub_result :: "(nat \<Rightarrow> string) \<Rightarrow> nat \<Rightarrow> pyval \<Rightarrow> pyval res" where
  "stub_result uuid k criterion =
     bindE (py_get criterion ''kind'' PNone) (\<lambda>kind.
     bindE (py_in_strs kind [''observable'', ''executable'']) (\<lambda>passed.
     bindE (py_index criterion ''id'') (\<lambda>i.
     Inr (PDict [(''criterion_id'', i), (''status'', PStr (if passed then ''passed'' else ''not_run'')),
       (''evidence_ids'', PList (if passed then [PStr (''evidence-'' @ uuid k)] else []))]))))"

definition record_stub_verification :: "(nat \<Rightarrow> string) \<Rightarrow> pyval \<Rightarrow> pyval list res" where
  "record_stub_verification uuid contract =
     bindE (bindE (py_get contract ''acceptance_criteria'' (PList [])) py_iter) (\<lambda>cs.
     mapE (\<lambda>(k, c). stub_result uuid k c) (enumerate 0 cs))"

section \<open>Files\<close>

definition record_to_dict :: "run_record \<Rightarrow> pydict" where
  "record_to_dict rr =
     [(''run_id'', PStr (rr_run_id rr)), (''trace_id'', PStr (rr_trace_id rr)), (''tenant_id'', PStr (rr_tenant_id rr)),
      (''task_id'', rr_task_id rr), (''contract'', rr_contract rr), (''decision'', rr_decision rr),
      (''openrouter_request'', rr_request rr), (''openrouter_response'', rr_response rr), (''events'', rr_events rr),
      (''receipt'', rr_receipt rr), (''canary'', PBool (rr_canary rr)), (''policy_version'', rr_policy_version rr),
      (''total_tokens'', PInt (rr_total_tokens rr)), (''prompt_tokens'', PInt (rr_prompt_tokens rr)),
      (''completion_tokens'', PInt (rr_completion_tokens rr)), (''actual_cost_usd'', PFloat (rr_actual_cost_usd rr)),
      (''latency_ms'', PFloat (rr_latency_ms rr))]"

definition dict_get :: "pydict \<Rightarrow> string \<Rightarrow> pyval \<Rightarrow> pyval" where
  "dict_get d k v = (case map_of d k of None \<Rightarrow> v | Some w \<Rightarrow> w)"

definition record_from_dict :: "pyval \<Rightarrow> run_record option res" where
  "record_from_dict data = (case data of
     PDict d \<Rightarrow>
       bindE (py_int (dict_get d ''total_tokens'' (PInt 0))) (\<lambda>tt.
       bindE (py_int (dict_get d ''prompt_tokens'' (PInt 0))) (\<lambda>pt.
       bindE (py_int (dict_get d ''completion_tokens'' (PInt 0))) (\<lambda>ct.
       bindE (py_float (dict_get d ''actual_cost_usd'' (PFloat (Fin 0)))) (\<lambda>cost.
       bindE (py_float (dict_get d ''latency_ms'' (PFloat (Fin 0)))) (\<lambda>latency.
       Inr (Some ((blank_record (py_str (dict_get d ''run_id'' (PStr []))) (py_str (dict_get d ''trace_id'' (PStr []))))
         \<lparr>rr_tenant_id := py_str (dict_get d ''tenant_id'' (PStr ''default'')), rr_task_id := dict_get d ''task_id'' PNone,
          rr_contract := dict_get d ''contract'' PNone, rr_decision := dict_get d ''decision'' PNone,
          rr_request := dict_get d ''openrouter_request'' PNone, rr_response := dict_get d ''openrouter_response'' PNone,
          rr_events := dict_get d ''events'' (PList []), rr_receipt := dict_get d ''receipt'' PNone,
          rr_canary := truthy (dict_get d ''canary'' (PBool False)), rr_policy_version := dict_get d ''policy_version'' PNone,
          rr_total_tokens := tt, rr_prompt_tokens := pt, rr_completion_tokens := ct,
          rr_actual_cost_usd := cost, rr_latency_ms := latency\<rparr>)))))))
   | _ \<Rightarrow> Inr None)"

text \<open>A registry with its directory.\<close>

record file_registry =
  fr_registry :: run_registry
  fr_files :: "(string, string) dict"

definition run_file :: "string \<Rightarrow> string" where
  "run_file run = run @ ''.json''"

definition is_json_file :: "string \<Rightarrow> bool" where
  "is_json_file name = startswith (rev name) (rev ''.json'')"

text \<open>One file of \<^verbatim>\<open>glob('*.json')\<close>, which lists them in the order of the directory: a text that is no
  JSON is skipped, as is a value that is no dict or has no run id.\<close>

definition load_file :: "run_registry \<Rightarrow> string \<times> string \<Rightarrow> run_registry res" where
  "load_file g file = (case json_loads (snd file) of Inl _ \<Rightarrow> Inr g | Inr data \<Rightarrow>
     bindE (record_from_dict data) (\<lambda>loaded. case loaded of None \<Rightarrow> Inr g | Some rr \<Rightarrow>
       if rr_run_id rr = [] then Inr g else Inr (trim (put_run g (rr_run_id rr) rr))))"

definition load_existing :: "run_registry \<Rightarrow> (string, string) dict \<Rightarrow> run_registry res" where
  "load_existing g files = foldE load_file g (filter (is_json_file \<circ> fst) files)"

definition open_registry :: "int \<Rightarrow> (string, string) dict \<Rightarrow> file_registry res" where
  "open_registry max_runs files =
     bindE (new_registry max_runs) (\<lambda>g. bindE (load_existing g files) (\<lambda>g'. Inr \<lparr>fr_registry = g', fr_files = files\<rparr>))"

definition persist :: "file_registry \<Rightarrow> string \<Rightarrow> file_registry" where
  "persist f run = (case get_run (fr_registry f) run of None \<Rightarrow> f
     | Some rr \<Rightarrow> f\<lparr>fr_files := dset (run_file run) (dumps False (PDict (record_to_dict rr))) (fr_files f)\<rparr>)"

definition file_begin :: "file_registry \<Rightarrow> string \<Rightarrow> string \<Rightarrow> file_registry \<times> run_record" where
  "file_begin f run trace = (let (g, rr) = begin_registry (fr_registry f) run trace in (persist (f\<lparr>fr_registry := g\<rparr>) run, rr))"

definition file_ledger ::
  "(string \<Rightarrow> string) \<Rightarrow> string \<Rightarrow> string \<Rightarrow> file_registry \<Rightarrow> string \<Rightarrow> string \<Rightarrow> pyval \<Rightarrow> pyval \<Rightarrow> pyval \<Rightarrow> (file_registry \<times> pydict) res" where
  "file_ledger sha uuid now f run event_type actor subject payload =
     bindE (ledger sha uuid now (fr_registry f) run event_type actor subject payload) (\<lambda>(g, e).
     Inr (persist (f\<lparr>fr_registry := g\<rparr>) run, e))"

definition file_issue_receipt ::
  "string \<Rightarrow> string \<Rightarrow> file_registry \<Rightarrow> string \<Rightarrow> string \<Rightarrow> pyval \<Rightarrow> pyval \<Rightarrow> (file_registry \<times> pyval) res" where
  "file_issue_receipt uuid now f run outcome results cost =
     bindE (issue_receipt uuid now (fr_registry f) run outcome results cost) (\<lambda>(g, receipt).
     Inr (persist (f\<lparr>fr_registry := g\<rparr>) run, receipt))"

section \<open>Ledgers of runs\<close>

lemma event_list_dicts [simp]: "event_list (PList (map PDict es)) = Inr es"
  by (induction es) (simp_all add: event_list_def)

definition run_entries :: "run_record \<Rightarrow> pydict list" where
  "run_entries rr = (case event_list (rr_events rr) of Inr es \<Rightarrow> es | Inl _ \<Rightarrow> [])"

text \<open>The events of a record are dicts and verify.\<close>

definition run_verified :: "(string \<Rightarrow> string) \<Rightarrow> run_record \<Rightarrow> bool" where
  "run_verified sha rr = (rr_events rr = PList (map PDict (run_entries rr)) \<and> valid_chain sha (run_entries rr))"

lemma run_entries_events [simp]: "run_entries (rr\<lparr>rr_events := PList (map PDict es)\<rparr>) = es"
  by (simp add: run_entries_def)

lemma run_entries_blank [simp]: "run_entries (blank_record run trace) = []"
  by (simp add: run_entries_def blank_record_def event_list_def)

lemma append_to_run_verified:
  assumes "run_verified sha rr"
  obtains e' where "append_to_run sha rr e = Inr (rr\<lparr>rr_events := PList (map PDict (run_entries rr @ [e']))\<rparr>, e')"
    "append_event sha (run_entries rr) e = Inr (run_entries rr @ [e'], e')" "valid_chain sha (run_entries rr @ [e'])"
proof -
  obtain e' where e': "append_event sha (run_entries rr) e = Inr (run_entries rr @ [e'], e')" "valid_chain sha (run_entries rr @ [e'])"
    using append_event_valid[of sha "run_entries rr" e] assms by (auto simp: run_verified_def)
  have "event_list (rr_events rr) = Inr (run_entries rr)" using assms event_list_dicts[of "run_entries rr"] by (simp add: run_verified_def)
  then show thesis using that e' by (simp add: append_to_run_def)
qed

lemma run_verified_events: "valid_chain sha es \<Longrightarrow> run_verified sha (rr\<lparr>rr_events := PList (map PDict es)\<rparr>)"
  by (simp add: run_verified_def)

lemma append_to_run_Inr:
  assumes "run_verified sha rr" "append_to_run sha rr e = Inr (rr', e')"
  shows "run_verified sha rr' \<and> run_entries rr' = run_entries rr @ [e'] \<and>
    rr' = rr\<lparr>rr_events := PList (map PDict (run_entries rr @ [e']))\<rparr> \<and> append_event sha (run_entries rr) e = Inr (run_entries rr @ [e'], e')"
proof -
  obtain x where x: "append_to_run sha rr e = Inr (rr\<lparr>rr_events := PList (map PDict (run_entries rr @ [x]))\<rparr>, x)"
    "append_event sha (run_entries rr) e = Inr (run_entries rr @ [x], x)" "valid_chain sha (run_entries rr @ [x])"
    using append_to_run_verified[OF assms(1), of e] by blast
  then have "rr' = rr\<lparr>rr_events := PList (map PDict (run_entries rr @ [x]))\<rparr>" "e' = x" using assms(2) by simp_all
  then show ?thesis using x(2) run_verified_events[OF x(3)] by (simp del: map_append)
qed

text \<open>A run record keeps the contract of a log, through the ledger functions.\<close>

interpretation run_log: verified_log "append_to_run sha" "run_verified sha" run_entries "blank_record run trace" for sha run trace
proof
  show "run_verified sha (blank_record run trace)"
    by (simp add: run_verified_def valid_chain_def) (simp add: blank_record_def)
  show "run_entries (blank_record run trace) = []" by simp
  show "\<exists>l' e'. append_to_run sha l e = Inr (l', e')" if "run_verified sha l" for l e
    using append_to_run_verified[OF that, of e] by blast
qed (auto dest: append_to_run_Inr)

section \<open>Operations of the registry\<close>

text \<open>The calls of the registry; a call that raises leaves it as it was.\<close>

datatype run_op =
    Begin string string
  | Ledger string string string string pyval pyval pyval
  | Receipt string string string string pyval pyval
  | Intervene string string
  | Rework string string

definition or_same :: "'s \<Rightarrow> 's res \<Rightarrow> 's" where
  "or_same s r = (case r of Inl _ \<Rightarrow> s | Inr s' \<Rightarrow> s')"

fun run_step :: "(string \<Rightarrow> string) \<Rightarrow> run_registry \<Rightarrow> run_op \<Rightarrow> run_registry" where
  "run_step sha g (Begin run trace) = fst (begin_registry g run trace)"
| "run_step sha g (Ledger uuid now run kind actor subject payload) =
     or_same g (bindE (ledger sha uuid now g run kind actor subject payload) (\<lambda>(g', _). Inr g'))"
| "run_step sha g (Receipt uuid now run outcome results cost) =
     or_same g (bindE (issue_receipt uuid now g run outcome results cost) (\<lambda>(g', _). Inr g'))"
| "run_step sha g (Intervene run reason) = or_same g (record_human_intervention g run reason)"
| "run_step sha g (Rework run reason) = or_same g (record_rework g run reason)"

fun op_run :: "run_op \<Rightarrow> string" where
  "op_run (Begin run _) = run"
| "op_run (Ledger _ _ run _ _ _ _) = run"
| "op_run (Receipt _ _ run _ _ _) = run"
| "op_run (Intervene run _) = run"
| "op_run (Rework run _) = run"

fun is_begin :: "run_op \<Rightarrow> bool" where
  "is_begin (Begin _ _) = True"
| "is_begin _ = False"

lemma or_same_simps [simp]: "or_same s (Inr s') = s'" "or_same s (Inl e) = s"
  by (simp_all add: or_same_def)

lemma trim_runs_drop: "0 \<le> n \<Longrightarrow> trim_runs n runs = drop (length runs - nat n) runs"
proof (induction n runs rule: trim_runs.induct)
  case (1 n runs)
  show ?case
  proof (cases "n < int (length runs) \<and> runs \<noteq> []")
    case True
    then have "length runs - nat n = Suc (length (tl runs) - nat n)" using 1(2) by (cases runs) auto
    then show ?thesis using 1 True by (subst trim_runs.simps) (cases runs, simp_all)
  next
    case False
    then show ?thesis using 1(2) by (subst trim_runs.simps) auto
  qed
qed

lemma trim_small: "length (rg_runs g) \<le> nat (rg_max g) \<Longrightarrow> 0 \<le> rg_max g \<Longrightarrow> trim g = g"
  by (simp add: trim_def trim_runs_drop)

lemma dict_ok_drop [simp]: "dict_ok d \<Longrightarrow> dict_ok (drop n d)"
  by (simp add: dict_ok_def flip: drop_map)

lemma map_of_drop: "dict_ok d \<Longrightarrow> map_of (drop n d) k = Some v \<Longrightarrow> map_of d k = Some v"
  using map_of_iff_in_set[of d k v] map_of_iff_in_set[of "drop n d" k v] in_set_dropD[of "(k, v)" n d] by simp

text \<open>A call other than \<open>begin\<close> rewrites at most the record of its run.\<close>

definition updates :: "run_registry \<Rightarrow> run_registry \<Rightarrow> string \<Rightarrow> run_record \<Rightarrow> run_record \<Rightarrow> bool" where
  "updates g g' run rr rr' = (map_of (rg_runs g) run = Some rr \<and> g' = put_run g run rr')"

lemma put_run_simps [simp]: "rg_max (put_run g run rr) = rg_max g" "rg_runs (put_run g run rr) = dset run rr (rg_runs g)"
  by (simp_all add: put_run_def)

lemma require_run_Inr: "require_run g run = Inr rr \<longleftrightarrow> map_of (rg_runs g) run = Some rr"
  by (simp add: require_run_def split: option.splits)

lemma issue_receipt_updates:
  assumes "issue_receipt uuid now g run outcome results cost = Inr (g', receipt)"
  shows "\<exists>rr head. map_of (rg_runs g) run = Some rr \<and> g' = put_run g run (rr\<lparr>rr_receipt := receipt\<rparr>) \<and>
     head_hash g run = Inr head \<and> attr receipt ''ledger_head_hash'' PNone = head \<and> attr receipt ''status'' PNone = PStr outcome"
  using assms by (auto simp: issue_receipt_def bindE_eq_Inr require_run_Inr Let_def attr_def)

text \<open>What every operation keeps: one verified record per run, under its own id, within the bound.\<close>

definition registry_ok :: "(string \<Rightarrow> string) \<Rightarrow> run_registry \<Rightarrow> bool" where
  "registry_ok sha g = (1 \<le> rg_max g \<and> dict_ok (rg_runs g) \<and> int (length (rg_runs g)) \<le> rg_max g \<and>
     (\<forall>run rr. map_of (rg_runs g) run = Some rr \<longrightarrow> rr_run_id rr = run \<and> run_verified sha rr))"

text \<open>How a call other than \<open>begin\<close> changes the record of its run.\<close>

definition run_change :: "(string \<Rightarrow> string) \<Rightarrow> run_record \<Rightarrow> run_record \<Rightarrow> bool" where
  "run_change sha rr rr' = (run_verified sha rr' \<and> rr_run_id rr' = rr_run_id rr \<and> (\<exists>added. run_entries rr' = run_entries rr @ added))"

lemma run_verified_other [simp]:
  "run_verified sha (rr\<lparr>rr_receipt := x\<rparr>) = run_verified sha rr" "run_entries (rr\<lparr>rr_receipt := x\<rparr>) = run_entries rr"
  "run_verified sha (rr\<lparr>rr_human_intervention := h, rr_human_reason := y\<rparr>) = run_verified sha rr"
  "run_entries (rr\<lparr>rr_human_intervention := h, rr_human_reason := y\<rparr>) = run_entries rr"
  "run_verified sha (rr\<lparr>rr_rework := h, rr_rework_reason := y\<rparr>) = run_verified sha rr"
  "run_entries (rr\<lparr>rr_rework := h, rr_rework_reason := y\<rparr>) = run_entries rr"
  by (simp_all add: run_verified_def run_entries_def)

lemma ledger_Inr:
  assumes "ledger sha uuid now g run kind actor subject payload = Inr (g', e)" "registry_ok sha g"
  shows "\<exists>rr. map_of (rg_runs g) run = Some rr \<and> run_verified sha rr \<and>
     g' = put_run g run (rr\<lparr>rr_events := PList (map PDict (run_entries rr @ [e]))\<rparr>) \<and>
     append_event sha (run_entries rr) (run_event uuid now run kind actor subject payload) = Inr (run_entries rr @ [e], e)"
  using assms append_to_run_Inr by (force simp: ledger_def bindE_eq_Inr require_run_Inr registry_ok_def)

lemma step_change:
  assumes "registry_ok sha g" "\<not> is_begin op"
  shows "run_step sha g op = g \<or> (\<exists>rr rr'. map_of (rg_runs g) (op_run op) = Some rr \<and>
     run_step sha g op = put_run g (op_run op) rr' \<and> run_change sha rr rr')"
proof (cases op)
  case (Ledger uuid now run kind actor subject payload)
  show ?thesis
  proof (cases "ledger sha uuid now g run kind actor subject payload")
    case (Inr p)
    obtain g' e where p: "p = (g', e)" by fastforce
    obtain rr where rr: "map_of (rg_runs g) run = Some rr" "run_verified sha rr"
      "g' = put_run g run (rr\<lparr>rr_events := PList (map PDict (run_entries rr @ [e]))\<rparr>)"
      "append_event sha (run_entries rr) (run_event uuid now run kind actor subject payload) = Inr (run_entries rr @ [e], e)"
      using ledger_Inr[OF Inr[unfolded p] assms(1)] by blast
    have "valid_chain sha (run_entries rr @ [e])" using append_event_log[OF _ rr(4)] rr(2) by (simp add: run_verified_def)
    then have "run_change sha rr (rr\<lparr>rr_events := PList (map PDict (run_entries rr @ [e]))\<rparr>)"
      using run_verified_events run_entries_events by (force simp: run_change_def simp del: map_append)
    then show ?thesis using rr(1,3) by (auto simp: Ledger Inr p)
  qed (simp add: Ledger)
next
  case (Receipt uuid now run outcome results cost)
  show ?thesis
  proof (cases "issue_receipt uuid now g run outcome results cost")
    case (Inr p)
    obtain g' receipt where p: "p = (g', receipt)" by fastforce
    obtain rr where "map_of (rg_runs g) run = Some rr" "g' = put_run g run (rr\<lparr>rr_receipt := receipt\<rparr>)"
      using issue_receipt_updates[OF Inr[unfolded p]] by blast
    moreover have "run_change sha rr (rr\<lparr>rr_receipt := receipt\<rparr>)"
      using assms(1) calculation(1) by (simp add: run_change_def registry_ok_def)
    ultimately show ?thesis by (auto simp: Receipt Inr p)
  qed (simp add: Receipt)
next
  case (Intervene run reason)
  show ?thesis using assms(1)
    by (cases "map_of (rg_runs g) run") (auto simp: Intervene record_human_intervention_def require_run_def run_change_def registry_ok_def)
next
  case (Rework run reason)
  show ?thesis using assms(1)
    by (cases "map_of (rg_runs g) run") (auto simp: Rework record_rework_def require_run_def run_change_def registry_ok_def)
qed (use assms in simp)

lemma registry_ok_put:
  assumes "registry_ok sha g" "map_of (rg_runs g) run = Some rr" "run_change sha rr rr'"
  shows "registry_ok sha (put_run g run rr')"
  using assms by (auto simp: registry_ok_def run_change_def length_dset dhas_def)

text \<open>The registry after \<open>begin\<close>: the new record, and of the others those not evicted.\<close>

lemma begin_runs:
  assumes "registry_ok sha g"
  shows "rg_runs (fst (begin_registry g run trace)) = drop (length (dset run (snd (begin_registry g run trace)) (rg_runs g)) - nat (rg_max g))
      (dset run (snd (begin_registry g run trace)) (rg_runs g)) \<and> rg_max (fst (begin_registry g run trace)) = rg_max g"
  using assms by (simp add: begin_registry_def trim_def Let_def trim_runs_drop registry_ok_def)

lemma registry_ok_cut:
  assumes "dict_ok d" "\<And>k rr. map_of d k = Some rr \<Longrightarrow> rr_run_id rr = k \<and> run_verified sha rr" "1 \<le> rg_max g"
  shows "registry_ok sha (g\<lparr>rg_runs := drop (length d - nat (rg_max g)) d\<rparr>)"
proof -
  have "rr_run_id rr = k \<and> run_verified sha rr" if "map_of (drop (length d - nat (rg_max g)) d) k = Some rr" for k rr
    using map_of_drop[OF assms(1) that] by (rule assms(2))
  then show ?thesis using assms(1,3) by (simp add: registry_ok_def)
qed

lemma registry_ok_begin:
  assumes "registry_ok sha g" shows "registry_ok sha (fst (begin_registry g run trace))"
proof -
  define rr where "rr = snd (begin_registry g run trace)"
  define d where "d = dset run rr (rg_runs g)"
  have new: "rr_run_id rr = run" "run_verified sha rr"
    by (simp_all add: rr_def begin_registry_def Let_def blank_record_def run_verified_def run_entries_def event_list_def valid_chain_def)
  have "dict_ok d" using assms by (simp add: d_def registry_ok_def)
  moreover have "rr_run_id rr' = k \<and> run_verified sha rr'" if "map_of d k = Some rr'" for k rr'
    using that assms new by (auto simp: d_def registry_ok_def split: if_splits)
  ultimately have "registry_ok sha (g\<lparr>rg_runs := drop (length d - nat (rg_max g)) d\<rparr>)"
    using registry_ok_cut[of d sha g] assms unfolding registry_ok_def by blast
  moreover have "fst (begin_registry g run trace) = g\<lparr>rg_runs := drop (length d - nat (rg_max g)) d\<rparr>"
    using begin_runs[OF assms, of run trace] by (simp add: d_def rr_def)
  ultimately show ?thesis by simp
qed

lemma registry_ok_step: "registry_ok sha g \<Longrightarrow> registry_ok sha (run_step sha g op)"
proof (cases "is_begin op")
  case True
  then show "registry_ok sha g \<Longrightarrow> ?thesis" using registry_ok_begin by (cases op) auto
next
  case False
  then show "registry_ok sha g \<Longrightarrow> ?thesis" using step_change[of sha g op] registry_ok_put by metis
qed

definition run_all :: "(string \<Rightarrow> string) \<Rightarrow> run_registry \<Rightarrow> run_op list \<Rightarrow> run_registry" where
  "run_all sha g ops = foldl (run_step sha) g ops"

lemma registry_ok_all: "registry_ok sha g \<Longrightarrow> registry_ok sha (run_all sha g ops)"
  unfolding run_all_def by (induction ops arbitrary: g) (auto simp: registry_ok_step)

lemma new_registry_ok: "new_registry n = Inr g \<Longrightarrow> registry_ok sha g"
  by (auto simp: new_registry_def registry_ok_def split: if_splits)

section \<open>Records and directories\<close>

text \<open>What of a record is written: the rest comes back at its default.\<close>

definition persisted :: "run_record \<Rightarrow> run_record" where
  "persisted rr = rr\<lparr>rr_epistemic_state := None, rr_canonical_state := None, rr_context_package := PNone,
     rr_fallbacks := no_fallbacks, rr_original_prompt_tokens := 0, rr_human_intervention := False, rr_rework := False,
     rr_human_reason := None, rr_rework_reason := None, rr_decision_trace := PList [], rr_epistemic_ledger := None\<rparr>"

definition writable :: "run_record \<Rightarrow> bool" where
  "writable rr = json_ok (PDict (record_to_dict rr))"

lemma record_to_dict_persisted [simp]: "record_to_dict (persisted rr) = record_to_dict rr"
  by (simp add: record_to_dict_def persisted_def)

lemma record_from_to: "record_from_dict (PDict (record_to_dict rr)) = Inr (Some (persisted rr))"
  by (simp add: record_from_dict_def record_to_dict_def dict_get_def blank_record_def persisted_def)

lemma writable_iff: "writable rr \<longleftrightarrow> json_ok (rr_task_id rr) \<and> json_ok (rr_contract rr) \<and> json_ok (rr_decision rr) \<and>
    json_ok (rr_request rr) \<and> json_ok (rr_response rr) \<and> json_ok (rr_events rr) \<and> json_ok (rr_receipt rr) \<and>
    json_ok (rr_policy_version rr) \<and> is_f64 (rr_actual_cost_usd rr) \<and> is_f64 (rr_latency_ms rr)"
  by (auto simp: writable_def record_to_dict_def dict_ok_def)

lemma json_ok_dset: "json_ok (PDict d) \<Longrightarrow> json_ok v \<Longrightarrow> json_ok (PDict (dset k v d))"
  using dset_values[of _ k v d] by (fastforce simp: image_iff)

lemma json_ok_map_of: "json_ok (PDict d) \<Longrightarrow> map_of d k = Some v \<Longrightarrow> json_ok v"
  by (auto dest: map_of_SomeD)

lemma append_event_json:
  assumes "append_event sha es e = Inr (es', e')" "json_ok (PDict e)" "\<forall>x\<in>set es. json_ok (PDict x)"
  shows "json_ok (PDict e')"
proof -
  obtain prev where prev: "(if es = [] then Inr (PStr ''GENESIS'') else py_index (PDict (last es)) ''event_hash'') = Inr prev"
    and e': "e' = dset ''event_hash'' (PStr (event_hash sha (dset ''previous_event_hash'' prev (dset ''sequence'' (PInt (int (length es))) e))))
       (dset ''previous_event_hash'' prev (dset ''sequence'' (PInt (int (length es))) e))"
    using assms(1) by (auto simp: append_event_def Let_def bindE_eq_Inr)
  have "json_ok prev"
  proof (cases "es = []")
    case False
    then have "map_of (last es) ''event_hash'' = Some prev" "json_ok (PDict (last es))" using prev assms(3) by (auto simp: py_index_Inr simp del: json_ok.simps py_index_PDict)
    then show ?thesis using json_ok_map_of by blast
  qed (use prev in auto)
  then show ?thesis unfolding e' by (intro json_ok_dset assms(2)) simp_all
qed

definition record_text :: "run_record \<Rightarrow> string" where
  "record_text rr = dumps False (PDict (record_to_dict rr))"

definition directory :: "(string, run_record) dict \<Rightarrow> (string, string) dict" where
  "directory disk = map (\<lambda>(run, rr). (run_file run, record_text rr)) disk"

lemma run_file_inject [simp]: "run_file a = run_file b \<longleftrightarrow> a = b"
  by (simp add: run_file_def)

lemma directory_dset: "directory (dset run rr disk) = dset (run_file run) (record_text rr) (directory disk)"
  by (induction disk) (auto simp: directory_def)

lemma directory_json: "filter (is_json_file \<circ> fst) (directory disk) = directory disk"
  by (auto simp: directory_def is_json_file_def run_file_def startswith_def filter_id_conv)

lemma load_record:
  assumes "writable rr" "rr_run_id rr = run" "run \<noteq> []"
  shows "load_file g (run_file run, record_text rr) = Inr (trim (put_run g run (persisted rr)))"
proof -
  have "rr_run_id (persisted rr) = run" using assms(2) by (simp add: persisted_def)
  then show ?thesis
    using loads_dumps[of "PDict (record_to_dict rr)" False] assms by (simp add: load_file_def record_text_def writable_def record_from_to)
qed

text \<open>A disk the registry wrote: each record under its own id, in values that can be read back.\<close>

definition disk_ok :: "(string, run_record) dict \<Rightarrow> bool" where
  "disk_ok disk = (dict_ok disk \<and> (\<forall>run rr. map_of disk run = Some rr \<longrightarrow> rr_run_id rr = run \<and> run \<noteq> [] \<and> writable rr))"

lemma disk_ok_tail: "disk_ok ((k, x) # d) \<Longrightarrow> disk_ok d \<and> map_of d k = None \<and> rr_run_id x = k \<and> k \<noteq> [] \<and> writable x"
proof -
  assume ok: "disk_ok ((k, x) # d)"
  then have n: "map_of d k = None" "dict_ok d" by (auto simp: disk_ok_def dict_ok_def map_of_eq_None_iff)
  have all: "map_of ((k, x) # d) run = Some rr \<Longrightarrow> rr_run_id rr = run \<and> run \<noteq> [] \<and> writable rr" for run rr
    using ok unfolding disk_ok_def by blast
  have "rr_run_id rr = run \<and> run \<noteq> [] \<and> writable rr" if "map_of d run = Some rr" for run rr
    using all[of run rr] that n(1) by (cases "run = k") auto
  then show ?thesis using n all[of k x] unfolding disk_ok_def by simp
qed

lemma load_disk:
  assumes "disk_ok disk" "dict_ok acc" "\<forall>k\<in>fst ` set disk. map_of acc k = None" "int (length acc + length disk) \<le> m" "0 \<le> m"
  shows "foldE load_file \<lparr>rg_runs = acc, rg_max = m\<rparr> (directory disk) =
    Inr \<lparr>rg_runs = acc @ map (\<lambda>(k, rr). (k, persisted rr)) disk, rg_max = m\<rparr>"
  using assms
proof (induction disk arbitrary: acc)
  case (Cons p disk)
  obtain k x where p: "p = (k, x)" by fastforce
  note t = disk_ok_tail[OF Cons.prems(1)[unfolded p]]
  let ?g = "\<lparr>rg_runs = acc, rg_max = m\<rparr>" and ?acc = "acc @ [(k, persisted x)]"
  have new: "dset k (persisted x) acc = ?acc" using Cons.prems(3) by (intro dset_new) (simp add: p)
  have "put_run ?g k (persisted x) = \<lparr>rg_runs = ?acc, rg_max = m\<rparr>" by (simp add: put_run_def new)
  moreover have "trim \<lparr>rg_runs = ?acc, rg_max = m\<rparr> = \<lparr>rg_runs = ?acc, rg_max = m\<rparr>"
    using Cons.prems(4,5) by (intro trim_small) simp_all
  ultimately have "load_file ?g (run_file k, record_text x) = Inr \<lparr>rg_runs = ?acc, rg_max = m\<rparr>"
    using load_record[of x k ?g] t by simp
  moreover have "foldE load_file \<lparr>rg_runs = ?acc, rg_max = m\<rparr> (directory disk) =
      Inr \<lparr>rg_runs = ?acc @ map (\<lambda>(k, rr). (k, persisted rr)) disk, rg_max = m\<rparr>"
  proof (rule Cons.IH)
    show "\<forall>j\<in>fst ` set disk. map_of ?acc j = None"
    proof
      fix j assume j: "j \<in> fst ` set disk"
      moreover have "k \<notin> fst ` set disk" using t by (simp add: map_of_eq_None_iff)
      ultimately have "j \<noteq> k" by blast
      moreover have "map_of acc j = None" using Cons.prems(3) j by (auto simp: p)
      ultimately show "map_of ?acc j = None" by (simp add: map_add_def)
    qed
    show "dict_ok ?acc" using Cons.prems(2) dict_ok_dset[of acc k "persisted x"] by (simp add: new)
  qed (use t Cons.prems(4,5) in simp_all)
  ultimately show ?case by (simp add: directory_def p)
qed (simp add: directory_def)

theorem reopened:
  assumes "disk_ok disk" "int (length disk) \<le> m" "1 \<le> m"
  shows "open_registry m (directory disk) =
    Inr \<lparr>fr_registry = \<lparr>rg_runs = map (\<lambda>(k, rr). (k, persisted rr)) disk, rg_max = m\<rparr>, fr_files = directory disk\<rparr>"
  using load_disk[OF assms(1), of "[]" m] assms(2,3)
  by (simp add: open_registry_def new_registry_def load_existing_def directory_json)

section \<open>The registry and its files\<close>

fun file_step :: "(string \<Rightarrow> string) \<Rightarrow> file_registry \<Rightarrow> run_op \<Rightarrow> file_registry" where
  "file_step sha f (Begin run trace) = fst (file_begin f run trace)"
| "file_step sha f (Ledger uuid now run kind actor subject payload) =
     or_same f (bindE (file_ledger sha uuid now f run kind actor subject payload) (\<lambda>(f', _). Inr f'))"
| "file_step sha f (Receipt uuid now run outcome results cost) =
     or_same f (bindE (file_issue_receipt uuid now f run outcome results cost) (\<lambda>(f', _). Inr f'))"
| "file_step sha f (Intervene run reason) =
     or_same f (bindE (record_human_intervention (fr_registry f) run reason) (\<lambda>g. Inr (f\<lparr>fr_registry := g\<rparr>)))"
| "file_step sha f (Rework run reason) =
     or_same f (bindE (record_rework (fr_registry f) run reason) (\<lambda>g. Inr (f\<lparr>fr_registry := g\<rparr>)))"

text \<open>Calls whose arguments can be written and read back.\<close>

fun op_writable :: "run_op \<Rightarrow> bool" where
  "op_writable (Begin run _) = (run \<noteq> [])"
| "op_writable (Ledger _ _ _ _ actor subject payload) = (json_ok actor \<and> json_ok subject \<and> json_ok payload)"
| "op_writable (Receipt _ _ _ _ results cost) = (json_ok results \<and> json_ok cost)"
| "op_writable _ = True"

text \<open>The file registry takes the steps of the plain one.\<close>

lemma file_step_registry: "fr_registry (file_step sha f op) = run_step sha (fr_registry f) op"
  by (cases op) (auto simp: file_begin_def file_ledger_def file_issue_receipt_def persist_def or_same_def bindE_def Let_def case_prod_beta
      split: sum.splits option.splits)

definition files_ok :: "(string \<Rightarrow> string) \<Rightarrow> file_registry \<Rightarrow> (string, run_record) dict \<Rightarrow> bool" where
  "files_ok sha f disk = (registry_ok sha (fr_registry f) \<and> fr_files f = directory disk \<and> disk_ok disk \<and>
     (\<forall>run rr. map_of (rg_runs (fr_registry f)) run = Some rr \<longrightarrow> (\<exists>x. map_of disk run = Some x \<and> persisted x = persisted rr)))"

lemma persisted_writable: "persisted x = persisted rr \<Longrightarrow> writable x \<Longrightarrow> writable rr"
  by (metis record_to_dict_persisted writable_def)

lemma disk_ok_dset: "disk_ok disk \<Longrightarrow> rr_run_id rr = run \<Longrightarrow> run \<noteq> [] \<Longrightarrow> writable rr \<Longrightarrow> disk_ok (dset run rr disk)"
  by (auto simp: disk_ok_def split: if_splits)

text \<open>Persisting a run after its record was stored keeps files and registry together.\<close>

lemma persist_ok:
  assumes "disk_ok disk" "fr_files f = directory disk" "registry_ok sha (fr_registry f)" "map_of (rg_runs (fr_registry f)) run = Some rr"
    "run \<noteq> []" "writable rr"
    "\<And>k x. k \<noteq> run \<Longrightarrow> map_of (rg_runs (fr_registry f)) k = Some x \<Longrightarrow> \<exists>y. map_of disk k = Some y \<and> persisted y = persisted x"
  shows "files_ok sha (persist f run) (dset run rr disk)"
proof -
  have "rr_run_id rr = run" using assms(3,4) by (simp add: registry_ok_def)
  then have "disk_ok (dset run rr disk)" using disk_ok_dset[OF assms(1)] assms(5,6) by blast
  moreover have "fr_files (persist f run) = directory (dset run rr disk)"
    using assms(2,4) by (simp add: persist_def get_run_def directory_dset record_text_def)
  moreover have "fr_registry (persist f run) = fr_registry f" by (simp add: persist_def split: option.splits)
  ultimately show ?thesis using assms(3,4,7) by (auto simp: files_ok_def)
qed

lemma files_ok_memory:
  assumes "files_ok sha f disk" "map_of (rg_runs (fr_registry f)) run = Some rr"
  shows "run \<noteq> [] \<and> writable rr \<and> rr_run_id rr = run \<and> run_verified sha rr"
proof -
  obtain x where "map_of disk run = Some x" "persisted x = persisted rr" using assms unfolding files_ok_def by blast
  moreover from this have "run \<noteq> []" "writable x" using assms(1) unfolding files_ok_def disk_ok_def by blast+
  moreover have "rr_run_id rr = run" "run_verified sha rr" using assms unfolding files_ok_def registry_ok_def by blast+
  ultimately show ?thesis using persisted_writable by blast
qed

text \<open>A call that stores \<open>rr'\<close> for \<open>rr\<close> and persists it.\<close>

lemma stored_and_persisted:
  assumes "files_ok sha f disk" "map_of (rg_runs (fr_registry f)) run = Some rr" "run_change sha rr rr'" "writable rr'"
  shows "\<exists>disk'. files_ok sha (persist (f\<lparr>fr_registry := put_run (fr_registry f) run rr'\<rparr>) run) disk'"
proof (rule exI, rule persist_ok)
  show "registry_ok sha (fr_registry (f\<lparr>fr_registry := put_run (fr_registry f) run rr'\<rparr>))"
    using registry_ok_put[OF _ assms(2,3)] assms(1) by (simp add: files_ok_def)
  show "run \<noteq> []" using files_ok_memory[OF assms(1,2)] by simp
qed (use assms in \<open>auto simp: files_ok_def\<close>)

lemma files_ok_same: "files_ok sha f disk \<Longrightarrow> map_of (rg_runs (fr_registry f)) run = Some rr \<Longrightarrow> run_change sha rr rr' \<Longrightarrow>
    persisted rr' = persisted rr \<Longrightarrow> files_ok sha (f\<lparr>fr_registry := put_run (fr_registry f) run rr'\<rparr>) disk"
  using registry_ok_put[of sha "fr_registry f" run rr rr'] by (auto simp: files_ok_def)

lemma files_ok_begin:
  assumes "files_ok sha f disk" "run \<noteq> []" shows "\<exists>disk'. files_ok sha (fst (file_begin f run trace)) disk'"
proof -
  define g where "g = fst (begin_registry (fr_registry f) run trace)"
  define rr where "rr = snd (begin_registry (fr_registry f) run trace)"
  define d where "d = dset run rr (rg_runs (fr_registry f))"
  have ok: "registry_ok sha (fr_registry f)" using assms(1) by (simp add: files_ok_def)
  have b: "rg_runs g = drop (length d - nat (rg_max (fr_registry f))) d" "registry_ok sha g"
    using begin_runs[OF ok, of run trace] registry_ok_begin[OF ok, of run trace] by (simp_all add: g_def d_def rr_def)
  have rr: "writable rr" by (simp add: rr_def begin_registry_def Let_def writable_iff blank_record_def is_f64_def is_fl_def)
  have old: "\<exists>y. map_of disk k = Some y \<and> persisted y = persisted x" if "k \<noteq> run" "map_of (rg_runs g) k = Some x" for k x
  proof -
    have "dict_ok d" using ok by (simp add: d_def registry_ok_def)
    then have "map_of d k = Some x" using map_of_drop that(2) b(1) by metis
    then show ?thesis using that(1) assms(1) by (simp add: d_def files_ok_def)
  qed
  have f: "fst (file_begin f run trace) = persist (f\<lparr>fr_registry := g\<rparr>) run"
    by (simp add: file_begin_def g_def case_prod_beta)
  show ?thesis
  proof (cases "map_of (rg_runs g) run")
    case None
    then have "fst (file_begin f run trace) = f\<lparr>fr_registry := g\<rparr>" unfolding f by (simp add: persist_def get_run_def)
    moreover have "files_ok sha (f\<lparr>fr_registry := g\<rparr>) disk"
      using assms(1) b(2) old None by (auto simp: files_ok_def) (metis option.distinct(1))
    ultimately show ?thesis by auto
  next
    case (Some x)
    have "dict_ok d" using ok by (simp add: d_def registry_ok_def)
    then have "map_of d run = Some x" using map_of_drop Some b(1) by metis
    then have x: "x = rr" by (simp add: d_def)
    have "files_ok sha (persist (f\<lparr>fr_registry := g\<rparr>) run) (dset run rr disk)"
      by (rule persist_ok) (use assms b(2) old Some x rr in \<open>simp_all add: files_ok_def\<close>)
    then show ?thesis unfolding f by blast
  qed
qed

lemma json_ok_get: "py_get v k x = Inr y \<Longrightarrow> json_ok v \<Longrightarrow> json_ok x \<Longrightarrow> json_ok y"
  using json_ok_map_of by (auto simp: py_get_Inr simp del: json_ok.simps split: option.splits)

lemma json_ok_or_empty: "json_ok v \<Longrightarrow> json_ok (or_empty (PDict []) v)"
  by (simp add: or_empty_def)

lemma run_events_json: "writable rr \<Longrightarrow> run_verified sha rr \<Longrightarrow> x \<in> set (run_entries rr) \<Longrightarrow> json_ok (PDict x)"
  unfolding writable_iff run_verified_def by (metis image_eqI json_ok.simps(2) list.set_map)

lemma issue_receipt_json:
  assumes "issue_receipt uuid now g run outcome results cost = Inr (g', receipt)" "map_of (rg_runs g) run = Some rr"
    "writable rr" "run_verified sha rr" "json_ok results" "json_ok cost"
  shows "json_ok receipt"
proof -
  obtain task version did head where
    f: "py_get (or_empty (PDict []) (rr_contract rr)) ''task_id'' (rr_task_id rr) = Inr task"
      "py_get (or_empty (PDict []) (rr_decision rr)) ''policy_version'' (PStr []) = Inr version"
      "py_get (or_empty (PDict []) (rr_decision rr)) ''decision_id'' (PStr []) = Inr did" "head_hash g run = Inr head"
    and r: "receipt = PDict [(''receipt_id'', PStr (''receipt-'' @ uuid)), (''run_id'', PStr run), (''task_id'', task),
       (''status'', PStr outcome), (''issued_at'', PStr now), (''policy_version'', version), (''route_decision_id'', did),
       (''artifact_hashes'', PList []), (''verification_results'', results), (''unresolved_claim_ids'', PList []),
       (''total_cost'', PDict [(''currency'', PStr ''USD''), (''amount'', cost)]), (''trace_id'', PStr (rr_trace_id rr)),
       (''ledger_head_hash'', head)]"
    using assms(1,2) by (auto simp: issue_receipt_def bindE_eq_Inr require_run_Inr Let_def)
  have w: "json_ok (rr_contract rr)" "json_ok (rr_decision rr)" "json_ok (rr_task_id rr)" using assms(3) by (simp_all add: writable_iff)
  have "event_list (rr_events rr) = Inr (run_entries rr)" using assms(4) event_list_dicts[of "run_entries rr"] by (simp add: run_verified_def)
  then have "json_ok head" using f(4) assms(2) run_events_json[OF assms(3,4), of "last (run_entries rr)"] json_ok_map_of[of "last (run_entries rr)"]
    by (auto simp: head_hash_def require_run_def py_index_Inr simp del: json_ok.simps py_index_PDict split: if_splits) simp
  moreover have "json_ok task" using json_ok_get[OF f(1) json_ok_or_empty] w by blast
  moreover have "json_ok version" "json_ok did"
    using json_ok_get[OF f(2) json_ok_or_empty] json_ok_get[OF f(3) json_ok_or_empty] w by simp_all
  ultimately show ?thesis using assms(5,6) by (simp add: r dict_ok_def)
qed

lemma files_ok_step:
  assumes "files_ok sha f disk" "op_writable op" shows "\<exists>disk'. files_ok sha (file_step sha f op) disk'"
proof (cases op)
  case (Begin run trace)
  then show ?thesis using files_ok_begin[OF assms(1)] assms(2) by simp
next
  case (Ledger uuid now run kind actor subject payload)
  show ?thesis
  proof (cases "ledger sha uuid now (fr_registry f) run kind actor subject payload")
    case (Inr p)
    obtain g' e where p: "p = (g', e)" by fastforce
    have ok: "registry_ok sha (fr_registry f)" using assms(1) by (simp add: files_ok_def)
    let ?rr' = "\<lambda>rr. rr\<lparr>rr_events := PList (map PDict (run_entries rr @ [e]))\<rparr>"
    obtain rr where rr: "map_of (rg_runs (fr_registry f)) run = Some rr" "run_verified sha rr" "g' = put_run (fr_registry f) run (?rr' rr)"
      "append_event sha (run_entries rr) (run_event uuid now run kind actor subject payload) = Inr (run_entries rr @ [e], e)"
      using ledger_Inr[OF Inr[unfolded p] ok] by blast
    have w: "writable rr" using files_ok_memory[OF assms(1) rr(1)] by blast
    have es: "\<forall>x\<in>set (run_entries rr). json_ok (PDict x)" using run_events_json[OF w rr(2)] by blast
    have "json_ok (PDict (run_event uuid now run kind actor subject payload))"
      using assms(2) by (auto simp: Ledger run_event_def dict_ok_def)
    then have "json_ok (PDict e)" by (rule append_event_json[OF rr(4) _ es])
    then have "writable (?rr' rr)" using w es by (auto simp: writable_iff)
    moreover have "run_change sha rr (?rr' rr)"
      using append_event_log[OF _ rr(4)] rr(2) run_verified_events run_entries_events unfolding run_change_def run_verified_def[of sha rr]
      by (force simp del: map_append)
    ultimately show ?thesis using stored_and_persisted[OF assms(1) rr(1)] rr(3) by (auto simp: Ledger file_ledger_def Inr p)
  qed (use assms(1) in \<open>auto simp: Ledger file_ledger_def\<close>)
next
  case (Receipt uuid now run outcome results cost)
  show ?thesis
  proof (cases "issue_receipt uuid now (fr_registry f) run outcome results cost")
    case (Inr p)
    obtain g' receipt where p: "p = (g', receipt)" by fastforce
    obtain rr where rr: "map_of (rg_runs (fr_registry f)) run = Some rr" "g' = put_run (fr_registry f) run (rr\<lparr>rr_receipt := receipt\<rparr>)"
      using issue_receipt_updates[OF Inr[unfolded p]] by blast
    note m = files_ok_memory[OF assms(1) rr(1)]
    have "json_ok receipt" using issue_receipt_json[OF Inr[unfolded p] rr(1), of sha] m assms(2) by (simp add: Receipt)
    then have "writable (rr\<lparr>rr_receipt := receipt\<rparr>)" using m by (simp add: writable_iff)
    moreover have "run_change sha rr (rr\<lparr>rr_receipt := receipt\<rparr>)" using m by (simp add: run_change_def)
    ultimately show ?thesis using stored_and_persisted[OF assms(1) rr(1)] rr(2) by (auto simp: Receipt file_issue_receipt_def Inr p)
  qed (use assms(1) in \<open>auto simp: Receipt file_issue_receipt_def\<close>)
next
  case (Intervene run reason)
  show ?thesis
  proof (cases "map_of (rg_runs (fr_registry f)) run")
    case (Some rr)
    then show ?thesis using files_ok_same[OF assms(1) Some, of "rr\<lparr>rr_human_intervention := True, rr_human_reason := Some reason\<rparr>"]
        files_ok_memory[OF assms(1) Some] by (auto simp: Intervene record_human_intervention_def require_run_def run_change_def persisted_def)
  qed (use assms(1) in \<open>auto simp: Intervene record_human_intervention_def require_run_def\<close>)
next
  case (Rework run reason)
  show ?thesis
  proof (cases "map_of (rg_runs (fr_registry f)) run")
    case (Some rr)
    then show ?thesis using files_ok_same[OF assms(1) Some, of "rr\<lparr>rr_rework := True, rr_rework_reason := Some reason\<rparr>"]
        files_ok_memory[OF assms(1) Some] by (auto simp: Rework record_rework_def require_run_def run_change_def persisted_def)
  qed (use assms(1) in \<open>auto simp: Rework record_rework_def require_run_def\<close>)
qed

section \<open>Properties\<close>

lemma files_ok_open:
  assumes "open_registry m [] = Inr f" shows "files_ok sha f []"
  using assms by (auto simp: open_registry_def load_existing_def new_registry_def files_ok_def registry_ok_def directory_def disk_ok_def bindE_eq_Inr split: if_splits)

lemma files_ok_steps: "files_ok sha f disk \<Longrightarrow> \<forall>op\<in>set ops. op_writable op \<Longrightarrow> \<exists>disk'. files_ok sha (foldl (file_step sha) f ops) disk'"
proof (induction ops arbitrary: f disk)
  case (Cons op ops)
  then obtain disk' where "files_ok sha (file_step sha f op) disk'" using files_ok_step[of sha f disk op] by auto
  then show ?case using Cons by simp
qed auto


text \<open>
  Every run keeps a verified ledger. Whatever calls a new registry receives, it stays within its
  bound, the ledger of each run it holds is accepted by the chain check, and a further event for
  such a run is always taken: the call returns and the ledger with it verifies again.
\<close>
theorem every_run_verifies:
  assumes "new_registry n = Inr g0" "g = run_all sha g0 ops"
  shows "int (length (rg_runs g)) \<le> n \<and>
    (\<forall>run rr. get_run g run = Some rr \<longrightarrow>
       (\<exists>es. event_list (rr_events rr) = Inr es \<and> verify_chain sha es = Inr (True, ''ok'') \<and>
          (\<forall>uuid now kind actor subject payload. \<exists>g' e. ledger sha uuid now g run kind actor subject payload = Inr (g', e) \<and>
             (\<exists>rr'. get_run g' run = Some rr' \<and> event_list (rr_events rr') = Inr (es @ [e]) \<and> verify_chain sha (es @ [e]) = Inr (True, ''ok'')))))"
proof -
  have ok: "registry_ok sha g" using registry_ok_all[OF new_registry_ok[OF assms(1)]] assms(2) by simp
  have max: "rg_max (run_step sha h op) = rg_max h" if "registry_ok sha h" for h op
    using step_change[OF that, of op] begin_runs[OF that] by (cases "is_begin op"; cases op) auto
  have "registry_ok sha h \<Longrightarrow> rg_max (run_all sha h ops) = rg_max h" for h
    unfolding run_all_def by (induction ops arbitrary: h) (auto simp: max registry_ok_step)
  then have "rg_max g = n" using assms new_registry_ok[OF assms(1), of sha] by (auto simp: new_registry_def split: if_splits)
  moreover have "\<exists>es. event_list (rr_events rr) = Inr es \<and> verify_chain sha es = Inr (True, ''ok'') \<and>
      (\<forall>uuid now kind actor subject payload. \<exists>g' e. ledger sha uuid now g run kind actor subject payload = Inr (g', e) \<and>
         (\<exists>rr'. get_run g' run = Some rr' \<and> event_list (rr_events rr') = Inr (es @ [e]) \<and> verify_chain sha (es @ [e]) = Inr (True, ''ok'')))"
    if "get_run g run = Some rr" for run rr
  proof (intro exI[of _ "run_entries rr"] conjI allI)
    have rr: "map_of (rg_runs g) run = Some rr" "run_verified sha rr" using ok that by (auto simp: get_run_def registry_ok_def)
    then show "verify_chain sha (run_entries rr) = Inr (True, ''ok'')" by (simp add: verify_chain_ok run_verified_def)
    show "event_list (rr_events rr) = Inr (run_entries rr)" using rr(2) event_list_dicts[of "run_entries rr"] by (simp add: run_verified_def)
    fix uuid now kind actor subject payload
    let ?e = "run_event uuid now run kind actor subject payload"
    obtain e' where e': "append_to_run sha rr ?e = Inr (rr\<lparr>rr_events := PList (map PDict (run_entries rr @ [e']))\<rparr>, e')"
      "valid_chain sha (run_entries rr @ [e'])" using append_to_run_verified[OF rr(2)] by metis
    then show "\<exists>g' e. ledger sha uuid now g run kind actor subject payload = Inr (g', e) \<and>
        (\<exists>rr'. get_run g' run = Some rr' \<and> event_list (rr_events rr') = Inr (run_entries rr @ [e]) \<and>
           verify_chain sha (run_entries rr @ [e]) = Inr (True, ''ok''))"
      using event_list_dicts[of "run_entries rr @ [e']"] rr(1)
      by (simp add: ledger_def require_run_def get_run_def verify_chain_ok del: map_append)
  qed
  ultimately show ?thesis using ok by (auto simp: registry_ok_def)
qed

text \<open>
  A receipt stays bound to its ledger. The head hash in an issued receipt is the one of the
  events the run had then, and whatever calls follow, short of beginning a run anew, those events
  stay the first ones of the run's ledger, which still verifies.
\<close>
theorem receipts_stay_bound:
  assumes "new_registry n = Inr g0" "issue_receipt uuid now (run_all sha g0 ops) run outcome results cost = Inr (g, receipt)"
    and "\<forall>op\<in>set later. \<not> is_begin op"
  shows "\<exists>es added rr. attr receipt ''ledger_head_hash'' PNone = PStr (head_of sha ''GENESIS'' es) \<and>
    attr receipt ''status'' PNone = PStr outcome \<and>
    get_run (run_all sha g later) run = Some rr \<and> event_list (rr_events rr) = Inr (es @ added) \<and>
    verify_chain sha (es @ added) = Inr (True, ''ok'')"
proof -
  let ?g1 = "run_all sha g0 ops"
  have ok1: "registry_ok sha ?g1" by (rule registry_ok_all[OF new_registry_ok[OF assms(1)]])
  obtain rr head where rr: "map_of (rg_runs ?g1) run = Some rr" "g = put_run ?g1 run (rr\<lparr>rr_receipt := receipt\<rparr>)"
    "head_hash ?g1 run = Inr head" "attr receipt ''ledger_head_hash'' PNone = head" "attr receipt ''status'' PNone = PStr outcome"
    using issue_receipt_updates[OF assms(2)] by blast
  let ?es = "run_entries rr"
  have v: "run_verified sha rr" "rr_run_id rr = run" using ok1 rr(1) by (auto simp: registry_ok_def)
  then have es: "event_list (rr_events rr) = Inr ?es" "valid_chain sha ?es" using event_list_dicts[of ?es] by (simp_all add: run_verified_def)
  have head: "head = PStr (head_of sha ''GENESIS'' ?es)"
    using rr(1,3) es linked_last_hash[of sha 0 "''GENESIS''" ?es]
    by (auto simp: head_hash_def require_run_def head_of_def valid_chain_def split: if_splits)
  have ok: "registry_ok sha g" unfolding rr(2) by (rule registry_ok_put[OF ok1 rr(1)]) (use v in \<open>simp add: run_change_def\<close>)
  have keeps: "\<exists>x. map_of (rg_runs (run_all sha h later)) run = Some x \<and> (\<exists>added. run_entries x = ?es @ added)"
    if "registry_ok sha h" "map_of (rg_runs h) run = Some y" "run_entries y = ?es @ more" for h y more
    using that assms(3)
  proof (induction later arbitrary: h y more)
    case (Cons op later)
    let ?h = "run_step sha h op"
    obtain y' more' where "map_of (rg_runs ?h) run = Some y'" "run_entries y' = ?es @ more'"
      using step_change[OF Cons.prems(1), of op] Cons.prems(2-4) by (auto simp: run_change_def) (metis append_assoc map_upd_Some_unfold map_of_dset put_run_simps(2))+
    then show ?case using Cons.IH[OF registry_ok_step[OF Cons.prems(1)]] Cons.prems(4) by (simp add: run_all_def)
  qed (auto simp: run_all_def)
  have "map_of (rg_runs g) run = Some (rr\<lparr>rr_receipt := receipt\<rparr>)" "run_entries (rr\<lparr>rr_receipt := receipt\<rparr>) = ?es @ []"
    by (simp_all add: rr(2))
  from keeps[OF ok this] obtain x added where x: "map_of (rg_runs (run_all sha g later)) run = Some x" "run_entries x = ?es @ added" by blast
  then have "run_verified sha x" using registry_ok_all[OF ok] unfolding registry_ok_def by blast
  then have "event_list (rr_events x) = Inr (?es @ added)" "valid_chain sha (?es @ added)"
    using event_list_dicts[of "run_entries x"] x(2) by (simp_all add: run_verified_def)
  then show ?thesis using rr(4,5) head x(1) by (auto simp: get_run_def verify_chain_ok)
qed

text \<open>
  Fallbacks stay apart by class. However fallbacks are recorded, each list of the recorder holds
  exactly the events of its class, in their order, the other classes share the last one, and
  nothing is lost; the summary counts the first two lists.
\<close>
definition record_call :: "fallbacks \<Rightarrow> string \<times> string \<times> pyval \<times> pyval \<times> string \<Rightarrow> fallbacks" where
  "record_call f = (\<lambda>(now, cls, source, target, reason). fst (record_fallback now f cls source target reason))"

definition call_event :: "string \<times> string \<times> pyval \<times> pyval \<times> string \<Rightarrow> pyval" where
  "call_event = (\<lambda>(now, cls, source, target, reason). fallback_event now cls source target reason)"

definition of_class :: "string \<Rightarrow> (string \<times> string \<times> pyval \<times> pyval \<times> string) list \<Rightarrow> pyval list" where
  "of_class cls calls = map call_event (filter (\<lambda>(_, c, _). c = cls) calls)"

lemma record_call_tuple: "record_call f (now, cls, source, target, reason) = fst (record_fallback now f cls source target reason)"
  by (simp add: record_call_def)

lemma fallbacks_apart:
  "foldl record_call no_fallbacks calls =
     \<lparr>fb_provider = of_class ''provider_fallback'' calls, fb_semantic = of_class ''semantic_fallback'' calls,
      fb_capability = of_class ''capability_fallback'' calls,
      fb_other = map call_event (filter (\<lambda>(_, c, _). c \<notin> {''provider_fallback'', ''semantic_fallback'', ''capability_fallback''}) calls)\<rparr>"
proof (induction calls rule: rev_induct)
  case (snoc c calls)
  obtain now cls source target reason where "c = (now, cls, source, target, reason)" by (cases c) auto
  then show ?case by (simp add: snoc record_call_tuple record_fallback_def Let_def of_class_def call_event_def)
qed (simp add: no_fallbacks_def of_class_def)

text \<open>The flags of a run are not written: they are gone after a restart.\<close>

lemma intervention_lost: "rr_human_intervention (persisted rr) = False" "rr_rework (persisted rr) = False"
  by (simp_all add: persisted_def)

section \<open>Witnesses\<close>

definition two_calls :: "run_op list" where
  "two_calls = [Begin ''r'' ''t'', Ledger ''u'' ''now'' ''r'' ''task_received'' (PDict []) (PStr ''s'') (PDict [(''k'', PInt 1)])]"


theorem every_run_verifies_witness:
  "\<exists>g0 rr es. new_registry 1 = Inr g0 \<and> get_run (run_all id g0 two_calls) ''r'' = Some rr \<and>
     event_list (rr_events rr) = Inr es \<and> verify_chain id es = Inr (True, ''ok'')"
proof -
  define g0 where "g0 = \<lparr>rg_runs = [], rg_max = 1\<rparr>"
  have g0: "new_registry 1 = Inr g0" by (simp add: new_registry_def g0_def)
  have "get_run (run_all id g0 two_calls) ''r'' \<noteq> None" unfolding g0_def by code_simp
  then obtain rr where "get_run (run_all id g0 two_calls) ''r'' = Some rr" by blast
  with every_run_verifies[OF g0 refl, of id two_calls] g0 show ?thesis by blast
qed

theorem receipts_stay_bound_witness:
  "\<exists>g0 g receipt rr es added. new_registry 1 = Inr g0 \<and>
     issue_receipt ''u'' ''now'' (run_all id g0 two_calls) ''r'' ''accepted'' (PList []) (PFloat (Fin 0)) = Inr (g, receipt) \<and>
     attr receipt ''ledger_head_hash'' PNone = PStr (head_of id ''GENESIS'' es) \<and>
     get_run (run_all id g [Rework ''r'' ''x'']) ''r'' = Some rr \<and> event_list (rr_events rr) = Inr (es @ added)"
proof -
  define g0 where "g0 = \<lparr>rg_runs = [], rg_max = 1\<rparr>"
  have g0: "new_registry 1 = Inr g0" by (simp add: new_registry_def g0_def)
  have "returns (issue_receipt ''u'' ''now'' (run_all id g0 two_calls) ''r'' ''accepted'' (PList []) (PFloat (Fin 0)))"
    unfolding g0_def by code_simp
  then obtain g receipt where g: "issue_receipt ''u'' ''now'' (run_all id g0 two_calls) ''r'' ''accepted'' (PList []) (PFloat (Fin 0)) = Inr (g, receipt)"
    by (auto simp: returns_iff)
  from receipts_stay_bound[OF g0 g, of "[Rework ''r'' ''x'']"] g0 g show ?thesis by auto
qed

end
