(* ===== verification/Run_Store.thy ===== *)
theory Run_Store
  imports Runs
begin

text \<open>
  The tables of runs and ledger events, \<^verbatim>\<open>reference/gateway/database.py\<close>, and the registry that
  writes to them, \<^verbatim>\<open>db_registry.py\<close>. A table is the list of its rows in the order they were
  written, a row a dict from its columns to values. Of SQLite the model states what the statements
  of the code rely on: which values can be bound, \<^verbatim>\<open>NOT NULL\<close>, foreign keys, \<^verbatim>\<open>INSERT OR REPLACE\<close>
  with its cascade, \<^verbatim>\<open>LIKE\<close>, \<^verbatim>\<open>ORDER BY\<close>, \<^verbatim>\<open>LIMIT\<close>. A value is stored as it is bound; the code
  writes values of the type of their column, so no conversion by affinity happens.
\<close>

type_synonym row = pydict

section \<open>Statements\<close>

definition sql_bind :: "pyval \<Rightarrow> pyval res" where
  "sql_bind v = (case v of
     PBool b \<Rightarrow> Inr (PInt (if b then 1 else 0))
   | PInt i \<Rightarrow> if - (2 ^ 63) \<le> i \<and> i < 2 ^ 63 then Inr v else Inl OverflowError
   | PFloat f \<Rightarrow> Inr (if f = NaN then PNone else v)
   | PList _ \<Rightarrow> Inl (DbError ''unsupported type'')
   | PDict _ \<Rightarrow> Inl (DbError ''unsupported type'')
   | _ \<Rightarrow> Inr v)"

definition bind_row :: "row \<Rightarrow> row res" where
  "bind_row r = mapE (\<lambda>(k, v). bindE (sql_bind v) (\<lambda>w. Inr (k, w))) r"

definition insert_or_replace :: "string \<Rightarrow> row \<Rightarrow> row list \<Rightarrow> row list" where
  "insert_or_replace key r rows = filter (\<lambda>x. dget r key = PNone \<or> dget x key \<noteq> dget r key) rows @ [r]"

definition has_key :: "string \<Rightarrow> pyval \<Rightarrow> row list \<Rightarrow> bool" where
  "has_key key v rows = list_ex (\<lambda>x. v \<noteq> PNone \<and> dget x key = v) rows"

definition not_null :: "string list \<Rightarrow> row \<Rightarrow> bool" where
  "not_null cols r = list_all (\<lambda>c. dget r c \<noteq> PNone) cols"

definition sql_limit :: "int \<Rightarrow> int \<Rightarrow> 'a list \<Rightarrow> 'a list" where
  "sql_limit limit offset xs = (let ys = drop (nat offset) xs in if limit < 0 then ys else take (nat limit) ys)"

definition text_of :: "row \<Rightarrow> string \<Rightarrow> string" where
  "text_of r k = (case dget r k of PStr s \<Rightarrow> s | _ \<Rightarrow> [])"

definition int_of_col :: "row \<Rightarrow> string \<Rightarrow> int" where
  "int_of_col r k = (case dget r k of PInt i \<Rightarrow> i | _ \<Rightarrow> 0)"

text \<open>\<^verbatim>\<open>text LIKE pattern\<close>: \<open>%\<close> stands for any text, \<open>_\<close> for one character, ASCII letters match in
  either case.\<close>

definition like_char :: "char \<Rightarrow> char" where
  "like_char c = (let n = (of_char c :: nat) in if 65 \<le> n \<and> n \<le> 90 then char_of (n + 32) else c)"

fun like :: "string \<Rightarrow> string \<Rightarrow> bool" where
  "like [] s = (s = [])"
| "like (p # ps) [] = (p = CHR ''%'' \<and> like ps [])"
| "like (p # ps) (c # s) =
     (if p = CHR ''%'' then like ps (c # s) \<or> like (p # ps) s
      else (p = CHR ''_'' \<or> like_char p = like_char c) \<and> like ps s)"

section \<open>Runs and events\<close>

record database =
  db_runs :: "row list"
  db_events :: "row list"
  db_tenants :: "row list"

definition empty_database :: database where
  "empty_database = \<lparr>db_runs = [], db_events = [], db_tenants = []\<rparr>"

definition json_column :: "pydict \<Rightarrow> string \<Rightarrow> pyval" where
  "json_column d k = (let v = dict_get d k PNone in if v = PNone then PNone else PStr (dumps True v))"

definition run_row :: "string \<Rightarrow> pydict \<Rightarrow> row res" where
  "run_row now d =
     bindE (py_int (dict_get d ''required_human_intervention'' (PBool False))) (\<lambda>human.
     bindE (py_int (dict_get d ''required_rework'' (PBool False))) (\<lambda>rework.
     bindE (py_int (dict_get d ''is_local'' (PBool False))) (\<lambda>local.
     bindE (py_int (dict_get d ''cache_hit'' (PBool False))) (\<lambda>hit.
     bind_row
       [(''run_id'', dict_get d ''run_id'' PNone), (''trace_id'', dict_get d ''trace_id'' PNone), (''task_id'', dict_get d ''task_id'' PNone),
        (''status'', dict_get d ''status'' (PStr ''pending'')), (''created_at'', dict_get d ''created_at'' (PStr now)),
        (''completed_at'', dict_get d ''completed_at'' PNone), (''total_tokens'', dict_get d ''total_tokens'' (PInt 0)),
        (''prompt_tokens'', dict_get d ''prompt_tokens'' (PInt 0)), (''completion_tokens'', dict_get d ''completion_tokens'' (PInt 0)),
        (''actual_cost_usd'', dict_get d ''actual_cost_usd'' (PFloat (Fin 0))), (''latency_ms'', dict_get d ''latency_ms'' (PFloat (Fin 0))),
        (''model_id'', dict_get d ''model_id'' PNone), (''required_human_intervention'', PInt human), (''required_rework'', PInt rework),
        (''human_intervention_reason'', dict_get d ''human_intervention_reason'' PNone), (''rework_reason'', dict_get d ''rework_reason'' PNone),
        (''risk_class'', dict_get d ''risk_class'' (PStr ''low'')), (''is_local'', PInt local), (''cache_hit'', PInt hit),
        (''decision_trace'', json_column d ''decision_trace''), (''receipt'', json_column d ''receipt''),
        (''openrouter_request'', json_column d ''openrouter_request''), (''openrouter_response'', json_column d ''openrouter_response'')]))))"

text \<open>A replaced run is deleted first, and its row of the tenants goes with it.\<close>

definition save_run :: "string \<Rightarrow> database \<Rightarrow> pydict \<Rightarrow> database res" where
  "save_run now db d =
     bindE (run_row now d) (\<lambda>r.
     if \<not> not_null [''trace_id'', ''created_at''] r then Inl (DbError ''NOT NULL constraint failed'') else
     let r' = (if dget r ''status'' = PNone then dset ''status'' (PStr ''pending'') r else r); run = dget r ''run_id'' in
     Inr (db\<lparr>db_runs := insert_or_replace ''run_id'' r' (db_runs db),
             db_tenants := (if has_key ''run_id'' run (db_runs db) then filter (\<lambda>t. dget t ''run_id'' \<noteq> run) (db_tenants db) else db_tenants db)\<rparr>))"

definition set_run_tenant :: "database \<Rightarrow> string \<Rightarrow> string \<Rightarrow> database res" where
  "set_run_tenant db run tenant =
     (if has_key ''run_id'' (PStr run) (db_runs db)
      then Inr (db\<lparr>db_tenants := insert_or_replace ''run_id'' [(''run_id'', PStr run), (''tenant_id'', PStr tenant)] (db_tenants db)\<rparr>)
      else Inl (DbError ''FOREIGN KEY constraint failed''))"

definition get_run_tenant :: "database \<Rightarrow> string \<Rightarrow> string" where
  "get_run_tenant db run = (case find (\<lambda>t. dget t ''run_id'' = PStr run) (db_tenants db) of
     None \<Rightarrow> ''default'' | Some t \<Rightarrow> py_str (dget t ''tenant_id''))"

text \<open>A column that holds JSON comes back parsed, unless it is empty or no JSON.\<close>

definition parse_field :: "string \<Rightarrow> row \<Rightarrow> row" where
  "parse_field k d = (case dget d k of
     PStr s \<Rightarrow> if s = [] then d else (case json_loads s of Inr v \<Rightarrow> dset k v d | Inl _ \<Rightarrow> d)
   | _ \<Rightarrow> d)"

definition row_to_dict :: "row \<Rightarrow> pydict" where
  "row_to_dict r = fold parse_field [''decision_trace'', ''receipt'', ''openrouter_request'', ''openrouter_response''] r"

definition get_run_row :: "database \<Rightarrow> string \<Rightarrow> pydict option" where
  "get_run_row db run = map_option row_to_dict (find (\<lambda>r. dget r ''run_id'' = PStr run) (db_runs db))"

text \<open>\<^verbatim>\<open>ORDER BY created_at DESC\<close>; of rows with the same time the last written comes first.\<close>

definition list_runs :: "database \<Rightarrow> int \<Rightarrow> int \<Rightarrow> string option \<Rightarrow> pydict list" where
  "list_runs db limit offset status_filter =
     (let rows = (case status_filter of None \<Rightarrow> db_runs db | Some s \<Rightarrow>
            if s = [] then db_runs db else filter (\<lambda>r. dget r ''status'' = PStr s) (db_runs db))
      in map row_to_dict (sql_limit limit offset (rev (sort_key (\<lambda>r. text_of r ''created_at'') rows))))"

definition event_row :: "string \<Rightarrow> pydict \<Rightarrow> row res" where
  "event_row now e = bind_row
     [(''event_id'', dict_get e ''event_id'' PNone), (''run_id'', dict_get e ''run_id'' PNone), (''sequence'', dict_get e ''sequence'' (PInt 0)),
      (''timestamp'', dict_get e ''timestamp'' (PStr now)), (''actor'', PStr (dumps True (dict_get e ''actor'' (PDict [])))),
      (''event_type'', dict_get e ''event_type'' PNone), (''subject_id'', dict_get e ''subject_id'' (PStr [])),
      (''payload'', PStr (dumps True (dict_get e ''payload'' (PDict [])))),
      (''previous_event_hash'', dict_get e ''previous_event_hash'' (PStr ''GENESIS'')), (''event_hash'', dict_get e ''event_hash'' (PStr []))]"

definition save_ledger_event :: "string \<Rightarrow> database \<Rightarrow> pydict \<Rightarrow> database res" where
  "save_ledger_event now db e =
     bindE (event_row now e) (\<lambda>r.
     if \<not> not_null [''run_id'', ''sequence'', ''timestamp'', ''event_type'', ''subject_id'', ''previous_event_hash'', ''event_hash''] r
     then Inl (DbError ''NOT NULL constraint failed'')
     else if \<not> has_key ''run_id'' (dget r ''run_id'') (db_runs db) then Inl (DbError ''FOREIGN KEY constraint failed'')
     else Inr (db\<lparr>db_events := insert_or_replace ''event_id'' r (db_events db)\<rparr>))"

definition ledger_row_to_dict :: "row \<Rightarrow> pydict" where
  "ledger_row_to_dict r = fold parse_field [''actor'', ''payload''] r"

definition wanted :: "string option \<Rightarrow> (string \<Rightarrow> row \<Rightarrow> bool) \<Rightarrow> row \<Rightarrow> bool" where
  "wanted arg p r = (case arg of None \<Rightarrow> True | Some s \<Rightarrow> s = [] \<or> p s r)"

definition get_ledger_events ::
  "database \<Rightarrow> string option \<Rightarrow> string option \<Rightarrow> string option \<Rightarrow> string option \<Rightarrow> string option \<Rightarrow> int \<Rightarrow> int \<Rightarrow> pydict list" where
  "get_ledger_events db run event_type actor from_ts to_ts limit offset =
     (let rows = filter (\<lambda>r. wanted run (\<lambda>s r. dget r ''run_id'' = PStr s) r \<and>
            wanted event_type (\<lambda>s r. dget r ''event_type'' = PStr s) r \<and>
            wanted actor (\<lambda>s r. like (''%'' @ [CHR 0x22] @ ''id'' @ [CHR 0x22] @ '': '' @ [CHR 0x22] @ s @ [CHR 0x22] @ ''%'') (text_of r ''actor'')) r \<and>
            wanted from_ts (\<lambda>s r. s \<le> text_of r ''timestamp'') r \<and> wanted to_ts (\<lambda>s r. text_of r ''timestamp'' \<le> s) r) (db_events db)
      in map ledger_row_to_dict (sql_limit limit offset (sort_key (\<lambda>r. text_of r ''timestamp'') rows)))"

definition get_ledger_chain :: "database \<Rightarrow> string \<Rightarrow> pydict list" where
  "get_ledger_chain db run =
     map ledger_row_to_dict (sort_key (\<lambda>r. int_of_col r ''sequence'') (filter (\<lambda>r. dget r ''run_id'' = PStr run) (db_events db)))"

definition verify_ledger_chain :: "(string \<Rightarrow> string) \<Rightarrow> database \<Rightarrow> string \<Rightarrow> pydict res" where
  "verify_ledger_chain sha db run =
     (let es = get_ledger_chain db run in
      bindE (verify_chain sha es) (\<lambda>(valid, message).
      Inr [(''run_id'', PStr run), (''valid'', PBool valid), (''message'', PStr message), (''event_count'', PInt (int (length es)))]))"

end
