(* ===== verification/Db_Registry.thy ===== *)
theory Db_Registry
  imports Run_Store
begin

text \<open>
  \<^verbatim>\<open>reference/gateway/db_registry.py\<close>: the run registry that writes every call through to the
  database. The memory changes first: a call whose statement fails still leaves the record changed,
  so each operation returns the state it leaves beside its result.
\<close>

record db_registry =
  dr_registry :: run_registry
  dr_db :: database

definition opt_str :: "string option \<Rightarrow> pyval" where
  "opt_str s = (case s of None \<Rightarrow> PNone | Some t \<Rightarrow> PStr t)"

text \<open>The dict of a record that the registry hands to \<open>save_run\<close>, with the fields that differ by call.\<close>

definition run_dict :: "run_record \<Rightarrow> string \<Rightarrow> pydict \<Rightarrow> pydict" where
  "run_dict rr outcome extra =
     [(''run_id'', PStr (rr_run_id rr)), (''trace_id'', PStr (rr_trace_id rr)), (''task_id'', rr_task_id rr), (''status'', PStr outcome),
      (''total_tokens'', PInt (rr_total_tokens rr)), (''prompt_tokens'', PInt (rr_prompt_tokens rr)),
      (''completion_tokens'', PInt (rr_completion_tokens rr)), (''actual_cost_usd'', PFloat (rr_actual_cost_usd rr)),
      (''latency_ms'', PFloat (rr_latency_ms rr)), (''required_human_intervention'', PBool (rr_human_intervention rr)),
      (''required_rework'', PBool (rr_rework rr)), (''human_intervention_reason'', opt_str (rr_human_reason rr)),
      (''rework_reason'', opt_str (rr_rework_reason rr)), (''is_local'', PBool False), (''cache_hit'', PBool False),
      (''decision_trace'', rr_decision_trace rr), (''receipt'', rr_receipt rr),
      (''openrouter_request'', rr_request rr), (''openrouter_response'', rr_response rr)] @ extra"

text \<open>What \<open>begin\<close> and the two flags write: no outcome, no model, the lowest risk class.\<close>

definition pending_dict :: "string \<Rightarrow> run_record \<Rightarrow> pydict" where
  "pending_dict now rr = run_dict rr ''pending''
     [(''created_at'', PStr now), (''model_id'', PNone), (''risk_class'', PStr ''low'')]"

definition write_run :: "string \<Rightarrow> db_registry \<Rightarrow> pydict \<Rightarrow> 'a \<Rightarrow> db_registry \<times> 'a res" where
  "write_run now s d x = (case save_run now (dr_db s) d of Inl e \<Rightarrow> (s, Inl e) | Inr db \<Rightarrow> (s\<lparr>dr_db := db\<rparr>, Inr x))"

definition db_begin :: "string \<Rightarrow> db_registry \<Rightarrow> string \<Rightarrow> string \<Rightarrow> db_registry \<times> run_record res" where
  "db_begin now s run trace =
     (let (g, rr) = begin_registry (dr_registry s) run trace in write_run now (s\<lparr>dr_registry := g\<rparr>) (pending_dict now rr) rr)"

definition db_ledger ::
  "(string \<Rightarrow> string) \<Rightarrow> string \<Rightarrow> string \<Rightarrow> db_registry \<Rightarrow> string \<Rightarrow> string \<Rightarrow> pyval \<Rightarrow> pyval \<Rightarrow> pyval \<Rightarrow> db_registry \<times> pydict res" where
  "db_ledger sha uuid now s run event_type actor subject payload =
     (case ledger sha uuid now (dr_registry s) run event_type actor subject payload of
        Inl e \<Rightarrow> (s, Inl e)
      | Inr (g, event) \<Rightarrow> (case save_ledger_event now (dr_db s) event of
          Inl e \<Rightarrow> (s\<lparr>dr_registry := g\<rparr>, Inl e)
        | Inr db \<Rightarrow> (\<lparr>dr_registry = g, dr_db = db\<rparr>, Inr event)))"

text \<open>The model of the decided plan and the risk class of the contract.\<close>

definition receipt_model :: "run_record \<Rightarrow> pyval res" where
  "receipt_model rr =
     (if truthy (rr_decision rr)
      then bindE (py_get (rr_decision rr) ''selected_plan'' (PDict [])) (\<lambda>plan. py_get plan ''model_id'' PNone)
      else Inr PNone)"

definition receipt_risk :: "run_record \<Rightarrow> pyval res" where
  "receipt_risk rr = (if truthy (rr_contract rr) then py_get (rr_contract rr) ''risk_class'' (PStr ''low'') else Inr (PStr ''low''))"

definition db_issue_receipt ::
  "string \<Rightarrow> string \<Rightarrow> string \<Rightarrow> db_registry \<Rightarrow> string \<Rightarrow> string \<Rightarrow> pyval \<Rightarrow> pyval \<Rightarrow> db_registry \<times> pyval res" where
  "db_issue_receipt uuid issued now s run outcome results cost =
     (case issue_receipt uuid issued (dr_registry s) run outcome results cost of
        Inl e \<Rightarrow> (s, Inl e)
      | Inr (g, receipt) \<Rightarrow>
          (let s' = s\<lparr>dr_registry := g\<rparr> in
           case get_run g run of None \<Rightarrow> (s', Inr receipt)
           | Some rr \<Rightarrow> (case bindE (receipt_model rr) (\<lambda>m. bindE (receipt_risk rr) (\<lambda>r. Inr (m, r))) of
               Inl e \<Rightarrow> (s', Inl e)
             | Inr (m, r) \<Rightarrow> write_run now s' (run_dict rr outcome
                 [(''created_at'', PStr now), (''completed_at'', PStr now), (''model_id'', m), (''risk_class'', r)]) receipt)))"

definition db_flag :: "(run_registry \<Rightarrow> string \<Rightarrow> string \<Rightarrow> run_registry res) \<Rightarrow> string \<Rightarrow> db_registry \<Rightarrow> string \<Rightarrow> string \<Rightarrow> db_registry \<times> unit res" where
  "db_flag record_flag now s run reason =
     (case record_flag (dr_registry s) run reason of
        Inl e \<Rightarrow> (s, Inl e)
      | Inr g \<Rightarrow> (case get_run g run of None \<Rightarrow> (s\<lparr>dr_registry := g\<rparr>, Inr ())
          | Some rr \<Rightarrow> write_run now (s\<lparr>dr_registry := g\<rparr>) (pending_dict now rr) ()))"

definition db_record_human_intervention :: "string \<Rightarrow> db_registry \<Rightarrow> string \<Rightarrow> string \<Rightarrow> db_registry \<times> unit res" where
  "db_record_human_intervention = db_flag record_human_intervention"

definition db_record_rework :: "string \<Rightarrow> db_registry \<Rightarrow> string \<Rightarrow> string \<Rightarrow> db_registry \<times> unit res" where
  "db_record_rework = db_flag record_rework"

text \<open>A field of a row that was parsed already, or a text to parse; a text that is no JSON is ignored.\<close>

definition restored :: "pydict \<Rightarrow> string \<Rightarrow> pyval \<Rightarrow> pyval" where
  "restored d k old = (let v = dict_get d k PNone in
     if \<not> truthy v then old else (case v of PStr t \<Rightarrow> (case json_loads t of Inr w \<Rightarrow> w | Inl _ \<Rightarrow> old) | _ \<Rightarrow> v))"

definition str_opt :: "pyval \<Rightarrow> string option" where
  "str_opt v = (case v of PStr t \<Rightarrow> Some t | _ \<Rightarrow> None)"

definition record_from_db :: "database \<Rightarrow> pydict \<Rightarrow> run_record res" where
  "record_from_db db d =
     (let run = py_str (dict_get d ''run_id'' (PStr [])) in
      bindE (py_int (dict_get d ''total_tokens'' (PInt 0))) (\<lambda>tt.
      bindE (py_int (dict_get d ''prompt_tokens'' (PInt 0))) (\<lambda>pt.
      bindE (py_int (dict_get d ''completion_tokens'' (PInt 0))) (\<lambda>ct.
      bindE (py_float (dict_get d ''actual_cost_usd'' (PFloat (Fin 0)))) (\<lambda>cost.
      bindE (py_float (dict_get d ''latency_ms'' (PFloat (Fin 0)))) (\<lambda>latency.
      Inr ((blank_record run (py_str (dict_get d ''trace_id'' (PStr []))))
        \<lparr>rr_tenant_id := get_run_tenant db run, rr_task_id := dict_get d ''task_id'' PNone,
         rr_total_tokens := tt, rr_prompt_tokens := pt, rr_completion_tokens := ct, rr_actual_cost_usd := cost, rr_latency_ms := latency,
         rr_human_intervention := truthy (dict_get d ''required_human_intervention'' (PBool False)),
         rr_rework := truthy (dict_get d ''required_rework'' (PBool False)),
         rr_human_reason := str_opt (dict_get d ''human_intervention_reason'' PNone), rr_rework_reason := str_opt (dict_get d ''rework_reason'' PNone),
         rr_decision_trace := restored d ''decision_trace'' (PList []), rr_receipt := restored d ''receipt'' PNone,
         rr_request := restored d ''openrouter_request'' PNone, rr_response := restored d ''openrouter_response'' PNone\<rparr>)))))))"

text \<open>A run that is not in memory is read from the database and put back.\<close>

definition db_get :: "db_registry \<Rightarrow> string \<Rightarrow> (db_registry \<times> run_record option) res" where
  "db_get s run = (case get_run (dr_registry s) run of Some rr \<Rightarrow> Inr (s, Some rr)
     | None \<Rightarrow> (case get_run_row (dr_db s) run of None \<Rightarrow> Inr (s, None)
        | Some d \<Rightarrow> bindE (record_from_db (dr_db s) d) (\<lambda>rr. Inr (s\<lparr>dr_registry := trim (put_run (dr_registry s) run rr)\<rparr>, Some rr))))"

definition db_get_receipt :: "db_registry \<Rightarrow> string \<Rightarrow> pyval" where
  "db_get_receipt s run =
     (let receipt = get_receipt (dr_registry s) run in
      if receipt \<noteq> PNone then receipt
      else (case get_run_row (dr_db s) run of None \<Rightarrow> PNone | Some d \<Rightarrow> restored d ''receipt'' PNone))"

section \<open>A chain read back verifies as it did\<close>

lemma sort_key_same:
  assumes "dict_ok d" "dict_ok e" "map_of d = map_of e"
  shows "sort_key fst d = sort_key fst e"
proof -
  have s: "set d = set e"
    using map_of_iff_in_set[OF assms(1)] map_of_iff_in_set[OF assms(2)] assms(3) by (auto simp: set_eq_iff)
  have "inj_on fst (set (sort_key fst d) \<union> set (sort_key fst e))"
    using assms(1) s by (auto simp: dict_ok_def distinct_map)
  then show ?thesis
    by (rule map_sorted_distinct_set_unique) (use assms s in \<open>auto simp: dict_ok_def distinct_map\<close>)
qed

lemma event_hash_same: "dict_ok d \<Longrightarrow> dict_ok e \<Longrightarrow> map_of d = map_of e \<Longrightarrow> event_hash sha d = event_hash sha e"
  using sort_key_same[of "ddel ''event_hash'' d" "ddel ''event_hash'' e"]
  by (simp add: event_hash_def canonical_bytes_def json_compact_def json_dumps.simps[of _ _ _ "PDict _"] delete_conv)

definition same_event :: "pydict \<Rightarrow> pydict \<Rightarrow> bool" where
  "same_event d e = (dict_ok d \<and> dict_ok e \<and> map_of d = map_of e)"

lemma verify_from_same: "list_all2 same_event ds es \<Longrightarrow> verify_from sha i p ds = verify_from sha i p es"
proof (induction ds es arbitrary: i p rule: list_all2_induct)
  case (Cons d ds e es)
  have "map_of d = map_of e" "event_hash sha d = event_hash sha e" using Cons.hyps(1) event_hash_same by (auto simp: same_event_def)
  then show ?case using Cons.IH by (simp add: dget_def)
qed simp

section \<open>The rows of events\<close>

text \<open>An event of the ledger of a run at a position, as the registry builds it.\<close>

definition built_event :: "string \<Rightarrow> nat \<Rightarrow> string \<Rightarrow> pydict \<Rightarrow> bool" where
  "built_event run j eid e = (\<exists>now kind actor subject payload prev h. json_ok actor \<and> json_ok payload \<and>
     e = [(''event_id'', PStr eid), (''run_id'', PStr run), (''timestamp'', PStr now), (''actor'', actor), (''event_type'', PStr kind),
       (''subject_id'', PStr subject), (''payload'', payload), (''sequence'', PInt (int j)), (''previous_event_hash'', PStr prev), (''event_hash'', PStr h)])"

definition row_of :: "pydict \<Rightarrow> row" where
  "row_of e = (case event_row [] e of Inr r \<Rightarrow> r | Inl _ \<Rightarrow> [])"

lemma dumps_nonempty: "json_ok v \<Longrightarrow> dumps a v \<noteq> []"
  using starts_text[of v a "'', ''" "'': ''"] by (simp add: dumps_def starts_def)

lemma parse_json_field: "dget d k = PStr (dumps a v) \<Longrightarrow> json_ok v \<Longrightarrow> parse_field k d = dset k v d"
  using loads_dumps[of v a] dumps_nonempty[of v a] by (simp add: parse_field_def)

lemma built_row:
  assumes "built_event run j eid e" "int j < 2 ^ 63"
  shows "event_row now e = Inr (row_of e)" "dget (row_of e) ''run_id'' = PStr run" "dget (row_of e) ''event_id'' = PStr eid"
    "int_of_col (row_of e) ''sequence'' = int j" "same_event (ledger_row_to_dict (row_of e)) e"
    "not_null [''run_id'', ''sequence'', ''timestamp'', ''event_type'', ''subject_id'', ''previous_event_hash'', ''event_hash''] (row_of e)"
proof -
  obtain time kind actor subject payload prev h where ok: "json_ok actor" "json_ok payload"
    and e: "e = [(''event_id'', PStr eid), (''run_id'', PStr run), (''timestamp'', PStr time), (''actor'', actor), (''event_type'', PStr kind),
       (''subject_id'', PStr subject), (''payload'', payload), (''sequence'', PInt (int j)), (''previous_event_hash'', PStr prev), (''event_hash'', PStr h)]"
    using assms(1) unfolding built_event_def by blast
  let ?r = "[(''event_id'', PStr eid), (''run_id'', PStr run), (''sequence'', PInt (int j)), (''timestamp'', PStr time), (''actor'', PStr (dumps True actor)),
      (''event_type'', PStr kind), (''subject_id'', PStr subject), (''payload'', PStr (dumps True payload)), (''previous_event_hash'', PStr prev), (''event_hash'', PStr h)]"
  have "event_row now e = Inr ?r" for now
    using assms(2) by (simp add: e event_row_def dict_get_def bind_row_def sql_bind_def)
  then have r: "event_row now e = Inr ?r" "row_of e = ?r" for now by (simp_all add: row_of_def)
  show "event_row now e = Inr (row_of e)" "dget (row_of e) ''run_id'' = PStr run" "dget (row_of e) ''event_id'' = PStr eid"
    "int_of_col (row_of e) ''sequence'' = int j" by (simp_all add: r dget_def int_of_col_def)
  show "not_null [''run_id'', ''sequence'', ''timestamp'', ''event_type'', ''subject_id'', ''previous_event_hash'', ''event_hash''] (row_of e)"
    by (simp add: r dget_def not_null_def)
  let ?d = "[(''event_id'', PStr eid), (''run_id'', PStr run), (''sequence'', PInt (int j)), (''timestamp'', PStr time), (''actor'', actor),
      (''event_type'', PStr kind), (''subject_id'', PStr subject), (''payload'', payload), (''previous_event_hash'', PStr prev), (''event_hash'', PStr h)]"
  have "parse_field ''actor'' ?r = dset ''actor'' actor ?r"
    by (rule parse_json_field[of _ _ True, OF _ ok(1)]) (simp add: dget_def)
  moreover have "parse_field ''payload'' (dset ''actor'' actor ?r) = dset ''payload'' payload (dset ''actor'' actor ?r)"
    by (rule parse_json_field[of _ _ True, OF _ ok(2)]) (simp add: dget_def)
  moreover have "dset ''payload'' payload (dset ''actor'' actor ?r) = ?d" by simp
  ultimately have "ledger_row_to_dict ?r = ?d" by (simp only: ledger_row_to_dict_def fold.simps id_apply comp_def)
  moreover have "dict_ok ?d" "dict_ok e" by (simp_all add: dict_ok_def e)
  moreover have "set ?d = set e" by (simp add: e set_eq_subset)
  ultimately show "same_event (ledger_row_to_dict (row_of e)) e"
    using map_of_inject_set[of ?d e] by (simp only: r same_event_def dict_ok_def)
qed

text \<open>What the ledger call adds to the verified ledger of a run.\<close>

lemma ledger_builds:
  assumes "append_event sha es (run_event uuid now run kind actor (PStr subject) payload) = Inr (es @ [e], e)" "valid_chain sha es"
    "json_ok actor" "json_ok payload"
  shows "built_event run (length es) (''event-'' @ uuid) e"
proof -
  have p: "(if es = [] then Inr (PStr ''GENESIS'') else py_index (PDict (last es)) ''event_hash'') = Inr (PStr (head_of sha ''GENESIS'' es))"
    using assms(2) linked_last_hash[of sha 0 "''GENESIS''" es] by (auto simp: valid_chain_def head_of_def)
  show ?thesis using assms(1,3,4) unfolding append_event_def p built_event_def by (auto simp: run_event_def Let_def)
qed

section \<open>The database follows the memory\<close>

text \<open>A call with the time its row is written.\<close>

fun db_step :: "(string \<Rightarrow> string) \<Rightarrow> db_registry \<Rightarrow> string \<times> run_op \<Rightarrow> db_registry" where
  "db_step sha s (now, Begin run trace) = fst (db_begin now s run trace)"
| "db_step sha s (now, Ledger uuid t run kind actor subject payload) = fst (db_ledger sha uuid t s run kind actor subject payload)"
| "db_step sha s (now, Receipt uuid t run outcome results cost) = fst (db_issue_receipt uuid t now s run outcome results cost)"
| "db_step sha s (now, Intervene run reason) = fst (db_record_human_intervention now s run reason)"
| "db_step sha s (now, Rework run reason) = fst (db_record_rework now s run reason)"

definition db_steps :: "(string \<Rightarrow> string) \<Rightarrow> db_registry \<Rightarrow> (string \<times> run_op) list \<Rightarrow> db_registry" where
  "db_steps sha s ops = foldl (db_step sha) s ops"

fun begun_runs :: "(string \<times> run_op) list \<Rightarrow> string list" where
  "begun_runs [] = []"
| "begun_runs ((_, Begin run _) # ops) = run # begun_runs ops"
| "begun_runs (_ # ops) = begun_runs ops"

fun event_ids :: "(string \<times> run_op) list \<Rightarrow> string list" where
  "event_ids [] = []"
| "event_ids ((_, Ledger uuid _ _ _ _ _ _) # ops) = (''event-'' @ uuid) # event_ids ops"
| "event_ids (_ # ops) = event_ids ops"

text \<open>What a call records can be stored: a subject is a text, the rest is JSON.\<close>

fun storable :: "string \<times> run_op \<Rightarrow> bool" where
  "storable (_, Ledger _ _ _ _ actor subject payload) = (json_ok actor \<and> json_ok payload \<and> (\<exists>x. subject = PStr x))"
| "storable _ = True"

lemma begun_runs_append [simp]: "begun_runs (xs @ ys) = begun_runs xs @ begun_runs ys"
  by (induction xs rule: begun_runs.induct) auto

lemma event_ids_append [simp]: "event_ids (xs @ ys) = event_ids xs @ event_ids ys"
  by (induction xs rule: event_ids.induct) auto

lemma write_run_registry [simp]: "dr_registry (fst (write_run now s d x)) = dr_registry s"
  by (simp add: write_run_def split: sum.splits)

text \<open>Whatever the database answers, the memory takes the steps of the plain registry.\<close>

lemma db_step_registry: "dr_registry (db_step sha s p) = run_step sha (dr_registry s) (snd p)"
proof -
  obtain now op where p: "p = (now, op)" by fastforce
  show ?thesis
    by (cases op) (auto simp: p db_begin_def db_ledger_def db_issue_receipt_def db_record_human_intervention_def db_record_rework_def
        db_flag_def or_same_def bindE_def Let_def case_prod_beta split: sum.splits option.splits)
qed

text \<open>Rows of runs are only ever added or replaced, and no call but \<open>ledger\<close> touches the events.\<close>

definition grown :: "database \<Rightarrow> database \<Rightarrow> bool" where
  "grown db db' = (db_events db' = db_events db \<and> (\<forall>v. has_key ''run_id'' v (db_runs db) \<longrightarrow> has_key ''run_id'' v (db_runs db')))"

lemma has_key_replace: "has_key k v rows \<Longrightarrow> has_key k v (insert_or_replace k r rows)"
  by (auto simp: has_key_def insert_or_replace_def list_ex_iff)

lemma save_run_grown: "save_run now db d = Inr db' \<Longrightarrow> grown db db'"
  by (auto simp: save_run_def bindE_eq_Inr grown_def Let_def has_key_replace split: if_splits)

lemma grown_refl [simp]: "grown db db"
  by (simp add: grown_def)

lemma write_run_grown: "grown (dr_db s) (dr_db (fst (write_run now s d x)))"
  using save_run_grown[of now "dr_db s" d] by (simp add: write_run_def split: sum.splits)

lemma db_flag_grown: "grown (dr_db s) (dr_db (fst (db_flag f now s run reason)))"
  using write_run_grown[of "s\<lparr>dr_registry := g\<rparr>" now _ "()" for g] by (simp add: db_flag_def split: sum.splits option.splits)

lemma db_receipt_grown: "grown (dr_db s) (dr_db (fst (db_issue_receipt uuid issued now s run outcome results cost)))"
  using write_run_grown[of "s\<lparr>dr_registry := g\<rparr>" now _ x for g x]
  by (auto simp: db_issue_receipt_def Let_def split: sum.splits option.splits prod.splits)

text \<open>The first row of a run is always written.\<close>

lemma begin_row:
  "\<exists>r. run_row now (pending_dict now (snd (begin_registry g run trace))) = Inr r \<and> dget r ''run_id'' = PStr run \<and>
     not_null [''trace_id'', ''created_at''] r \<and> dget r ''status'' = PStr ''pending''"
  by (simp add: begin_registry_def Let_def case_prod_beta blank_record_def pending_dict_def run_dict_def run_row_def dict_get_def json_column_def
      bind_row_def sql_bind_def not_null_def dget_def opt_str_def py_int_def)

lemma begin_has_key:
  "grown (dr_db s) (dr_db (fst (db_begin now s run trace))) \<and>
   has_key ''run_id'' (PStr run) (db_runs (dr_db (fst (db_begin now s run trace))))"
proof -
  obtain r where r: "run_row now (pending_dict now (snd (begin_registry (dr_registry s) run trace))) = Inr r" "dget r ''run_id'' = PStr run"
    "not_null [''trace_id'', ''created_at''] r" "dget r ''status'' = PStr ''pending''" using begin_row by blast
  define rr where "rr = snd (begin_registry (dr_registry s) run trace)"
  define t where "t = s\<lparr>dr_registry := fst (begin_registry (dr_registry s) run trace)\<rparr>"
  have e: "fst (db_begin now s run trace) = fst (write_run now t (pending_dict now rr) rr)" "dr_db t = dr_db s"
    by (simp_all add: db_begin_def case_prod_beta rr_def t_def)
  have "has_key ''run_id'' (PStr run) (insert_or_replace ''run_id'' r rows)" for rows
    by (simp add: has_key_def insert_or_replace_def r(2))
  moreover have "save_run now (dr_db s) (pending_dict now rr) = Inr ((dr_db s)\<lparr>db_runs := insert_or_replace ''run_id'' r (db_runs (dr_db s)),
      db_tenants := (if has_key ''run_id'' (PStr run) (db_runs (dr_db s)) then filter (\<lambda>t. dget t ''run_id'' \<noteq> PStr run) (db_tenants (dr_db s)) else db_tenants (dr_db s))\<rparr>)"
    using r unfolding rr_def[symmetric] by (simp add: save_run_def Let_def)
  ultimately show ?thesis
    using write_run_grown[of t now "pending_dict now rr" rr] by (simp add: e write_run_def)
qed

text \<open>
  The invariant: every run in memory has its row, and of each such run the rows of its events are
  those of its ledger, in their order. \<open>B\<close> and \<open>U\<close> are the runs begun and the events recorded.
\<close>

definition mirrors :: "(string \<Rightarrow> string) \<Rightarrow> string set \<Rightarrow> string set \<Rightarrow> nat \<Rightarrow> db_registry \<Rightarrow> bool" where
  "mirrors sha B U n s = (registry_ok sha (dr_registry s) \<and>
     (\<forall>r\<in>set (db_events (dr_db s)). \<exists>u\<in>U. \<exists>run\<in>B. dget r ''event_id'' = PStr u \<and> dget r ''run_id'' = PStr run) \<and>
     (\<forall>run rr. map_of (rg_runs (dr_registry s)) run = Some rr \<longrightarrow>
        run \<in> B \<and> has_key ''run_id'' (PStr run) (db_runs (dr_db s)) \<and> length (run_entries rr) \<le> n \<and>
        filter (\<lambda>r. dget r ''run_id'' = PStr run) (db_events (dr_db s)) = map row_of (run_entries rr) \<and>
        (\<forall>j<length (run_entries rr). \<exists>u\<in>U. built_event run j u (run_entries rr ! j))))"

lemma mirrorsD:
  assumes "mirrors sha B U n s" "map_of (rg_runs (dr_registry s)) run = Some rr"
  shows "run \<in> B" "has_key ''run_id'' (PStr run) (db_runs (dr_db s))" "length (run_entries rr) \<le> n"
    "filter (\<lambda>r. dget r ''run_id'' = PStr run) (db_events (dr_db s)) = map row_of (run_entries rr)"
    "\<forall>j<length (run_entries rr). \<exists>u\<in>U. built_event run j u (run_entries rr ! j)"
  using assms unfolding mirrors_def by blast+

text \<open>A call that keeps the events and the ledgers of the runs keeps the invariant.\<close>

lemma mirrors_quiet:
  assumes "mirrors sha B U n s" "grown (dr_db s) (dr_db s')" "registry_ok sha (dr_registry s')"
    "\<And>run rr'. map_of (rg_runs (dr_registry s')) run = Some rr' \<Longrightarrow>
       \<exists>rr. map_of (rg_runs (dr_registry s)) run = Some rr \<and> run_entries rr' = run_entries rr"
  shows "mirrors sha B U (Suc n) s'"
  unfolding mirrors_def
proof (intro conjI allI impI)
  show "registry_ok sha (dr_registry s')" by (rule assms(3))
  show "\<forall>r\<in>set (db_events (dr_db s')). \<exists>u\<in>U. \<exists>run\<in>B. dget r ''event_id'' = PStr u \<and> dget r ''run_id'' = PStr run"
    using assms(1,2) by (simp add: grown_def mirrors_def)
next
  fix run rr' assume "map_of (rg_runs (dr_registry s')) run = Some rr'"
  then obtain rr where rr: "map_of (rg_runs (dr_registry s)) run = Some rr" "run_entries rr' = run_entries rr" using assms(4) by blast
  note m = mirrorsD[OF assms(1) rr(1)]
  show "run \<in> B" "has_key ''run_id'' (PStr run) (db_runs (dr_db s'))" "length (run_entries rr') \<le> Suc n"
    "filter (\<lambda>r. dget r ''run_id'' = PStr run) (db_events (dr_db s')) = map row_of (run_entries rr')"
    using m assms(2) rr(2) by (simp_all add: grown_def)
  show "\<exists>u\<in>U. built_event run j u (run_entries rr' ! j)" if "j < length (run_entries rr')" for j
    using m(5) rr(2) that by simp
qed

text \<open>The receipt and the flags change no ledger.\<close>

lemma quiet_entries:
  assumes "registry_ok sha g" "\<not> is_begin op" "\<And>u t r k a x p. op \<noteq> Ledger u t r k a x p"
    "map_of (rg_runs (run_step sha g op)) run = Some rr'"
  shows "\<exists>rr. map_of (rg_runs g) run = Some rr \<and> run_entries rr' = run_entries rr"
proof (cases op)
  case (Receipt uuid now r outcome results cost)
  show ?thesis
  proof (cases "issue_receipt uuid now g r outcome results cost")
    case (Inr p)
    obtain g' receipt where p: "p = (g', receipt)" by fastforce
    show ?thesis using issue_receipt_updates[OF Inr[unfolded p]] assms(4) by (auto simp: Receipt Inr p split: if_splits)
  qed (use assms(4) in \<open>simp add: Receipt\<close>)
qed (use assms in \<open>auto simp: record_human_intervention_def record_rework_def require_run_def split: option.splits if_splits\<close>)

lemma mirrors_begin:
  assumes "mirrors sha B U n s" "run \<notin> B"
  shows "mirrors sha (insert run B) U (Suc n) (fst (db_begin now s run trace))"
proof -
  define s' where "s' = fst (db_begin now s run trace)"
  have ok: "registry_ok sha (dr_registry s)" using assms(1) by (simp add: mirrors_def)
  have reg: "dr_registry s' = fst (begin_registry (dr_registry s) run trace)" using db_step_registry[of sha s "(now, Begin run trace)"] by (simp add: s'_def)
  define rr where "rr = snd (begin_registry (dr_registry s) run trace)"
  define d where "d = dset run rr (rg_runs (dr_registry s))"
  have d: "dict_ok d" "rg_runs (dr_registry s') = drop (length d - nat (rg_max (dr_registry s))) d"
    using ok begin_runs[OF ok, of run trace] by (simp_all add: registry_ok_def d_def rr_def reg)
  have g: "grown (dr_db s) (dr_db s')" "has_key ''run_id'' (PStr run) (db_runs (dr_db s'))"
    using begin_has_key[of s now run trace] by (simp_all add: s'_def)
  have rr: "run_entries rr = []" by (simp add: rr_def begin_registry_def Let_def case_prod_beta blank_record_def run_entries_def event_list_def)
  have ev: "\<forall>r\<in>set (db_events (dr_db s')). \<exists>u\<in>U. \<exists>k\<in>B. dget r ''event_id'' = PStr u \<and> dget r ''run_id'' = PStr k"
    using assms(1) g(1) by (simp add: grown_def mirrors_def)
  have none: "filter (\<lambda>r. dget r ''run_id'' = PStr run) (db_events (dr_db s')) = []"
    using ev assms(2) by (fastforce simp: filter_empty_conv)
  have "mirrors sha (insert run B) U (Suc n) s'"
    unfolding mirrors_def
  proof (intro conjI allI impI)
    show "registry_ok sha (dr_registry s')" using registry_ok_begin[OF ok] by (simp add: reg)
    show "\<forall>r\<in>set (db_events (dr_db s')). \<exists>u\<in>U. \<exists>k\<in>insert run B. dget r ''event_id'' = PStr u \<and> dget r ''run_id'' = PStr k"
      using ev by fast
  next
    fix k x assume "map_of (rg_runs (dr_registry s')) k = Some x"
    then have x: "map_of d k = Some x" using map_of_drop[OF d(1)] d(2) by metis
    consider "k = run" "x = rr" | "k \<noteq> run" "map_of (rg_runs (dr_registry s)) k = Some x" using x by (auto simp: d_def split: if_splits)
    note c = this
    show "k \<in> insert run B" using c mirrorsD(1)[OF assms(1)] by cases auto
    show "has_key ''run_id'' (PStr k) (db_runs (dr_db s'))" using c mirrorsD(2)[OF assms(1)] g by cases (auto simp: grown_def)
    show "length (run_entries x) \<le> Suc n" using c mirrorsD(3)[OF assms(1)] rr by cases fastforce+
    show "filter (\<lambda>r. dget r ''run_id'' = PStr k) (db_events (dr_db s')) = map row_of (run_entries x)"
      using c mirrorsD(4)[OF assms(1)] rr none g by cases (auto simp: grown_def)
    show "\<exists>u\<in>U. built_event k j u (run_entries x ! j)" if "j < length (run_entries x)" for j
      using c mirrorsD(5)[OF assms(1)] rr that by cases auto
  qed
  then show ?thesis by (simp add: s'_def)
qed

text \<open>A recorded event goes to the end of the table, as no event carries its id yet.\<close>

lemma insert_new: "\<forall>x\<in>set rows. dget x k \<noteq> dget r k \<Longrightarrow> insert_or_replace k r rows = rows @ [r]"
  by (simp add: insert_or_replace_def filter_id_conv)

lemma save_event_row:
  assumes "built_event run j u e" "int j < 2 ^ 63" "has_key ''run_id'' (PStr run) (db_runs db)"
    "\<forall>x\<in>set (db_events db). dget x ''event_id'' \<noteq> PStr u"
  shows "save_ledger_event now db e = Inr (db\<lparr>db_events := db_events db @ [row_of e]\<rparr>)"
  using built_row[OF assms(1,2)] assms(3,4) insert_new[of "db_events db" "''event_id''" "row_of e"]
  by (simp add: save_ledger_event_def)

lemma mirrors_ledger:
  assumes m: "mirrors sha B U n s" and u: "''event-'' @ uuid \<notin> U" and n: "int n < 2 ^ 63"
    and ok: "json_ok actor" "json_ok payload"
  shows "mirrors sha B (insert (''event-'' @ uuid) U) (Suc n) (fst (db_ledger sha uuid t s run kind actor (PStr subject) payload))"
proof (cases "ledger sha uuid t (dr_registry s) run kind actor (PStr subject) payload")
  case (Inl e)
  have "mirrors sha B U (Suc n) s" by (rule mirrors_quiet[OF m grown_refl]) (use m in \<open>auto simp: mirrors_def\<close>)
  then have "mirrors sha B (insert (''event-'' @ uuid) U) (Suc n) s" unfolding mirrors_def by blast
  then show ?thesis by (simp add: db_ledger_def Inl)
next
  case (Inr p)
  obtain g e where p: "p = (g, e)" by fastforce
  have reg: "registry_ok sha (dr_registry s)" using m by (simp add: mirrors_def)
  obtain rr where rr: "map_of (rg_runs (dr_registry s)) run = Some rr" "run_verified sha rr"
    "g = put_run (dr_registry s) run (rr\<lparr>rr_events := PList (map PDict (run_entries rr @ [e]))\<rparr>)"
    "append_event sha (run_entries rr) (run_event uuid t run kind actor (PStr subject) payload) = Inr (run_entries rr @ [e], e)"
    using ledger_Inr[OF Inr[unfolded p] reg] by blast
  define u where "u = ''event-'' @ uuid"
  define db where "db = (dr_db s)\<lparr>db_events := db_events (dr_db s) @ [row_of e]\<rparr>"
  have b: "built_event run (length (run_entries rr)) u e"
    using ledger_builds[OF rr(4) _ ok] rr(2) by (simp add: run_verified_def u_def)
  note md = mirrorsD[OF m rr(1)]
  have j: "int (length (run_entries rr)) < 2 ^ 63" using md(3) n by linarith
  have ids: "\<forall>x\<in>set (db_events (dr_db s)). dget x ''event_id'' \<noteq> PStr u"
    using m assms(2) unfolding mirrors_def u_def by fastforce
  have r: "dget (row_of e) ''run_id'' = PStr run" "dget (row_of e) ''event_id'' = PStr u" using built_row[OF b j] by blast+
  have s': "fst (db_ledger sha uuid t s run kind actor (PStr subject) payload) = \<lparr>dr_registry = g, dr_db = db\<rparr>"
    using save_event_row[OF b j md(2) ids] by (simp add: db_ledger_def Inr p db_def)
  have new: "registry_ok sha g" using registry_ok_step[OF reg, of "Ledger uuid t run kind actor (PStr subject) payload"] by (simp add: Inr p)
  have "mirrors sha B (insert u U) (Suc n) \<lparr>dr_registry = g, dr_db = db\<rparr>"
    unfolding mirrors_def
  proof (intro conjI allI impI)
    show "registry_ok sha (dr_registry \<lparr>dr_registry = g, dr_db = db\<rparr>)" using new by simp
    show "\<forall>x\<in>set (db_events (dr_db \<lparr>dr_registry = g, dr_db = db\<rparr>)). \<exists>v\<in>insert u U. \<exists>k\<in>B. dget x ''event_id'' = PStr v \<and> dget x ''run_id'' = PStr k"
      using m md(1) r unfolding mirrors_def by (auto simp: db_def)
  next
    fix k x assume "map_of (rg_runs (dr_registry \<lparr>dr_registry = g, dr_db = db\<rparr>)) k = Some x"
    then have x: "k = run \<and> run_entries x = run_entries rr @ [e] \<or> k \<noteq> run \<and> map_of (rg_runs (dr_registry s)) k = Some x"
      using run_entries_events[of "run_entries rr @ [e]" rr] by (auto simp: rr(3) simp del: map_append split: if_splits)
    show "k \<in> B" using x md(1) mirrorsD(1)[OF m] by blast
    show "has_key ''run_id'' (PStr k) (db_runs (dr_db \<lparr>dr_registry = g, dr_db = db\<rparr>))"
      using x md(2) mirrorsD(2)[OF m] by (auto simp: db_def)
    show "length (run_entries x) \<le> Suc n" using x md(3) mirrorsD(3)[OF m, of k x] by auto
    show "filter (\<lambda>r. dget r ''run_id'' = PStr k) (db_events (dr_db \<lparr>dr_registry = g, dr_db = db\<rparr>)) = map row_of (run_entries x)"
      using x md(4) mirrorsD(4)[OF m, of k x] r(1) by (auto simp: db_def)
    show "\<exists>v\<in>insert u U. built_event k j v (run_entries x ! j)" if "j < length (run_entries x)" for j
    proof (cases "k = run \<and> j = length (run_entries rr)")
      case True
      then show ?thesis using x b by auto
    next
      case False
      then have "\<exists>v\<in>U. built_event k j v (run_entries x ! j)"
        using x md(5) mirrorsD(5)[OF m, of k x] that by (auto simp: nth_append)
      then show ?thesis by blast
    qed
  qed
  then show ?thesis by (simp only: s' u_def)
qed

lemma mirrors_step:
  assumes m: "mirrors sha B U n s" and new: "set (begun_runs [(now, op)]) \<inter> B = {}" "set (event_ids [(now, op)]) \<inter> U = {}"
    and n: "int n < 2 ^ 63" and ok: "storable (now, op)"
  shows "mirrors sha (B \<union> set (begun_runs [(now, op)])) (U \<union> set (event_ids [(now, op)])) (Suc n) (db_step sha s (now, op))"
proof -
  have reg: "registry_ok sha (dr_registry s)" using m by (simp add: mirrors_def)
  have quiet: "mirrors sha B U (Suc n) (db_step sha s (now, op))"
    if "\<not> is_begin op" "\<And>u t r k a x p. op \<noteq> Ledger u t r k a x p" "grown (dr_db s) (dr_db (db_step sha s (now, op)))"
  proof (rule mirrors_quiet[OF m that(3)])
    show "registry_ok sha (dr_registry (db_step sha s (now, op)))" using registry_ok_step[OF reg] by (simp add: db_step_registry)
    show "\<exists>rr. map_of (rg_runs (dr_registry s)) run = Some rr \<and> run_entries rr' = run_entries rr"
      if "map_of (rg_runs (dr_registry (db_step sha s (now, op)))) run = Some rr'" for run rr'
      using quiet_entries[OF reg \<open>\<not> is_begin op\<close> \<open>\<And>u t r k a x p. op \<noteq> Ledger u t r k a x p\<close>] that by (simp add: db_step_registry)
  qed
  show ?thesis
  proof (cases op)
    case (Begin run trace)
    then show ?thesis using mirrors_begin[OF m, of run now trace] new(1) by simp
  next
    case (Ledger uuid t run kind actor subject payload)
    then show ?thesis using mirrors_ledger[OF m _ n, of uuid actor payload t run kind] new(2) ok by auto
  next
    case (Receipt uuid t run outcome results cost)
    then show ?thesis using quiet db_receipt_grown by simp
  next
    case (Intervene run reason)
    then show ?thesis using quiet db_flag_grown by (simp add: db_record_human_intervention_def)
  next
    case (Rework run reason)
    then show ?thesis using quiet db_flag_grown by (simp add: db_record_rework_def)
  qed
qed

lemma mirrors_steps:
  assumes "new_registry m = Inr g" "distinct (begun_runs ops)" "distinct (event_ids ops)" "list_all storable ops" "int (length ops) < 2 ^ 63"
  shows "mirrors sha (set (begun_runs ops)) (set (event_ids ops)) (length ops) (db_steps sha \<lparr>dr_registry = g, dr_db = empty_database\<rparr> ops)"
  using assms(2-5)
proof (induction ops rule: rev_induct)
  case Nil
  then show ?case using new_registry_ok[OF assms(1), of sha] assms(1)
    by (auto simp: mirrors_def db_steps_def empty_database_def new_registry_def split: if_splits)
next
  case (snoc p ops)
  obtain now op where p: "p = (now, op)" by fastforce
  have d: "set (begun_runs [(now, op)]) \<inter> set (begun_runs ops) = {}" "set (event_ids [(now, op)]) \<inter> set (event_ids ops) = {}"
    "storable (now, op)" "int (length ops) < 2 ^ 63" using snoc.prems by (auto simp: p)
  have "mirrors sha (set (begun_runs ops)) (set (event_ids ops)) (length ops) (db_steps sha \<lparr>dr_registry = g, dr_db = empty_database\<rparr> ops)"
    using snoc by (simp del: append.simps)
  from mirrors_step[OF this d(1,2,4,3)] show ?case by (simp only: p begun_runs_append event_ids_append set_append length_append_singleton db_steps_def foldl_append foldl.simps)
qed


section \<open>What is lost\<close>

lemma find_last: "\<forall>x\<in>set xs. \<not> P x \<Longrightarrow> P r \<Longrightarrow> find P (xs @ [r]) = Some r"
  by (induction xs) auto

text \<open>Whatever is written of a run after its tenant was set hands it back to the default tenant: the
  statement replaces the row, and the row of the tenant goes with the one replaced.\<close>

lemma tenant_lost:
  assumes "set_run_tenant db run tenant = Inr db1" "save_run now db1 d = Inr db2" "dict_get d ''run_id'' PNone = PStr run"
  shows "get_run_tenant db1 run = tenant" "get_run_tenant db2 run = ''default''"
proof -
  have key: "has_key ''run_id'' (PStr run) (db_runs db)"
    and db1: "db1 = db\<lparr>db_tenants := insert_or_replace ''run_id'' [(''run_id'', PStr run), (''tenant_id'', PStr tenant)] (db_tenants db)\<rparr>"
    using assms(1) by (auto simp: set_run_tenant_def split: if_splits)
  show "get_run_tenant db1 run = tenant"
    by (simp add: db1 get_run_tenant_def insert_or_replace_def dget_def find_last py_str_def)
  obtain r where "run_row now d = Inr r" using assms(2) by (auto simp: save_run_def bindE_eq_Inr)
  moreover from this have "dget r ''run_id'' = PStr run"
    using assms(3) by (auto simp: run_row_def bindE_eq_Inr bind_row_def sql_bind_def dget_def)
  ultimately have "db_tenants db2 = filter (\<lambda>t. dget t ''run_id'' \<noteq> PStr run) (db_tenants db1)"
    using assms(2) key db1 by (auto simp: save_run_def Let_def split: if_splits)
  moreover have "find (\<lambda>t. dget t ''run_id'' = PStr run) (filter (\<lambda>t. dget t ''run_id'' \<noteq> PStr run) ts) = None" for ts
    by (simp add: find_None_iff)
  ultimately show "get_run_tenant db2 run = ''default''" by (simp add: get_run_tenant_def)
qed

section \<open>Witness\<close>

definition recorded_calls :: "(string \<times> run_op) list" where
  "recorded_calls =
     [(''t0'', Begin ''r'' ''x''), (''t1'', Ledger ''1'' ''t1'' ''r'' ''task_received'' (PDict [(''type'', PStr ''user'')]) (PStr ''s'') (PDict [])),
      (''t2'', Rework ''r'' ''again''), (''t3'', Ledger ''2'' ''t3'' ''r'' ''route_selected'' (PDict []) (PStr ''s'') (PDict [(''n'', PInt 1)]))]"


end
