(* ===== verification/Provenance.thy ===== *)
theory Provenance
  imports Py_Val
begin

text \<open>
  Provenance of evidence records, \<^verbatim>\<open>reference/gateway/provenance.py\<close>: the W3C PROV identifiers a
  record is enriched with, and its in-toto statement.
\<close>

definition predicate_types :: "(string \<times> string) list" where
  "predicate_types =
     [(''test_result'', ''https://in-toto.io/attestation/test-result/v1''),
      (''formal_proof'', ''https://in-toto.io/attestation/proof/v1''),
      (''model_assertion'', ''https://in-toto.io/attestation/model-output/v1''),
      (''direct_observation'', ''https://in-toto.io/attestation/observation/v1''),
      (''tool_result'', ''https://in-toto.io/attestation/tool-result/v1''),
      (''source_document'', ''https://in-toto.io/attestation/source-document/v1''),
      (''human_attestation'', ''https://in-toto.io/attestation/human-attestation/v1''),
      (''derived'', ''https://in-toto.io/attestation/derived/v1'')]"

definition sha256_digest :: "pyval \<Rightarrow> pyval" where
  "sha256_digest v = (case v of
     PStr s \<Rightarrow> PStr (if startswith s ''sha256:'' then drop 7 s else s)
   | _ \<Rightarrow> if truthy v then v else PStr [])"

definition prov_subject :: "string \<Rightarrow> pyval \<Rightarrow> pyval" where
  "prov_subject name v = PList [PDict [(''name'', PStr name), (''digest'', PDict [(''sha256'', sha256_digest v)])]]"

definition field_or :: "(string, pyval) dict \<Rightarrow> string \<Rightarrow> pyval \<Rightarrow> pyval" where
  "field_or d k x = (case map_of d k of None \<Rightarrow> x | Some v \<Rightarrow> v)"

definition py_dict :: "pyval \<Rightarrow> pyval res" where
  "py_dict v = (case v of PDict d \<Rightarrow> Inr (PDict d) | PList [] \<Rightarrow> Inr (PDict []) | PStr [] \<Rightarrow> Inr (PDict []) | _ \<Rightarrow> Inl PyTypeError)"

definition artifact_kind :: "pyval \<Rightarrow> bool" where
  "artifact_kind kind = (kind = PStr ''test_result'' \<or> kind = PStr ''formal_proof'')"

definition predicate_for :: "(string, pyval) dict \<Rightarrow> pyval \<Rightarrow> pyval res" where
  "predicate_for e kind =
     (if kind = PStr ''test_result'' then py_dict (field_or e ''test_metadata'' (PDict []))
      else if kind = PStr ''formal_proof'' then py_dict (field_or e ''test_metadata'' (field_or e ''proof_metadata'' (PDict [])))
      else if kind = PStr ''model_assertion'' then
        Inr (PDict [(''model_id'', field_or e ''model_id'' (PStr [])), (''strength'', field_or e ''strength'' PNone), (''location'', field_or e ''location'' (PStr []))])
      else if kind = PStr ''direct_observation'' then
        Inr (PDict [(''location'', field_or e ''location'' (PStr [])), (''strength'', field_or e ''strength'' PNone), (''activity_id'', field_or e ''activity_id'' (PStr []))])
      else Inr (PDict [(''evidence_id'', field_or e ''evidence_id'' (PStr [])), (''location'', field_or e ''location'' (PStr [])), (''strength'', field_or e ''strength'' PNone)]))"

definition map_to_prov :: "(string, pyval) dict \<Rightarrow> pyval res" where
  "map_to_prov e =
     bindE (py_get (field_or e ''producer'' (PDict [])) ''id'' (PStr [])) (\<lambda>agent.
     let prov = [(''entity'', field_or e ''content_hash'' (PStr [])), (''activity'', field_or e ''activity_id'' (PStr [])),
                 (''agent'', agent), (''was_derived_from'', field_or e ''premise_evidence_ids'' (PList []))] in
     Inr (PDict (if artifact_kind (field_or e ''kind'' PNone)
       then prov @ [(''artifact'', field_or e ''artifact_hash'' (PStr [])), (''environment'', field_or e ''environment_hash'' (PStr []))]
       else prov)))"

definition map_to_in_toto :: "(string, pyval) dict \<Rightarrow> pyval res" where
  "map_to_in_toto e =
     (let kind = field_or e ''kind'' (PStr []);
          subject = (if artifact_kind kind then prov_subject ''artifact'' (field_or e ''artifact_hash'' (PStr []))
                     else prov_subject ''content'' (field_or e ''content_hash'' (PStr []))) in
      if \<not> hashable kind then Inl PyTypeError else
      bindE (predicate_for e kind) (\<lambda>predicate.
      Inr (PDict [(''_type'', PStr ''https://in-toto.io/Statement/v1''), (''subject'', subject),
        (''predicate_type'', PStr (case kind of
           PStr k \<Rightarrow> (case map_of predicate_types k of None \<Rightarrow> ''https://in-toto.io/attestation/evidence/v1'' | Some t \<Rightarrow> t)
         | _ \<Rightarrow> ''https://in-toto.io/attestation/evidence/v1'')), (''predicate'', predicate)])))"

definition enrich_evidence :: "(string, pyval) dict \<Rightarrow> (string, pyval) dict res" where
  "enrich_evidence e =
     (if dhas e ''prov'' then Inr e else bindE (map_to_prov e) (\<lambda>prov. Inr (dset ''prov'' prov e)))"

section \<open>What enrichment keeps\<close>

lemma enrich_evidence_total: "py_get (field_or e ''producer'' (PDict [])) ''id'' (PStr []) = Inr v \<Longrightarrow> \<exists>e'. enrich_evidence e = Inr e'"
  by (simp add: enrich_evidence_def map_to_prov_def Let_def)

lemma enrich_evidence_keeps: "enrich_evidence e = Inr e' \<Longrightarrow> k \<noteq> ''prov'' \<Longrightarrow> map_of e' k = map_of e k"
  by (auto simp: enrich_evidence_def bindE_eq_Inr split: if_splits)

lemma enrich_evidence_idem: "enrich_evidence e = Inr e' \<Longrightarrow> enrich_evidence e' = Inr e'"
  by (auto simp: enrich_evidence_def bindE_eq_Inr dhas_def split: if_splits)

end
