(* ===== verification/Canary.thy ===== *)
theory Canary
  imports Py_Val
begin

text \<open>
  Canary traffic and the promotion of policy versions, \<^verbatim>\<open>reference/gateway/online_learning.py\<close>. The
  benchmark manifest is the value its file holds; the sample of a canary draw is an argument.
\<close>

section \<open>Canary traffic\<close>

definition is_canary :: "f64 \<Rightarrow> f64 \<Rightarrow> pyval \<Rightarrow> bool" where
  "is_canary draw percentage governance = (case governance of
     PDict g \<Rightarrow>
       if map_of g ''canary'' = Some (PBool True) then True
       else if map_of g ''canary'' = Some (PBool False) then False
       else if f_le percentage (Fin 0) then False
       else if f_le (Fin 1) percentage then True
       else f_lt draw percentage
   | _ \<Rightarrow> False)"

definition can_use_experimental :: "f64 \<Rightarrow> f64 \<Rightarrow> pyval \<Rightarrow> bool" where
  "can_use_experimental draw percentage governance = is_canary draw percentage governance"

section \<open>Policy versions\<close>

definition promotion_gates :: "(string \<times> f64) list" where
  "promotion_gates =
     [(''maximum_unsafe_accept_rate'', Fin 0), (''maximum_calibration_ece'', lit 0.04), (''minimum_replay_success_rate'', lit 0.99),
      (''minimum_context_evidence_recall'', lit 0.99), (''maximum_route_regret_usd'', lit 0.05)]"

definition cohort_entry :: "(string, (string, f64) dict) dict \<Rightarrow> pyval \<Rightarrow> (string, (string, f64) dict) dict res" where
  "cohort_entry acc cohort =
     bindE (py_get cohort ''promotion_gates'' PNone) (\<lambda>gates. case gates of
       PDict d \<Rightarrow>
         bindE (py_get cohort ''id'' (PStr [])) (\<lambda>i.
         bindE (mapE (\<lambda>(name, limit). bindE (py_float limit) (\<lambda>l. Inr (name, l))) d) (\<lambda>limits.
         Inr (dset (py_str i) limits acc)))
     | _ \<Rightarrow> Inr acc)"

definition load_cohort_gates :: "pyval \<Rightarrow> (string, (string, f64) dict) dict res" where
  "load_cohort_gates manifest =
     bindE (bindE (py_get manifest ''cohorts'' (PList [])) py_iter) (foldE cohort_entry [])"

record policy_manager =
  pm_version :: pyval
  pm_canaries :: "(string, (string, pyval) dict) dict"
  pm_cohort_gates :: "(string, (string, f64) dict) dict"

definition new_manager :: "pyval \<Rightarrow> pyval \<Rightarrow> policy_manager res" where
  "new_manager version manifest =
     bindE (load_cohort_gates manifest) (\<lambda>gates. Inr \<lparr>pm_version = version, pm_canaries = [], pm_cohort_gates = gates\<rparr>)"

definition register_canary :: "policy_manager \<Rightarrow> string \<Rightarrow> (string, pyval) dict option \<Rightarrow> policy_manager" where
  "register_canary pm version metadata =
     pm\<lparr>pm_canaries := dset version (case metadata of None \<Rightarrow> [] | Some m \<Rightarrow> m) (pm_canaries pm)\<rparr>"

section \<open>Gates\<close>

text \<open>\<^verbatim>\<open>value < limit\<close> and \<^verbatim>\<open>value > limit\<close> of a measured value: only numbers compare.\<close>

definition below :: "pyval \<Rightarrow> f64 \<Rightarrow> bool res" where
  "below v limit = (case num_of v of Some a \<Rightarrow> Inr (f_lt a limit) | None \<Rightarrow> Inl PyTypeError)"

definition above :: "pyval \<Rightarrow> f64 \<Rightarrow> bool res" where
  "above v limit = (case num_of v of Some a \<Rightarrow> Inr (f_lt limit a) | None \<Rightarrow> Inl PyTypeError)"

definition is_minimum :: "string \<Rightarrow> bool" where
  "is_minimum gate = startswith gate ''minimum_''"

definition flat_gate :: "(string, pyval) dict \<Rightarrow> string \<times> f64 \<Rightarrow> string list res" where
  "flat_gate measured g = (case g of (gate, limit) \<Rightarrow> (case map_of measured gate of
       None \<Rightarrow> Inr [''missing_gate:'' @ gate]
     | Some v \<Rightarrow>
         if is_minimum gate
         then bindE (below v limit) (\<lambda>b. Inr (if b then [gate @ ''_below:'' @ py_str v @ ''<'' @ repr_float limit] else []))
         else bindE (above v limit) (\<lambda>b. Inr (if b then [gate @ ''_exceeded:'' @ py_str v @ ''>'' @ repr_float limit] else []))))"

definition check_promotion_gates :: "(string, pyval) dict \<Rightarrow> string list res" where
  "check_promotion_gates results =
     (let measured = (case map_of results ''gates'' of Some (PDict d) \<Rightarrow> d | _ \<Rightarrow> results) in
      bindE (mapE (flat_gate measured) promotion_gates) (\<lambda>fs. Inr (concat fs)))"

definition metric_key :: "string \<Rightarrow> string" where
  "metric_key gate = (if startswith gate ''minimum_'' \<or> startswith gate ''maximum_'' then drop 8 gate else gate)"

definition check_gate :: "string \<Rightarrow> f64 \<Rightarrow> f64 \<Rightarrow> bool" where
  "check_gate gate threshold actual = (if is_minimum gate then f_le threshold actual else f_le actual threshold)"

fun first_metric :: "pyval \<Rightarrow> string list \<Rightarrow> f64 option res" where
  "first_metric results [] = Inr None"
| "first_metric results (c # cs) =
     bindE (py_get results c PNone) (\<lambda>v. if v \<noteq> PNone then bindE (py_float v) (\<lambda>a. Inr (Some a)) else first_metric results cs)"

definition resolve_metric :: "pyval \<Rightarrow> string \<Rightarrow> f64 option res" where
  "resolve_metric results gate =
     first_metric results ([gate, metric_key gate] @ (if metric_key gate = ''accepted_outcome_rate'' then [''accuracy''] else []))"

definition cohort_gate :: "string \<Rightarrow> pyval \<Rightarrow> string \<times> f64 \<Rightarrow> string list res" where
  "cohort_gate cohort results g = (case g of (gate, limit) \<Rightarrow>
     bindE (resolve_metric results gate) (\<lambda>actual. Inr (case actual of
       None \<Rightarrow> [''cohort '' @ cohort @ '' missing gate '' @ gate]
     | Some a \<Rightarrow> if check_gate gate limit a then []
         else [''cohort '' @ cohort @ '' failed gate '' @ gate @ '': '' @ repr_float a @ '' vs '' @ repr_float limit])))"

definition check_cohort_gates :: "policy_manager \<Rightarrow> (string, pyval) dict \<Rightarrow> string list res" where
  "check_cohort_gates pm cohorts =
     bindE (mapE (\<lambda>(name, results).
        bindE (mapE (cohort_gate name results) (case map_of (pm_cohort_gates pm) name of None \<Rightarrow> [] | Some gates \<Rightarrow> gates))
          (\<lambda>fs. Inr (concat fs))) cohorts) (\<lambda>fs. Inr (concat fs))"

text \<open>\<^verbatim>\<open>min\<close> and \<^verbatim>\<open>max\<close> of the values measured, the first of equals.\<close>

definition worst_of :: "string \<Rightarrow> f64 \<Rightarrow> f64 list \<Rightarrow> f64" where
  "worst_of gate a as = (if is_minimum gate then foldl f_min a as else foldl f_max a as)"

definition global_gate :: "(string, pyval) dict \<Rightarrow> string \<times> f64 \<Rightarrow> string list res" where
  "global_gate cohorts g = (case g of (gate, limit) \<Rightarrow>
     bindE (mapE (\<lambda>(_, results). resolve_metric results gate) cohorts) (\<lambda>ms.
     case List.map_filter id ms of
       [] \<Rightarrow> Inr [''missing_gate:'' @ gate]
     | a # as \<Rightarrow> (let worst = worst_of gate a as in
         Inr (if check_gate gate limit worst then [] else [gate @ ''_failed:'' @ repr_float worst @ ''vs'' @ repr_float limit]))))"

definition check_global_gates :: "(string, pyval) dict \<Rightarrow> string list res" where
  "check_global_gates cohorts = bindE (mapE (global_gate cohorts) promotion_gates) (\<lambda>fs. Inr (concat fs))"

section \<open>Promotion\<close>

definition gate_failures :: "policy_manager \<Rightarrow> (string, pyval) dict \<Rightarrow> string list res" where
  "gate_failures pm results = (case map_of results ''cohorts'' of
     Some (PDict cohorts) \<Rightarrow>
       if cohorts = [] then check_promotion_gates results
       else bindE (check_cohort_gates pm cohorts) (\<lambda>f. bindE (check_global_gates cohorts) (\<lambda>g. Inr (f @ g)))
   | _ \<Rightarrow> check_promotion_gates results)"

definition promote_canary :: "policy_manager \<Rightarrow> string \<Rightarrow> (string, pyval) dict \<Rightarrow> (policy_manager \<times> bool \<times> string) res" where
  "promote_canary pm version results =
     (if \<not> truthy (case map_of results ''signed'' of None \<Rightarrow> PNone | Some v \<Rightarrow> v)
      then Inr (pm, False, ''benchmark results must be signed'')
      else (case map_of (pm_canaries pm) version of
          None \<Rightarrow> Inr (pm, False, ''canary_version_not_registered'')
        | Some metadata \<Rightarrow>
            bindE (gate_failures pm results) (\<lambda>failures.
            if failures \<noteq> [] then Inr (pm, False, ''promotion_gates_failed: '' @ join ''; '' failures)
            else Inr (pm\<lparr>pm_version := PStr version, pm_canaries := dset version (dset ''promoted'' (PBool True) metadata) (pm_canaries pm)\<rparr>,
                   True, ''canary '' @ version @ '' promoted to production''))))"

definition can_modify_production :: bool where
  "can_modify_production = False"

section \<open>What a promotion rests on\<close>

text \<open>A value is not on the wrong side of a limit.\<close>

definition gate_met :: "string \<Rightarrow> f64 \<Rightarrow> f64 \<Rightarrow> bool" where
  "gate_met gate limit a = (if is_minimum gate then \<not> f_lt a limit else \<not> f_lt limit a)"

lemma f_le_not_lt: "f_le a b \<Longrightarrow> \<not> f_lt b a"
  by (cases a; cases b) (auto simp: f_le_def)

lemma check_gate_met: "check_gate gate limit a \<Longrightarrow> gate_met gate limit a"
  by (simp add: check_gate_def gate_met_def f_le_not_lt split: if_splits)

lemma f_lt_le_trans: "f_lt a b \<Longrightarrow> f_le b c \<Longrightarrow> f_lt a c"
  by (auto simp: f_le_def dest: f_lt_trans f_eq_imp)

lemma f_le_lt_trans: "f_le a b \<Longrightarrow> f_lt b c \<Longrightarrow> f_lt a c"
  by (auto simp: f_le_def dest: f_lt_trans f_eq_imp)

lemma foldl_least: "\<forall>b\<in>insert a (set as). \<not> f_lt b (foldl f_min a as)" "foldl f_min a as = a \<or> f_lt (foldl f_min a as) a"
proof (induction as arbitrary: a)
  case (Cons b as)
  {
    case 1
    then show ?case using Cons.IH[of "f_min a b"] by (auto simp: f_min_def split: if_splits dest: f_lt_trans)
  next
    case 2
    then show ?case using Cons.IH(2)[of "f_min a b"] by (auto simp: f_min_def split: if_splits dest: f_lt_trans)
  }
qed simp_all

lemma foldl_greatest: "\<forall>b\<in>insert a (set as). \<not> f_lt (foldl f_max a as) b" "foldl f_max a as = a \<or> f_lt a (foldl f_max a as)"
proof (induction as arbitrary: a)
  case (Cons b as)
  {
    case 1
    then show ?case using Cons.IH[of "f_max a b"] by (auto simp: f_max_def split: if_splits dest: f_lt_trans)
  next
    case 2
    then show ?case using Cons.IH(2)[of "f_max a b"] by (auto simp: f_max_def split: if_splits dest: f_lt_trans)
  }
qed simp_all

text \<open>When the worst value passes, so does every value.\<close>

lemma worst_of_met:
  assumes "check_gate gate limit (worst_of gate a as)" "b \<in> insert a (set as)"
  shows "gate_met gate limit b"
proof (cases "is_minimum gate")
  case True
  then have "f_le limit (foldl f_min a as)" using assms(1) by (simp add: check_gate_def worst_of_def)
  then show ?thesis using True foldl_least(1)[of a as] assms(2) f_lt_le_trans[of b limit] by (auto simp: gate_met_def)
next
  case False
  then have "f_le (foldl f_max a as) limit" using assms(1) by (simp add: check_gate_def worst_of_def)
  then show ?thesis using False foldl_greatest(1)[of a as] assms(2) f_le_lt_trans[of _ limit b] by (auto simp: gate_met_def)
qed

lemma mapE_concat_empty: "bindE (mapE f xs) (\<lambda>fs. Inr (concat fs)) = Inr [] \<longleftrightarrow> (\<forall>x\<in>set xs. f x = Inr [])"
proof (induction xs)
  case (Cons x xs)
  then show ?case by (cases "f x") (auto simp: bindE_eq_Inr)
qed simp

lemma check_promotion_gates_empty:
  "check_promotion_gates results = Inr [] \<longleftrightarrow>
     (\<forall>g\<in>set promotion_gates. flat_gate (case map_of results ''gates'' of Some (PDict d) \<Rightarrow> d | _ \<Rightarrow> results) g = Inr [])"
  by (simp add: check_promotion_gates_def Let_def mapE_concat_empty)

lemma flat_gate_empty:
  "flat_gate measured (gate, limit) = Inr [] \<longleftrightarrow>
     (\<exists>v a. map_of measured gate = Some v \<and> num_of v = Some a \<and> gate_met gate limit a)"
  by (auto simp: flat_gate_def gate_met_def below_def above_def bindE_eq_Inr split: option.splits if_splits)

text \<open>The values the cohorts report for a gate.\<close>

definition reported :: "(string, pyval) dict \<Rightarrow> string \<Rightarrow> f64 set" where
  "reported cohorts gate = {a. \<exists>c\<in>set cohorts. resolve_metric (snd c) gate = Inr (Some a)}"

lemma global_gate_empty:
  assumes "global_gate cohorts (gate, limit) = Inr []"
  shows "reported cohorts gate \<noteq> {}" "\<forall>a\<in>reported cohorts gate. gate_met gate limit a"
proof -
  obtain ms where ms: "mapE (\<lambda>(_, results). resolve_metric results gate) cohorts = Inr ms"
    using assms by (auto simp: global_gate_def bindE_eq_Inr)
  have "a \<in> reported cohorts gate \<longleftrightarrow> Some a \<in> set ms" for a
  proof
    assume "a \<in> reported cohorts gate"
    then obtain c where "c \<in> set cohorts" "resolve_metric (snd c) gate = Inr (Some a)" by (auto simp: reported_def)
    then show "Some a \<in> set ms" using mapE_Inr_ex[OF ms, of c] by (simp add: case_prod_beta)
  next
    assume "Some a \<in> set ms"
    then show "a \<in> reported cohorts gate" using mapE_Inr_in_set[OF ms, of "Some a"] by (force simp: reported_def)
  qed
  moreover have "a \<in> set (List.map_filter id ms) \<longleftrightarrow> Some a \<in> set ms" for a by (force simp: map_filter_def)
  ultimately have r: "reported cohorts gate = set (List.map_filter id ms)" by blast
  obtain a as where as: "List.map_filter id ms = a # as" "check_gate gate limit (worst_of gate a as)"
    using assms ms by (auto simp: global_gate_def Let_def split: list.splits if_splits)
  show "reported cohorts gate \<noteq> {}" "\<forall>a\<in>reported cohorts gate. gate_met gate limit a"
    using worst_of_met[OF as(2)] by (simp_all add: r as(1))
qed

lemma cohort_gate_empty: "cohort_gate name results (gate, limit) = Inr [] \<longleftrightarrow>
    (\<exists>a. resolve_metric results gate = Inr (Some a) \<and> check_gate gate limit a)"
  by (auto simp: cohort_gate_def bindE_eq_Inr split: option.splits if_splits)


section \<open>Gaps\<close>

definition waiting :: policy_manager where
  "waiting = \<lparr>pm_version = PStr ''1.0.0'', pm_canaries = [(''2.0.0'', [])],
     pm_cohort_gates = [(''coding'', [(''minimum_accepted_outcome_rate'', lit 0.8)])]\<rparr>"

text \<open>Results whose metrics are all NaN pass every flat gate.\<close>

lemma nan_is_promoted:
  "map_option (fst \<circ> snd) (case promote_canary waiting ''2.0.0''
     [(''signed'', PBool True), (''gates'', PDict (map (\<lambda>(g, _). (g, PFloat NaN)) promotion_gates))] of Inr r \<Rightarrow> Some r | Inl _ \<Rightarrow> None) = Some True"
  by code_simp

definition good_metrics :: pyval where
  "good_metrics = PDict [(''unsafe_accept_rate'', PInt 0), (''calibration_ece'', PInt 0), (''replay_success_rate'', PInt 1),
     (''context_evidence_recall'', PInt 1), (''route_regret_usd'', PInt 0)]"

text \<open>The gates of a cohort of the manifest are not asked for when the results leave the cohort out.\<close>

lemma unreported_cohort_is_ignored:
  "map_option (fst \<circ> snd) (case promote_canary waiting ''2.0.0''
     [(''signed'', PBool True), (''cohorts'', PDict [(''anything'', good_metrics)])] of Inr r \<Rightarrow> Some r | Inl _ \<Rightarrow> None) = Some True"
  by code_simp


end
