(* ===== verification/Upstream.thy ===== *)
theory Upstream
  imports Epr_Kernel
begin

text \<open>
  The boundary to the upstream models: the request body (\<^verbatim>\<open>reference/gateway/openrouter.py\<close>), the two
  decoding phases (\<^verbatim>\<open>decoding.py\<close>), the deterministic clients (\<^verbatim>\<open>openrouter.py\<close>,
  \<^verbatim>\<open>local_models.py\<close>) and the local catalog (\<^verbatim>\<open>local_portfolio.py\<close>). The HTTP clients are
  transports, functions from payloads to results that the pipeline takes as arguments.
\<close>

section \<open>Payloads\<close>

definition passthrough_fields :: "string list" where
  "passthrough_fields = [''temperature'', ''top_p'', ''max_tokens'', ''stop'', ''n'', ''presence_penalty'', ''frequency_penalty'',
     ''logit_bias'', ''user'', ''tools'', ''tool_choice'', ''response_format'']"

definition or_dict :: "pyval \<Rightarrow> pyval" where
  "or_dict v = (if truthy v then v else PDict [])"

definition copy_field :: "pyval \<Rightarrow> (string, pyval) dict \<Rightarrow> string \<Rightarrow> (string, pyval) dict res" where
  "copy_field passthrough payload f =
     bindE (py_in (PStr f) passthrough) (\<lambda>b.
     if b then bindE (py_index passthrough f) (\<lambda>v. Inr (dset f v payload)) else Inr payload)"

definition denied_model :: "string list \<Rightarrow> string list \<Rightarrow> string \<Rightarrow> bool" where
  "denied_model ids pres m = (m \<in> set ids \<or> list_ex (startswith m) pres)"

definition build_chat_payload :: "pyval \<Rightarrow> pyval \<Rightarrow> pyval \<Rightarrow> (string, pyval) dict res" where
  "build_chat_payload plan request policy =
     bindE (py_get plan ''model_id'' PNone) (\<lambda>model.
     if \<not> truthy model then Inl (ConfigError ''selected_plan is missing an explicit model_id'') else
     bindE (py_get policy ''inference'' (PDict [])) (\<lambda>inference.
     bindE (lower_items inference ''forbidden_model_ids'') (\<lambda>ids.
     bindE (lower_items inference ''forbidden_model_prefixes'') (\<lambda>prefixes.
     if denied_model ids prefixes (lower (py_str model))
     then Inl (ConfigError (''model_id '' @ py_repr model @ '' is denied by policy'')) else
     bindE (py_get request ''passthrough'' PNone) (\<lambda>p.
     bindE (py_index request ''messages'') (\<lambda>messages.
     bindE (foldE (copy_field (or_dict p)) [(''model'', model), (''messages'', messages)] passthrough_fields) (\<lambda>payload.
     bindE (bindE (py_index inference ''openrouter'') (\<lambda>o'. py_index o' ''provider_routing'')) (\<lambda>routing.
     Inr (dset ''provider'' routing payload)))))))))"

section \<open>Decoding phases\<close>

definition is_conformance_tested :: "(string \<times> string) list \<Rightarrow> pyval \<Rightarrow> pyval \<Rightarrow> bool" where
  "is_conformance_tested tested model serving = ((py_str model, py_str serving) \<in> set tested)"

definition needs_separate_phases :: "(string \<times> string) list \<Rightarrow> pyval \<Rightarrow> pyval \<Rightarrow> pyval \<Rightarrow> bool res" where
  "needs_separate_phases tested request model serving =
     bindE (py_get request ''passthrough'' PNone) (\<lambda>p.
     bindE (py_get (or_dict p) ''tools'' PNone) (\<lambda>tools.
     Inr (truthy tools \<and> \<not> (serving \<noteq> PNone \<and> is_conformance_tested tested model serving))))"

definition build_phase1_payload :: "pyval \<Rightarrow> pyval \<Rightarrow> pyval \<Rightarrow> (string, pyval) dict res" where
  "build_phase1_payload request plan policy =
     bindE (build_chat_payload plan request policy) (\<lambda>payload. Inr (ddel ''response_format'' payload))"

definition build_phase2_payload :: "pyval \<Rightarrow> pyval \<Rightarrow> pyval \<Rightarrow> (string, pyval) dict res" where
  "build_phase2_payload request plan policy =
     bindE (build_chat_payload plan request policy) (\<lambda>payload. Inr (ddel ''tool_choice'' payload))"

section \<open>Deterministic clients\<close>

definition block_texts :: "pyval \<Rightarrow> string list" where
  "block_texts block = (case block of
     PDict d \<Rightarrow> if map_of d ''type'' = Some (PStr ''text'')
       then [py_str (case map_of d ''text'' of None \<Rightarrow> PStr [] | Some t \<Rightarrow> t)] else []
   | _ \<Rightarrow> [])"

definition user_texts :: "pyval \<Rightarrow> string list res" where
  "user_texts message =
     bindE (py_get message ''role'' PNone) (\<lambda>role.
     if role \<noteq> PStr ''user'' then Inr [] else
     bindE (py_get message ''content'' (PStr [])) (\<lambda>content. Inr (case content of
       PStr s \<Rightarrow> [s] | PList bs \<Rightarrow> concat (map block_texts bs) | _ \<Rightarrow> [])))"

definition last_user_text :: "pyval list \<Rightarrow> string res" where
  "last_user_text messages =
     bindE (mapE user_texts messages) (\<lambda>ts. Inr (if concat ts = [] then [] else last (concat ts)))"

definition validate_payload :: "pyval \<Rightarrow> (string, pyval) dict \<Rightarrow> unit res" where
  "validate_payload policy payload =
     bindE (py_get policy ''inference'' (PDict [])) (\<lambda>inference.
     bindE (lower_items inference ''forbidden_model_ids'') (\<lambda>ids.
     bindE (lower_items inference ''forbidden_model_prefixes'') (\<lambda>prefixes.
     let model = lower (py_str (case map_of payload ''model'' of None \<Rightarrow> PStr [] | Some m \<Rightarrow> m)) in
     if model = [] \<or> denied_model ids prefixes model then Inl (ConfigError ''payload model is missing or denied by policy'') else
     let provider = or_dict (case map_of payload ''provider'' of None \<Rightarrow> PNone | Some p \<Rightarrow> p) in
     bindE (py_get provider ''data_collection'' PNone) (\<lambda>dc.
     if dc \<noteq> PStr ''deny'' then Inl (ConfigError (''provider.data_collection must be '' @ repr_str ''deny'')) else
     bindE (bindE (py_get provider ''ignore'' (PList [])) (py_in (PStr ''openai''))) (\<lambda>b.
     if \<not> b then Inl (ConfigError (''provider.ignore must include '' @ repr_str ''openai'')) else Inr ())))))"

definition completion :: "string \<Rightarrow> int \<Rightarrow> pyval \<Rightarrow> string \<Rightarrow> int \<Rightarrow> int \<Rightarrow> pyval" where
  "completion i created model content prompt output =
     PDict [(''id'', PStr i), (''object'', PStr ''chat.completion''), (''created'', PInt created), (''model'', model),
       (''choices'', PList [PDict [(''index'', PInt 0),
          (''message'', PDict [(''role'', PStr ''assistant''), (''content'', PStr content)]), (''finish_reason'', PStr ''stop'')]]),
       (''usage'', PDict [(''prompt_tokens'', PInt prompt), (''completion_tokens'', PInt output), (''total_tokens'', PInt (prompt + output))])]"

definition payload_text :: "(string, pyval) dict \<Rightarrow> string res" where
  "payload_text payload = bindE (py_iter (case map_of payload ''messages'' of None \<Rightarrow> PList [] | Some m \<Rightarrow> m)) last_user_text"

definition stub_completion :: "string \<Rightarrow> int \<Rightarrow> pyval \<Rightarrow> (string, pyval) dict \<Rightarrow> pyval res" where
  "stub_completion uuid created policy payload =
     bindE (validate_payload policy payload) (\<lambda>_.
     bindE (payload_text payload) (\<lambda>t.
     bindE (py_index (PDict payload) ''model'') (\<lambda>model.
     Inr (completion (''gen-'' @ uuid) created model (''[noerelay stub] '' @ take 200 t) 0 0))))"

definition local_stub_completion :: "string \<Rightarrow> int \<Rightarrow> string \<Rightarrow> (string, pyval) dict \<Rightarrow> pyval res" where
  "local_stub_completion uuid created model payload =
     bindE (payload_text payload) (\<lambda>t.
     Inr (completion (''local-gen-'' @ uuid) created (PStr model) (''[local stub] '' @ take 200 t) 10 20))"

section \<open>The local catalog\<close>

definition local_entry :: "string \<Rightarrow> string \<Rightarrow> f64 \<Rightarrow> int \<Rightarrow> f64 \<Rightarrow> string list \<Rightarrow> string \<Rightarrow> string \<Rightarrow> (string, pyval) dict" where
  "local_entry candidate model fallback latency lcb caps size_text specialization =
     [(''candidate_id'', PStr candidate), (''action_kind'', PStr ''model''), (''model_id'', PStr model), (''provider_family'', PStr ''qwen''),
      (''inference_gateway'', PStr ''local''), (''base_url'', PStr ''http://127.0.0.1:11434''), (''call_cost_usd'', PFloat (Fin 0)),
      (''tool_cost_usd'', PFloat (Fin 0)), (''verification_cost_usd'', PFloat (Fin 0)), (''expected_retry_cost_usd'', PFloat (Fin 0)),
      (''expected_fallback_cost_usd'', PFloat fallback), (''infrastructure_cost_usd'', PFloat (Fin 0)),
      (''expected_human_review_cost_usd'', PFloat (Fin 0)), (''expected_total_cost_usd'', PFloat fallback),
      (''latency_ms_p95'', PInt latency), (''acceptance_lcb'', PFloat lcb), (''available'', PBool True),
      (''required_capabilities'', PList (map PStr caps)), (''data_policy'', PStr ''local_only''), (''is_local'', PBool True),
      (''model_size'', PStr size_text), (''specialization'', PStr specialization)]"

definition local_models :: "(string, pyval) dict list" where
  "local_models =
     [local_entry ''qwen3-8b-local'' ''qwen3:8b'' (lit 0.001) 3000 (lit 0.8) [''text'', ''tool_calling''] ''8B'' ''general'',
      local_entry ''qwen3-coder-30b-local'' ''qwen3-coder:30b'' (lit 0.001) 5000 (lit 0.85)
        [''text'', ''tool_calling'', ''structured_output''] ''30B'' ''coding'',
      local_entry ''qwen3-vl-8b-local'' ''qwen3-vl:8b-thinking'' (lit 0.001) 4000 (lit 0.8)
        [''text'', ''vision'', ''tool_calling''] ''8B'' ''vision'',
      local_entry ''qwen38-4b-distilled-local'' ''qwen38-4b-distilled:latest'' (lit 0.0005) 1000 (lit 0.7) [''text''] ''4B'' ''fast_general'']"

definition get_local_model_by_id :: "string \<Rightarrow> (string, pyval) dict option" where
  "get_local_model_by_id model = find (\<lambda>m. map_of m ''model_id'' = Some (PStr model)) local_models"

definition all_local_data_policies :: "string list" where
  "all_local_data_policies = [''local_only'', ''zdr'', ''no_training'', ''standard'']"

definition catalog_get :: "(string, pyval) dict \<Rightarrow> string \<Rightarrow> pyval \<Rightarrow> pyval" where
  "catalog_get m k x = (case map_of m k of None \<Rightarrow> x | Some v \<Rightarrow> v)"

definition catalog_float :: "(string, pyval) dict \<Rightarrow> string \<Rightarrow> f64 res" where
  "catalog_float m k = py_float (catalog_get m k (PFloat (Fin 0)))"

definition local_cost_fields :: "string list" where
  "local_cost_fields = [''call_cost_usd'', ''tool_cost_usd'', ''verification_cost_usd'', ''expected_retry_cost_usd'',
     ''expected_fallback_cost_usd'', ''infrastructure_cost_usd'', ''expected_human_review_cost_usd'']"

definition local_candidate :: "pyval \<Rightarrow> (string, pyval) dict \<Rightarrow> pyval res" where
  "local_candidate data_policy m =
     bindE (catalog_float m ''acceptance_lcb'') (\<lambda>lcb.
     bindE (py_index (PDict m) ''candidate_id'') (\<lambda>candidate.
     bindE (py_iter (catalog_get m ''required_capabilities'' (PList []))) (\<lambda>caps.
     bindE (py_int (catalog_get m ''latency_ms_p95'' (PInt 0))) (\<lambda>latency.
     bindE (mapE (\<lambda>k. bindE (catalog_float m k) (\<lambda>c. Inr (k, PFloat c))) local_cost_fields) (\<lambda>costs.
     Inr (PDict [(''candidate_id'', candidate), (''action_kind'', PStr ''model''),
       (''inference_gateway'', catalog_get m ''inference_gateway'' (PStr ''local'')), (''model_id'', catalog_get m ''model_id'' PNone),
       (''provider_family'', catalog_get m ''provider_family'' PNone), (''roles'', PList [PStr ''execute'']),
       (''available'', PBool (truthy (catalog_get m ''available'' (PBool False)))), (''capabilities'', PList caps),
       (''data_policies'', PList (map PStr all_local_data_policies)), (''data_policy'', data_policy),
       (''acceptance'', PDict [(''estimate'', PFloat lcb), (''lower_bound'', PFloat lcb), (''confidence_level'', PFloat (lit 0.95))]),
       (''latency_ms_p95'', PInt latency), (''costs'', PDict costs), (''is_local'', PBool True)]))))))"

definition local_candidates :: "pyval \<Rightarrow> pyval list res" where
  "local_candidates data_policy = mapE (local_candidate data_policy) local_models"

section \<open>Lemmas\<close>

lemma copy_field_keeps: "copy_field p payload f = Inr payload' \<Longrightarrow> k \<noteq> f \<Longrightarrow> map_of payload' k = map_of payload k"
  by (auto simp: copy_field_def bindE_eq_Inr split: if_splits)

lemma copy_field_keys:
  assumes "copy_field p payload f = Inr payload'" shows "fst ` set payload' \<subseteq> insert f (fst ` set payload)"
proof -
  have "payload' = payload \<or> (\<exists>v. payload' = dset f v payload)"
    using assms by (auto simp: copy_field_def bindE_eq_Inr split: if_splits)
  then show ?thesis using dom_update[of f _ payload] by (elim disjE exE) blast+
qed

lemma copy_fields_keep: "foldE (copy_field p) payload fs = Inr payload' \<Longrightarrow> k \<notin> set fs \<Longrightarrow> map_of payload' k = map_of payload k"
  by (induction fs arbitrary: payload) (auto simp: bindE_eq_Inr dest: copy_field_keeps)

text \<open>
  The body sent upstream names the model of the plan explicitly, and that model is neither a
  forbidden id nor under a forbidden prefix of the policy; it carries the messages of the request
  and the provider-routing block of the policy, whatever the caller passes through. The two phases
  of a tool call send the same, one without a response format, the other without a tool choice.
\<close>

theorem payload_respects_policy:
  assumes "build_chat_payload plan request policy = Inr payload"
  shows "\<exists>model inference ids prefixes openrouter.
    py_get plan ''model_id'' PNone = Inr model \<and> truthy model \<and> map_of payload ''model'' = Some model \<and>
    py_get policy ''inference'' (PDict []) = Inr inference \<and>
    lower_items inference ''forbidden_model_ids'' = Inr ids \<and> lower (py_str model) \<notin> set ids \<and>
    lower_items inference ''forbidden_model_prefixes'' = Inr prefixes \<and> (\<forall>p\<in>set prefixes. \<not> startswith (lower (py_str model)) p) \<and>
    py_index request ''messages'' = Inr (the (map_of payload ''messages'')) \<and>
    py_index inference ''openrouter'' = Inr openrouter \<and> py_index openrouter ''provider_routing'' = Inr (the (map_of payload ''provider'')) \<and>
    fst ` set payload \<subseteq> set ([''model'', ''messages'', ''provider''] @ passthrough_fields) \<and>
    build_phase1_payload request plan policy = Inr (ddel ''response_format'' payload) \<and>
    build_phase2_payload request plan policy = Inr (ddel ''tool_choice'' payload)"
proof -
  obtain model inference ids prefixes p messages before openrouter routing where m:
    "py_get plan ''model_id'' PNone = Inr model" "truthy model" "py_get policy ''inference'' (PDict []) = Inr inference"
    "lower_items inference ''forbidden_model_ids'' = Inr ids" "lower_items inference ''forbidden_model_prefixes'' = Inr prefixes"
    "\<not> denied_model ids prefixes (lower (py_str model))" "py_index request ''messages'' = Inr messages"
    and b: "foldE (copy_field (or_dict p)) [(''model'', model), (''messages'', messages)] passthrough_fields = Inr before"
    and r: "py_index inference ''openrouter'' = Inr openrouter" "py_index openrouter ''provider_routing'' = Inr routing"
    "payload = dset ''provider'' routing before"
    using assms by (auto simp: build_chat_payload_def bindE_eq_Inr split: if_splits)
  have "map_of before ''model'' = Some model" "map_of before ''messages'' = Some messages"
    using copy_fields_keep[OF b, of "''model''"] copy_fields_keep[OF b, of "''messages''"] by (simp_all add: passthrough_fields_def)
  moreover have "fst ` set before \<subseteq> set ([''model'', ''messages''] @ passthrough_fields)"
  proof (rule foldE_inv[OF b, of "\<lambda>d. fst ` set d \<subseteq> set ([''model'', ''messages''] @ passthrough_fields)"])
    show "fst ` set d' \<subseteq> set ([''model'', ''messages''] @ passthrough_fields)"
      if "f \<in> set passthrough_fields" "fst ` set d \<subseteq> set ([''model'', ''messages''] @ passthrough_fields)" "copy_field (or_dict p) d f = Inr d'" for f d d'
      using that(1,2) by (intro order_trans[OF copy_field_keys[OF that(3)]]) simp
  qed simp
  ultimately show ?thesis
    using m r assms by (auto simp: denied_model_def list_ex_iff build_phase1_payload_def build_phase2_payload_def dom_update)
qed

text \<open>Whatever data policy a request asks for, no local candidate is rejected for it.\<close>

definition fits_any_data_policy :: "pyval \<Rightarrow> bool" where
  "fits_any_data_policy c = (py_get c ''inference_gateway'' PNone = Inr (PStr ''local'') \<and>
     (\<forall>g\<in>set all_local_data_policies. data_policy_reasons (PDict [(''data_policy'', PStr g)]) c = Inr []))"

lemma local_candidate_entry: "\<exists>c. local_candidate dp (local_entry i m f l lcb caps sz sp) = Inr c \<and> fits_any_data_policy c"
  by (simp add: local_candidate_def catalog_float_def catalog_get_def local_entry_def local_cost_fields_def fits_any_data_policy_def
      data_policy_reasons_def image_iff)

lemma local_candidates_any_data_policy:
  "\<exists>cs. local_candidates dp = Inr cs \<and> length cs = length local_models \<and> (\<forall>c\<in>set cs. fits_any_data_policy c)"
proof -
  have "\<forall>m\<in>set local_models. \<exists>c. local_candidate dp m = Inr c \<and> fits_any_data_policy c"
    unfolding local_models_def list.set ball_simps by (intro conjI TrueI) (rule local_candidate_entry)+
  then obtain f where f: "\<forall>m\<in>set local_models. local_candidate dp m = Inr (f m) \<and> fits_any_data_policy (f m)" by metis
  then have "local_candidates dp = Inr (map f local_models)" unfolding local_candidates_def by (intro mapE_total) blast
  then show ?thesis using f by auto
qed

section \<open>Witness\<close>

definition routed_plan :: pyval where
  "routed_plan = PDict [(''model_id'', PStr ''qwen/qwen3.6-27b'')]"

definition tool_request :: pyval where
  "tool_request = PDict [(''messages'', PList []), (''passthrough'', PDict [(''tools'', PList [PNone]), (''model'', PStr ''other''), (''provider'', PNone)])]"

definition routing_policy :: pyval where
  "routing_policy = PDict [(''inference'', PDict [(''forbidden_model_ids'', PList [PStr ''openai/gpt-4'']),
     (''forbidden_model_prefixes'', PList [PStr ''openai/'']), (''openrouter'', PDict [(''provider_routing'', PDict [(''zdr'', PBool True)])])])]"

theorem payload_respects_policy_witness:
  "\<exists>payload. build_chat_payload routed_plan tool_request routing_policy = Inr payload \<and>
     fst ` set payload \<subseteq> set ([''model'', ''messages'', ''provider''] @ passthrough_fields) \<and>
     build_phase1_payload tool_request routed_plan routing_policy = Inr (ddel ''response_format'' payload)"
proof -
  have "returns (build_chat_payload routed_plan tool_request routing_policy)" by code_simp
  then obtain payload where "build_chat_payload routed_plan tool_request routing_policy = Inr payload" by (auto simp: returns_iff)
  with payload_respects_policy[OF this] show ?thesis by blast
qed

end
