(* ===== verification/Render.thy ===== *)
theory Render
  imports Py_Val
begin

text \<open>
  The response and error bodies, \<^verbatim>\<open>reference/gateway/render.py\<close>. UUIDs and the clock in seconds are
  arguments. The keyword arguments of \<^verbatim>\<open>render_epr_metadata\<close> are the fields of a record.
\<close>

definition virtual_model_id :: string where
  "virtual_model_id = ''noerelay/epr-1''"

definition opt_field :: "string \<Rightarrow> string option \<Rightarrow> (string, pyval) dict" where
  "opt_field k s = (case s of None \<Rightarrow> [] | Some t \<Rightarrow> [(k, PStr t)])"

definition error_envelope :: "string \<Rightarrow> string \<Rightarrow> string option \<Rightarrow> string option \<Rightarrow> pyval" where
  "error_envelope message type param code =
     PDict [(''error'', PDict ([(''message'', PStr message), (''type'', PStr type)] @ opt_field ''param'' param @ opt_field ''code'' code))]"

definition render_models_list :: "int \<Rightarrow> pyval" where
  "render_models_list created =
     PDict [(''object'', PStr ''list''), (''data'', PList [PDict [(''id'', PStr virtual_model_id), (''object'', PStr ''model''),
       (''created'', PInt created), (''owned_by'', PStr ''noerelay'')]])]"

record epr_metadata =
  em_run_id :: string
  em_trace_id :: string
  em_status :: string
  em_decision_id :: pyval
  em_base_url :: string
  em_head_hash :: pyval
  em_total_cost :: f64
  em_actual_cost :: f64
  em_total_tokens :: int
  em_latency_ms :: f64
  em_provider_fallbacks :: pyval
  em_semantic_fallbacks :: pyval
  em_human_intervention :: bool
  em_rework :: bool
  em_cache_hit :: bool
  em_compression :: "pyval option"

definition render_epr_metadata :: "epr_metadata \<Rightarrow> pyval" where
  "render_epr_metadata m =
     PDict ([(''run_id'', PStr (em_run_id m)), (''trace_id'', PStr (em_trace_id m)), (''status'', PStr (em_status m)),
        (''route_decision_id'', em_decision_id m), (''evidence_receipt_url'', PStr (em_base_url m @ ''/v1/epr/runs/'' @ em_run_id m)),
        (''ledger_head_hash'', em_head_hash m), (''total_cost_usd'', PFloat (em_total_cost m)), (''actual_cost_usd'', PFloat (em_actual_cost m)),
        (''total_tokens'', PInt (em_total_tokens m)), (''latency_ms'', PFloat (em_latency_ms m)),
        (''provider_fallback_count'', em_provider_fallbacks m), (''semantic_fallback_count'', em_semantic_fallbacks m),
        (''required_human_intervention'', PBool (em_human_intervention m)), (''required_rework'', PBool (em_rework m)),
        (''cache_hit'', PBool (em_cache_hit m))] @ (case em_compression m of None \<Rightarrow> [] | Some c \<Rightarrow> [(''compression'', c)]))"

definition no_usage :: "(string, pyval) dict" where
  "no_usage = [(''prompt_tokens'', PInt 0), (''completion_tokens'', PInt 0), (''total_tokens'', PInt 0)]"

definition usage_item :: "(string, pyval) dict option \<Rightarrow> string \<Rightarrow> pyval" where
  "usage_item usage k = (case map_of (case usage of None \<Rightarrow> no_usage | Some u \<Rightarrow> u) k of None \<Rightarrow> PInt 0 | Some v \<Rightarrow> v)"

definition render_chat_completion :: "string \<Rightarrow> int \<Rightarrow> pyval \<Rightarrow> pyval \<Rightarrow> (string, pyval) dict option \<Rightarrow> pyval" where
  "render_chat_completion uuid created content epr usage =
     PDict [(''id'', PStr (''chatcmpl-'' @ uuid)), (''object'', PStr ''chat.completion''), (''created'', PInt created),
       (''model'', PStr virtual_model_id),
       (''choices'', PList [PDict [(''index'', PInt 0),
          (''message'', PDict [(''role'', PStr ''assistant''), (''content'', content)]), (''finish_reason'', PStr ''stop'')]]),
       (''usage'', PDict [(''prompt_tokens'', usage_item usage ''prompt_tokens''),
          (''completion_tokens'', usage_item usage ''completion_tokens''), (''total_tokens'', usage_item usage ''total_tokens'')]),
       (''epr'', epr)]"

definition render_responses_object :: "string \<Rightarrow> string \<Rightarrow> int \<Rightarrow> pyval \<Rightarrow> pyval \<Rightarrow> (string, pyval) dict option \<Rightarrow> pyval" where
  "render_responses_object uuid uuid' created content epr usage =
     PDict [(''id'', PStr (''resp-'' @ uuid)), (''object'', PStr ''response''), (''created_at'', PInt created),
       (''status'', PStr ''completed''), (''model'', PStr virtual_model_id),
       (''output'', PList [PDict [(''type'', PStr ''message''), (''id'', PStr (''msg-'' @ uuid')), (''status'', PStr ''completed''),
          (''role'', PStr ''assistant''), (''content'', PList [PDict [(''type'', PStr ''output_text''), (''text'', content)]])]]),
       (''usage'', PDict [(''input_tokens'', usage_item usage ''prompt_tokens''),
          (''output_tokens'', usage_item usage ''completion_tokens''), (''total_tokens'', usage_item usage ''total_tokens'')]),
       (''epr'', epr)]"

text \<open>The part every error body names: the run and the head of its ledger.\<close>

definition run_binding :: "string \<Rightarrow> string \<Rightarrow> pyval \<Rightarrow> (string, pyval) dict" where
  "run_binding run trace head = [(''run_id'', PStr run), (''trace_id'', PStr trace), (''ledger_head_hash'', head)]"

definition render_validation_error :: "string \<Rightarrow> string \<Rightarrow> pyval \<Rightarrow> string list \<Rightarrow> pyval" where
  "render_validation_error run trace head errors =
     PDict [(''error'', PDict [(''message'', PStr (join ''; '' errors)), (''type'', PStr ''governance_validation_error''),
         (''param'', PStr ''governance''), (''code'', PStr ''governance_invalid'')]),
       (''epr'', PDict (run_binding run trace head))]"

definition render_clarification_error :: "string \<Rightarrow> string \<Rightarrow> pyval \<Rightarrow> pyval \<Rightarrow> pyval res" where
  "render_clarification_error run trace head contract =
     bindE (py_get contract ''task_id'' PNone) (\<lambda>task. bindE (py_get contract ''risk_class'' PNone) (\<lambda>risk.
     Inr (PDict [(''error'', PDict [
         (''message'', PStr ''High/critical-risk work requires usable acceptance criteria before autonomous execution.''),
         (''type'', PStr ''clarification_required_error''), (''param'', PStr ''acceptance_criteria''), (''code'', PStr ''clarification_required'')]),
       (''epr'', PDict (run_binding run trace head @ [(''task_id'', task), (''risk_class'', risk)]))])))"

definition render_escalation_error :: "string \<Rightarrow> string \<Rightarrow> pyval \<Rightarrow> pyval \<Rightarrow> pyval res" where
  "render_escalation_error run trace head decision =
     bindE (py_get decision ''candidate_audit'' (PList [])) (\<lambda>audit.
     bindE (py_get decision ''explanation'' (PStr ''No admissible route exists.'')) (\<lambda>message.
     bindE (mapE (\<lambda>k. bindE (py_get decision k PNone) (\<lambda>v. Inr (k, v))) [''decision_id'', ''status'', ''explanation'', ''required_acceptance_lcb'']) (\<lambda>parts.
     bindE (py_len audit) (\<lambda>n.
     bindE (bindE (py_iter audit) (filterE (\<lambda>entry. bindE (py_get entry ''admissible'' PNone) (\<lambda>a. Inr (truthy a))))) (\<lambda>ok.
     Inr (PDict [(''error'', PDict [(''message'', message), (''type'', PStr ''no_admissible_route_error''), (''param'', PNone),
         (''code'', PStr ''no_admissible_route'')]),
       (''epr'', PDict (run_binding run trace head @
          [(''route_decision'', PDict (parts @ [(''candidates_evaluated'', PInt (int n)), (''candidates_admissible'', PInt (int (length ok)))]))]))]))))))"

definition render_stream_chunk :: "string \<Rightarrow> int \<Rightarrow> pyval option \<Rightarrow> pyval \<Rightarrow> pyval option \<Rightarrow> pyval option \<Rightarrow> pyval" where
  "render_stream_chunk stream created delta finish choices epr =
     PDict ([(''id'', PStr stream), (''object'', PStr ''chat.completion.chunk''), (''created'', PInt created),
        (''model'', PStr virtual_model_id),
        (''choices'', (case choices of Some c \<Rightarrow> c | None \<Rightarrow>
           PList [PDict [(''index'', PInt 0), (''delta'', case delta of None \<Rightarrow> PDict [] | Some d \<Rightarrow> d), (''finish_reason'', finish)]]))] @
       (case epr of None \<Rightarrow> [] | Some e \<Rightarrow> [(''epr'', e)]))"

definition render_stream_error_chunk :: "pyval \<Rightarrow> pyval \<Rightarrow> pyval" where
  "render_stream_error_chunk error epr = PDict [(''error'', error), (''epr'', epr)]"

end
