(* ===== verification/Pipeline.thy ===== *)
theory Pipeline
  imports Runs Upstream Render Provenance Canary Governance Contracts Verification_Dag Escalation State_Machine Caches
begin

text \<open>
  The inference pipeline, \<^verbatim>\<open>reference/gateway/pipeline.py\<close>, over the run registry in memory. A
  computation takes the state of the gateway and returns the state it leaves with an exception or a
  value, so that what was done earlier an exception stays done. What the code draws from outside,
  UUIDs and clocks, comes from functions of the number of draws so far; the transports, the
  compressor and the persistent configuration are arguments. Calls to the transports and to the
  optional components are recorded in order.
\<close>

section \<open>Computations\<close>

datatype pipe_exc = HttpError int pyval | Raised pyexc

datatype outcall =
    Upstream bool "(string, pyval) dict"
  | Spend string f64 string
  | Webhook string pyval
  | Alert string string string pyval

record pipe_state =
  ps_registry :: run_registry
  ps_machine :: vsm
  ps_escalation :: "escalation_policy option"
  ps_cache :: "pyval response_cache option"
  ps_request :: "(string, pyval) dict"
  ps_calls :: "outcall list"
  ps_tick :: nat

record compression_result =
  cr_messages :: "pyval list"
  cr_original :: int
  cr_compressed :: int
  cr_ratio :: f64
  cr_strategy :: string
  cr_duration :: f64
  cr_saved :: int
  cr_skipped :: bool

text \<open>What does not change while a request runs. A local client, the optional components and the
  configuration may be absent.\<close>

record pipe_env =
  pe_sha :: "string \<Rightarrow> string"
  pe_uuid :: "nat \<Rightarrow> nat \<Rightarrow> string"
  pe_now :: "nat \<Rightarrow> nat \<Rightarrow> string"
  pe_seconds :: "nat \<Rightarrow> int"
  pe_clock :: "nat \<Rightarrow> f64"
  pe_policy :: pyval
  pe_portfolio :: "pyval list"
  pe_config :: "(string \<Rightarrow> pyval option) option"
  pe_manifest :: pyval
  pe_max_cost :: pyval
  pe_max_latency :: pyval
  pe_base_url :: string
  pe_prefer_local :: bool
  pe_cloud :: "nat \<Rightarrow> (string, pyval) dict \<Rightarrow> pyval res"
  pe_local :: "(nat \<Rightarrow> (string, pyval) dict \<Rightarrow> pyval res) option"
  pe_compress :: "pyval list \<Rightarrow> compression_result res"
  pe_spend :: "(string \<Rightarrow> f64 \<Rightarrow> string \<Rightarrow> unit res) option"
  pe_webhooks :: "(string \<Rightarrow> pyval \<Rightarrow> unit res) option"
  pe_alerts :: "(string \<Rightarrow> string \<Rightarrow> string \<Rightarrow> pyval \<Rightarrow> unit res) option"

type_synonym 'a pipe = "pipe_state \<Rightarrow> pipe_state \<times> (pipe_exc + 'a)"

definition returnP :: "'a \<Rightarrow> 'a pipe" where
  "returnP x s = (s, Inr x)"

definition raiseP :: "pipe_exc \<Rightarrow> 'a pipe" where
  "raiseP e s = (s, Inl e)"

definition bindP :: "'a pipe \<Rightarrow> ('a \<Rightarrow> 'b pipe) \<Rightarrow> 'b pipe" where
  "bindP m f s = (case m s of (s', Inl e) \<Rightarrow> (s', Inl e) | (s', Inr x) \<Rightarrow> f x s')"

definition liftP :: "'a res \<Rightarrow> 'a pipe" where
  "liftP r s = (s, case r of Inl e \<Rightarrow> Inl (Raised e) | Inr x \<Rightarrow> Inr x)"

definition getP :: "(pipe_state \<Rightarrow> 'a) \<Rightarrow> 'a pipe" where
  "getP f s = (s, Inr (f s))"

definition modifyP :: "(pipe_state \<Rightarrow> pipe_state) \<Rightarrow> unit pipe" where
  "modifyP f s = (f s, Inr ())"

text \<open>Statements one after the other, and a loop over a list.\<close>

definition thenP :: "unit pipe \<Rightarrow> 'a pipe \<Rightarrow> 'a pipe" where
  "thenP m k = bindP m (\<lambda>_. k)"

fun eachP :: "('a \<Rightarrow> unit pipe) \<Rightarrow> 'a list \<Rightarrow> unit pipe" where
  "eachP f [] = returnP ()"
| "eachP f (x # xs) = thenP (f x) (eachP f xs)"

definition whenP :: "bool \<Rightarrow> unit pipe \<Rightarrow> unit pipe" where
  "whenP b m = (if b then m else returnP ())"

text \<open>One reading of the clocks or one UUID: the number of draws so far, which goes up.\<close>

definition tickP :: "nat pipe" where
  "tickP s = (s\<lparr>ps_tick := Suc (ps_tick s)\<rparr>, Inr (ps_tick s))"

definition callP :: "outcall \<Rightarrow> unit pipe" where
  "callP c = modifyP (\<lambda>s. s\<lparr>ps_calls := ps_calls s @ [c]\<rparr>)"

section \<open>The run, its ledger and its state\<close>

definition gateway_actor :: pyval where
  "gateway_actor = PDict [(''id'', PStr ''noerelay-gateway''), (''kind'', PStr ''service''), (''version'', PStr ''0.1.0'')]"

definition router_actor :: pyval where
  "router_actor = PDict [(''id'', PStr ''epr-router''), (''kind'', PStr ''service'')]"

definition recordP :: "string \<Rightarrow> run_record pipe" where
  "recordP run s = liftP (require_run (ps_registry s) run) s"

definition set_recordP :: "string \<Rightarrow> (run_record \<Rightarrow> run_record) \<Rightarrow> unit pipe" where
  "set_recordP run f =
     bindP (recordP run) (\<lambda>rr. modifyP (\<lambda>s. s\<lparr>ps_registry := put_run (ps_registry s) run (f rr)\<rparr>))"

text \<open>A call of the registry that returns the registry it leaves.\<close>

definition registryP :: "(run_registry \<Rightarrow> run_registry res) \<Rightarrow> unit pipe" where
  "registryP f s = (case f (ps_registry s) of Inl e \<Rightarrow> (s, Inl (Raised e)) | Inr g \<Rightarrow> (s\<lparr>ps_registry := g\<rparr>, Inr ()))"

definition ledgerP :: "pipe_env \<Rightarrow> string \<Rightarrow> string \<Rightarrow> pyval \<Rightarrow> string \<Rightarrow> pyval \<Rightarrow> unit pipe" where
  "ledgerP env run kind actor subject payload =
     bindP tickP (\<lambda>t. registryP (\<lambda>g.
       bindE (ledger (pe_sha env) (pe_uuid env t 0) (pe_now env t 0) g run kind actor (PStr subject) payload) (\<lambda>(g', _). Inr g')))"

definition head_hashP :: "string \<Rightarrow> pyval pipe" where
  "head_hashP run s = liftP (head_hash (ps_registry s) run) s"

definition receiptP :: "pipe_env \<Rightarrow> string \<Rightarrow> string \<Rightarrow> pyval list \<Rightarrow> f64 \<Rightarrow> unit pipe" where
  "receiptP env run outcome results cost =
     bindP tickP (\<lambda>t. registryP (\<lambda>g.
       bindE (issue_receipt (pe_uuid env t 0) (pe_now env t 0) g run outcome (PList results) (PFloat cost)) (\<lambda>(g', _). Inr g')))"

definition transitionP :: "string \<Rightarrow> string \<Rightarrow> bool \<Rightarrow> unit pipe" where
  "transitionP run event ok s =
     (case transition (ps_machine s) run event ok of
        (m, Inl e) \<Rightarrow> (s\<lparr>ps_machine := m\<rparr>, Inl (Raised e))
      | (m, Inr _) \<Rightarrow> (s\<lparr>ps_machine := m\<rparr>, Inr ()))"

definition es_of :: "run_record \<Rightarrow> es_state res" where
  "es_of rr = (case rr_epistemic_state rr of None \<Rightarrow> Inl AttributeError | Some es \<Rightarrow> Inr es)"

definition add_evidenceP :: "string \<Rightarrow> pydict \<Rightarrow> unit pipe" where
  "add_evidenceP run e =
     bindP (recordP run) (\<lambda>rr. bindP (liftP (bindE (es_of rr) (\<lambda>es. add_evidence es e))) (\<lambda>(es, _).
       set_recordP run (\<lambda>r. r\<lparr>rr_epistemic_state := Some es\<rparr>)))"

definition updated :: "(string, pyval) dict \<Rightarrow> pyval \<Rightarrow> (string, pyval) dict" where
  "updated payload e = (case e of PDict d \<Rightarrow> dupdate payload d | _ \<Rightarrow> payload)"

text \<open>A payload enriched by the ledger of decisions of the run, when it has one.\<close>

definition enrichP ::
  "pipe_env \<Rightarrow> string \<Rightarrow> (string, pyval) dict \<Rightarrow> (string \<Rightarrow> pyval list \<Rightarrow> es_state \<Rightarrow> (pyval list \<times> pyval) res) \<Rightarrow>
    (string, pyval) dict pipe" where
  "enrichP env run payload f =
     bindP (recordP run) (\<lambda>rr. case rr_epistemic_ledger rr of
       None \<Rightarrow> returnP payload
     | Some history \<Rightarrow>
         bindP tickP (\<lambda>t.
         bindP (liftP (bindE (es_of rr) (f (pe_now env t 0) history))) (\<lambda>(history', e).
         thenP (set_recordP run (\<lambda>r. r\<lparr>rr_epistemic_ledger := Some history'\<rparr>)) (returnP (updated payload e)))))"

section \<open>Helpers of the stages\<close>

definition or_value :: "pyval \<Rightarrow> pyval \<Rightarrow> pyval" where
  "or_value v w = (if truthy v then v else w)"

definition model_rates :: "(string \<times> (f64 \<times> f64)) list" where
  "model_rates =
     [(''qwen/qwen3.6-35b-a3b'', (lit 0.00035, lit 0.0014)), (''qwen/qwen3.6-27b'', (lit 0.0003, lit 0.0012)),
      (''anthropic/claude-sonnet-4.6'', (lit 0.003, lit 0.015)), (''anthropic/claude-haiku-4.5'', (lit 0.001, lit 0.005)),
      (''qwen3:8b'', (Fin 0, Fin 0)), (''qwen3-coder:30b'', (Fin 0, Fin 0)),
      (''qwen3-vl:8b-thinking'', (Fin 0, Fin 0)), (''qwen38-4b-distilled:latest'', (Fin 0, Fin 0))]"

definition estimate_cost :: "pyval \<Rightarrow> pyval \<Rightarrow> f64 res" where
  "estimate_cost usage plan =
     bindE (py_get plan ''inference_gateway'' PNone) (\<lambda>gateway.
     if py_str (or_value gateway (PStr [])) = ''local'' then Inr (Fin 0) else
     bindE (bindE (py_get usage ''prompt_tokens'' PNone) (\<lambda>v. py_int (or_value v (PInt 0)))) (\<lambda>prompt.
     bindE (bindE (py_get usage ''completion_tokens'' PNone) (\<lambda>v. py_int (or_value v (PInt 0)))) (\<lambda>output.
     bindE (py_get plan ''model_id'' PNone) (\<lambda>model.
     bindE (bindE (f_of_int prompt) (\<lambda>x. f_div x (Fin 1000))) (\<lambda>kp.
     bindE (bindE (f_of_int output) (\<lambda>x. f_div x (Fin 1000))) (\<lambda>ko.
     let (rp, ro) = (case map_of model_rates (py_str (or_value model (PStr []))) of None \<Rightarrow> (lit 0.0015, lit 0.006) | Some r \<Rightarrow> r) in
     Inr (f_round (f_add (f_mul kp rp) (f_mul ko ro)) 8)))))))"

definition context_is_large :: "pyval list \<Rightarrow> es_state \<Rightarrow> bool" where
  "context_is_large events es = (1000 \<le> length events + length (es_claims es) + length (es_evidence es))"

definition narrative_for :: "pyval \<Rightarrow> string res" where
  "narrative_for contract =
     bindE (py_get contract ''task_id'' PNone) (\<lambda>task. bindE (py_get contract ''goal'' PNone) (\<lambda>goal.
     Inr (''Context compiled for task '' @ py_str task @ '': '' @ py_str goal)))"

definition stage_route :: "pyval \<Rightarrow> pyval list \<Rightarrow> pyval \<Rightarrow> route_decision res" where
  "stage_route contract portfolio policy = select_route contract portfolio policy"

definition merge_portfolio_with_local :: "pyval list \<Rightarrow> (string, pyval) dict \<Rightarrow> pyval list res" where
  "merge_portfolio_with_local portfolio merged =
     bindE (py_index (PDict merged) ''data_policy'') (\<lambda>dp. bindE (local_candidates dp) (\<lambda>cs. Inr (portfolio @ cs)))"

definition plan_provider :: "pyval \<Rightarrow> string res" where
  "plan_provider plan =
     bindE (py_get plan ''provider_family'' PNone) (\<lambda>family. if truthy family then Inr (py_str family) else
     bindE (py_get plan ''model_id'' PNone) (\<lambda>model. Inr (py_str (or_value model (PStr [])))))"

definition plan_model :: "pyval \<Rightarrow> string res" where
  "plan_model plan =
     bindE (py_get plan ''model_id'' PNone) (\<lambda>model. if truthy model then Inr (py_str model) else
     bindE (py_get plan ''action_id'' PNone) (\<lambda>action. if truthy action then Inr (py_str action) else
     bindE (py_get plan ''candidate_id'' PNone) (\<lambda>c. Inr (py_str (or_value c (PStr []))))))"

definition plan_requires_canary :: "pyval \<Rightarrow> bool res" where
  "plan_requires_canary plan =
     bindE (py_get plan ''experimental'' PNone) (\<lambda>e. if truthy e then Inr True else
     bindE (py_get plan ''canary'' PNone) (\<lambda>c. Inr (truthy c)))"

text \<open>A flag of the persistent configuration, off unless it is true or a word for it.\<close>

definition runtime_flag :: "pipe_env \<Rightarrow> string \<Rightarrow> bool" where
  "runtime_flag env key = (case pe_config env of None \<Rightarrow> False
     | Some config \<Rightarrow> (case config key of
         Some (PBool b) \<Rightarrow> b
       | Some (PStr t) \<Rightarrow> lower t \<in> {''1'', ''true'', ''yes'', ''on''}
       | _ \<Rightarrow> False))"

definition switched_off :: "pipe_env \<Rightarrow> (string, pyval) dict \<Rightarrow> bool" where
  "switched_off env item =
     (let model = py_str (or_value (field_or item ''model_id'' PNone) (PStr []));
          provider = py_str (or_value (field_or item ''provider_family'' PNone) (PStr [])) in
      model \<noteq> [] \<and> runtime_flag env (''kill_switch.model:'' @ model) \<or>
      provider \<noteq> [] \<and> runtime_flag env (''kill_switch.provider:'' @ provider))"

definition kill_candidate :: "pipe_env \<Rightarrow> pyval \<Rightarrow> pyval res" where
  "kill_candidate env candidate =
     bindE (py_dict candidate) (\<lambda>copy. case copy of
       PDict item \<Rightarrow> Inr (PDict (if switched_off env item
         then dset ''disabled_by_kill_switch'' (PBool True) (dset ''available'' (PBool False) item) else item))
     | _ \<Rightarrow> Inl PyTypeError)"

definition apply_route_kill_switches :: "pipe_env \<Rightarrow> pyval list \<Rightarrow> pyval list res" where
  "apply_route_kill_switches env candidates = mapE (kill_candidate env) candidates"

definition record_fallbackP :: "pipe_env \<Rightarrow> string \<Rightarrow> string \<Rightarrow> string \<Rightarrow> string \<Rightarrow> string \<Rightarrow> string \<Rightarrow> unit pipe" where
  "record_fallbackP env run subject cls source target reason =
     bindP tickP (\<lambda>t.
     thenP (set_recordP run (\<lambda>r. r\<lparr>rr_fallbacks := fst (record_fallback (pe_now env t 0) (rr_fallbacks r) cls (PStr source) (PStr target) reason)\<rparr>))
     (bindP (enrichP env run [(''fallback_class'', PStr cls), (''from'', PStr source), (''to'', PStr target), (''reason'', PStr reason)]
        (\<lambda>now history es. enrich_fallback now history cls source target reason es)) (\<lambda>payload.
      ledgerP env run ''fallback_triggered'' gateway_actor subject (PDict payload))))"

section \<open>One upstream call\<close>

definition conformance_tested :: "pyval \<Rightarrow> (string \<times> string) list res" where
  "conformance_tested policy =
     bindE (bindE (py_get policy ''conformance_tested_combinations'' PNone) (\<lambda>v. py_iter (or_value v (PList [])))) (mapE (\<lambda>pair.
       bindE (py_nth pair 0) (\<lambda>a. bindE (py_nth pair 1) (\<lambda>b. Inr (py_str a, py_str b)))))"

definition sendP :: "pipe_env \<Rightarrow> bool \<Rightarrow> (string, pyval) dict \<Rightarrow> pyval pipe" where
  "sendP env local payload =
     bindP tickP (\<lambda>t. thenP (callP (Upstream local payload))
       (liftP (case pe_local env of Some client \<Rightarrow> if local then client t payload else pe_cloud env t payload
               | None \<Rightarrow> pe_cloud env t payload)))"

definition transportP :: "pipe_env \<Rightarrow> string \<Rightarrow> pyval \<Rightarrow> bool \<Rightarrow> pyval pipe" where
  "transportP env run plan local =
     bindP (getP (\<lambda>s. PDict (ps_request s))) (\<lambda>request.
     bindP (liftP (conformance_tested (pe_policy env))) (\<lambda>tested.
     bindP (liftP (py_get plan ''model_id'' (PStr ''unknown''))) (\<lambda>model.
     bindP (liftP (py_get plan ''inference_gateway'' (PStr []))) (\<lambda>serving.
     bindP (liftP (needs_separate_phases tested request model serving)) (\<lambda>separate.
     if separate then
       bindP (liftP (build_phase1_payload request plan (pe_policy env))) (\<lambda>phase1.
       bindP (sendP env local phase1) (\<lambda>_.
       bindP (liftP (build_phase2_payload request plan (pe_policy env))) (\<lambda>phase2.
       thenP (set_recordP run (\<lambda>r. r\<lparr>rr_request := PDict phase2\<rparr>)) (sendP env local phase2))))
     else
       bindP (liftP (build_chat_payload plan request (pe_policy env))) (\<lambda>payload.
       thenP (set_recordP run (\<lambda>r. r\<lparr>rr_request := PDict payload\<rparr>)) (sendP env local payload)))))))"

definition usage_int :: "pyval \<Rightarrow> string \<Rightarrow> int res" where
  "usage_int usage k = bindE (py_get usage k PNone) (\<lambda>v. py_int (or_value v (PInt 0)))"

definition actual_cost :: "pyval \<Rightarrow> pyval \<Rightarrow> f64 res" where
  "actual_cost usage plan =
     bindE (py_get usage ''total_cost'' PNone) (\<lambda>c.
     bindE (if c = PNone then py_get usage ''cost'' PNone else Inr c) (\<lambda>c'.
     bindE (py_float (or_value c' (PFloat (Fin 0)))) (\<lambda>f. if f \<noteq> Fin 0 then Inr f else estimate_cost usage plan)))"

definition call_openrouter :: "pipe_env \<Rightarrow> string \<Rightarrow> pyval \<Rightarrow> bool \<Rightarrow> pyval pipe" where
  "call_openrouter env run plan local =
     bindP tickP (\<lambda>t0.
     bindP (transportP env run plan local) (\<lambda>upstream.
     bindP tickP (\<lambda>t1.
     thenP (set_recordP run (\<lambda>r. r\<lparr>rr_latency_ms := f_mul (f_sub (pe_clock env t1) (pe_clock env t0)) (Fin 1000)\<rparr>))
     (bindP (liftP (bindE (py_get upstream ''usage'' PNone) (\<lambda>u. Inr (or_dict u)))) (\<lambda>usage.
      bindP (liftP (usage_int usage ''total_tokens'')) (\<lambda>n. thenP (set_recordP run (\<lambda>r. r\<lparr>rr_total_tokens := n\<rparr>))
     (bindP (liftP (usage_int usage ''prompt_tokens'')) (\<lambda>n. thenP (set_recordP run (\<lambda>r. r\<lparr>rr_prompt_tokens := n\<rparr>))
     (bindP (liftP (usage_int usage ''completion_tokens'')) (\<lambda>n. thenP (set_recordP run (\<lambda>r. r\<lparr>rr_completion_tokens := n\<rparr>))
     (bindP (liftP (actual_cost usage plan)) (\<lambda>c. thenP (set_recordP run (\<lambda>r. r\<lparr>rr_actual_cost_usd := c\<rparr>))
       (returnP upstream)))))))))))))"

definition is_local_plan :: "pyval \<Rightarrow> bool res" where
  "is_local_plan plan = bindE (py_get plan ''inference_gateway'' PNone) (\<lambda>g. Inr (g = PStr ''local''))"

text \<open>The loop over the plans: a transport that fails hands over to the next plan, with its message.\<close>

fun try_plans :: "pipe_env \<Rightarrow> string \<Rightarrow> string \<Rightarrow> (pyval \<times> string) option \<Rightarrow> pyval list \<Rightarrow> pyval pipe" where
  "try_plans env run subject failed [] =
     raiseP (Raised (UpstreamError (case failed of None \<Rightarrow> ''no admissible plan'' | Some (_, err) \<Rightarrow> err)))"
| "try_plans env run subject failed (plan # plans) =
     thenP (case failed of None \<Rightarrow> returnP () | Some (earlier, err) \<Rightarrow>
         bindP (liftP (plan_provider earlier)) (\<lambda>source. bindP (liftP (plan_provider plan)) (\<lambda>target.
         record_fallbackP env run subject ''provider_fallback'' source target err)))
     (bindP (liftP (is_local_plan plan)) (\<lambda>local. \<lambda>s.
      case call_openrouter env run plan (local \<and> pe_local env \<noteq> None) s of
        (s', Inl (Raised (UpstreamError err))) \<Rightarrow> try_plans env run subject (Some (plan, err)) plans s'
      | r \<Rightarrow> r))"

definition execute_with_fallback :: "pipe_env \<Rightarrow> string \<Rightarrow> string \<Rightarrow> pyval \<Rightarrow> pyval pipe" where
  "execute_with_fallback env run subject decision =
     bindP (liftP (py_index decision ''selected_plan'')) (\<lambda>plan.
     bindP (liftP (bindE (py_get decision ''fallback_plans'' (PList [])) py_iter)) (\<lambda>plans.
     try_plans env run subject None (plan # plans)))"

section \<open>Execution and verification\<close>

definition default_escalation :: escalation_policy where
  "default_escalation = new_policy (lit 0.15) (lit 0.25) 10"

definition policy_for :: "pipe_state \<Rightarrow> escalation_policy" where
  "policy_for s = (case ps_escalation s of None \<Rightarrow> default_escalation | Some p \<Rightarrow> p)"

definition should_escalate_local :: "pipe_env \<Rightarrow> bool \<Rightarrow> pyval \<Rightarrow> string \<Rightarrow> bool pipe" where
  "should_escalate_local env prefer plan risk =
     (if \<not> prefer then returnP False else
      bindP (liftP (is_local_plan plan)) (\<lambda>local.
      if \<not> local \<or> pe_local env = None then returnP False else
      bindP (getP policy_for) (\<lambda>p. liftP (bindE (should_escalate_to_cloud p True risk) (\<lambda>(b, _). Inr b)))))"

definition resolve_human_review :: "bool \<Rightarrow> bool \<Rightarrow> string \<Rightarrow> (bool \<times> string) pipe" where
  "resolve_human_review verification_failed conflict risk =
     bindP (getP policy_for) (\<lambda>p. liftP (should_request_human_review p verification_failed conflict risk))"

definition record_completed_run :: "string \<Rightarrow> unit pipe" where
  "record_completed_run run =
     bindP (recordP run) (\<lambda>rr. modifyP (\<lambda>s. s\<lparr>ps_escalation := map_option (\<lambda>p. Escalation.record_run p
       (PDict [(''run_id'', PStr (rr_run_id rr)), (''required_human_intervention'', PBool (rr_human_intervention rr)),
          (''required_rework'', PBool (rr_rework rr))])) (ps_escalation s)\<rparr>))"

definition model_content :: "pyval \<Rightarrow> pyval res" where
  "model_content upstream =
     bindE (py_get upstream ''choices'' (PList [PDict []])) (\<lambda>choices.
     bindE (py_nth choices 0) (\<lambda>choice.
     bindE (py_get choice ''message'' (PDict [])) (\<lambda>message. py_get message ''content'' (PStr []))))"

definition model_evidence :: "pipe_env \<Rightarrow> nat \<Rightarrow> string \<Rightarrow> pyval \<Rightarrow> pyval \<Rightarrow> pydict res" where
  "model_evidence env t subject plan upstream =
     bindE (model_content upstream) (\<lambda>content.
     bindE (py_get plan ''model_id'' (PStr ''unknown'')) (\<lambda>planned.
     bindE (py_get upstream ''model'' planned) (\<lambda>model.
     enrich_evidence (make_model_assertion_evidence (pe_sha env) (pe_uuid env t 0) (pe_now env t 0) model content (lit 0.7) subject None))))"

definition enriched_record :: "pyval \<Rightarrow> pydict res" where
  "enriched_record e = (case e of PDict d \<Rightarrow> enrich_evidence d | _ \<Rightarrow> Inl PyTypeError)"

definition result_line :: "pyval \<Rightarrow> pyval res" where
  "result_line r =
     bindE (py_index r ''criterion_id'') (\<lambda>c. bindE (py_index r ''status'') (\<lambda>st. bindE (py_get r ''evidence_ids'' (PList [])) (\<lambda>es.
     Inr (PDict [(''criterion_id'', c), (''status'', st), (''evidence_ids'', es)]))))"

text \<open>The transitions of claims not recorded yet go to the ledger, one event each.\<close>

definition flush_transitions :: "pipe_env \<Rightarrow> string \<Rightarrow> string \<Rightarrow> unit pipe" where
  "flush_transitions env run subject =
     bindP (recordP run) (\<lambda>rr. if rr_epistemic_ledger rr = None then returnP () else
     bindP (liftP (es_of rr)) (\<lambda>es. let (es', ts) = get_claim_transitions es in
     thenP (set_recordP run (\<lambda>r. r\<lparr>rr_epistemic_state := Some es'\<rparr>))
     (eachP (\<lambda>t. bindP (enrichP env run [] (\<lambda>now history _. Inr (enrich_claim_transition now history t)))
        (\<lambda>payload. ledgerP env run ''claim_transitioned'' gateway_actor subject (PDict payload))) ts)))"

record outcome =
  oc_upstream :: pyval
  oc_results :: "pyval list"
  oc_dag_passed :: bool
  oc_criteria_pass :: bool
  oc_plan :: pyval

definition execute_and_verify ::
  "pipe_env \<Rightarrow> string \<Rightarrow> string \<Rightarrow> pyval \<Rightarrow> pyval \<Rightarrow> string \<Rightarrow> pyval \<Rightarrow> bool \<Rightarrow> outcome pipe" where
  "execute_and_verify env run subject decision contract risk policy advance =
     bindP (liftP (py_index decision ''selected_plan'')) (\<lambda>plan.
     bindP (execute_with_fallback env run subject decision) (\<lambda>upstream.
     thenP (set_recordP run (\<lambda>r. r\<lparr>rr_response := upstream\<rparr>))
     (bindP (liftP (bindE (py_get upstream ''model'' PNone) (\<lambda>m. bindE (py_get upstream ''usage'' PNone) (\<lambda>u.
        Inr (PDict [(''model'', m), (''usage'', u)]))))) (\<lambda>payload.
     thenP (ledgerP env run ''action_completed'' gateway_actor subject payload)
     (bindP tickP (\<lambda>t. bindP (liftP (model_evidence env t subject plan upstream)) (\<lambda>e.
     thenP (add_evidenceP run e)
     (bindP tickP (\<lambda>t'.
      bindP (liftP (evaluate_verification (pe_sha env) (pe_uuid env t') (pe_now env t') contract upstream risk policy plan)) (\<lambda>(results, passed, records).
     thenP (eachP (\<lambda>r. bindP (liftP (enriched_record r)) (add_evidenceP run)) records)
     (thenP (whenP advance (thenP (transitionP run ''record_result'' True)
        (transitionP run ''start_verification'' (required_verification_dag_materialized results))))
     (bindP (liftP (mapE result_line results)) (\<lambda>lines.
      bindP (liftP (declared_steps policy risk)) (\<lambda>steps.
      bindP (enrichP env run [(''verification_results'', PList lines), (''evidence_count'', PInt (int (length records)))]
        (\<lambda>now history es. enrich_verification now history results es risk steps)) (\<lambda>payload.
     thenP (ledgerP env run ''evidence_recorded'' gateway_actor subject (PDict payload))
     (thenP (flush_transitions env run subject)
     (bindP (recordP run) (\<lambda>rr.
      bindP (liftP (bindE (es_of rr) (\<lambda>es.
        all_mandatory_criteria_pass_and_no_blocking_conflict results (Some (conflicted_claim_ids es)) risk))) (\<lambda>ok.
      returnP \<lparr>oc_upstream = upstream, oc_results = results, oc_dag_passed = passed, oc_criteria_pass = ok, oc_plan = plan\<rparr>)))))))))))))))))))"

section \<open>The stages of a request\<close>

definition kill_switch_on :: "pipe_env \<Rightarrow> (string, pyval) dict \<Rightarrow> (bool \<times> string) res" where
  "kill_switch_on env request =
     (let tenant = py_str (or_value (field_or request ''tenant_id'' PNone) (PStr ''default'')) in
      bindE (py_get (or_dict (field_or request ''governance'' PNone)) ''project_id'' PNone) (\<lambda>p.
      let project = py_str (or_value p (PStr [])) in
      Inr (runtime_flag env ''kill_switch.global'' \<or> runtime_flag env (''kill_switch.tenant:'' @ tenant) \<or>
           project \<noteq> [] \<and> runtime_flag env (''kill_switch.project:'' @ project), tenant)))"

text \<open>A cached answer is marked in the cache itself: the caller gets the object the cache holds.\<close>

definition mark_hit :: "pyval \<Rightarrow> pyval res" where
  "mark_hit answer =
     bindE (py_index answer ''epr'') (\<lambda>epr. case (answer, epr) of
       (PDict d, PDict e) \<Rightarrow> Inr (PDict (dset ''epr'' (PDict (dset ''cache_hit'' (PBool True) e)) d))
     | _ \<Rightarrow> Inl PyTypeError)"

definition replace_cached :: "string \<Rightarrow> pyval \<Rightarrow> pyval response_cache \<Rightarrow> pyval response_cache" where
  "replace_cached key v c = c\<lparr>rc_cache := map (\<lambda>(k, (old, x)). (k, (if k = key then v else old, x))) (rc_cache c)\<rparr>"

definition cached_answer :: "pipe_env \<Rightarrow> pyval option pipe" where
  "cached_answer env =
     bindP (getP (\<lambda>s. (ps_cache s, PDict (ps_request s)))) (\<lambda>(cache, request). case cache of
       None \<Rightarrow> returnP None
     | Some c \<Rightarrow>
         bindP tickP (\<lambda>t.
         bindP (liftP (rc_get (pe_sha env) (pe_clock env t) request c)) (\<lambda>(c', found).
         thenP (modifyP (\<lambda>s. s\<lparr>ps_cache := Some c'\<rparr>)) (case found of
           None \<Rightarrow> returnP None
         | Some answer \<Rightarrow>
             bindP (liftP (mark_hit answer)) (\<lambda>marked.
             bindP (liftP (hash_request (pe_sha env) request)) (\<lambda>key.
             thenP (modifyP (\<lambda>s. s\<lparr>ps_cache := Some (replace_cached key marked c')\<rparr>)) (returnP (Some marked))))))))"

record ids =
  id_run :: string
  id_trace :: string
  id_subject :: string

definition begin_stage :: "pipe_env \<Rightarrow> string \<Rightarrow> ids pipe" where
  "begin_stage env tenant =
     bindP tickP (\<lambda>t1. bindP tickP (\<lambda>t2. bindP tickP (\<lambda>t3.
     let i = \<lparr>id_run = ''run-'' @ pe_uuid env t1 0, id_trace = ''trace-'' @ pe_uuid env t2 0, id_subject = ''task-'' @ pe_uuid env t3 0\<rparr> in
     thenP (modifyP (\<lambda>s. s\<lparr>ps_registry := fst (begin_registry (ps_registry s) (id_run i) (id_trace i))\<rparr>))
     (thenP (set_recordP (id_run i) (\<lambda>r. r\<lparr>rr_tenant_id := tenant\<rparr>))
     (thenP (modifyP (\<lambda>s. s\<lparr>ps_machine := fst (begin_run (ps_machine s) (id_run i))\<rparr>)) (returnP i))))))"

definition prefers_local :: "pipe_env \<Rightarrow> (string, pyval) dict \<Rightarrow> bool res" where
  "prefers_local env request =
     (if pe_prefer_local env then Inr True else
      bindE (py_get (field_or request ''passthrough'' (PDict [])) ''prefer_local'' (PBool False)) (\<lambda>v. Inr (truthy v)))"

definition request_material :: "(string, pyval) dict \<Rightarrow> string res" where
  "request_material request =
     bindE (py_index (PDict request) ''messages'') (\<lambda>messages.
     Inr (json_compact True (PDict [(''messages'', messages), (''passthrough'', field_or request ''passthrough'' (PDict []))])))"

text \<open>Governance: the request over the defaults, or a rejection.\<close>

definition governance_stage :: "pipe_env \<Rightarrow> ids \<Rightarrow> (string, pyval) dict pipe" where
  "governance_stage env i =
     bindP (getP ps_request) (\<lambda>request.
     let merged = merge_governance (case field_or request ''governance'' PNone of PDict d \<Rightarrow> Some d | _ \<Rightarrow> None)
           (default_governance (pe_max_cost env) (pe_max_latency env)) in
     bindP (liftP (validate_governance (PDict merged))) (\<lambda>errors.
     if errors = [] then returnP merged else
     thenP (ledgerP env (id_run i) ''outcome_rejected'' gateway_actor (id_subject i) (PDict [(''governance_errors'', PList (map PStr errors))]))
     (bindP (head_hashP (id_run i)) (\<lambda>head.
      raiseP (HttpError 422 (render_validation_error (id_run i) (id_trace i) head errors))))))"

definition routing_inputs :: "pipe_env \<Rightarrow> bool \<Rightarrow> (string, pyval) dict \<Rightarrow> (pyval \<times> pyval list) res" where
  "routing_inputs env prefer merged =
     bindE (apply_route_kill_switches env (pe_portfolio env)) (\<lambda>portfolio.
     if prefer \<and> pe_local env \<noteq> None then
       bindE (case pe_policy env of PDict d \<Rightarrow> extend_policy_with_local d | _ \<Rightarrow> Inl PyTypeError) (\<lambda>policy.
       bindE (bindE (merge_portfolio_with_local (pe_portfolio env) merged) (apply_route_kill_switches env)) (\<lambda>candidates.
       Inr (policy, candidates)))
     else Inr (pe_policy env, portfolio))"

definition passthrough_dict :: "(string, pyval) dict \<Rightarrow> (string, pyval) dict res" where
  "passthrough_dict request = (case field_or request ''passthrough'' PNone of
     PDict d \<Rightarrow> Inr d | v \<Rightarrow> if truthy v then Inl AttributeError else Inr [])"

definition contract_stage :: "pipe_env \<Rightarrow> ids \<Rightarrow> (string, pyval) dict \<Rightarrow> (pyval \<times> bool) pipe" where
  "contract_stage env i merged =
     (let run = id_run i; subject = id_subject i; canary = is_canary NaN (Fin 0) (PDict merged) in
      thenP (set_recordP run (\<lambda>r. r\<lparr>rr_canary := canary\<rparr>))
      (bindP (liftP (bindE (py_index (pe_policy env) ''version'') (\<lambda>v. new_manager v (pe_manifest env)))) (\<lambda>pm.
      thenP (set_recordP run (\<lambda>r. r\<lparr>rr_policy_version := pm_version pm\<rparr>))
      (bindP (getP ps_request) (\<lambda>request.
       bindP (liftP (bindE (bindE (py_index (PDict request) ''messages'') py_iter) (\<lambda>messages.
         bindE (passthrough_dict request) (\<lambda>p. compile_task_contract messages merged p subject None)))) (\<lambda>contract.
      thenP (set_recordP run (\<lambda>r. r\<lparr>rr_contract := contract, rr_task_id := PStr subject\<rparr>))
      (bindP (liftP (bindE (py_index contract ''governance'') (\<lambda>g. py_get g ''human_approval_required'' PNone))) (\<lambda>approval.
      thenP (whenP (truthy approval) (registryP (\<lambda>g. record_human_intervention g run ''critical_risk_requires_human_approval'')))
      (bindP (liftP (request_schema_valid (PDict request))) (\<lambda>valid.
      thenP (transitionP run ''propose_contract'' valid)
      (bindP (liftP (py_index contract ''goal'')) (\<lambda>goal.
      thenP (ledgerP env run ''contract_proposed'' gateway_actor subject (PDict [(''goal'', goal)]))
      (bindP (liftP (requires_clarification contract)) (\<lambda>unclear.
      if unclear then
        thenP (transitionP run ''request_clarification'' True)
        (bindP (head_hashP run) (\<lambda>head.
         bindP (liftP (render_clarification_error run (id_trace i) head contract)) (\<lambda>body. raiseP (HttpError 422 body))))
      else
        bindP (liftP (contract_schema_valid_and_acceptance_sufficient contract)) (\<lambda>sufficient.
        thenP (transitionP run ''validate_contract'' sufficient)
        (bindP (liftP (py_index contract ''version'')) (\<lambda>version.
        thenP (ledgerP env run ''contract_validated'' gateway_actor subject (PDict [(''version'', version)]))
        (thenP (transitionP run ''check_policy'' policy_allows_progress)
        (bindP (liftP (py_index (pe_policy env) ''version'')) (\<lambda>policy_version.
         bindP (recordP run) (\<lambda>rr.
        thenP (ledgerP env run ''policy_checked''
           (PDict [(''id'', PStr ''epr-default-routing-policy''), (''kind'', PStr ''policy''), (''version'', policy_version)]) subject
           (PDict [(''allowed'', PBool True), (''policy_version'', rr_policy_version rr), (''canary'', PBool (rr_canary rr))]))
         (returnP (contract, canary)))))))))))))))))))))))"

text \<open>Context: the package by reachability, the canonical state, and a capsule when it is large.\<close>

definition claims_dict :: "es_state \<Rightarrow> (string, pyval) dict" where
  "claims_dict es = map (\<lambda>(i, c). (i, claim_to_py c)) (es_claims es)"

definition evidence_dict :: "es_state \<Rightarrow> (string, pyval) dict" where
  "evidence_dict es = map (\<lambda>(i, e). (i, PDict e)) (es_evidence es)"

definition with_capsule :: "pyval \<Rightarrow> pyval \<Rightarrow> pyval" where
  "with_capsule pkg capsule = (case pkg of PDict d \<Rightarrow> PDict (dset ''capsule'' capsule d) | _ \<Rightarrow> pkg)"

definition capsuleP :: "pipe_env \<Rightarrow> ids \<Rightarrow> pyval \<Rightarrow> canonical_state \<Rightarrow> pyval pipe" where
  "capsuleP env i contract cs =
     bindP tickP (\<lambda>t.
     bindP (liftP (narrative_for contract)) (\<lambda>narrative.
     bindP (liftP (py_sorted (cs_failed_checks cs))) (\<lambda>failed.
     bindP (head_hashP (id_run i)) (\<lambda>head.
     bindP (liftP (compact (pe_sha env) (pe_uuid env t 0) (pe_now env t 0) cs narrative [] (Some failed) (Some (id_subject i))
       (case head of PStr h \<Rightarrow> Some h | _ \<Rightarrow> None))) (\<lambda>capsule.
     thenP (set_recordP (id_run i) (\<lambda>r. r\<lparr>rr_context_package := with_capsule (rr_context_package r) capsule\<rparr>))
       (liftP (py_index capsule ''capsule_id'')))))))"

definition context_stage :: "pipe_env \<Rightarrow> ids \<Rightarrow> pyval \<Rightarrow> unit pipe" where
  "context_stage env i contract =
     (let run = id_run i in
      bindP tickP (\<lambda>t.
      bindP (recordP run) (\<lambda>rr.
      bindP (liftP (es_of rr)) (\<lambda>es.
      bindP (liftP (py_iter (rr_events rr))) (\<lambda>events.
      bindP (liftP (bindE (case contract of PDict d \<Rightarrow> Inr d | _ \<Rightarrow> Inl AttributeError) (\<lambda>d.
        compile_context (pe_uuid env t 0) d (claims_dict es) (evidence_dict es) events))) (\<lambda>package.
      thenP (set_recordP run (\<lambda>r. r\<lparr>rr_context_package := package\<rparr>))
      (bindP (liftP (build_canonical_state (pe_sha env) (claims_dict es) (evidence_dict es) events)) (\<lambda>cs.
      thenP (set_recordP run (\<lambda>r. r\<lparr>rr_canonical_state := Some cs\<rparr>))
      (bindP (if context_is_large events es then capsuleP env i contract cs else returnP PNone) (\<lambda>capsule.
      thenP (transitionP run ''compile_context'' compaction_invariants_hold)
        (ledgerP env run ''context_compiled'' gateway_actor (id_subject i) (PDict [(''capsule_id'', capsule)]))))))))))))"

text \<open>Compression replaces the messages of the request, unless it was skipped.\<close>

definition compression_stage :: "pipe_env \<Rightarrow> ids \<Rightarrow> compression_result pipe" where
  "compression_stage env i =
     bindP (getP ps_request) (\<lambda>request.
     bindP (liftP (bindE (bindE (py_index (PDict request) ''messages'') py_iter) (pe_compress env))) (\<lambda>cr.
     thenP (set_recordP (id_run i) (\<lambda>r. r\<lparr>rr_original_prompt_tokens := cr_original cr\<rparr>))
     (thenP (whenP (\<not> cr_skipped cr) (modifyP (\<lambda>s. s\<lparr>ps_request := dset ''messages'' (PList (cr_messages cr)) (ps_request s)\<rparr>)))
     (thenP (ledgerP env (id_run i) ''context_compressed'' gateway_actor (id_subject i)
        (PDict [(''original_token_count'', PInt (cr_original cr)), (''compressed_token_count'', PInt (cr_compressed cr)),
           (''compression_ratio'', PFloat (cr_ratio cr)), (''strategy'', PStr (cr_strategy cr)), (''duration_ms'', PFloat (cr_duration cr)),
           (''tokens_saved'', PInt (cr_saved cr)), (''skipped'', PBool (cr_skipped cr))]))
       (returnP cr)))))"

definition reject_route :: "pipe_env \<Rightarrow> ids \<Rightarrow> pyval \<Rightarrow> 'a pipe" where
  "reject_route env i decision =
     (let run = id_run i; subject = id_subject i in
      thenP (transitionP run ''no_admissible_route'' router_failed_closed)
      (thenP (ledgerP env run ''route_selected'' router_actor subject decision)
      (thenP (transitionP run ''reject'' no_authorized_escalation)
      (bindP (liftP (py_get decision ''decision_id'' PNone)) (\<lambda>did.
      thenP (ledgerP env run ''outcome_rejected'' gateway_actor subject (PDict [(''decision_id'', did)]))
      (thenP (receiptP env run ''escalated'' [] (Fin 0))
      (bindP (head_hashP run) (\<lambda>head.
       bindP (liftP (render_escalation_error run (id_trace i) head decision)) (\<lambda>body.
       raiseP (HttpError 424 body))))))))))"

definition reject_experimental :: "pipe_env \<Rightarrow> ids \<Rightarrow> pyval \<Rightarrow> 'a pipe" where
  "reject_experimental env i decision =
     (let run = id_run i; subject = id_subject i in
      thenP (transitionP run ''reject'' no_authorized_escalation)
      (bindP (liftP (py_get decision ''decision_id'' PNone)) (\<lambda>did.
       thenP (ledgerP env run ''outcome_rejected'' gateway_actor subject
         (PDict [(''decision_id'', did), (''reason'', PStr ''experimental_requires_canary'')]))
       (thenP (receiptP env run ''escalated'' [] (Fin 0))
       (raiseP (HttpError 403 (error_envelope ''experimental model requires canary traffic'' ''policy_denied_error''
          (Some ''model'') (Some ''experimental_requires_canary''))))))))"

definition route_stage :: "pipe_env \<Rightarrow> ids \<Rightarrow> pyval \<Rightarrow> pyval \<Rightarrow> pyval list \<Rightarrow> bool \<Rightarrow> pyval pipe" where
  "route_stage env i contract policy portfolio canary =
     (let run = id_run i; subject = id_subject i in
      bindP (liftP (stage_route contract portfolio policy)) (\<lambda>d.
      let decision = decision_to_py d in
      thenP (set_recordP run (\<lambda>r. r\<lparr>rr_decision := decision\<rparr>))
      (if status d \<noteq> ''route_selected'' then reject_route env i decision else
       bindP (liftP (admissible_route_exists decision)) (\<lambda>ok.
       thenP (transitionP run ''select_route'' ok)
       (bindP (enrichP env run (case decision of PDict x \<Rightarrow> x | _ \<Rightarrow> [])
          (\<lambda>now history es. enrich_route_selection now history decision es contract policy)) (\<lambda>payload.
       thenP (set_recordP run (\<lambda>r. case rr_epistemic_ledger r of None \<Rightarrow> r | Some h \<Rightarrow> r\<lparr>rr_decision_trace := PList (decision_trace h run)\<rparr>))
       (thenP (ledgerP env run ''route_selected'' router_actor subject (PDict payload))
       (bindP (liftP (py_index decision ''selected_plan'')) (\<lambda>plan.
        bindP (liftP (plan_requires_canary plan)) (\<lambda>experimental.
        if experimental \<and> \<not> canary then reject_experimental env i decision else returnP decision))))))))))"

definition start_stage :: "pipe_env \<Rightarrow> ids \<Rightarrow> pyval \<Rightarrow> pyval \<Rightarrow> unit pipe" where
  "start_stage env i contract decision =
     (let run = id_run i in
      bindP (liftP (py_index decision ''selected_plan'')) (\<lambda>plan.
      bindP (liftP (budget_and_permissions_reserved plan contract)) (\<lambda>ok.
      thenP (transitionP run ''start_action'' ok)
      (bindP (liftP (py_get plan ''model_id'' PNone)) (\<lambda>model.
       bindP (liftP (py_get plan ''inference_gateway'' PNone)) (\<lambda>gateway.
       ledgerP env run ''action_started'' gateway_actor (id_subject i) (PDict [(''model_id'', model), (''gateway'', gateway)])))))))"

text \<open>A failed attempt: rework is recorded, and a local attempt may be repeated in the cloud.\<close>

definition retry_stage ::
  "pipe_env \<Rightarrow> ids \<Rightarrow> bool \<Rightarrow> pyval \<Rightarrow> string \<Rightarrow> outcome \<Rightarrow> outcome pipe" where
  "retry_stage env i prefer contract risk first =
     (let run = id_run i; subject = id_subject i in
      if oc_criteria_pass first \<and> oc_dag_passed first then returnP first else
      thenP (registryP (\<lambda>g. record_rework g run ''initial_attempt_failed_verification''))
      (bindP (should_escalate_local env prefer (oc_plan first) risk) (\<lambda>escalate.
       if \<not> escalate then returnP first else
       bindP (liftP (stage_route contract (pe_portfolio env) (pe_policy env))) (\<lambda>d.
       if status d \<noteq> ''route_selected'' then returnP first else
       let decision = decision_to_py d in
       bindP (liftP (plan_model (oc_plan first))) (\<lambda>source.
       bindP (liftP (bindE (py_index decision ''selected_plan'') plan_model)) (\<lambda>target.
       thenP (record_fallbackP env run subject ''semantic_fallback'' source target ''local_to_cloud_escalation'')
       (thenP (registryP (\<lambda>g. record_rework g run ''local_to_cloud_escalation''))
         (execute_and_verify env run subject decision contract risk (pe_policy env) False))))))))"

definition verification_payload ::
  "pipe_env \<Rightarrow> string \<Rightarrow> string \<Rightarrow> string \<Rightarrow> pyval \<Rightarrow> pyval list \<Rightarrow> (string, pyval) dict pipe" where
  "verification_payload env run verdict risk policy results =
     bindP (liftP (declared_steps policy risk)) (\<lambda>steps.
     enrichP env run [(''status'', PStr verdict), (''risk_class'', PStr risk)]
       (\<lambda>now history es. enrich_verification now history results es risk steps))"

definition review_stage :: "pipe_env \<Rightarrow> ids \<Rightarrow> string \<Rightarrow> pyval list \<Rightarrow> unit pipe" where
  "review_stage env i risk results =
     (let run = id_run i in
      bindP (recordP run) (\<lambda>rr.
      bindP (liftP (bindE (es_of rr) (\<lambda>es. Inr (conflicted_claim_ids es \<noteq> [])))) (\<lambda>conflict.
      bindP (resolve_human_review True conflict risk) (\<lambda>(review, why).
      whenP review
        (thenP (registryP (\<lambda>g. record_human_intervention g run why))
        (bindP (enrichP env run [(''reason'', PStr why), (''risk_class'', PStr risk)]
           (\<lambda>now history es. enrich_human_review now history why es results risk)) (\<lambda>payload.
         ledgerP env run ''human_review_requested'' gateway_actor (id_subject i) (PDict payload))))))))"

definition fallback_stage :: "pipe_env \<Rightarrow> ids \<Rightarrow> pyval \<Rightarrow> outcome \<Rightarrow> unit pipe" where
  "fallback_stage env i decision oc =
     (let run = id_run i in
      bindP (liftP (bindE (py_get decision ''fallback_plans'' (PList [])) py_iter)) (\<lambda>plans. case plans of
        [] \<Rightarrow> returnP ()
      | next # _ \<Rightarrow>
          bindP (liftP (plan_model (oc_plan oc))) (\<lambda>source. bindP (liftP (plan_model next)) (\<lambda>target.
          thenP (record_fallbackP env run (id_subject i) ''semantic_fallback'' source target ''verification_failed'')
            (registryP (\<lambda>g. record_rework g run ''semantic_fallback_after_verification_failure''))))))"

definition fail_stage :: "pipe_env \<Rightarrow> ids \<Rightarrow> pyval \<Rightarrow> string \<Rightarrow> pyval \<Rightarrow> outcome \<Rightarrow> 'a pipe" where
  "fail_stage env i decision risk policy oc =
     (let run = id_run i; subject = id_subject i in
      thenP (fallback_stage env i decision oc)
      (thenP (review_stage env i risk (oc_results oc))
      (bindP (verification_payload env run ''failed'' risk policy (oc_results oc)) (\<lambda>payload.
       thenP (ledgerP env run ''verification_completed'' gateway_actor subject (PDict payload))
       (thenP (transitionP run ''verification_failed_unresolved'' no_admissible_repair)
       (thenP (transitionP run ''reject'' no_authorized_escalation)
       (bindP (liftP (py_get decision ''decision_id'' PNone)) (\<lambda>did.
        bindP (enrichP env run [(''decision_id'', did), (''reason'', PStr ''verification_failed'')]
          (\<lambda>now history es. enrich_outcome now history ''rejected'' decision es (oc_results oc) (Fin 0) None)) (\<lambda>rejected.
       thenP (ledgerP env run ''outcome_rejected'' gateway_actor subject (PDict rejected))
       (thenP (receiptP env run ''escalated'' (oc_results oc) (Fin 0))
       (thenP (record_completed_run run)
       (bindP (head_hashP run) (\<lambda>head.
        bindP (liftP (render_escalation_error run (id_trace i) head decision)) (\<lambda>body.
        raiseP (HttpError 500 body)))))))))))))))"

definition accept_stage :: "pipe_env \<Rightarrow> ids \<Rightarrow> pyval \<Rightarrow> string \<Rightarrow> pyval \<Rightarrow> outcome \<Rightarrow> f64 pipe" where
  "accept_stage env i decision risk policy oc =
     (let run = id_run i; subject = id_subject i in
      thenP (transitionP run ''verification_passed'' True)
      (bindP (verification_payload env run ''passed'' risk policy (oc_results oc)) (\<lambda>payload.
       thenP (ledgerP env run ''verification_completed'' gateway_actor subject (PDict payload))
       (thenP (transitionP run ''issue_receipt'' True)
       (bindP (liftP (bindE (py_index (oc_plan oc) ''expected_total_cost_usd'') py_float)) (\<lambda>cost.
        bindP (liftP (py_get decision ''decision_id'' PNone)) (\<lambda>did.
        bindP (enrichP env run [(''decision_id'', did)]
          (\<lambda>now history es. enrich_outcome now history ''accepted'' decision es (oc_results oc) cost None)) (\<lambda>accepted.
       thenP (set_recordP run (\<lambda>r. case rr_epistemic_ledger r of None \<Rightarrow> r | Some h \<Rightarrow> r\<lparr>rr_decision_trace := PList (decision_trace h run)\<rparr>))
       (thenP (ledgerP env run ''outcome_accepted'' gateway_actor subject (PDict accepted))
       (thenP (receiptP env run ''accepted'' (oc_results oc) cost)
       (thenP (record_completed_run run) (returnP cost))))))))))))"

definition compression_meta :: "compression_result \<Rightarrow> pyval option" where
  "compression_meta cr = (if cr_skipped cr then None else Some (PDict
     [(''enabled'', PBool True), (''original_tokens'', PInt (cr_original cr)), (''compressed_tokens'', PInt (cr_compressed cr)),
      (''ratio'', PFloat (cr_ratio cr)), (''strategy'', PStr (cr_strategy cr)), (''duration_ms'', PFloat (cr_duration cr)),
      (''tokens_saved'', PInt (cr_saved cr))]))"

definition answer_stage :: "pipe_env \<Rightarrow> ids \<Rightarrow> string \<Rightarrow> pyval \<Rightarrow> outcome \<Rightarrow> compression_result \<Rightarrow> f64 \<Rightarrow> pyval pipe" where
  "answer_stage env i response_format decision oc cr charged =
     (let run = id_run i in
      bindP (liftP (bindE (py_index (oc_upstream oc) ''choices'') (\<lambda>cs. bindE (py_nth cs 0) (\<lambda>c.
        bindE (py_index c ''message'') (\<lambda>m. py_index m ''content''))))) (\<lambda>content.
      bindP (recordP run) (\<lambda>rr.
      bindP (liftP (py_index decision ''decision_id'')) (\<lambda>did.
      bindP (head_hashP run) (\<lambda>head.
      let epr = render_epr_metadata
            \<lparr>em_run_id = run, em_trace_id = id_trace i, em_status = ''accepted'', em_decision_id = did, em_base_url = pe_base_url env,
             em_head_hash = head, em_total_cost = charged, em_actual_cost = rr_actual_cost_usd rr, em_total_tokens = rr_total_tokens rr,
             em_latency_ms = rr_latency_ms rr,
             em_provider_fallbacks = attr (get_fallback_summary (rr_fallbacks rr)) ''provider_fallback_count'' PNone,
             em_semantic_fallbacks = attr (get_fallback_summary (rr_fallbacks rr)) ''semantic_fallback_count'' PNone,
             em_human_intervention = rr_human_intervention rr, em_rework = rr_rework rr, em_cache_hit = False,
             em_compression = compression_meta cr\<rparr>;
          usage = [(''prompt_tokens'', PInt (rr_prompt_tokens rr)), (''completion_tokens'', PInt (rr_completion_tokens rr)),
             (''total_tokens'', PInt (rr_total_tokens rr))] in
      bindP tickP (\<lambda>t. returnP (if response_format = ''responses''
        then render_responses_object (pe_uuid env t 0) (pe_uuid env t 1) (pe_seconds env t) content epr (Some usage)
        else render_chat_completion (pe_uuid env t 0) (pe_seconds env t) content epr (Some usage))))))))"

definition opt_text :: "string option \<Rightarrow> pyval" where
  "opt_text s = (case s of None \<Rightarrow> PNone | Some t \<Rightarrow> PStr t)"

text \<open>The calls to the managers of webhooks and alerts, which may raise.\<close>

definition webhookP :: "pipe_env \<Rightarrow> string \<Rightarrow> pyval \<Rightarrow> unit pipe" where
  "webhookP env event payload = (case pe_webhooks env of None \<Rightarrow> returnP ()
     | Some deliver \<Rightarrow> thenP (callP (Webhook event payload)) (liftP (deliver event payload)))"

definition alertP :: "pipe_env \<Rightarrow> string \<Rightarrow> string \<Rightarrow> string \<Rightarrow> pyval \<Rightarrow> unit pipe" where
  "alertP env kind severity message details = (case pe_alerts env of None \<Rightarrow> returnP ()
     | Some trigger \<Rightarrow> thenP (callP (Alert kind severity message details)) (liftP (trigger kind severity message details)))"

text \<open>After the answer: the cache, and the calls to the optional components.\<close>

definition finish_stage :: "pipe_env \<Rightarrow> ids \<Rightarrow> string \<Rightarrow> outcome \<Rightarrow> pyval \<Rightarrow> unit pipe" where
  "finish_stage env i tenant oc answer =
     (let run = id_run i in
      bindP tickP (\<lambda>t. bindP (getP (\<lambda>s. (ps_cache s, PDict (ps_request s)))) (\<lambda>(cache, request).
      thenP (case cache of None \<Rightarrow> returnP ()
         | Some c \<Rightarrow> bindP (liftP (rc_put (pe_sha env) (pe_clock env t) request answer c)) (\<lambda>c'. modifyP (\<lambda>s. s\<lparr>ps_cache := Some c'\<rparr>)))
      (bindP (recordP run) (\<lambda>rr.
       thenP (case pe_spend env of None \<Rightarrow> returnP ()
         | Some spend \<Rightarrow> whenP (f_lt (Fin 0) (rr_actual_cost_usd rr))
             (thenP (callP (Spend tenant (rr_actual_cost_usd rr) run)) (liftP (spend tenant (rr_actual_cost_usd rr) run))))
       (bindP (liftP (py_get (oc_plan oc) ''model_id'' (PStr ''unknown''))) (\<lambda>model.
        thenP (webhookP env ''run.completed'' (PDict
          [(''run_id'', PStr run), (''trace_id'', PStr (id_trace i)), (''status'', PStr ''accepted''), (''model_id'', model),
           (''cost_usd'', PFloat (rr_actual_cost_usd rr)), (''latency_ms'', PFloat (rr_latency_ms rr)),
           (''total_tokens'', PInt (rr_total_tokens rr)), (''hir'', PBool (rr_human_intervention rr)), (''rr'', PBool (rr_rework rr))]))
        (thenP (whenP (rr_human_intervention rr) (alertP env ''high_hir'' ''warning''
           (''Human intervention required for run '' @ run) (PDict [(''run_id'', PStr run), (''reason'', opt_text (rr_human_reason rr))])))
         (whenP (rr_rework rr) (alertP env ''high_rr'' ''warning''
           (''Rework required for run '' @ run) (PDict [(''run_id'', PStr run), (''reason'', opt_text (rr_rework_reason rr))])))))))))))"

definition run_stages :: "pipe_env \<Rightarrow> string \<Rightarrow> string \<Rightarrow> pyval pipe" where
  "run_stages env response_format tenant =
     bindP (begin_stage env tenant) (\<lambda>i.
     bindP (getP ps_request) (\<lambda>request.
     bindP (liftP (prefers_local env request)) (\<lambda>prefer.
     bindP (liftP (request_material request)) (\<lambda>material.
     thenP (ledgerP env (id_run i) ''request_received'' gateway_actor (id_subject i)
       (PDict [(''request_sha256'', PStr (sha256_tag (pe_sha env) material))]))
     (bindP (governance_stage env i) (\<lambda>merged.
      bindP (liftP (routing_inputs env prefer merged)) (\<lambda>(policy, portfolio).
      bindP (contract_stage env i merged) (\<lambda>(contract, canary).
      thenP (context_stage env i contract)
      (bindP (compression_stage env i) (\<lambda>cr.
       bindP (route_stage env i contract policy portfolio canary) (\<lambda>decision.
       thenP (start_stage env i contract decision)
       (bindP (liftP (bindE (py_index (PDict merged) ''risk_class'') (\<lambda>v. case v of PStr r \<Rightarrow> Inr r | _ \<Rightarrow> Inl PyTypeError))) (\<lambda>risk.
        bindP (execute_and_verify env (id_run i) (id_subject i) decision contract risk policy True) (\<lambda>first.
        bindP (retry_stage env i prefer contract risk first) (\<lambda>oc.
        if \<not> (oc_criteria_pass oc \<and> oc_dag_passed oc) then fail_stage env i decision risk policy oc else
        bindP (accept_stage env i decision risk policy oc) (\<lambda>total.
        bindP (answer_stage env i response_format decision oc cr total) (\<lambda>answer.
        thenP (finish_stage env i tenant oc answer) (returnP answer))))))))))))))))))"

definition run_inference_pipeline :: "pipe_env \<Rightarrow> string \<Rightarrow> pyval pipe" where
  "run_inference_pipeline env response_format =
     bindP (getP ps_request) (\<lambda>request.
     bindP (liftP (kill_switch_on env request)) (\<lambda>(killed, tenant).
     if killed then raiseP (HttpError 503 (error_envelope ''inference is disabled by an administrative kill switch''
       ''server_error'' None (Some ''kill_switch_active'')))
     else bindP (cached_answer env) (\<lambda>cached. case cached of
       Some answer \<Rightarrow> returnP answer
     | None \<Rightarrow> run_stages env response_format tenant)))"

end
