(* ===== verification/Pipeline_Safety.thy ===== *)
theory Pipeline_Safety
  imports Pipeline "HOL-Library.Sublist"
begin

text \<open>
  What the pipeline guarantees of a run, by a Hoare logic for its computations with one
  postcondition for values and one for exceptions.
\<close>

section \<open>A logic for computations\<close>

named_theorems hoare_rules \<open>rules for the primitives of the pipeline\<close>

definition hoareP ::
  "(pipe_state \<Rightarrow> bool) \<Rightarrow> 'a pipe \<Rightarrow> ('a \<Rightarrow> pipe_state \<Rightarrow> bool) \<Rightarrow> (pipe_exc \<Rightarrow> pipe_state \<Rightarrow> bool) \<Rightarrow> bool" where
  "hoareP P m Q E = (\<forall>s s' r. P s \<longrightarrow> m s = (s', r) \<longrightarrow> (case r of Inl e \<Rightarrow> E e s' | Inr x \<Rightarrow> Q x s'))"

lemma hoareI: "(\<And>s. P s \<Longrightarrow> case m s of (s', Inl e) \<Rightarrow> E e s' | (s', Inr x) \<Rightarrow> Q x s') \<Longrightarrow> hoareP P m Q E"
  by (fastforce simp: hoareP_def split: prod.splits sum.splits)

lemma hoareD: "hoareP P m Q E \<Longrightarrow> P s \<Longrightarrow> m s = (s', r) \<Longrightarrow> (case r of Inl e \<Rightarrow> E e s' | Inr x \<Rightarrow> Q x s')"
  by (simp add: hoareP_def)

lemma hoare_bind: "hoareP P m R E \<Longrightarrow> (\<And>x. hoareP (R x) (f x) Q E) \<Longrightarrow> hoareP P (bindP m f) Q E"
  unfolding hoareP_def bindP_def by (fastforce split: prod.splits sum.splits)

lemma hoare_then: "hoareP P m (\<lambda>_. R) E \<Longrightarrow> hoareP R k Q E \<Longrightarrow> hoareP P (thenP m k) Q E"
  unfolding thenP_def by (rule hoare_bind)

lemma hoare_weaken: "hoareP P m Q E \<Longrightarrow> (\<And>s. P' s \<Longrightarrow> P s) \<Longrightarrow> (\<And>x s. Q x s \<Longrightarrow> Q' x s) \<Longrightarrow> (\<And>e s. E e s \<Longrightarrow> E' e s) \<Longrightarrow>
    hoareP P' m Q' E'"
  unfolding hoareP_def by (fastforce split: sum.splits)

lemma hoare_pre: "hoareP P m Q E \<Longrightarrow> (\<And>s. P' s \<Longrightarrow> P s) \<Longrightarrow> hoareP P' m Q E"
  by (rule hoare_weaken)

lemma hoare_return: "(\<And>s. P s \<Longrightarrow> Q x s) \<Longrightarrow> hoareP P (returnP x) Q E"
  by (simp add: hoareP_def returnP_def)

lemma hoare_raise: "(\<And>s. P s \<Longrightarrow> E e s) \<Longrightarrow> hoareP P (raiseP e) Q E"
  by (simp add: hoareP_def raiseP_def)

lemma hoare_lift: "(\<And>s x. P s \<Longrightarrow> r = Inr x \<Longrightarrow> Q x s) \<Longrightarrow> (\<And>s e. P s \<Longrightarrow> r = Inl e \<Longrightarrow> E (Raised e) s) \<Longrightarrow> hoareP P (liftP r) Q E"
  by (cases r) (simp_all add: hoareP_def liftP_def)

lemma hoare_get: "(\<And>s. P s \<Longrightarrow> Q (f s) s) \<Longrightarrow> hoareP P (getP f) Q E"
  by (simp add: hoareP_def getP_def)

lemma hoare_modify: "(\<And>s. P s \<Longrightarrow> Q () (f s)) \<Longrightarrow> hoareP P (modifyP f) Q E"
  by (simp add: hoareP_def modifyP_def)

lemma hoare_tick: "(\<And>s. P s \<Longrightarrow> Q (ps_tick s) (s\<lparr>ps_tick := Suc (ps_tick s)\<rparr>)) \<Longrightarrow> hoareP P tickP Q E"
  by (simp add: hoareP_def tickP_def)

lemma hoare_if: "(b \<Longrightarrow> hoareP P m Q E) \<Longrightarrow> (\<not> b \<Longrightarrow> hoareP P k Q E) \<Longrightarrow> hoareP P (if b then m else k) Q E"
  by simp

lemma hoare_each: "(\<And>x. hoareP P (f x) (\<lambda>_. P) E) \<Longrightarrow> hoareP P (eachP f xs) (\<lambda>_. P) E"
  by (induction xs) (auto intro: hoare_return hoare_then)

lemma hoare_when: "(b \<Longrightarrow> hoareP P m (\<lambda>_. P) E) \<Longrightarrow> hoareP P (whenP b m) (\<lambda>_. P) E"
  by (simp add: whenP_def hoare_return)

lemma hoare_catch:
  assumes "hoareP P m Q E" "\<And>err. hoareP (E (Raised (UpstreamError err))) (h err) Q E"
  shows "hoareP P (\<lambda>s. case m s of (s', Inl (Raised (UpstreamError err))) \<Rightarrow> h err s' | r \<Rightarrow> r) Q E"
proof (rule hoareI)
  fix s assume p: "P s"
  obtain s' r where m: "m s = (s', r)" by fastforce
  note post = hoareD[OF assms(1) p m]
  show "case (case m s of (s', Inl (Raised (UpstreamError err))) \<Rightarrow> h err s' | r \<Rightarrow> r) of (s', Inl e) \<Rightarrow> E e s' | (s', Inr x) \<Rightarrow> Q x s'"
  proof (cases "\<exists>err. r = Inl (Raised (UpstreamError err))")
    case True
    then obtain err where r: "r = Inl (Raised (UpstreamError err))" by blast
    obtain s2 r2 where h: "h err s' = (s2, r2)" by fastforce
    then show ?thesis using hoareD[OF assms(2) _ h] post by (simp add: m r split: sum.splits)
  next
    case False
    then show ?thesis using post by (auto simp: m split: sum.splits pipe_exc.splits pyexc.splits)
  qed
qed

section \<open>What a computation keeps\<close>

text \<open>The types of the events of a run, in order.\<close>

definition event_kinds :: "run_record \<Rightarrow> pyval list" where
  "event_kinds rr = map (\<lambda>e. dget e ''event_type'') (run_entries rr)"

text \<open>
  A state a computation may leave: the registry is well formed, the run is in it, its ledger has
  events of the types \<open>ks\<close> in this order, the state machine satisfies \<open>M\<close>, and the calls made so far
  are all admitted by \<open>C\<close>.
\<close>

definition good :: "pipe_env \<Rightarrow> string \<Rightarrow> (outcall \<Rightarrow> bool) \<Rightarrow> (vsm \<Rightarrow> bool) \<Rightarrow> string list \<Rightarrow> pipe_state \<Rightarrow> bool" where
  "good env run C M ks s = (registry_ok (pe_sha env) (ps_registry s) \<and>
     (\<exists>rr. map_of (rg_runs (ps_registry s)) run = Some rr \<and> subseq (map PStr ks) (event_kinds rr)) \<and>
     M (ps_machine s) \<and> list_all C (ps_calls s))"

text \<open>The good states that differ from a good state in the tick alone.\<close>

lemma good_tick [simp]: "good env run C M ks (s\<lparr>ps_tick := n\<rparr>) = good env run C M ks s"
  by (simp add: good_def)

lemma good_other [simp]: "good env run C M ks (s\<lparr>ps_cache := c\<rparr>) = good env run C M ks s"
  "good env run C M ks (s\<lparr>ps_request := q\<rparr>) = good env run C M ks s"
  "good env run C M ks (s\<lparr>ps_escalation := p\<rparr>) = good env run C M ks s"
  by (simp_all add: good_def)

definition is_raised :: "pipe_exc \<Rightarrow> bool" where
  "is_raised e = (\<exists>x. e = Raised x)"

lemma is_raised_simps [simp]: "is_raised (Raised x)" "\<not> is_raised (HttpError c body)"
  by (simp_all add: is_raised_def)

text \<open>The exceptions of a computation that keeps good states are those of Python.\<close>

abbreviation fails :: "pipe_env \<Rightarrow> string \<Rightarrow> (outcall \<Rightarrow> bool) \<Rightarrow> (vsm \<Rightarrow> bool) \<Rightarrow> string list \<Rightarrow> pipe_exc \<Rightarrow> pipe_state \<Rightarrow> bool" where
  "fails env run C M ks e s \<equiv> is_raised e \<and> good env run C M ks s"

abbreviation keeps :: "pipe_env \<Rightarrow> string \<Rightarrow> (outcall \<Rightarrow> bool) \<Rightarrow> (vsm \<Rightarrow> bool) \<Rightarrow> string list \<Rightarrow> 'a pipe \<Rightarrow> bool" where
  "keeps env run C M ks m \<equiv> hoareP (good env run C M ks) m (\<lambda>_. good env run C M ks) (fails env run C M ks)"

text \<open>A condition on the machine that no transition breaks, as that on its table.\<close>

definition steady :: "(vsm \<Rightarrow> bool) \<Rightarrow> bool" where
  "steady M = (\<forall>m run event ok m' r. M m \<longrightarrow> transition m run event ok = (m', r) \<longrightarrow> M m')"

text \<open>A change of the record of the run that leaves its id and its events alone.\<close>

definition quiet :: "(run_record \<Rightarrow> run_record) \<Rightarrow> bool" where
  "quiet f = (\<forall>r. rr_run_id (f r) = rr_run_id r \<and> rr_events (f r) = rr_events r)"

lemma quiet_same_entries: "quiet f \<Longrightarrow> run_entries (f r) = run_entries r"
  by (simp add: quiet_def run_entries_def)

lemma quiet_change: "quiet f \<Longrightarrow> run_verified sha r \<Longrightarrow> run_change sha r (f r)"
  using quiet_same_entries[of f r] by (simp add: run_change_def quiet_def run_verified_def)

lemma good_put:
  assumes "good env run C M ks s" "map_of (rg_runs (ps_registry s)) run = Some rr" "run_change (pe_sha env) rr rr'"
    "subseq (map PStr ks') (event_kinds rr')"
  shows "good env run C M ks' (s\<lparr>ps_registry := put_run (ps_registry s) run rr'\<rparr>)"
  using assms registry_ok_put[of "pe_sha env" "ps_registry s" run rr rr'] by (simp add: good_def)

lemma good_verified: "good env run C M ks s \<Longrightarrow> map_of (rg_runs (ps_registry s)) run = Some rr \<Longrightarrow>
    run_verified (pe_sha env) rr \<and> rr_run_id rr = run \<and> subseq (map PStr ks) (event_kinds rr)"
  by (auto simp: good_def registry_ok_def)

lemma good_run: "good env run C M ks s \<Longrightarrow> \<exists>rr. map_of (rg_runs (ps_registry s)) run = Some rr"
  by (auto simp: good_def)

lemma keeps_record: "hoareP (good env run C M ks) (recordP run)
    (\<lambda>rr s. good env run C M ks s \<and> map_of (rg_runs (ps_registry s)) run = Some rr) (fails env run C M ks)"
  by (rule hoareI) (auto simp: recordP_def liftP_def require_run_def dest: good_run split: option.splits)

lemma keeps_set_record: "quiet f \<Longrightarrow> keeps env run C M ks (set_recordP run f)"
  unfolding set_recordP_def
proof (rule hoare_bind[OF keeps_record], rule hoare_modify, elim conjE)
  fix rr s assume q: "quiet f" "good env run C M ks s" "map_of (rg_runs (ps_registry s)) run = Some rr"
  have "event_kinds (f rr) = event_kinds rr" using quiet_same_entries[OF q(1)] by (simp add: event_kinds_def)
  then show "good env run C M ks (s\<lparr>ps_registry := put_run (ps_registry s) run (f rr)\<rparr>)"
    using good_put[OF q(2,3)] quiet_change[OF q(1)] good_verified[OF q(2,3)] by metis
qed

lemma run_event_type: "append_event sha es (run_event uuid now run kind actor subject payload) = Inr (es', e) \<Longrightarrow>
    dget e ''event_type'' = PStr kind"
  by (auto simp: append_event_def run_event_def Let_def bindE_eq_Inr dget_def)

text \<open>The type of the last event of the run.\<close>

definition latest :: "string \<Rightarrow> string \<Rightarrow> run_registry \<Rightarrow> bool" where
  "latest run kind g = (\<exists>rr. map_of (rg_runs g) run = Some rr \<and> event_kinds rr \<noteq> [] \<and> last (event_kinds rr) = PStr kind)"

lemma ledger_latest: "hoareP (good env run C M ks) (ledgerP env run kind actor subject payload)
    (\<lambda>_ s. good env run C M (ks @ [kind]) s \<and> latest run kind (ps_registry s)) (fails env run C M ks)"
  unfolding ledgerP_def
proof (rule hoare_bind)
  show "hoareP (good env run C M ks) tickP (\<lambda>_. good env run C M ks) (fails env run C M ks)" by (rule hoare_tick) simp
next
  fix t
  show "hoareP (good env run C M ks)
     (registryP (\<lambda>g. bindE (ledger (pe_sha env) (pe_uuid env t 0) (pe_now env t 0) g run kind actor (PStr subject) payload) (\<lambda>(g', _). Inr g')))
     (\<lambda>_ s. good env run C M (ks @ [kind]) s \<and> latest run kind (ps_registry s)) (fails env run C M ks)"
  proof (rule hoareI)
    fix s assume g: "good env run C M ks s"
    let ?l = "ledger (pe_sha env) (pe_uuid env t 0) (pe_now env t 0) (ps_registry s) run kind actor (PStr subject) payload"
    show "case registryP (\<lambda>g. bindE (ledger (pe_sha env) (pe_uuid env t 0) (pe_now env t 0) g run kind actor (PStr subject) payload) (\<lambda>(g', _). Inr g')) s of
        (s', Inl e) \<Rightarrow> fails env run C M ks e s' | (s', Inr x) \<Rightarrow> good env run C M (ks @ [kind]) s' \<and> latest run kind (ps_registry s')"
    proof (cases ?l)
      case (Inl e)
      then show ?thesis using g by (simp add: registryP_def)
    next
      case (Inr p)
      obtain g' e where p: "p = (g', e)" by fastforce
      have ok: "registry_ok (pe_sha env) (ps_registry s)" using g by (simp add: good_def)
      obtain rr where rr: "map_of (rg_runs (ps_registry s)) run = Some rr" "run_verified (pe_sha env) rr"
        "g' = put_run (ps_registry s) run (rr\<lparr>rr_events := PList (map PDict (run_entries rr @ [e]))\<rparr>)"
        "append_event (pe_sha env) (run_entries rr) (run_event (pe_uuid env t 0) (pe_now env t 0) run kind actor (PStr subject) payload) =
           Inr (run_entries rr @ [e], e)"
        using ledger_Inr[OF Inr[unfolded p] ok] by blast
      define rr' where "rr' = rr\<lparr>rr_events := PList (map PDict (run_entries rr @ [e]))\<rparr>"
      have en: "run_entries rr' = run_entries rr @ [e]" unfolding rr'_def by (rule run_entries_events)
      have "valid_chain (pe_sha env) (run_entries rr @ [e])" using append_event_log[OF _ rr(4)] rr(2) by (simp add: run_verified_def)
      then have "run_change (pe_sha env) rr rr'"
        using run_verified_events[of "pe_sha env" "run_entries rr @ [e]" rr] en by (simp add: run_change_def rr'_def)
      moreover have kinds: "event_kinds rr' = event_kinds rr @ [PStr kind]" using run_event_type[OF rr(4)] by (simp add: event_kinds_def en)
      then have "subseq (map PStr (ks @ [kind])) (event_kinds rr')"
        using good_verified[OF g rr(1)] by (simp add: list_emb_append_mono)
      ultimately have "good env run C M (ks @ [kind]) (s\<lparr>ps_registry := g'\<rparr>)"
        using good_put[OF g rr(1)] by (simp add: rr(3) rr'_def)
      moreover have "latest run kind g'" using kinds by (simp add: latest_def rr(3) rr'_def)
      ultimately show ?thesis by (simp add: registryP_def Inr p)
    qed
  qed
qed

lemma keeps_ledger: "hoareP (good env run C M ks) (ledgerP env run kind actor subject payload)
    (\<lambda>_. good env run C M (ks @ [kind])) (fails env run C M ks)"
  by (rule hoare_weaken[OF ledger_latest]) simp_all

lemma subseq_left: "subseq (a @ b) c \<Longrightarrow> subseq a c"
  by (auto dest!: list_emb_appendD intro: list_emb_prefix)

lemma good_drop: "good env run C M (ks @ ks') s \<Longrightarrow> good env run C M ks s"
  unfolding good_def by (auto dest: subseq_left)

lemma keeps_ledger' : "keeps env run C M ks (ledgerP env run kind actor subject payload)"
  by (rule hoare_weaken[OF keeps_ledger]) (auto dest: good_drop)

section \<open>Everything but a ledger call keeps the types of the events\<close>

named_theorems keeps_intros \<open>computations that leave a good state good\<close>

lemma keeps_basic [keeps_intros]:
  "keeps env run C M ks (returnP x)" "keeps env run C M ks (raiseP (Raised e))" "keeps env run C M ks (liftP r)" "keeps env run C M ks (getP f)"
  "keeps env run C M ks tickP"
  by (simp_all add: hoare_return hoare_raise hoare_lift hoare_get hoare_tick)

lemma keeps_bind [keeps_intros]: "keeps env run C M ks m \<Longrightarrow> (\<And>x. keeps env run C M ks (f x)) \<Longrightarrow> keeps env run C M ks (bindP m f)"
  by (rule hoare_bind)

lemma keeps_then [keeps_intros]: "keeps env run C M ks m \<Longrightarrow> keeps env run C M ks k \<Longrightarrow> keeps env run C M ks (thenP m k)"
  by (rule hoare_then)

lemma keeps_if [keeps_intros]: "(b \<Longrightarrow> keeps env run C M ks m) \<Longrightarrow> (\<not> b \<Longrightarrow> keeps env run C M ks k) \<Longrightarrow> keeps env run C M ks (if b then m else k)"
  by (rule hoare_if)

lemma keeps_each [keeps_intros]: "(\<And>x. keeps env run C M ks (f x)) \<Longrightarrow> keeps env run C M ks (eachP f xs)"
  by (rule hoare_each)

lemma keeps_when [keeps_intros]: "(b \<Longrightarrow> keeps env run C M ks m) \<Longrightarrow> keeps env run C M ks (whenP b m)"
  by (rule hoare_when)

lemma keeps_option [keeps_intros]:
  "keeps env run C M ks m \<Longrightarrow> (\<And>x. keeps env run C M ks (k x)) \<Longrightarrow> keeps env run C M ks (case v of None \<Rightarrow> m | Some x \<Rightarrow> k x)"
  by (cases v) simp_all

lemma keeps_prod [keeps_intros]: "(\<And>x y. keeps env run C M ks (h x y)) \<Longrightarrow> keeps env run C M ks (case p of (x, y) \<Rightarrow> h x y)"
  by (cases p) simp

lemma keeps_list [keeps_intros]:
  "keeps env run C M ks m \<Longrightarrow> (\<And>x xs. keeps env run C M ks (h x xs)) \<Longrightarrow> keeps env run C M ks (case l of [] \<Rightarrow> m | x # xs \<Rightarrow> h x xs)"
  by (cases l) simp_all

lemma keeps_recordP [keeps_intros]: "keeps env run C M ks (recordP r)"
  by (rule hoareI) (simp add: recordP_def liftP_def split: sum.splits)

lemmas [keeps_intros] = keeps_set_record keeps_ledger'

lemma keeps_modify_other [keeps_intros]:
  "keeps env run C M ks (modifyP (\<lambda>s. s\<lparr>ps_cache := c s\<rparr>))" "keeps env run C M ks (modifyP (\<lambda>s. s\<lparr>ps_request := q s\<rparr>))"
  "keeps env run C M ks (modifyP (\<lambda>s. s\<lparr>ps_escalation := p s\<rparr>))"
  by (simp_all add: hoare_modify)

lemma keeps_call [keeps_intros]: "C c \<Longrightarrow> keeps env run C M ks (callP c)"
  unfolding callP_def by (rule hoare_modify) (simp add: good_def)

lemma keeps_head_hash [keeps_intros]: "keeps env run C M ks (head_hashP r)"
  by (rule hoareI) (simp add: head_hashP_def liftP_def split: sum.splits)

lemma transition_table: "transition m run event ok = (m', r) \<Longrightarrow> vsm_transitions m' = vsm_transitions m"
  by (auto simp: transition_def Let_def split: option.splits prod.splits if_splits)

lemma keeps_transition [keeps_intros]: "steady M \<Longrightarrow> keeps env run C M ks (transitionP r event ok)"
proof (rule hoareI)
  fix s assume M: "steady M" and g: "good env run C M ks s"
  obtain m' x where t: "transition (ps_machine s) r event ok = (m', x)" by fastforce
  have "M (ps_machine s)" using g by (simp add: good_def)
  then have "M m'" using M t unfolding steady_def by blast
  then have "good env run C M ks (s\<lparr>ps_machine := m'\<rparr>)" using g by (simp add: good_def)
  then show "case transitionP r event ok s of (s', Inl e) \<Rightarrow> fails env run C M ks e s' | (s', Inr y) \<Rightarrow> good env run C M ks s'"
    by (cases x) (simp_all add: transitionP_def t)
qed

text \<open>A registry call that rewrites the record of the run quietly.\<close>

lemma keeps_registry:
  assumes "\<And>g g'. f g = Inr g' \<Longrightarrow> \<exists>rr h. map_of (rg_runs g) run = Some rr \<and> g' = put_run g run (h rr) \<and> quiet h"
  shows "keeps env run C M ks (registryP f)"
proof (rule hoareI)
  fix s assume g: "good env run C M ks s"
  show "case registryP f s of (s', Inl e) \<Rightarrow> fails env run C M ks e s' | (s', Inr y) \<Rightarrow> good env run C M ks s'"
  proof (cases "f (ps_registry s)")
    case (Inr g')
    obtain rr h where rr: "map_of (rg_runs (ps_registry s)) run = Some rr" "g' = put_run (ps_registry s) run (h rr)" "quiet h"
      using assms[OF Inr] by blast
    have "event_kinds (h rr) = event_kinds rr" using quiet_same_entries[OF rr(3)] by (simp add: event_kinds_def)
    then have "good env run C M ks (s\<lparr>ps_registry := g'\<rparr>)"
      using good_put[OF g rr(1)] quiet_change[OF rr(3)] good_verified[OF g rr(1)] rr(2) by metis
    then show ?thesis by (simp add: registryP_def Inr)
  qed (use g in \<open>simp add: registryP_def\<close>)
qed

lemma keeps_flags [keeps_intros]:
  "keeps env run C M ks (registryP (\<lambda>g. record_human_intervention g run why))" "keeps env run C M ks (registryP (\<lambda>g. record_rework g run why))"
proof -
  have q: "quiet (\<lambda>r. r\<lparr>rr_human_intervention := True, rr_human_reason := Some why\<rparr>)" "quiet (\<lambda>r. r\<lparr>rr_rework := True, rr_rework_reason := Some why\<rparr>)"
    by (simp_all add: quiet_def)
  show "keeps env run C M ks (registryP (\<lambda>g. record_human_intervention g run why))"
    by (rule keeps_registry) (use q(1) in \<open>auto simp: record_human_intervention_def bindE_eq_Inr require_run_Inr intro: exI[of _ "\<lambda>r. r\<lparr>rr_human_intervention := True, rr_human_reason := Some why\<rparr>"]\<close>)
  show "keeps env run C M ks (registryP (\<lambda>g. record_rework g run why))"
    by (rule keeps_registry) (use q(2) in \<open>auto simp: record_rework_def bindE_eq_Inr require_run_Inr intro: exI[of _ "\<lambda>r. r\<lparr>rr_rework := True, rr_rework_reason := Some why\<rparr>"]\<close>)
qed

lemma keeps_receipt [keeps_intros]: "keeps env run C M ks (receiptP env run outcome results cost)"
  unfolding receiptP_def
proof (intro keeps_bind keeps_basic, rule keeps_registry)
  fix t g g'
  assume "bindE (issue_receipt (pe_uuid env t 0) (pe_now env t 0) g run outcome (PList results) (PFloat cost)) (\<lambda>(g', _). Inr g') = Inr g'"
  then obtain receipt where "issue_receipt (pe_uuid env t 0) (pe_now env t 0) g run outcome (PList results) (PFloat cost) = Inr (g', receipt)"
    by (auto simp: bindE_eq_Inr)
  moreover have "quiet (\<lambda>r. r\<lparr>rr_receipt := receipt\<rparr>)" by (simp add: quiet_def)
  ultimately show "\<exists>rr h. map_of (rg_runs g) run = Some rr \<and> g' = put_run g run (h rr) \<and> quiet h"
    using issue_receipt_updates by blast
qed

lemma quiet_updates [keeps_intros]:
  "quiet (rr_tenant_id_update f1)" "quiet (rr_task_id_update f2)" "quiet (rr_contract_update f3)" "quiet (rr_decision_update f4)"
  "quiet (rr_request_update f5)" "quiet (rr_response_update f6)" "quiet (rr_epistemic_state_update f7)" "quiet (rr_canonical_state_update f8)"
  "quiet (rr_context_package_update f9)" "quiet (rr_fallbacks_update f10)" "quiet (rr_canary_update f11)" "quiet (rr_policy_version_update f12)"
  "quiet (rr_total_tokens_update f13)" "quiet (rr_prompt_tokens_update f14)" "quiet (rr_completion_tokens_update f15)"
  "quiet (rr_actual_cost_usd_update f16)" "quiet (rr_latency_ms_update f17)" "quiet (rr_original_prompt_tokens_update f18)"
  "quiet (rr_decision_trace_update f19)" "quiet (rr_epistemic_ledger_update f20)"
  by (simp_all add: quiet_def)

lemma quiet_derived [keeps_intros]:
  "quiet (\<lambda>r. r\<lparr>rr_fallbacks := g r\<rparr>)" "quiet (\<lambda>r. r\<lparr>rr_context_package := p r\<rparr>)"
  "quiet (\<lambda>r. case rr_epistemic_ledger r of None \<Rightarrow> r | Some h \<Rightarrow> r\<lparr>rr_decision_trace := t h\<rparr>)"
  "quiet (\<lambda>r. r\<lparr>rr_contract := contract, rr_task_id := task\<rparr>)"
  by (simp_all add: quiet_def split: option.splits)

lemma keeps_enrich [keeps_intros]: "keeps env run C M ks (enrichP env run payload f)"
  unfolding enrichP_def by (intro keeps_intros)

lemma keeps_evidence [keeps_intros]: "keeps env run C M ks (add_evidenceP run e)"
  unfolding add_evidenceP_def by (intro keeps_intros)

lemma keeps_record_fallback [keeps_intros]: "keeps env run C M ks (record_fallbackP env run subject cls source target reason)"
  unfolding record_fallbackP_def by (intro keeps_intros)

text \<open>The calls admitted: of payloads built for some plan and request under the policy.\<close>

definition built_payload :: "pipe_env \<Rightarrow> (string, pyval) dict \<Rightarrow> bool" where
  "built_payload env payload = (\<exists>plan request. build_chat_payload plan request (pe_policy env) = Inr payload \<or>
     build_phase1_payload request plan (pe_policy env) = Inr payload \<or> build_phase2_payload request plan (pe_policy env) = Inr payload)"

lemma built_payloadI:
  "build_chat_payload plan request (pe_policy env) = Inr payload \<Longrightarrow> built_payload env payload"
  "build_phase1_payload request plan (pe_policy env) = Inr payload \<Longrightarrow> built_payload env payload"
  "build_phase2_payload request plan (pe_policy env) = Inr payload \<Longrightarrow> built_payload env payload"
  by (auto simp: built_payload_def)

definition admits_built :: "pipe_env \<Rightarrow> (outcall \<Rightarrow> bool) \<Rightarrow> bool" where
  "admits_built env C = (\<forall>local payload. built_payload env payload \<longrightarrow> C (Upstream local payload))"

lemma keeps_lift_if: "(\<And>x. r = Inr x \<Longrightarrow> keeps env run C M ks (f x)) \<Longrightarrow> keeps env run C M ks (bindP (liftP r) f)"
  by (cases r) (simp_all add: hoareP_def bindP_def liftP_def)

lemma keeps_send: "admits_built env C \<Longrightarrow> built_payload env payload \<Longrightarrow> keeps env run C M ks (sendP env local payload)"
  unfolding sendP_def by (intro keeps_intros) (simp add: admits_built_def)

lemma keeps_transport [keeps_intros]: "admits_built env C \<Longrightarrow> keeps env run C M ks (transportP env run plan local)"
  unfolding transportP_def
  by (intro keeps_if keeps_send keeps_then keeps_set_record quiet_updates keeps_lift_if keeps_bind[OF keeps_basic(4)]
      keeps_bind[OF keeps_send]) (assumption | erule built_payloadI)+

lemma keeps_openrouter [keeps_intros]: "admits_built env C \<Longrightarrow> keeps env run C M ks (call_openrouter env run plan local)"
  unfolding call_openrouter_def by (intro keeps_intros)

lemma keeps_try [keeps_intros]: "admits_built env C \<Longrightarrow> keeps env run C M ks (try_plans env run subject failed plans)"
proof (induction plans arbitrary: failed)
  case (Cons plan plans)
  have call: "keeps env run C M ks (call_openrouter env run plan local)" for local by (rule keeps_openrouter[OF Cons.prems])
  have "keeps env run C M ks (\<lambda>s. case call_openrouter env run plan local s of
      (s', Inl (Raised (UpstreamError err))) \<Rightarrow> try_plans env run subject (Some (plan, err)) plans s' | r \<Rightarrow> r)" for local
    by (rule hoare_catch[OF call hoare_pre[OF Cons.IH[OF Cons.prems]]]) simp
  then show ?case unfolding try_plans.simps by (intro keeps_intros)
qed (simp add: keeps_basic)

lemma keeps_execute [keeps_intros]: "admits_built env C \<Longrightarrow> keeps env run C M ks (execute_with_fallback env run subject decision)"
  unfolding execute_with_fallback_def by (intro keeps_intros)

lemma keeps_flush [keeps_intros]: "keeps env run C M ks (flush_transitions env run subject)"
  unfolding flush_transitions_def Let_def case_prod_beta by (intro keeps_intros)

section \<open>The course of a run\<close>

text \<open>The run is in state \<open>st\<close> of the lifecycle.\<close>

definition in_state :: "string \<Rightarrow> string \<Rightarrow> vsm \<Rightarrow> bool" where
  "in_state run st m = (vsm_transitions m = vsm_transitions lifecycle \<and> run_state m run = st)"

abbreviation stands :: "pipe_env \<Rightarrow> string \<Rightarrow> (outcall \<Rightarrow> bool) \<Rightarrow> string \<Rightarrow> string list \<Rightarrow> pipe_state \<Rightarrow> bool" where
  "stands env run C st ks \<equiv> good env run C (in_state run st) ks"

text \<open>What holds wherever an exception of Python leaves the run.\<close>

abbreviation safe :: "pipe_env \<Rightarrow> string \<Rightarrow> (outcall \<Rightarrow> bool) \<Rightarrow> pipe_state \<Rightarrow> bool" where
  "safe env run C \<equiv> good env run C (\<lambda>_. True) []"

definition covers :: "pipe_env \<Rightarrow> string \<Rightarrow> (outcall \<Rightarrow> bool) \<Rightarrow> (pipe_exc \<Rightarrow> pipe_state \<Rightarrow> bool) \<Rightarrow> bool" where
  "covers env run C E = (\<forall>e s. safe env run C s \<longrightarrow> E (Raised e) s)"

lemma good_mono: "good env run C M ks s \<Longrightarrow> (\<And>c. C c \<Longrightarrow> D c) \<Longrightarrow> (\<And>m. M m \<Longrightarrow> N m) \<Longrightarrow> good env run D N ks s"
  unfolding good_def by (auto elim: list.pred_mono_strong)

lemma good_safe: "good env run C M ks s \<Longrightarrow> safe env run C s"
  unfolding good_def by auto

lemma fails_covered: "covers env run C E \<Longrightarrow> fails env run C M ks e s \<Longrightarrow> E e s"
  unfolding covers_def is_raised_def by (blast dest: good_safe)

lemma keeps_covered: "keeps env run C M ks m \<Longrightarrow> covers env run C E \<Longrightarrow> hoareP (good env run C M ks) m (\<lambda>_. good env run C M ks) E"
  by (rule hoare_weaken, assumption, assumption, assumption, erule (1) fails_covered)

named_theorems course \<open>rules that follow a computation statement by statement\<close>

lemma course_bind [course]: "keeps env run C M ks m \<Longrightarrow> covers env run C E \<Longrightarrow> (\<And>x. hoareP (good env run C M ks) (f x) Q E) \<Longrightarrow>
    hoareP (good env run C M ks) (bindP m f) Q E"
  by (rule hoare_bind[OF keeps_covered])

lemma course_then [course]: "keeps env run C M ks m \<Longrightarrow> covers env run C E \<Longrightarrow> hoareP (good env run C M ks) k Q E \<Longrightarrow>
    hoareP (good env run C M ks) (thenP m k) Q E"
  by (rule hoare_then[OF keeps_covered])

lemma course_ledger: "covers env run C E \<Longrightarrow> hoareP (good env run C M (ks @ [kind])) k Q E \<Longrightarrow>
    hoareP (good env run C M ks) (thenP (ledgerP env run kind actor subject payload) k) Q E"
  by (rule hoare_then, rule hoare_weaken[OF keeps_ledger], assumption, assumption, erule (1) fails_covered)

lemma course_ledger_last: "covers env run C E \<Longrightarrow> (\<And>s. good env run C M (ks @ [kind]) s \<Longrightarrow> Q () s) \<Longrightarrow>
    hoareP (good env run C M ks) (ledgerP env run kind actor subject payload) Q E"
  by (rule hoare_weaken[OF keeps_ledger], assumption, simp, erule (1) fails_covered)

lemma transition_in_state:
  assumes "in_state run st m" "map_of lifecycle_rows (st, event) = Some (st', guard)" "transition m run event ok = (m', Inr x)"
  shows "in_state run st' m'"
  using assms by (auto simp: in_state_def transition_def Let_def lifecycle_table run_state_def split: if_splits)

lemma course_transition:
  assumes "map_of lifecycle_rows (st, event) = Some (st', guard)" "covers env run C E"
    "hoareP (stands env run C st' ks) k Q E"
  shows "hoareP (stands env run C st ks) (thenP (transitionP run event ok) k) Q E"
proof (rule hoare_then[OF _ assms(3)], rule hoareI)
  fix s assume g: "stands env run C st ks s"
  obtain m' x where t: "transition (ps_machine s) run event ok = (m', x)" by fastforce
  show "case transitionP run event ok s of (s', Inl e) \<Rightarrow> E e s' | (s', Inr y) \<Rightarrow> stands env run C st' ks s'"
  proof (cases x)
    case (Inl e)
    have "safe env run C (s\<lparr>ps_machine := m'\<rparr>)" using good_safe[OF g] by (simp add: good_def)
    then show ?thesis using assms(2) by (simp add: transitionP_def t Inl covers_def)
  next
    case (Inr y)
    have "in_state run st' m'" using transition_in_state[OF _ assms(1) t[unfolded Inr]] g by (simp add: good_def)
    then show ?thesis using g by (simp add: transitionP_def t Inr good_def)
  qed
qed

text \<open>An event the table does not have in the state of the run raises.\<close>

lemma course_illegal:
  assumes "map_of lifecycle_rows (st, event) = None" "covers env run C E"
  shows "hoareP (stands env run C st ks) (thenP (transitionP run event ok) k) Q E"
proof (rule hoareI)
  fix s assume g: "stands env run C st ks s"
  have "fst (transition (ps_machine s) run event ok) = ps_machine s \<and> (\<exists>e. snd (transition (ps_machine s) run event ok) = Inl e)"
    using assms(1) g by (simp add: good_def in_state_def transition_def Let_def lifecycle_table)
  then obtain e where "transition (ps_machine s) run event ok = (ps_machine s, Inl e)" by (metis prod.collapse)
  then show "case thenP (transitionP run event ok) k s of (s', Inl e) \<Rightarrow> E e s' | (s', Inr y) \<Rightarrow> Q y s'"
    using assms(2) good_safe[OF g] by (simp add: thenP_def bindP_def transitionP_def covers_def)
qed

lemma course_return [course]: "(\<And>s. good env run C M ks s \<Longrightarrow> Q x s) \<Longrightarrow> hoareP (good env run C M ks) (returnP x) Q E"
  by (rule hoare_return)

lemma course_raise [course]: "(\<And>s. good env run C M ks s \<Longrightarrow> E (HttpError code body) s) \<Longrightarrow>
    hoareP (good env run C M ks) (raiseP (HttpError code body)) Q E"
  by (rule hoare_raise)

lemma course_prod [course]: "(\<And>x y. hoareP P (h x y) Q E) \<Longrightarrow> hoareP P (case p of (x, y) \<Rightarrow> h x y) Q E"
  by (cases p) simp

text \<open>The calls admitted before an action is started, and after.\<close>

definition no_upstream :: "outcall \<Rightarrow> bool" where
  "no_upstream c = (case c of Upstream _ _ \<Rightarrow> False | _ \<Rightarrow> True)"

definition built_call :: "pipe_env \<Rightarrow> outcall \<Rightarrow> bool" where
  "built_call env c = (case c of Upstream _ payload \<Rightarrow> built_payload env payload | _ \<Rightarrow> True)"

text \<open>The events of the run up to a stage.\<close>

definition checked_events :: "string list" where
  "checked_events = [''request_received'', ''contract_proposed'', ''contract_validated'', ''policy_checked'']"

definition context_events :: "string list" where
  "context_events = checked_events @ [''context_compiled'', ''context_compressed'']"

definition executed :: "string list" where
  "executed = context_events @ [''route_selected'', ''action_started'', ''action_completed'', ''evidence_recorded'']"

text \<open>The last event of the run is of type \<open>kind\<close>, and its receipt is bound to that event and of the
  results given.\<close>

definition receipted :: "string \<Rightarrow> string \<Rightarrow> string \<Rightarrow> pyval list \<Rightarrow> run_registry \<Rightarrow> bool" where
  "receipted run kind outcome results g = (\<exists>rr. map_of (rg_runs g) run = Some rr \<and>
     event_kinds rr \<noteq> [] \<and> last (event_kinds rr) = PStr kind \<and>
     attr (rr_receipt rr) ''status'' PNone = PStr outcome \<and>
     attr (rr_receipt rr) ''verification_results'' PNone = PList results \<and>
     head_hash g run = Inr (attr (rr_receipt rr) ''ledger_head_hash'' PNone))"

definition mandatory_pass :: "pyval list \<Rightarrow> bool" where
  "mandatory_pass results = (all_mandatory_criteria_pass_and_no_blocking_conflict results None [] = Inr True)"

text \<open>How a request that is not answered leaves its run, by the status of the HTTP error.\<close>

definition stopped :: "pipe_env \<Rightarrow> string \<Rightarrow> pipe_exc \<Rightarrow> pipe_state \<Rightarrow> bool" where
  "stopped env run e s = (case e of
     Raised _ \<Rightarrow> safe env run (built_call env) s
   | HttpError code _ \<Rightarrow>
       code = 422 \<and> stands env run no_upstream ''received'' [''request_received'', ''outcome_rejected''] s \<or>
       code = 422 \<and> stands env run no_upstream ''clarification_required'' [''request_received'', ''contract_proposed''] s \<or>
       code = 424 \<and> stands env run no_upstream ''rejected'' (context_events @ [''route_selected'', ''outcome_rejected'']) s \<and>
         receipted run ''outcome_rejected'' ''escalated'' [] (ps_registry s) \<or>
       code = 500 \<and> stands env run (built_call env) ''rejected'' (executed @ [''verification_completed'', ''outcome_rejected'']) s \<and>
         (\<exists>results. receipted run ''outcome_rejected'' ''escalated'' results (ps_registry s)))"

definition answered :: "pipe_env \<Rightarrow> string \<Rightarrow> pipe_state \<Rightarrow> bool" where
  "answered env run s = (stands env run (built_call env) ''completed'' (executed @ [''verification_completed'', ''outcome_accepted'']) s \<and>
     (\<exists>results. mandatory_pass results \<and> receipted run ''outcome_accepted'' ''accepted'' results (ps_registry s)))"

lemma no_upstream_built: "no_upstream c \<Longrightarrow> built_call env c"
  by (simp add: no_upstream_def built_call_def split: outcall.splits)

lemma covers_stopped [simp]: "covers env run no_upstream (stopped env run)" "covers env run (built_call env) (stopped env run)"
  by (auto simp: covers_def stopped_def elim: good_mono[OF _ no_upstream_built])

lemma admits_built_call [simp]: "admits_built env (built_call env)"
  by (simp add: admits_built_def built_call_def)

section \<open>The stages\<close>

lemma stopped_422:
  "stands env run no_upstream ''received'' [''request_received'', ''outcome_rejected''] s \<Longrightarrow> stopped env run (HttpError 422 body) s"
  "stands env run no_upstream ''clarification_required'' [''request_received'', ''contract_proposed''] s \<Longrightarrow> stopped env run (HttpError 422 body) s"
  by (simp_all add: stopped_def)

lemma lifecycle_moves:
  "map_of lifecycle_rows (''received'', ''propose_contract'') = Some (''contract_proposed'', ''request_schema_valid'')"
  "map_of lifecycle_rows (''contract_proposed'', ''request_clarification'') = Some (''clarification_required'', ''mandatory_acceptance_missing_or_ambiguous'')"
  "map_of lifecycle_rows (''contract_proposed'', ''validate_contract'') = Some (''contract_validated'', ''contract_schema_valid_and_acceptance_sufficient'')"
  "map_of lifecycle_rows (''contract_validated'', ''check_policy'') = Some (''policy_checked'', ''policy_allows_progress'')"
  "map_of lifecycle_rows (''policy_checked'', ''compile_context'') = Some (''context_compiled'', ''compaction_invariants_hold'')"
  "map_of lifecycle_rows (''context_compiled'', ''select_route'') = Some (''routed'', ''admissible_route_exists'')"
  "map_of lifecycle_rows (''context_compiled'', ''no_admissible_route'') = Some (''escalation_required'', ''router_failed_closed'')"
  "map_of lifecycle_rows (''escalation_required'', ''reject'') = Some (''rejected'', ''no_authorized_escalation'')"
  "map_of lifecycle_rows (''routed'', ''start_action'') = Some (''executing'', ''budget_and_permissions_reserved'')"
  "map_of lifecycle_rows (''executing'', ''record_result'') = Some (''evidence_normalized'', ''result_bound_to_actor_activity_and_hash'')"
  "map_of lifecycle_rows (''evidence_normalized'', ''start_verification'') = Some (''verifying'', ''required_verification_dag_materialized'')"
  "map_of lifecycle_rows (''verifying'', ''verification_passed'') = Some (''accepted'', ''all_mandatory_criteria_pass_and_no_blocking_conflict'')"
  "map_of lifecycle_rows (''verifying'', ''verification_failed_unresolved'') = Some (''escalation_required'', ''no_admissible_repair'')"
  "map_of lifecycle_rows (''accepted'', ''issue_receipt'') = Some (''completed'', ''receipt_contains_ledger_head_and_verification_evidence'')"
  by code_simp+

lemma reject_from_routed: "map_of lifecycle_rows (''routed'', ''reject'') = None"
  by code_simp

lemmas course_moves = lifecycle_moves[THEN course_transition]

lemmas course_events = stopped_def checked_events_def context_events_def executed_def

lemma governance_course: "hoareP (stands env (id_run i) no_upstream ''received'' [''request_received'']) (governance_stage env i)
    (\<lambda>_. stands env (id_run i) no_upstream ''received'' [''request_received'']) (stopped env (id_run i))"
  unfolding governance_stage_def Let_def
  by ((rule course_ledger course hoare_if covers_stopped | intro keeps_intros | assumption | (simp add: course_events; fail))+)

lemma contract_course: "hoareP (stands env (id_run i) no_upstream ''received'' [''request_received'']) (contract_stage env i merged)
    (\<lambda>_. stands env (id_run i) no_upstream ''policy_checked'' checked_events) (stopped env (id_run i))"
  unfolding contract_stage_def Let_def
  by ((rule course_ledger course_moves course hoare_if covers_stopped | intro keeps_intros | assumption | (simp add: course_events; fail))+)

lemma keeps_capsule [keeps_intros]: "keeps env (id_run i) C M ks (capsuleP env i contract cs)"
  unfolding capsuleP_def by (intro keeps_intros)

lemma context_course: "hoareP (stands env (id_run i) no_upstream ''policy_checked'' checked_events) (context_stage env i contract)
    (\<lambda>_. stands env (id_run i) no_upstream ''context_compiled'' (checked_events @ [''context_compiled''])) (stopped env (id_run i))"
  unfolding context_stage_def Let_def
  by ((rule course_ledger_last course_moves course hoare_if covers_stopped | intro keeps_intros | assumption | (simp add: course_events; fail))+)

lemma compression_course: "hoareP (stands env (id_run i) no_upstream ''context_compiled'' (checked_events @ [''context_compiled'']))
    (compression_stage env i) (\<lambda>_. stands env (id_run i) no_upstream ''context_compiled'' context_events) (stopped env (id_run i))"
  unfolding compression_stage_def
  by ((rule course_ledger course hoare_if covers_stopped | intro keeps_intros | assumption | (simp add: course_events; fail))+)

lemma start_course: "hoareP (stands env (id_run i) no_upstream ''routed'' (context_events @ [''route_selected''])) (start_stage env i contract decision)
    (\<lambda>_. stands env (id_run i) no_upstream ''executing'' (context_events @ [''route_selected'', ''action_started''])) (stopped env (id_run i))"
  unfolding start_stage_def Let_def
  by ((rule course_ledger_last course_moves course covers_stopped | intro keeps_intros | assumption | (simp add: course_events; fail))+)

section \<open>Receipts\<close>

lemma head_hash_receipt: "map_of (rg_runs g) run = Some rr \<Longrightarrow> head_hash (put_run g run (rr\<lparr>rr_receipt := x\<rparr>)) run = head_hash g run"
  by (simp add: head_hash_def require_run_def)

lemma receipt_course:
  assumes "covers env run C E"
  shows "hoareP (\<lambda>s. good env run C M ks s \<and> latest run kind (ps_registry s)) (receiptP env run outcome results cost)
     (\<lambda>_ s. good env run C M ks s \<and> receipted run kind outcome results (ps_registry s)) E"
proof (rule hoareI)
  fix s assume g: "good env run C M ks s \<and> latest run kind (ps_registry s)"
  define s1 where "s1 = s\<lparr>ps_tick := Suc (ps_tick s)\<rparr>"
  obtain s' r where m: "receiptP env run outcome results cost s = (s', r)" by fastforce
  have post: "case r of Inl e \<Rightarrow> fails env run C M ks e s' | Inr _ \<Rightarrow> good env run C M ks s'"
    using hoareD[OF keeps_receipt _ m] g by blast
  show "case receiptP env run outcome results cost s of (s', Inl e) \<Rightarrow> E e s'
      | (s', Inr x) \<Rightarrow> good env run C M ks s' \<and> receipted run kind outcome results (ps_registry s')"
  proof (cases r)
    case (Inl e)
    then show ?thesis using post fails_covered[OF assms] by (simp add: m)
  next
    case (Inr u)
    obtain g' receipt where i: "issue_receipt (pe_uuid env (ps_tick s) 0) (pe_now env (ps_tick s) 0) (ps_registry s) run outcome (PList results) (PFloat cost) = Inr (g', receipt)"
      and s': "ps_registry s' = g'"
      using m Inr by (auto simp: receiptP_def bindP_def tickP_def registryP_def bindE_def split: sum.splits)
    obtain rr head where rr: "map_of (rg_runs (ps_registry s)) run = Some rr" "g' = put_run (ps_registry s) run (rr\<lparr>rr_receipt := receipt\<rparr>)"
      "head_hash (ps_registry s) run = Inr head" "attr receipt ''ledger_head_hash'' PNone = head" "attr receipt ''status'' PNone = PStr outcome"
      using issue_receipt_updates[OF i] by blast
    have "attr receipt ''verification_results'' PNone = PList results"
      using i by (auto simp: issue_receipt_def bindE_eq_Inr Let_def attr_def)
    then have "receipted run kind outcome results g'"
      using g rr head_hash_receipt[OF rr(1), of receipt] by (simp add: receipted_def latest_def event_kinds_def)
    then show ?thesis using post by (simp add: m Inr s')
  qed
qed

text \<open>The last event and the receipt, together.\<close>

lemma close_course:
  assumes "covers env run C E"
    "hoareP (\<lambda>s. good env run C M (ks @ [kind]) s \<and> receipted run kind outcome results (ps_registry s)) k Q E"
  shows "hoareP (good env run C M ks) (thenP (ledgerP env run kind actor subject payload) (thenP (receiptP env run outcome results cost) k)) Q E"
proof (rule hoare_then)
  show "hoareP (good env run C M ks) (ledgerP env run kind actor subject payload)
      (\<lambda>_ s. good env run C M (ks @ [kind]) s \<and> latest run kind (ps_registry s)) E"
    by (rule hoare_weaken[OF ledger_latest], assumption, assumption, erule fails_covered[OF assms(1)])
  show "hoareP (\<lambda>s. good env run C M (ks @ [kind]) s \<and> latest run kind (ps_registry s)) (thenP (receiptP env run outcome results cost) k) Q E"
    by (rule hoare_then[OF receipt_course[OF assms(1)] assms(2)])
qed

text \<open>Computations that leave the registry as it is.\<close>

definition still :: "'a pipe \<Rightarrow> bool" where
  "still m = (\<forall>s. ps_registry (fst (m s)) = ps_registry s)"

named_theorems still_intros \<open>computations that leave the registry alone\<close>

lemma still_basic [still_intros]:
  "still (returnP x)" "still (raiseP e)" "still (liftP r)" "still (getP f)" "still tickP" "still (recordP run)" "still (head_hashP run)"
  "still (callP c)" "still (modifyP (\<lambda>s. s\<lparr>ps_cache := ca s\<rparr>))" "still (modifyP (\<lambda>s. s\<lparr>ps_escalation := p s\<rparr>))"
  by (simp_all add: still_def returnP_def raiseP_def liftP_def getP_def tickP_def recordP_def head_hashP_def callP_def modifyP_def)

lemma still_bind [still_intros]: "still m \<Longrightarrow> (\<And>x. still (f x)) \<Longrightarrow> still (bindP m f)"
  by (simp add: still_def bindP_def case_prod_beta split: sum.splits)

lemma still_then [still_intros]: "still m \<Longrightarrow> still k \<Longrightarrow> still (thenP m k)"
  unfolding thenP_def by (rule still_bind)

lemma still_cases [still_intros]: "still m \<Longrightarrow> still (whenP b m)"
  "still m \<Longrightarrow> (\<And>x. still (k x)) \<Longrightarrow> still (case v of None \<Rightarrow> m | Some x \<Rightarrow> k x)"
  "(\<And>x y. still (h x y)) \<Longrightarrow> still (case p of (x, y) \<Rightarrow> h x y)"
  by (auto simp: whenP_def still_basic split: option.splits prod.splits)

lemma still_completed [still_intros]: "still (record_completed_run run)"
  unfolding record_completed_run_def by (intro still_intros)

lemma still_course:
  assumes "keeps env run C M ks m" "still m" "covers env run C E" "\<And>x. hoareP (\<lambda>s. good env run C M ks s \<and> R (ps_registry s)) (f x) Q E"
  shows "hoareP (\<lambda>s. good env run C M ks s \<and> R (ps_registry s)) (bindP m f) Q E"
proof (rule hoare_bind[OF _ assms(4)], rule hoareI)
  fix s assume g: "good env run C M ks s \<and> R (ps_registry s)"
  obtain s' r where m: "m s = (s', r)" by fastforce
  have "ps_registry s' = ps_registry s" using assms(2) m unfolding still_def by (metis fst_conv)
  then show "case m s of (s', Inl e) \<Rightarrow> E e s' | (s', Inr x) \<Rightarrow> good env run C M ks s' \<and> R (ps_registry s')"
    using hoareD[OF assms(1) _ m] g fails_covered[OF assms(3)] by (simp add: m split: sum.splits)
qed

lemma still_course_then:
  "keeps env run C M ks m \<Longrightarrow> still m \<Longrightarrow> covers env run C E \<Longrightarrow> hoareP (\<lambda>s. good env run C M ks s \<and> R (ps_registry s)) k Q E \<Longrightarrow>
    hoareP (\<lambda>s. good env run C M ks s \<and> R (ps_registry s)) (thenP m k) Q E"
  unfolding thenP_def by (rule still_course)

lemma reject_route_course: "hoareP (stands env (id_run i) no_upstream ''context_compiled'' context_events) (reject_route env i decision) Q (stopped env (id_run i))"
  unfolding reject_route_def Let_def
  by ((rule course_moves close_course course_ledger still_course still_course_then course hoare_raise covers_stopped |
      intro keeps_intros still_intros | assumption | (simp add: course_events; fail))+)

lemma reject_experimental_course:
  "hoareP (stands env (id_run i) C ''routed'' ks) (reject_experimental env i decision) Q (stopped env (id_run i))" if "C = no_upstream"
  unfolding reject_experimental_def Let_def that by (rule course_illegal[OF reject_from_routed]) simp

lemma route_course: "hoareP (stands env (id_run i) no_upstream ''context_compiled'' context_events) (route_stage env i contract policy portfolio canary)
    (\<lambda>_. stands env (id_run i) no_upstream ''routed'' (context_events @ [''route_selected''])) (stopped env (id_run i))"
  unfolding route_stage_def Let_def
  by ((rule reject_route_course reject_experimental_course course_moves course_ledger course hoare_if covers_stopped | intro keeps_intros |
      assumption | (simp add: course_events; fail))+)

section \<open>Execution, repair and the answer\<close>

definition checked :: "outcome \<Rightarrow> bool" where
  "checked oc = (oc_criteria_pass oc \<longrightarrow> mandatory_pass (oc_results oc))"

lemma guard_mandatory: "all_mandatory_criteria_pass_and_no_blocking_conflict results conflicted risk = Inr True \<Longrightarrow> mandatory_pass results"
  unfolding mandatory_pass_def all_mandatory_criteria_pass_and_no_blocking_conflict_def bindE_eq_Inr by (meson sum.inject(2))

lemma course_guard:
  assumes "covers env run C E" "\<And>ok. (ok \<Longrightarrow> mandatory_pass results) \<Longrightarrow> hoareP (good env run C M ks) (f ok) Q E"
  shows "hoareP (good env run C M ks) (bindP (liftP (bindE (es_of rr) (\<lambda>es.
     all_mandatory_criteria_pass_and_no_blocking_conflict results (Some (conflicted_claim_ids es)) risk))) f) Q E"
proof (rule hoare_bind[where R = "\<lambda>ok s. good env run C M ks s \<and> (ok \<longrightarrow> mandatory_pass results)"])
  show "hoareP (\<lambda>s. good env run C M ks s \<and> (ok \<longrightarrow> mandatory_pass results)) (f ok) Q E" for ok
    using assms(2)[of ok] by (auto simp: hoareP_def)
  show "hoareP (good env run C M ks) (liftP (bindE (es_of rr) (\<lambda>es.
      all_mandatory_criteria_pass_and_no_blocking_conflict results (Some (conflicted_claim_ids es)) risk)))
      (\<lambda>ok s. good env run C M ks s \<and> (ok \<longrightarrow> mandatory_pass results)) E"
    by (rule hoare_lift) (auto simp: bindE_eq_Inr intro: guard_mandatory fails_covered[OF assms(1)])
qed

lemma course_advance:
  assumes "hoareP (good env run C M ks) m (\<lambda>_. good env run C M' ks) E" "hoareP (good env run C M' ks) k Q E"
  shows "hoareP (good env run C M ks) (thenP m k) Q E"
  by (rule hoare_then[OF assms])

lemma execute_course:
  assumes "covers env run C E" "admits_built env C"
    and "\<And>ks results. hoareP (good env run C M ks) (whenP advance (thenP (transitionP run ''record_result'' True)
        (transitionP run ''start_verification'' (required_verification_dag_materialized results)))) (\<lambda>_. good env run C M' ks) E"
  shows "hoareP (good env run C M ks) (execute_and_verify env run subject decision contract risk policy advance)
    (\<lambda>oc s. good env run C M' (ks @ [''action_completed'', ''evidence_recorded'']) s \<and> checked oc) E"
  unfolding execute_and_verify_def
  by ((rule course_advance[OF assms(3)] course_guard course_ledger course hoare_return assms(1) | intro keeps_intros assms(2) | assumption |
      (simp add: checked_def; fail))+)

lemma keeps_advanced:
  assumes "covers env run C E"
  shows "hoareP (stands env run C ''executing'' ks) (whenP True (thenP (transitionP run ''record_result'' True)
     (transitionP run ''start_verification'' ok))) (\<lambda>_. stands env run C ''verifying'' ks) E"
proof -
  have "thenP (transitionP run ''start_verification'' ok) (returnP ()) = transitionP run ''start_verification'' ok"
    by (rule ext) (simp add: thenP_def bindP_def returnP_def split: prod.splits sum.splits)
  moreover have "hoareP (stands env run C ''evidence_normalized'' ks) (thenP (transitionP run ''start_verification'' ok) (returnP ()))
      (\<lambda>_. stands env run C ''verifying'' ks) E"
    by (rule lifecycle_moves(11)[THEN course_transition], rule assms, rule hoare_return)
  ultimately show ?thesis
    unfolding whenP_def using lifecycle_moves(10)[THEN course_transition, OF assms] by simp
qed

lemma repeat_course:
  assumes "covers env run C E" "admits_built env C"
  shows "hoareP (good env run C M ks) (execute_and_verify env run subject decision contract risk policy False)
    (\<lambda>oc s. good env run C M ks s \<and> checked oc) E"
proof (rule hoare_weaken[OF execute_course[OF assms, where M' = M]])
  show "hoareP (good env run C M js) (whenP False (thenP (transitionP run ''record_result'' True)
      (transitionP run ''start_verification'' (required_verification_dag_materialized results)))) (\<lambda>_. good env run C M js) E" for js results
    unfolding whenP_def by (simp add: hoare_return)
qed (auto dest: good_drop)

lemma keeps_decisions [keeps_intros]:
  "keeps env run C M ks (should_escalate_local env prefer plan risk)" "keeps env run C M ks (resolve_human_review failed_v conflict risk)"
  "keeps env run C M ks (record_completed_run r)"
  unfolding should_escalate_local_def resolve_human_review_def record_completed_run_def by (intro keeps_intros)+

lemma retry_course:
  assumes "checked first"
  shows "hoareP (good env (id_run i) (built_call env) M ks) (retry_stage env i prefer contract risk first)
    (\<lambda>oc s. good env (id_run i) (built_call env) M ks s \<and> checked oc) (stopped env (id_run i))"
  unfolding retry_stage_def Let_def
  by ((rule repeat_course course hoare_if covers_stopped admits_built_call | intro keeps_intros | assumption | (simp add: assms; fail))+)

lemma keeps_verification [keeps_intros]: "keeps env run C M ks (verification_payload env run verdict risk policy results)"
  unfolding verification_payload_def by (intro keeps_intros)

lemma keeps_review [keeps_intros]: "keeps env (id_run i) C M ks (review_stage env i risk results)"
  unfolding review_stage_def Let_def by (intro keeps_intros)

lemma keeps_fallback [keeps_intros]: "keeps env (id_run i) C M ks (fallback_stage env i decision oc)"
  unfolding fallback_stage_def Let_def by (intro keeps_intros)

lemma fail_course: "hoareP (stands env (id_run i) (built_call env) ''verifying'' executed) (fail_stage env i decision risk policy oc) Q (stopped env (id_run i))"
  unfolding fail_stage_def Let_def
  by ((rule course_moves close_course course_ledger still_course still_course_then course hoare_raise covers_stopped |
      intro keeps_intros still_intros | assumption | (auto simp: course_events; fail))+)

lemma accept_course: "hoareP (stands env (id_run i) (built_call env) ''verifying'' executed) (accept_stage env i decision risk policy oc)
    (\<lambda>_ s. stands env (id_run i) (built_call env) ''completed'' (executed @ [''verification_completed'', ''outcome_accepted'']) s \<and>
       receipted (id_run i) ''outcome_accepted'' ''accepted'' (oc_results oc) (ps_registry s)) (stopped env (id_run i))"
  unfolding accept_stage_def Let_def
  by ((rule course_moves close_course course_ledger still_course still_course_then course hoare_return covers_stopped |
      intro keeps_intros still_intros | assumption | (simp; fail))+)

text \<open>The answer and what follows it leave the registry as the receipt left it.\<close>

lemma keeps_answer [keeps_intros]: "keeps env (id_run i) C M ks (answer_stage env i response_format decision oc cr charged)"
  unfolding answer_stage_def Let_def by (intro keeps_intros)

lemma still_answer [still_intros]: "still (answer_stage env i response_format decision oc cr charged)"
  unfolding answer_stage_def Let_def by (intro still_intros)

lemma built_call_other [simp]: "built_call env (Spend t c r)" "built_call env (Webhook n p)" "built_call env (Alert k l m d)"
  by (simp_all add: built_call_def)

lemma keeps_notify [keeps_intros]:
  "keeps env run (built_call env) M ks (webhookP env event payload)"
  "keeps env run (built_call env) M ks (alertP env kind severity message details)"
  unfolding webhookP_def alertP_def by (cases "pe_webhooks env"; cases "pe_alerts env"; simp; intro keeps_intros; simp)+

lemma still_notify [still_intros]: "still (webhookP env event payload)" "still (alertP env kind severity message details)"
  unfolding webhookP_def alertP_def by (intro still_intros)+

lemma keeps_finish [keeps_intros]: "keeps env (id_run i) (built_call env) M ks (finish_stage env i tenant oc answer)"
  unfolding finish_stage_def Let_def by (intro keeps_intros) simp_all

lemma still_finish [still_intros]: "still (finish_stage env i tenant oc answer)"
  unfolding finish_stage_def Let_def by (intro still_intros)

section \<open>A whole request\<close>

text \<open>A gateway between two requests: whatever its registry holds verifies, and the machine has the
  table of the lifecycle.\<close>

definition idle :: "pipe_env \<Rightarrow> pipe_state \<Rightarrow> bool" where
  "idle env s = (registry_ok (pe_sha env) (ps_registry s) \<and> vsm_transitions (ps_machine s) = vsm_transitions lifecycle \<and>
     vsm_initial (ps_machine s) = ''received'' \<and> ps_calls s = [])"

lemma begun_run: "registry_ok sha g \<Longrightarrow> map_of (rg_runs (fst (begin_registry g run trace))) run = Some (snd (begin_registry g run trace))"
proof -
  assume ok: "registry_ok sha g"
  let ?rr = "snd (begin_registry g run trace)"
  let ?n = "length (dset run ?rr (rg_runs g)) - nat (rg_max g)"
  have "map_of (drop ?n (dset run ?rr (rg_runs g))) run = Some ?rr"
  proof (cases "dhas (rg_runs g) run")
    case True
    then have "?n = 0" using ok by (simp add: registry_ok_def length_dset le_nat_iff)
    then show ?thesis by simp
  next
    case False
    then have "dset run ?rr (rg_runs g) = rg_runs g @ [(run, ?rr)]" by (simp add: dset_new dhas_def)
    moreover have "?n \<le> length (rg_runs g)" using ok by (simp add: registry_ok_def length_dset) linarith
    moreover have "run \<notin> fst ` set (drop ?n (rg_runs g))" using False set_drop_subset[of ?n "rg_runs g"] by (force simp: dhas_def map_of_eq_None_iff)
    ultimately show ?thesis by (simp add: map_add_def map_of_eq_None_iff[THEN iffD2])
  qed
  then show ?thesis using begin_runs[OF ok] by simp
qed

lemma begin_stage_run:
  assumes "registry_ok (pe_sha env) (ps_registry s)" "begin_stage env tenant s = (s', r)"
  defines "run \<equiv> ''run-'' @ pe_uuid env (ps_tick s) 0" and "trace \<equiv> ''trace-'' @ pe_uuid env (Suc (ps_tick s)) 0"
  shows "r = Inr \<lparr>id_run = run, id_trace = trace, id_subject = ''task-'' @ pe_uuid env (Suc (Suc (ps_tick s))) 0\<rparr>"
    and "s' = s\<lparr>ps_tick := Suc (Suc (Suc (ps_tick s))),
      ps_registry := put_run (fst (begin_registry (ps_registry s) run trace)) run ((snd (begin_registry (ps_registry s) run trace))\<lparr>rr_tenant_id := tenant\<rparr>),
      ps_machine := fst (begin_run (ps_machine s) run)\<rparr>"
  using assms(2) begun_run[OF assms(1), of run trace]
  by (simp_all add: begin_stage_def bindP_def tickP_def thenP_def modifyP_def set_recordP_def recordP_def liftP_def returnP_def
      require_run_def run_def trace_def)

lemma begin_course:
  assumes "idle env s" "begin_stage env tenant s = (s', r)"
  shows "\<exists>i. r = Inr i \<and> id_run i = ''run-'' @ pe_uuid env (ps_tick s) 0 \<and> stands env (id_run i) no_upstream ''received'' [] s'"
proof -
  let ?run = "''run-'' @ pe_uuid env (ps_tick s) 0"
  let ?trace = "''trace-'' @ pe_uuid env (Suc (ps_tick s)) 0"
  let ?g = "fst (begin_registry (ps_registry s) ?run ?trace)"
  let ?rr = "snd (begin_registry (ps_registry s) ?run ?trace)"
  have ok: "registry_ok (pe_sha env) (ps_registry s)" using assms(1) by (simp add: idle_def)
  note rr = begun_run[OF ok, of ?run ?trace]
  have v: "registry_ok (pe_sha env) ?g" by (rule registry_ok_begin[OF ok])
  have "run_verified (pe_sha env) ?rr" using v rr unfolding registry_ok_def by blast
  then have "run_change (pe_sha env) ?rr (?rr\<lparr>rr_tenant_id := tenant\<rparr>)" by (rule quiet_change[OF quiet_updates(1)])
  then have "registry_ok (pe_sha env) (put_run ?g ?run (?rr\<lparr>rr_tenant_id := tenant\<rparr>))" using registry_ok_put[OF v rr] by blast
  then have "stands env ?run no_upstream ''received'' [] s'"
    using assms(1) by (simp add: begin_stage_run(2)[OF ok assms(2)] good_def in_state_def idle_def begin_run_def run_state_def)
  then show ?thesis using begin_stage_run(1)[OF ok assms(2)] by simp
qed

lemma hoare_pure: "(A \<Longrightarrow> hoareP P m Q E) \<Longrightarrow> hoareP (\<lambda>s. P s \<and> A) m Q E"
  by (auto simp: hoareP_def)

lemmas course_first = course_ledger[where ks = "[]", simplified]

lemma course_governance: "(\<And>x. hoareP (stands env (id_run i) no_upstream ''received'' [''request_received'']) (f x) Q (stopped env (id_run i))) \<Longrightarrow>
    hoareP (stands env (id_run i) no_upstream ''received'' [''request_received'']) (bindP (governance_stage env i) f) Q (stopped env (id_run i))"
  by (rule hoare_bind[OF governance_course])

lemma course_stages:
  "(\<And>x. hoareP (stands env (id_run i) no_upstream ''policy_checked'' checked_events) (f x) Q (stopped env (id_run i))) \<Longrightarrow>
    hoareP (stands env (id_run i) no_upstream ''received'' [''request_received'']) (bindP (contract_stage env i merged) f) Q (stopped env (id_run i))"
  "hoareP (stands env (id_run i) no_upstream ''context_compiled'' (checked_events @ [''context_compiled''])) k Q (stopped env (id_run i)) \<Longrightarrow>
    hoareP (stands env (id_run i) no_upstream ''policy_checked'' checked_events) (thenP (context_stage env i contract) k) Q (stopped env (id_run i))"
  "(\<And>x. hoareP (stands env (id_run i) no_upstream ''context_compiled'' context_events) (g x) Q (stopped env (id_run i))) \<Longrightarrow>
    hoareP (stands env (id_run i) no_upstream ''context_compiled'' (checked_events @ [''context_compiled''])) (bindP (compression_stage env i) g) Q (stopped env (id_run i))"
  "(\<And>x. hoareP (stands env (id_run i) no_upstream ''routed'' (context_events @ [''route_selected''])) (h x) Q (stopped env (id_run i))) \<Longrightarrow>
    hoareP (stands env (id_run i) no_upstream ''context_compiled'' context_events) (bindP (route_stage env i contract policy portfolio canary) h) Q (stopped env (id_run i))"
  "hoareP (stands env (id_run i) no_upstream ''executing'' (context_events @ [''route_selected'', ''action_started''])) k Q (stopped env (id_run i)) \<Longrightarrow>
    hoareP (stands env (id_run i) no_upstream ''routed'' (context_events @ [''route_selected''])) (thenP (start_stage env i contract decision) k) Q (stopped env (id_run i))"
  by (rule hoare_bind[OF contract_course] hoare_then[OF context_course] hoare_bind[OF compression_course] hoare_bind[OF route_course]
      hoare_then[OF start_course]; assumption)+

text \<open>From the execution to the answer.\<close>

lemma outcome_course:
  assumes "checked oc"
  shows "hoareP (stands env (id_run i) (built_call env) ''verifying'' executed)
    (if \<not> (oc_criteria_pass oc \<and> oc_dag_passed oc) then fail_stage env i decision risk policy oc else
     bindP (accept_stage env i decision risk policy oc) (\<lambda>charged.
     bindP (answer_stage env i response_format decision oc cr charged) (\<lambda>answer.
     thenP (finish_stage env i tenant oc answer) (returnP answer))))
    (\<lambda>_. answered env (id_run i)) (stopped env (id_run i))"
proof (rule hoare_if[OF fail_course], rule hoare_bind[OF accept_course])
  fix charged
  assume "\<not> \<not> (oc_criteria_pass oc \<and> oc_dag_passed oc)"
  then have pass: "mandatory_pass (oc_results oc)" using assms by (simp add: checked_def)
  show "hoareP (\<lambda>s. stands env (id_run i) (built_call env) ''completed'' (executed @ [''verification_completed'', ''outcome_accepted'']) s \<and>
       receipted (id_run i) ''outcome_accepted'' ''accepted'' (oc_results oc) (ps_registry s))
     (bindP (answer_stage env i response_format decision oc cr charged) (\<lambda>answer. thenP (finish_stage env i tenant oc answer) (returnP answer)))
     (\<lambda>_. answered env (id_run i)) (stopped env (id_run i))"
    by ((rule still_course still_course_then covers_stopped | intro keeps_intros still_intros)+, rule hoare_return)
      (use pass in \<open>auto simp: answered_def\<close>)
qed

lemma execution_course:
  "hoareP (stands env (id_run i) no_upstream ''executing'' (context_events @ [''route_selected'', ''action_started'']))
    (bindP (execute_and_verify env (id_run i) (id_subject i) decision contract risk policy True) (\<lambda>first.
     bindP (retry_stage env i prefer contract risk first) (\<lambda>oc.
     if \<not> (oc_criteria_pass oc \<and> oc_dag_passed oc) then fail_stage env i decision risk policy oc else
     bindP (accept_stage env i decision risk policy oc) (\<lambda>charged.
     bindP (answer_stage env i response_format decision oc cr charged) (\<lambda>answer.
     thenP (finish_stage env i tenant oc answer) (returnP answer))))))
    (\<lambda>_. answered env (id_run i)) (stopped env (id_run i))"
proof (rule hoare_bind)
  have "hoareP (stands env (id_run i) (built_call env) ''executing'' (context_events @ [''route_selected'', ''action_started'']))
      (execute_and_verify env (id_run i) (id_subject i) decision contract risk policy True)
      (\<lambda>oc s. stands env (id_run i) (built_call env) ''verifying'' ((context_events @ [''route_selected'', ''action_started'']) @ [''action_completed'', ''evidence_recorded'']) s \<and> checked oc)
      (stopped env (id_run i))"
    by (rule execute_course) (simp_all add: keeps_advanced)
  then show "hoareP (stands env (id_run i) no_upstream ''executing'' (context_events @ [''route_selected'', ''action_started'']))
      (execute_and_verify env (id_run i) (id_subject i) decision contract risk policy True)
      (\<lambda>oc s. stands env (id_run i) (built_call env) ''verifying'' executed s \<and> checked oc) (stopped env (id_run i))"
    by (rule hoare_weaken) (auto simp: executed_def elim: good_mono[OF _ no_upstream_built])
next
  fix first
  show "hoareP (\<lambda>s. stands env (id_run i) (built_call env) ''verifying'' executed s \<and> checked first)
     (bindP (retry_stage env i prefer contract risk first) (\<lambda>oc.
      if \<not> (oc_criteria_pass oc \<and> oc_dag_passed oc) then fail_stage env i decision risk policy oc else
      bindP (accept_stage env i decision risk policy oc) (\<lambda>charged.
      bindP (answer_stage env i response_format decision oc cr charged) (\<lambda>answer.
      thenP (finish_stage env i tenant oc answer) (returnP answer)))))
     (\<lambda>_. answered env (id_run i)) (stopped env (id_run i))"
    by (rule hoare_pure, rule hoare_bind[OF retry_course], assumption, rule hoare_pure, erule outcome_course)
qed

lemma begin_hoare: "hoareP (\<lambda>s. idle env s \<and> ''run-'' @ pe_uuid env (ps_tick s) 0 = run) (begin_stage env tenant)
    (\<lambda>i s. stands env (id_run i) no_upstream ''received'' [] s \<and> id_run i = run) (stopped env run)"
  by (rule hoareI) (use begin_course in \<open>fastforce split: prod.splits sum.splits\<close>)

lemma stages_course:
  "hoareP (\<lambda>s. idle env s \<and> ''run-'' @ pe_uuid env (ps_tick s) 0 = run) (run_stages env response_format tenant) (\<lambda>_. answered env run) (stopped env run)"
  unfolding run_stages_def
  by (rule hoare_bind[OF begin_hoare], rule hoare_pure, hypsubst)
    ((rule execution_course course_first course_governance course_stages course covers_stopped | intro keeps_intros | (simp; fail))+)

text \<open>The cache is looked up before a run begins: a request it answers touches nothing else.\<close>

definition untouched :: "pipe_state \<Rightarrow> pipe_state \<Rightarrow> bool" where
  "untouched s s' = (ps_registry s' = ps_registry s \<and> ps_machine s' = ps_machine s \<and> ps_calls s' = ps_calls s \<and> ps_request s' = ps_request s)"

lemma untouched_same [simp]: "untouched s s" "untouched s s1 \<Longrightarrow> untouched s (s1\<lparr>ps_tick := n\<rparr>)" "untouched s s1 \<Longrightarrow> untouched s (s1\<lparr>ps_cache := c\<rparr>)"
  by (simp_all add: untouched_def)

lemma untouched_idle: "untouched s s' \<Longrightarrow> idle env s \<Longrightarrow> idle env s'"
  by (simp add: untouched_def idle_def)

lemma hoare_option: "hoareP P m Q E \<Longrightarrow> (\<And>x. hoareP P (k x) Q E) \<Longrightarrow> hoareP P (case v of None \<Rightarrow> m | Some x \<Rightarrow> k x) Q E"
  by (cases v) simp_all

lemma cached_answer_untouched: "hoareP (untouched s) (cached_answer env) (\<lambda>_. untouched s) (\<lambda>e s'. untouched s s' \<and> is_raised e)"
  unfolding cached_answer_def
  by ((rule hoare_bind[where R = "\<lambda>_. untouched s"] hoare_then[where R = "untouched s"] hoare_get hoare_tick hoare_lift hoare_modify hoare_return course_prod hoare_option |
      (simp; fail))+)

lemma request_cases:
  assumes "run_inference_pipeline env response_format s = (s', r)"
  obtains (raised) e where "r = Inl (Raised e)" "untouched s s'"
  | (killed) tenant body where "kill_switch_on env (ps_request s) = Inr (True, tenant)" "r = Inl (HttpError 503 body)" "s' = s"
  | (hit) answer where "cached_answer env s = (s', Inr (Some answer))" "r = Inr answer" "untouched s s'"
  | (stages) tenant s1 where "kill_switch_on env (ps_request s) = Inr (False, tenant)" "untouched s s1" "run_stages env response_format tenant s1 = (s', r)"
proof (cases "kill_switch_on env (ps_request s)")
  case (Inl e)
  then have "r = Inl (Raised e)" "s' = s" using assms by (simp_all add: run_inference_pipeline_def bindP_def getP_def liftP_def)
  then show ?thesis using raised by simp
next
  case (Inr p)
  obtain on tenant where p: "p = (on, tenant)" by fastforce
  note unfold = run_inference_pipeline_def bindP_def getP_def liftP_def Inr p
  show ?thesis
  proof (cases on)
    case True
    have "\<exists>body. r = Inl (HttpError 503 body) \<and> s' = s" using assms True by (auto simp: unfold raiseP_def)
    then obtain body where "r = Inl (HttpError 503 body)" "s' = s" by blast
    then show ?thesis using killed[of tenant body] Inr p True by simp
  next
    case False
    obtain s1 c where c: "cached_answer env s = (s1, c)" by fastforce
    have u: "case c of Inl e \<Rightarrow> untouched s s1 \<and> is_raised e | Inr _ \<Rightarrow> untouched s s1"
      using hoareD[OF cached_answer_untouched _ c] untouched_same(1) by blast
    show ?thesis
    proof (cases c)
      case (Inl e)
      then have "r = Inl e" "s' = s1" using assms False by (simp_all add: unfold c)
      then show ?thesis using raised u by (auto simp: \<open>c = Inl e\<close> is_raised_def)
    next
      case found: (Inr answer)
      show ?thesis
      proof (cases answer)
        case None
        then have "run_stages env response_format tenant s1 = (s', r)" using assms False found by (simp add: unfold c)
        then show ?thesis using stages Inr p False u found by simp
      next
        case (Some a)
        then have "r = Inr a" "s' = s1" using assms False found by (simp_all add: unfold c returnP_def)
        then show ?thesis using hit c u found Some by simp
      qed
    qed
  qed
qed

lemma stages_account:
  assumes "idle env s" "run_stages env response_format tenant s = (s', r)"
  shows "case r of Inr _ \<Rightarrow> answered env (''run-'' @ pe_uuid env (ps_tick s) 0) s' | Inl e \<Rightarrow> stopped env (''run-'' @ pe_uuid env (ps_tick s) 0) e s'"
  using hoareD[OF stages_course _ assms(2)] assms(1) by blast

section \<open>Properties\<close>

text \<open>
  C1. Every request is accounted for. An answer comes from the cache, which leaves the runs as they
  were, or from a run whose ledger verifies and has the events of a whole request in their order,
  from its receipt to the accepted outcome, which is its last event; its receipt is accepted and
  bound to that event, the mandatory criteria of the results in it pass, and its state is
  completed. A request that is refused names the reason: 503 changes nothing, 422 and 424 leave a run
  for which nothing was sent to a model, 424 and 500 a rejected run whose last event is the rejected
  outcome and whose receipt, escalated, is bound to it. After any other exception the registry still
  verifies.
\<close>

theorem every_request_is_accounted_for:
  assumes "idle env s" "run_inference_pipeline env response_format s = (s', r)"
  shows "untouched s s' \<and> (case r of Inr answer \<Rightarrow> cached_answer env s = (s', Inr (Some answer))
      | Inl (HttpError code _) \<Rightarrow> code = 503 | Inl (Raised _) \<Rightarrow> True) \<or>
    (\<exists>t. case r of Inr _ \<Rightarrow> answered env (''run-'' @ pe_uuid env t 0) s' | Inl e \<Rightarrow> stopped env (''run-'' @ pe_uuid env t 0) e s')"
  using assms(2)
proof (cases rule: request_cases)
  case (stages tenant s1)
  then show ?thesis using stages_account[OF untouched_idle[OF _ assms(1)] stages(3)] by blast
qed auto

lemma refused_by_switch:
  assumes "idle env s"
  shows "((\<exists>tenant. kill_switch_on env (ps_request s) = Inr (True, tenant)) \<longleftrightarrow>
       (\<exists>body. run_inference_pipeline env response_format s = (s, Inl (HttpError 503 body)))) \<and>
    (\<forall>s' body. run_inference_pipeline env response_format s = (s', Inl (HttpError 503 body)) \<longrightarrow> s' = s)"
proof -
  have refused: "(\<exists>tenant. kill_switch_on env (ps_request s) = Inr (True, tenant)) \<and> s' = s"
    if "run_inference_pipeline env response_format s = (s', Inl (HttpError 503 body))" for s' body
    using that
  proof (cases rule: request_cases)
    case (stages tenant s1)
    then show ?thesis using stages_account[OF untouched_idle[OF _ assms] stages(3)] by (simp add: stopped_def)
  qed auto
  moreover have "\<exists>body. run_inference_pipeline env response_format s = (s, Inl (HttpError 503 body))"
    if "kill_switch_on env (ps_request s) = Inr (True, tenant)" for tenant
    using that by (auto simp: run_inference_pipeline_def bindP_def getP_def liftP_def raiseP_def)
  ultimately show ?thesis by blast
qed


text \<open>The model of a payload that is built for a plan is one the policy permits.\<close>

definition permitted_model :: "pyval \<Rightarrow> pyval \<Rightarrow> bool" where
  "permitted_model policy model = (truthy model \<and> (\<exists>inference ids prefixes. py_get policy ''inference'' (PDict []) = Inr inference \<and>
     lower_items inference ''forbidden_model_ids'' = Inr ids \<and> lower_items inference ''forbidden_model_prefixes'' = Inr prefixes \<and>
     \<not> denied_model ids prefixes (lower (py_str model))))"

lemma build_chat_permitted:
  assumes "build_chat_payload plan request policy = Inr payload"
  shows "\<exists>model. map_of payload ''model'' = Some model \<and> permitted_model policy model"
proof -
  obtain model inference ids prefixes p messages before routing where m:
    "truthy model" "py_get policy ''inference'' (PDict []) = Inr inference"
    "lower_items inference ''forbidden_model_ids'' = Inr ids" "lower_items inference ''forbidden_model_prefixes'' = Inr prefixes"
    "\<not> denied_model ids prefixes (lower (py_str model))"
    and b: "foldE (copy_field (or_dict p)) [(''model'', model), (''messages'', messages)] passthrough_fields = Inr before"
    and r: "payload = dset ''provider'' routing before"
    using assms by (auto simp: build_chat_payload_def bindE_eq_Inr split: if_splits)
  have "map_of payload ''model'' = Some model" using copy_fields_keep[OF b, of "''model''"] by (simp add: r passthrough_fields_def)
  then show ?thesis using m unfolding permitted_model_def by blast
qed

lemma built_permitted: "built_payload env payload \<Longrightarrow> \<exists>model. map_of payload ''model'' = Some model \<and> permitted_model (pe_policy env) model"
  by (auto simp: built_payload_def build_phase1_payload_def build_phase2_payload_def bindE_eq_Inr dest: build_chat_permitted)

lemma stopped_calls: "stopped env run e s \<Longrightarrow> list_all (built_call env) (ps_calls s)"
  by (auto simp: stopped_def good_def elim: list.pred_mono_strong no_upstream_built split: pipe_exc.splits)

text \<open>
  C2. Nothing is sent to a forbidden model. Whatever the request passes through, however the run ends
  and whichever fallbacks it takes, every call to a transport names a model explicitly, and one that
  is neither a forbidden id of the policy nor under one of its forbidden prefixes.
\<close>

theorem only_permitted_models_are_called:
  assumes "idle env s" "run_inference_pipeline env response_format s = (s', r)"
  shows "{payload. \<exists>local. Upstream local payload \<in> set (ps_calls s')} \<subseteq>
    {payload. \<exists>model. map_of payload ''model'' = Some model \<and> permitted_model (pe_policy env) model}"
proof -
  have "list_all (built_call env) (ps_calls s')"
    using assms(2)
  proof (cases rule: request_cases)
    case (stages tenant s1)
    show ?thesis
    proof (cases r)
      case (Inl e)
      then show ?thesis using stages_account[OF untouched_idle[OF stages(2) assms(1)] stages(3)] stopped_calls by auto
    next
      case (Inr answer)
      then show ?thesis using stages_account[OF untouched_idle[OF stages(2) assms(1)] stages(3)] by (simp add: answered_def good_def)
    qed
  qed (use assms(1) in \<open>auto simp: untouched_def idle_def\<close>)
  then have "built_payload env payload" if "Upstream local payload \<in> set (ps_calls s')" for local payload
    using that by (auto simp: list_all_iff built_call_def)
  then show ?thesis using built_permitted by blast
qed

section \<open>The canary gate on routes\<close>

text \<open>
  \<^verbatim>\<open>EPR-ROUTE-006\<close> is to keep production traffic from experimental models. The plan the gate looks at is
  the one the kernel built, and that carries no key for it; were the gate to fire, the event it
  fires is illegal for a routed run.
\<close>

lemma experimental_gate_is_open:
  "status d = ''route_selected'' \<Longrightarrow> py_index (decision_to_py d) ''selected_plan'' = Inr plan \<Longrightarrow> plan_requires_canary plan = Inr False"
  by (auto simp: decision_to_py_def plan_to_py_def verifier_items_def plan_requires_canary_def py_index_def py_get_def
      split: option.splits)

lemma experimental_never_refused:
  assumes "idle env s" "run_inference_pipeline env response_format s = (s', Inl (HttpError code body))"
  shows "code \<in> {422, 424, 500, 503}"
  using assms(2)
proof (cases rule: request_cases)
  case (stages tenant s1)
  then show ?thesis using stages_account[OF untouched_idle[OF _ assms(1)] stages(3)] by (auto simp: stopped_def)
qed auto

section \<open>Witnesses\<close>

text \<open>A gateway with an empty registry whose configured cost limit is not a number.\<close>

definition unlimited_env :: pipe_env where
  "unlimited_env = \<lparr>pe_sha = (\<lambda>_. ''h''), pe_uuid = (\<lambda>t _. CHR ''u'' # replicate t (CHR ''1'')), pe_now = (\<lambda>_ _. ''now''), pe_seconds = (\<lambda>_. 0),
     pe_clock = (\<lambda>_. Fin 0), pe_policy = PDict [(''version'', PStr ''1'')], pe_portfolio = [], pe_config = None, pe_manifest = PDict [],
     pe_max_cost = PNone, pe_max_latency = PInt 1000, pe_base_url = [], pe_prefer_local = False,
     pe_cloud = (\<lambda>_ _. Inl (UpstreamError ''down'')), pe_local = None,
     pe_compress = (\<lambda>ms. Inr \<lparr>cr_messages = ms, cr_original = 0, cr_compressed = 0, cr_ratio = Fin 0, cr_strategy = ''none'',
        cr_duration = Fin 0, cr_saved = 0, cr_skipped = True\<rparr>),
     pe_spend = None, pe_webhooks = None, pe_alerts = None\<rparr>"

definition first_state :: pipe_state where
  "first_state = \<lparr>ps_registry = \<lparr>rg_runs = [], rg_max = 1\<rparr>, ps_machine = lifecycle, ps_escalation = None, ps_cache = None,
     ps_request = [(''model'', PStr ''m''), (''messages'', PList [PDict [(''role'', PStr ''user''), (''content'', PStr ''hi'')]])],
     ps_calls = [], ps_tick = 0\<rparr>"

definition switched_env :: pipe_env where
  "switched_env = unlimited_env\<lparr>pe_config := Some (\<lambda>key. if key = ''kill_switch.tenant:default'' then Some (PStr ''ON'') else None)\<rparr>"

lemma first_idle: "idle env first_state"
  by (simp add: idle_def first_state_def registry_ok_def)

definition http_code :: "pipe_exc + 'a \<Rightarrow> int option" where
  "http_code r = (case r of Inl (HttpError code _) \<Rightarrow> Some code | _ \<Rightarrow> None)"

lemma refused_sample: "http_code (snd (run_inference_pipeline unlimited_env ''chat'' first_state)) = Some 422"
  by code_simp

theorem every_request_is_accounted_for_witness:
  "\<exists>s' body t. run_inference_pipeline unlimited_env ''chat'' first_state = (s', Inl (HttpError 422 body)) \<and>
     stopped unlimited_env (''run-'' @ pe_uuid unlimited_env t 0) (HttpError 422 body) s'"
proof -
  obtain s' r where r: "run_inference_pipeline unlimited_env ''chat'' first_state = (s', r)" by fastforce
  then obtain body where "r = Inl (HttpError 422 body)"
    using refused_sample by (auto simp: http_code_def split: sum.splits pipe_exc.splits)
  then show ?thesis using every_request_is_accounted_for[OF first_idle r] r by auto
qed


theorem only_permitted_models_are_called_witness:
  "\<exists>s' r. run_inference_pipeline unlimited_env ''chat'' first_state = (s', r) \<and> {payload. \<exists>local. Upstream local payload \<in> set (ps_calls s')} \<subseteq>
    {payload. \<exists>model. map_of payload ''model'' = Some model \<and> permitted_model (pe_policy unlimited_env) model}"
proof -
  obtain s' r where r: "run_inference_pipeline unlimited_env ''chat'' first_state = (s', r)" by fastforce
  from only_permitted_models_are_called[OF first_idle r] r show ?thesis by blast
qed

end
