(* ===== verification/Admin_Store.thy ===== *)
theory Admin_Store
  imports Run_Store
begin

text \<open>
  The administrative tables of \<^verbatim>\<open>reference/gateway/database.py\<close>, the audit log, the benchmark results
  and the persistent configuration, with their clients \<^verbatim>\<open>audit.py\<close> and \<^verbatim>\<open>config_manager.py\<close>. Tables
  are lists of rows as in \<open>Run_Store\<close>; UUIDs and clocks are arguments.
\<close>

section \<open>The audit log\<close>

definition opt_str :: "string option \<Rightarrow> pyval" where
  "opt_str s = (case s of None \<Rightarrow> PNone | Some t \<Rightarrow> PStr t)"

definition record_audit ::
  "string \<Rightarrow> string \<Rightarrow> row list \<Rightarrow> string \<Rightarrow> string \<Rightarrow> string option \<Rightarrow> string option \<Rightarrow> string option \<Rightarrow> pydict option \<Rightarrow> bool \<Rightarrow>
    (row list \<times> string) res" where
  "record_audit uuid now trail actor_id action resource_type resource_id ip_address details success =
     (let audit_id = ''audit-'' @ uuid;
          r = [(''audit_id'', PStr audit_id), (''timestamp'', PStr now), (''actor_id'', PStr actor_id), (''action'', PStr action),
            (''resource_type'', opt_str resource_type), (''resource_id'', opt_str resource_id), (''ip_address'', opt_str ip_address),
            (''details'', case details of None \<Rightarrow> PNone | Some d \<Rightarrow> if d = [] then PNone else PStr (dumps True (PDict d))),
            (''success'', PInt (if success then 1 else 0))] in
      if has_key ''audit_id'' (PStr audit_id) trail then Inl (DbError ''UNIQUE constraint failed: audit_log.audit_id'')
      else Inr (trail @ [r], audit_id))"

definition query_audit_log ::
  "row list \<Rightarrow> string option \<Rightarrow> string option \<Rightarrow> string option \<Rightarrow> string option \<Rightarrow> int \<Rightarrow> int \<Rightarrow> row list" where
  "query_audit_log trail actor_id action from_ts to_ts limit offset =
     sql_limit limit offset (rev (sort_key (\<lambda>r. text_of r ''timestamp'') (filter (\<lambda>r.
       wanted actor_id (\<lambda>s r. dget r ''actor_id'' = PStr s) r \<and> wanted action (\<lambda>s r. dget r ''action'' = PStr s) r \<and>
       wanted from_ts (\<lambda>s r. s \<le> text_of r ''timestamp'') r \<and> wanted to_ts (\<lambda>s r. text_of r ''timestamp'' \<le> s) r) trail)))"

text \<open>The audit logger. \<^verbatim>\<open>query\<close> takes a resource type and does not pass it on.\<close>

definition log_api_call ::
  "string \<Rightarrow> string \<Rightarrow> row list \<Rightarrow> string \<Rightarrow> string \<Rightarrow> string option \<Rightarrow> string option \<Rightarrow> string option \<Rightarrow> pydict option \<Rightarrow> bool \<Rightarrow>
    (row list \<times> string) res" where
  "log_api_call uuid now trail actor_id action resource_type resource_id ip_address details success =
     record_audit uuid now trail actor_id action resource_type resource_id ip_address details success"

definition query_audit ::
  "row list \<Rightarrow> string option \<Rightarrow> string option \<Rightarrow> string option \<Rightarrow> string option \<Rightarrow> string option \<Rightarrow> int \<Rightarrow> int \<Rightarrow> row list" where
  "query_audit trail actor_id action from_ts to_ts resource_type limit offset =
     query_audit_log trail actor_id action from_ts to_ts limit offset"

definition get_actor_activity :: "row list \<Rightarrow> string \<Rightarrow> string option \<Rightarrow> int \<Rightarrow> row list" where
  "get_actor_activity trail actor_id from_ts limit = query_audit_log trail (Some actor_id) None from_ts None limit 0"

text \<open>\<^verbatim>\<open>xs[:n]\<close>.\<close>

definition slice_to :: "int \<Rightarrow> 'a list \<Rightarrow> 'a list" where
  "slice_to n xs = (if n < 0 then take (length xs - nat (- n)) xs else take (nat n) xs)"

definition get_resource_history :: "row list \<Rightarrow> string \<Rightarrow> string \<Rightarrow> int \<Rightarrow> row list" where
  "get_resource_history trail resource_type resource_id limit =
     slice_to limit (filter (\<lambda>e. dget e ''resource_type'' = PStr resource_type \<and> dget e ''resource_id'' = PStr resource_id)
       (query_audit_log trail None None None None (limit * 2) 0))"

definition tally :: "pyval \<Rightarrow> (pyval, int) dict \<Rightarrow> (pyval, int) dict" where
  "tally k d = dset k ((case map_of d k of None \<Rightarrow> 0 | Some n \<Rightarrow> n) + 1) d"

definition actor_counts :: "row list \<Rightarrow> (pyval, int) dict" where
  "actor_counts entries = fold (\<lambda>e. tally (dget e ''actor_id'')) entries []"

definition actor_failures :: "row list \<Rightarrow> (pyval, int) dict" where
  "actor_failures entries = fold (\<lambda>e. if truthy (dget e ''success'') then id else tally (dget e ''actor_id'')) entries []"

definition detect_audit_anomalies :: "row list \<Rightarrow> int \<Rightarrow> pyval list" where
  "detect_audit_anomalies trail window_minutes =
     (let entries = query_audit_log trail None None None None 1000 0; counts = actor_counts entries in
      [PDict [(''type'', PStr ''high_volume''), (''actor_id'', actor), (''request_count'', PInt n), (''window_minutes'', PInt window_minutes)].
         (actor, n) \<leftarrow> counts, 50 < n] @
      [PDict [(''type'', PStr ''high_failure_rate''), (''actor_id'', actor), (''failure_count'', PInt n),
          (''total_requests'', PInt (case map_of counts actor of None \<Rightarrow> 0 | Some m \<Rightarrow> m))].
         (actor, n) \<leftarrow> actor_failures entries, 10 < n])"

section \<open>Benchmark results\<close>

definition save_benchmark_result :: "string \<Rightarrow> string \<Rightarrow> row list \<Rightarrow> pydict \<Rightarrow> (row list \<times> pyval) res" where
  "save_benchmark_result uuid now results d =
     (let result_id = dict_get d ''result_id'' (PStr (''bm-'' @ uuid)) in
      bindE (bind_row
        [(''result_id'', result_id), (''cohort_name'', dict_get d ''cohort_name'' (PStr [])), (''model_id'', dict_get d ''model_id'' PNone),
         (''timestamp'', dict_get d ''timestamp'' (PStr now)), (''accuracy'', dict_get d ''accuracy'' PNone),
         (''total_tokens'', dict_get d ''total_tokens'' PNone), (''total_cost_usd'', dict_get d ''total_cost_usd'' PNone),
         (''mean_latency_ms'', dict_get d ''mean_latency_ms'' PNone), (''p95_latency_ms'', dict_get d ''p95_latency_ms'' PNone),
         (''hir'', dict_get d ''hir'' PNone), (''rr'', dict_get d ''rr'' PNone), (''escalation_rate'', dict_get d ''escalation_rate'' PNone),
         (''results'', json_column d ''results'')]) (\<lambda>r.
      if \<not> not_null [''cohort_name'', ''timestamp''] r then Inl (DbError ''NOT NULL constraint failed'')
      else Inr (insert_or_replace ''result_id'' r results, result_id)))"

definition get_benchmark_results :: "row list \<Rightarrow> string option \<Rightarrow> string option \<Rightarrow> int \<Rightarrow> int \<Rightarrow> row list" where
  "get_benchmark_results results cohort_name model limit offset =
     sql_limit limit offset (rev (sort_key (\<lambda>r. text_of r ''timestamp'') (filter (\<lambda>r.
       wanted cohort_name (\<lambda>s r. dget r ''cohort_name'' = PStr s) r \<and> wanted model (\<lambda>s r. dget r ''model_id'' = PStr s) r) results)))"

section \<open>The configuration\<close>

definition set_config :: "string \<Rightarrow> row list \<Rightarrow> string \<Rightarrow> pyval \<Rightarrow> string \<Rightarrow> row list" where
  "set_config now config key value updated_by = insert_or_replace ''key''
     [(''key'', PStr key), (''value'', PStr (dumps True value)), (''updated_at'', PStr now), (''updated_by'', PStr updated_by)] config"

definition parse_raw :: "pyval \<Rightarrow> pyval" where
  "parse_raw raw = (case raw of PStr s \<Rightarrow> (case json_loads s of Inr v \<Rightarrow> v | Inl _ \<Rightarrow> raw) | _ \<Rightarrow> raw)"

definition get_config :: "row list \<Rightarrow> string \<Rightarrow> pyval" where
  "get_config config key = (case find (\<lambda>r. dget r ''key'' = PStr key) config of
     None \<Rightarrow> PNone
   | Some r \<Rightarrow> if dget r ''value'' = PNone then PNone else parse_raw (dget r ''value''))"

definition get_all_config :: "row list \<Rightarrow> (string, pyval) dict" where
  "get_all_config config =
     fold (\<lambda>r. dset (text_of r ''key'') (if truthy (dget r ''value'') then parse_raw (dget r ''value'') else PNone)) config []"

text \<open>
  The manager reads through a cache and tells its listeners of changes. A listener that raises is
  ignored, so what it is told is all there is to say of it: \<open>cm_told\<close> has the calls in order.
\<close>

record config_manager =
  cm_db :: "row list"
  cm_cache :: "(string, pyval) dict"
  cm_listeners :: nat
  cm_told :: "(nat \<times> string \<times> pyval) list"

definition open_config :: "row list \<Rightarrow> config_manager" where
  "open_config config = \<lparr>cm_db = config, cm_cache = [], cm_listeners = 0, cm_told = []\<rparr>"

definition cm_get :: "config_manager \<Rightarrow> string \<Rightarrow> pyval \<Rightarrow> config_manager \<times> pyval" where
  "cm_get cm key fallback = (case map_of (cm_cache cm) key of
     Some v \<Rightarrow> (cm, v)
   | None \<Rightarrow> let value = get_config (cm_db cm) key in
       if value = PNone then (cm, fallback) else (cm\<lparr>cm_cache := dset key value (cm_cache cm)\<rparr>, value))"

definition notify_listeners :: "config_manager \<Rightarrow> string \<Rightarrow> pyval \<Rightarrow> config_manager" where
  "notify_listeners cm key value = cm\<lparr>cm_told := cm_told cm @ map (\<lambda>i. (i, key, value)) [0..<cm_listeners cm]\<rparr>"

definition cm_set :: "string \<Rightarrow> config_manager \<Rightarrow> string \<Rightarrow> pyval \<Rightarrow> string \<Rightarrow> config_manager" where
  "cm_set now cm key value updated_by =
     notify_listeners (cm\<lparr>cm_db := set_config now (cm_db cm) key value updated_by, cm_cache := dset key value (cm_cache cm)\<rparr>) key value"

definition cm_get_all :: "config_manager \<Rightarrow> config_manager \<times> (string, pyval) dict" where
  "cm_get_all cm = (let c = dupdate (cm_cache cm) (get_all_config (cm_db cm)) in (cm\<lparr>cm_cache := c\<rparr>, c))"

definition register_listener :: "config_manager \<Rightarrow> config_manager" where
  "register_listener cm = cm\<lparr>cm_listeners := Suc (cm_listeners cm)\<rparr>"

definition hot_reload :: "config_manager \<Rightarrow> config_manager \<times> (string, pyval) dict" where
  "hot_reload cm =
     (let config = get_all_config (cm_db cm);
          changed = filter (\<lambda>(k, v). \<not> py_eq (case map_of (cm_cache cm) k of None \<Rightarrow> PNone | Some w \<Rightarrow> w) v) config
      in (fold (\<lambda>(k, v) c. notify_listeners c k v) changed (cm\<lparr>cm_cache := config\<rparr>), config))"

section \<open>What the audit trail leaves out\<close>

definition two_resources :: "row list" where
  "two_resources = [[(''audit_id'', PStr ''a''), (''timestamp'', PStr ''1''), (''resource_type'', PStr ''run''), (''resource_id'', PStr ''r'')],
     [(''audit_id'', PStr ''b''), (''timestamp'', PStr ''2''), (''resource_type'', PStr ''key''), (''resource_id'', PStr ''k'')],
     [(''audit_id'', PStr ''c''), (''timestamp'', PStr ''3''), (''resource_type'', PStr ''key''), (''resource_id'', PStr ''k'')]]"

lemma history_looks_at_newest:
  "get_resource_history two_resources ''run'' ''r'' 1 = [] \<and> length (get_resource_history two_resources ''run'' ''r'' 2) = 1"
  by code_simp

lemma query_ignores_resource_type: "query_audit trail a b f t (Some kind) limit offset = query_audit trail a b f t None limit offset"
  by (simp add: query_audit_def)

text \<open>The anomalies are those of the newest thousand entries, however old: the window is only printed.\<close>

lemma window_only_printed:
  "map (\<lambda>a. attr a ''actor_id'' PNone) (detect_audit_anomalies trail w) = map (\<lambda>a. attr a ''actor_id'' PNone) (detect_audit_anomalies trail w')"
  by (simp add: detect_audit_anomalies_def Let_def attr_def py_get_def map_concat comp_def case_prod_beta if_distrib[of "map _"] cong: if_cong)

section \<open>The configuration is what was last set\<close>

text \<open>Calls of a manager, and restarts: a new manager on the same table.\<close>

datatype config_op = Set_Config string string pyval string | Get_Config string pyval | Get_All | Hot_Reload | Listen | Restart

fun config_step :: "config_manager \<Rightarrow> config_op \<Rightarrow> config_manager" where
  "config_step cm (Set_Config now key value who) = cm_set now cm key value who"
| "config_step cm (Get_Config key fallback) = fst (cm_get cm key fallback)"
| "config_step cm Get_All = fst (cm_get_all cm)"
| "config_step cm Hot_Reload = fst (hot_reload cm)"
| "config_step cm Listen = register_listener cm"
| "config_step cm Restart = open_config (cm_db cm)"

fun set_by :: "config_op \<Rightarrow> string \<Rightarrow> pyval option \<Rightarrow> pyval option" where
  "set_by (Set_Config now key value who) k r = (if k = key then Some value else r)"
| "set_by _ k r = r"

definition last_set :: "config_op list \<Rightarrow> string \<Rightarrow> pyval option" where
  "last_set ops k = fold (\<lambda>op. set_by op k) ops None"

fun settable :: "config_op \<Rightarrow> bool" where
  "settable (Set_Config now key value who) = json_ok value"
| "settable _ = True"

definition or_none :: "pyval option \<Rightarrow> pyval" where
  "or_none v = (case v of None \<Rightarrow> PNone | Some w \<Rightarrow> w)"

text \<open>What a table of settings holds, as a map.\<close>

definition config_ok :: "row list \<Rightarrow> (string \<Rightarrow> pyval option) \<Rightarrow> bool" where
  "config_ok config L = (list_all (\<lambda>r. \<exists>k v. dget r ''key'' = PStr k \<and> dget r ''value'' = PStr (dumps True v) \<and> json_ok v \<and> L k = Some v) config \<and>
     distinct (map (\<lambda>r. dget r ''key'') config) \<and> (\<forall>k. L k \<noteq> None \<longrightarrow> has_key ''key'' (PStr k) config))"

definition manager_ok :: "(string \<Rightarrow> pyval option) \<Rightarrow> config_manager \<Rightarrow> bool" where
  "manager_ok L cm = (config_ok (cm_db cm) L \<and> (\<forall>k v. map_of (cm_cache cm) k = Some v \<longrightarrow> L k = Some v))"

lemma parse_dumps [simp]: "json_ok v \<Longrightarrow> parse_raw (PStr (dumps True v)) = v"
  by (simp add: parse_raw_def loads_dumps)

lemma get_config_ok:
  assumes "config_ok config L" shows "get_config config k = or_none (L k)"
proof (cases "find (\<lambda>r. dget r ''key'' = PStr k) config")
  case None
  then have "\<not> has_key ''key'' (PStr k) config" by (auto simp: has_key_def find_None_iff list_ex_iff)
  then have "L k = None" using assms unfolding config_ok_def by blast
  then show ?thesis by (simp add: get_config_def None or_none_def)
next
  case (Some r)
  then have "r \<in> set config" "dget r ''key'' = PStr k" by (auto dest: find_SomeD)
  then obtain v where "dget r ''value'' = PStr (dumps True v)" "json_ok v" "L k = Some v"
    using assms unfolding config_ok_def list_all_iff by fastforce
  then show ?thesis by (simp add: get_config_def Some or_none_def)
qed

lemma get_all_snoc: "get_all_config (config @ [r]) =
    dset (text_of r ''key'') (if truthy (dget r ''value'') then parse_raw (dget r ''value'') else PNone) (get_all_config config)"
  by (simp add: get_all_config_def)

lemma get_all_rows:
  assumes "list_all (\<lambda>r. \<exists>k v. dget r ''key'' = PStr k \<and> dget r ''value'' = PStr (dumps True v) \<and> json_ok v \<and> L k = Some v) config"
  shows "map_of (get_all_config config) k = (if has_key ''key'' (PStr k) config then L k else None)"
  using assms
proof (induction config rule: rev_induct)
  case (snoc r config)
  then obtain j v where r: "dget r ''key'' = PStr j" "dget r ''value'' = PStr (dumps True v)" "json_ok v" "L j = Some v" by auto
  then have "truthy (dget r ''value'')" using starts_text[of v True "'', ''" "'': ''"] by (simp add: dumps_def starts_def)
  then show ?case using snoc r by (auto simp: get_all_snoc has_key_def text_of_def)
qed (simp add: get_all_config_def has_key_def)

lemma get_all_ok: "config_ok config L \<Longrightarrow> map_of (get_all_config config) = L"
  using get_all_rows[of L config] unfolding config_ok_def by (intro ext) (metis not_None_eq)

lemma dict_ok_all: "dict_ok (get_all_config config)"
  by (induction config rule: rev_induct) (simp_all add: get_all_snoc, simp add: get_all_config_def)

lemma set_config_ok:
  assumes "config_ok config L" "json_ok value"
  shows "config_ok (set_config now config key value who) (L(key \<mapsto> value))"
proof -
  let ?r = "[(''key'', PStr key), (''value'', PStr (dumps True value)), (''updated_at'', PStr now), (''updated_by'', PStr who)]"
  let ?rest = "filter (\<lambda>x. dget x ''key'' \<noteq> PStr key) config"
  have s: "set_config now config key value who = ?rest @ [?r]"
    by (simp add: set_config_def insert_or_replace_def dget_def)
  have r: "dget ?r ''key'' = PStr key" "dget ?r ''value'' = PStr (dumps True value)" by (simp_all add: dget_def)
  have "list_all (\<lambda>r. \<exists>k v. dget r ''key'' = PStr k \<and> dget r ''value'' = PStr (dumps True v) \<and> json_ok v \<and> (L(key \<mapsto> value)) k = Some v) ?rest"
    using assms(1) unfolding config_ok_def list_all_iff by fastforce
  moreover have "distinct (map (\<lambda>r. dget r ''key'') (?rest @ [?r]))"
    using assms(1) r(1) by (auto simp: config_ok_def distinct_map inj_on_def)
  moreover have "has_key ''key'' (PStr k) (?rest @ [?r])" if "(L(key \<mapsto> value)) k \<noteq> None" for k
  proof (cases "k = key")
    case False
    then have "has_key ''key'' (PStr k) config" using that assms(1) by (simp add: config_ok_def)
    then show ?thesis using False by (auto simp: has_key_def list_ex_iff)
  qed (simp add: has_key_def r)
  ultimately show ?thesis using r assms(2) unfolding s config_ok_def by (simp add: list_all_append)
qed

lemma notify_keeps [simp]: "cm_db (notify_listeners cm k v) = cm_db cm" "cm_cache (notify_listeners cm k v) = cm_cache cm"
  by (simp_all add: notify_listeners_def)

lemma notify_all_keeps [simp]: "cm_db (fold (\<lambda>(k, v) c. notify_listeners c k v) changed cm) = cm_db cm \<and>
    cm_cache (fold (\<lambda>(k, v) c. notify_listeners c k v) changed cm) = cm_cache cm"
  by (induction changed arbitrary: cm) auto

lemma config_step_ok:
  assumes "manager_ok L cm" "settable op"
  shows "manager_ok (\<lambda>k. set_by op k (L k)) (config_step cm op)"
proof (cases op)
  case (Set_Config now key v who)
  have "(\<lambda>k. set_by op k (L k)) = L(key \<mapsto> v)" by (auto simp: Set_Config)
  then show ?thesis using assms set_config_ok[of "cm_db cm" L v now key who] by (auto simp: Set_Config manager_ok_def cm_set_def)
next
  case (Get_Config key fallback)
  then show ?thesis using assms get_config_ok[of "cm_db cm" L key]
    by (auto simp: manager_ok_def cm_get_def Let_def or_none_def split: option.splits)
next
  case Get_All
  then show ?thesis using assms get_all_ok[of "cm_db cm" L]
    by (auto simp: manager_ok_def cm_get_all_def Let_def map_of_dupdate map_of_rev_dict_ok[OF dict_ok_all] split: option.splits) (metis not_None_eq)
next
  case Hot_Reload
  then show ?thesis using assms get_all_ok[of "cm_db cm" L] by (auto simp: manager_ok_def hot_reload_def Let_def)
qed (use assms in \<open>auto simp: manager_ok_def register_listener_def open_config_def\<close>)

lemma config_steps_ok: "list_all settable ops \<Longrightarrow> manager_ok (last_set ops) (foldl config_step (open_config []) ops)"
proof (induction ops rule: rev_induct)
  case (snoc op ops)
  then have "manager_ok (\<lambda>k. set_by op k (last_set ops k)) (config_step (foldl config_step (open_config []) ops) op)"
    by (intro config_step_ok) simp_all
  moreover have "last_set (ops @ [op]) = (\<lambda>k. set_by op k (last_set ops k))" by (simp add: last_set_def fun_eq_iff)
  ultimately show ?case by simp
qed (simp add: manager_ok_def config_ok_def open_config_def last_set_def)

section \<open>Properties\<close>

text \<open>
  C14. The configuration is what was last set. Whatever calls are made and however often the gateway
  is restarted, a setting reads as the value it was last given, and as the default of the reader if
  it never was given one; so does it after another restart.
\<close>

theorem setting_reads_as_last_set:
  assumes "list_all settable ops" "last_set ops key \<noteq> Some PNone"
  shows "snd (cm_get (foldl config_step (open_config []) ops) key fallback) = (case last_set ops key of None \<Rightarrow> fallback | Some v \<Rightarrow> v) \<and>
    snd (cm_get (open_config (cm_db (foldl config_step (open_config []) ops))) key fallback) =
      (case last_set ops key of None \<Rightarrow> fallback | Some v \<Rightarrow> v)"
proof -
  have read: "snd (cm_get cm key fallback) = (case L key of None \<Rightarrow> fallback | Some v \<Rightarrow> v)"
    if "manager_ok L cm" "L key \<noteq> Some PNone" for L cm
    using that get_config_ok[of "cm_db cm" L key]
    by (auto simp: manager_ok_def cm_get_def Let_def or_none_def split: option.splits)
  have "manager_ok (last_set ops) (foldl config_step (open_config []) ops)" by (rule config_steps_ok[OF assms(1)])
  moreover from this have "manager_ok (last_set ops) (open_config (cm_db (foldl config_step (open_config []) ops)))"
    by (simp add: manager_ok_def open_config_def)
  ultimately show ?thesis using read assms(2) by blast
qed

text \<open>A setting of \<^verbatim>\<open>None\<close> is kept by the cache and forgotten by a restart.\<close>

lemma none_is_forgotten:
  "snd (cm_get (cm_set ''t'' (open_config []) ''k'' PNone ''u'') ''k'' (PInt 1)) = PNone"
  "snd (cm_get (open_config (cm_db (cm_set ''t'' (open_config []) ''k'' PNone ''u''))) ''k'' (PInt 1)) = PInt 1"
  by code_simp+

definition switch_ops :: "config_op list" where
  "switch_ops = [Set_Config ''t1'' ''kill_switch.global'' (PBool False) ''api'', Get_All, Restart, Set_Config ''t2'' ''kill_switch.global'' (PStr ''on'') ''api'',
     Hot_Reload, Get_Config ''a'' PNone]"

theorem setting_reads_as_last_set_witness:
  "snd (cm_get (foldl config_step (open_config []) switch_ops) ''kill_switch.global'' (PBool False)) = PStr ''on''"
proof -
  have "list_all settable switch_ops" "last_set switch_ops ''kill_switch.global'' = Some (PStr ''on'')" by code_simp+
  then show ?thesis using setting_reads_as_last_set[of switch_ops "''kill_switch.global''" "PBool False"] by simp
qed

end
