(* ===== verification/Tenancy.thy ===== *)
theory Tenancy
  imports Admin_Store
begin

text \<open>
  Tenants and what they spend, \<^verbatim>\<open>reference/gateway/tenancy.py\<close>, and the cost controls over them,
  \<^verbatim>\<open>cost_controls.py\<close>. The manager keeps a cache of the tenants beside their table. What SQLite does
  that its documentation leaves open is an argument: the sum of a column of floats, and the
  conversions between texts and numbers of a column with a type.
\<close>

section \<open>The tables\<close>

record sqlite_lib =
  sl_sum :: "f64 list \<Rightarrow> f64"
  sl_real :: "string \<Rightarrow> f64 option"
  sl_text :: "pyval \<Rightarrow> string"

record tenant_db =
  td_tenants :: "row list"
  td_spend :: "row list"

definition real_column :: "sqlite_lib \<Rightarrow> pyval \<Rightarrow> pyval" where
  "real_column lib v = (case v of
     PInt i \<Rightarrow> (case f_of_int i of Inr f \<Rightarrow> PFloat f | Inl _ \<Rightarrow> v)
   | PStr s \<Rightarrow> (case sl_real lib s of Some f \<Rightarrow> PFloat f | None \<Rightarrow> v)
   | _ \<Rightarrow> v)"

definition text_column :: "sqlite_lib \<Rightarrow> pyval \<Rightarrow> pyval" where
  "text_column lib v = (case v of PInt _ \<Rightarrow> PStr (sl_text lib v) | PFloat _ \<Rightarrow> PStr (sl_text lib v) | _ \<Rightarrow> v)"

definition tenant_columns :: "sqlite_lib \<Rightarrow> pyval \<Rightarrow> pyval \<Rightarrow> pyval \<Rightarrow> (pyval \<times> pyval \<times> pyval) res" where
  "tenant_columns lib name daily monthly =
     bindE (sql_bind name) (\<lambda>n. bindE (sql_bind daily) (\<lambda>d. bindE (sql_bind monthly) (\<lambda>m.
     Inr (text_column lib n, real_column lib d, real_column lib m))))"

section \<open>The tenant manager\<close>

record tenant_manager =
  tm_db :: tenant_db
  tm_tenants :: "(string, pydict) dict"

definition load_tenants :: "tenant_db \<Rightarrow> (string, pydict) dict" where
  "load_tenants db = fold (\<lambda>r. dset (text_of r ''tenant_id'') r) (td_tenants db) []"

definition open_tenants :: "tenant_db \<Rightarrow> tenant_manager" where
  "open_tenants db = \<lparr>tm_db = db, tm_tenants = load_tenants db\<rparr>"

definition tenant_dict :: "string \<Rightarrow> pyval \<Rightarrow> pyval \<Rightarrow> pyval \<Rightarrow> string \<Rightarrow> string \<Rightarrow> pydict" where
  "tenant_dict tenant name daily monthly created changed =
     [(''tenant_id'', PStr tenant), (''name'', name), (''budget_daily_usd'', daily), (''budget_monthly_usd'', monthly),
      (''created_at'', PStr created), (''updated_at'', PStr changed)]"

definition create_tenant ::
  "sqlite_lib \<Rightarrow> string \<Rightarrow> tenant_manager \<Rightarrow> string \<Rightarrow> pyval \<Rightarrow> pyval \<Rightarrow> pyval \<Rightarrow> (tenant_manager \<times> pydict) res" where
  "create_tenant lib now tm tenant name daily monthly =
     bindE (tenant_columns lib name daily monthly) (\<lambda>(n, d, m).
     if n = PNone then Inl (DbError ''NOT NULL constraint failed: tenants.name'')
     else if has_key ''tenant_id'' (PStr tenant) (td_tenants (tm_db tm)) then Inl (DbError ''UNIQUE constraint failed: tenants.tenant_id'')
     else let kept = tenant_dict tenant name daily monthly now now in
       Inr (\<lparr>tm_db = (tm_db tm)\<lparr>td_tenants := td_tenants (tm_db tm) @ [tenant_dict tenant n d m now now]\<rparr>,
             tm_tenants = dset tenant kept (tm_tenants tm)\<rparr>, kept))"

definition get_tenant :: "tenant_manager \<Rightarrow> string \<Rightarrow> pydict option" where
  "get_tenant tm tenant = map_of (tm_tenants tm) tenant"

definition list_tenants :: "tenant_manager \<Rightarrow> pydict list" where
  "list_tenants tm = map snd (tm_tenants tm)"

definition apply_updates :: "string \<Rightarrow> pydict \<Rightarrow> pydict \<Rightarrow> pydict" where
  "apply_updates now changes t =
     dset ''updated_at'' (PStr now) (fold (\<lambda>(k, v). if k \<in> {''name'', ''budget_daily_usd'', ''budget_monthly_usd''} then dset k v else id) changes t)"

text \<open>The dict in memory is changed before the table is: what the table refuses stays changed in memory.\<close>

definition update_tenant ::
  "sqlite_lib \<Rightarrow> string \<Rightarrow> tenant_manager \<Rightarrow> string \<Rightarrow> pydict \<Rightarrow> tenant_manager \<times> pydict option res" where
  "update_tenant lib now tm tenant changes = (case map_of (tm_tenants tm) tenant of
     None \<Rightarrow> (tm, Inr None)
   | Some t \<Rightarrow>
       let t' = apply_updates now changes t; tm' = tm\<lparr>tm_tenants := dset tenant t' (tm_tenants tm)\<rparr> in
       (case tenant_columns lib (dget t' ''name'') (dget t' ''budget_daily_usd'') (dget t' ''budget_monthly_usd'') of
          Inl e \<Rightarrow> (tm', Inl e)
        | Inr (n, d, m) \<Rightarrow>
            if n = PNone \<and> has_key ''tenant_id'' (PStr tenant) (td_tenants (tm_db tm))
            then (tm', Inl (DbError ''NOT NULL constraint failed: tenants.name''))
            else (tm'\<lparr>tm_db := (tm_db tm)\<lparr>td_tenants := map (\<lambda>r. if dget r ''tenant_id'' = PStr tenant
                then dset ''updated_at'' (PStr now) (dset ''budget_monthly_usd'' m (dset ''budget_daily_usd'' d (dset ''name'' n r))) else r)
                (td_tenants (tm_db tm))\<rparr>\<rparr>, Inr (Some t'))))"

definition delete_tenant :: "tenant_manager \<Rightarrow> string \<Rightarrow> tenant_manager \<times> bool" where
  "delete_tenant tm tenant =
     (\<lparr>tm_db = \<lparr>td_tenants = filter (\<lambda>r. dget r ''tenant_id'' \<noteq> PStr tenant) (td_tenants (tm_db tm)),
                td_spend = filter (\<lambda>r. dget r ''tenant_id'' \<noteq> PStr tenant) (td_spend (tm_db tm))\<rparr>,
       tm_tenants = ddel tenant (tm_tenants tm)\<rparr>, dhas (tm_tenants tm) tenant)"

text \<open>\<^verbatim>\<open>COALESCE(SUM(amount_usd), 0)\<close>; a sum that is not a number is \<^verbatim>\<open>NULL\<close>.\<close>

definition amount_of :: "row \<Rightarrow> f64" where
  "amount_of r = (case dget r ''amount_usd'' of PFloat f \<Rightarrow> f | _ \<Rightarrow> Fin 0)"

definition sum_amounts :: "sqlite_lib \<Rightarrow> f64 list \<Rightarrow> f64" where
  "sum_amounts lib amounts = (if amounts = [] then Fin 0 else case sl_sum lib amounts of NaN \<Rightarrow> Fin 0 | f \<Rightarrow> f)"

definition spend_since :: "tenant_db \<Rightarrow> string \<Rightarrow> string \<Rightarrow> f64 list" where
  "spend_since db tenant start =
     map amount_of (filter (\<lambda>r. dget r ''tenant_id'' = PStr tenant \<and> start \<le> text_of r ''timestamp'') (td_spend db))"

definition day_start :: "string \<Rightarrow> string" where
  "day_start now = take 10 now @ ''T00:00:00Z''"

definition month_start :: "string \<Rightarrow> string" where
  "month_start now = take 7 now @ ''-01T00:00:00Z''"

record budget =
  bu_within :: bool
  bu_daily_spend :: f64
  bu_monthly_spend :: f64
  bu_daily_budget :: f64
  bu_monthly_budget :: f64
  bu_remaining_daily :: f64
  bu_remaining_monthly :: f64

definition unknown_budget :: budget where
  "unknown_budget = \<lparr>bu_within = True, bu_daily_spend = Fin 0, bu_monthly_spend = Fin 0, bu_daily_budget = Fin 0,
     bu_monthly_budget = Fin 0, bu_remaining_daily = Fin 0, bu_remaining_monthly = Fin 0\<rparr>"

definition check_budget :: "sqlite_lib \<Rightarrow> string \<Rightarrow> tenant_manager \<Rightarrow> string \<Rightarrow> budget res" where
  "check_budget lib now tm tenant = (case map_of (tm_tenants tm) tenant of
     None \<Rightarrow> Inr unknown_budget
   | Some t \<Rightarrow>
       let daily = sum_amounts lib (spend_since (tm_db tm) tenant (day_start now));
           monthly = sum_amounts lib (spend_since (tm_db tm) tenant (month_start now)) in
       bindE (py_float (dict_get t ''budget_daily_usd'' (PInt 10))) (\<lambda>db.
       bindE (py_float (dict_get t ''budget_monthly_usd'' (PInt 300))) (\<lambda>mb.
       Inr \<lparr>bu_within = (f_le daily db \<and> f_le monthly mb), bu_daily_spend = daily, bu_monthly_spend = monthly, bu_daily_budget = db,
            bu_monthly_budget = mb, bu_remaining_daily = f_max (Fin 0) (f_sub db daily), bu_remaining_monthly = f_max (Fin 0) (f_sub mb monthly)\<rparr>)))"

definition record_spend :: "string \<Rightarrow> string \<Rightarrow> tenant_manager \<Rightarrow> string \<Rightarrow> f64 \<Rightarrow> string option \<Rightarrow> tenant_manager res" where
  "record_spend uuid now tm tenant amount run =
     (if amount = NaN then Inl (DbError ''NOT NULL constraint failed: tenant_spend.amount_usd'')
      else if has_key ''spend_id'' (PStr (''spend-'' @ uuid)) (td_spend (tm_db tm)) then Inl (DbError ''UNIQUE constraint failed: tenant_spend.spend_id'')
      else if \<not> has_key ''tenant_id'' (PStr tenant) (td_tenants (tm_db tm)) then Inl (DbError ''FOREIGN KEY constraint failed'')
      else Inr (tm\<lparr>tm_db := (tm_db tm)\<lparr>td_spend := td_spend (tm_db tm) @
        [[(''spend_id'', PStr (''spend-'' @ uuid)), (''tenant_id'', PStr tenant), (''amount_usd'', PFloat amount), (''timestamp'', PStr now),
          (''run_id'', opt_str run)]]\<rparr>\<rparr>))"

section \<open>Cost controls\<close>

record cost_rule =
  ru_id :: string
  ru_name :: string
  ru_condition :: string
  ru_threshold :: f64
  ru_action :: string
  ru_tenant :: "string option"
  ru_created :: string

record cost_alert =
  ca_id :: string
  ca_rule :: cost_rule
  ca_message :: string
  ca_details :: budget
  ca_timestamp :: string

record cost_controller =
  cc_tenants :: tenant_manager
  cc_alerts :: "cost_alert list"
  cc_rules :: "cost_rule list"

definition add_alert_rule ::
  "string \<Rightarrow> string \<Rightarrow> cost_controller \<Rightarrow> string \<Rightarrow> string \<Rightarrow> f64 \<Rightarrow> string \<Rightarrow> string option \<Rightarrow> cost_controller \<times> cost_rule" where
  "add_alert_rule uuid now cc name condition threshold action tenant =
     (let rule = \<lparr>ru_id = ''cost-rule-'' @ uuid, ru_name = name, ru_condition = condition, ru_threshold = threshold,
        ru_action = action, ru_tenant = tenant, ru_created = now\<rparr>
      in (cc\<lparr>cc_rules := cc_rules cc @ [rule]\<rparr>, rule))"

text \<open>One rule: the alert it gives, if any. The tenant is the default one when the rule has none.\<close>

definition rule_tenant :: "cost_rule \<Rightarrow> string" where
  "rule_tenant rule = (case ru_tenant rule of None \<Rightarrow> ''default'' | Some t \<Rightarrow> if t = [] then ''default'' else t)"

definition spend_message :: "string \<Rightarrow> f64 \<Rightarrow> f64 \<Rightarrow> string" where
  "spend_message period spend threshold =
     period @ '' spend $'' @ fmt_fixed 4 spend @ '' exceeds threshold $'' @ fmt_fixed 2 threshold"

definition rule_alert :: "sqlite_lib \<Rightarrow> string \<Rightarrow> string \<Rightarrow> tenant_manager \<Rightarrow> cost_rule \<Rightarrow> cost_alert option res" where
  "rule_alert lib uuid now tm rule =
     (let alert = (\<lambda>period spend b. if f_lt (ru_threshold rule) spend
        then Some \<lparr>ca_id = ''cost-alert-'' @ uuid, ca_rule = rule, ca_message = spend_message period spend (ru_threshold rule),
               ca_details = b, ca_timestamp = now\<rparr> else None) in
      if ru_condition rule = ''daily_spend_exceeds'' then
        bindE (check_budget lib now tm (rule_tenant rule)) (\<lambda>b. Inr (alert ''Daily'' (bu_daily_spend b) b))
      else if ru_condition rule = ''monthly_spend_exceeds'' then
        bindE (check_budget lib now tm (rule_tenant rule)) (\<lambda>b. Inr (alert ''Monthly'' (bu_monthly_spend b) b))
      else Inr None)"

definition check_alerts :: "sqlite_lib \<Rightarrow> (nat \<Rightarrow> string) \<Rightarrow> (nat \<Rightarrow> string) \<Rightarrow> cost_controller \<Rightarrow> (cost_controller \<times> cost_alert list) res" where
  "check_alerts lib uuid now cc =
     bindE (mapE (\<lambda>(i, rule). rule_alert lib (uuid i) (now i) (cc_tenants cc) rule) (enumerate 0 (cc_rules cc))) (\<lambda>found.
     let triggered = List.map_filter id found in Inr (cc\<lparr>cc_alerts := cc_alerts cc @ triggered\<rparr>, triggered))"

definition summary_fields :: "string \<Rightarrow> budget \<Rightarrow> pydict" where
  "summary_fields period b =
     [(''spend'', PFloat (if period = ''daily'' then bu_daily_spend b else bu_monthly_spend b)),
      (''budget'', PFloat (if period = ''daily'' then bu_daily_budget b else bu_monthly_budget b)),
      (''within_budget'', PBool (bu_within b))]"

definition get_cost_summary :: "sqlite_lib \<Rightarrow> string \<Rightarrow> cost_controller \<Rightarrow> string option \<Rightarrow> string \<Rightarrow> pyval res" where
  "get_cost_summary lib now cc tenant period = 
     (if tenant \<noteq> None \<and> tenant \<noteq> Some [] then
       bindE (check_budget lib now (cc_tenants cc) (the tenant)) (\<lambda>b.
       Inr (PDict ([(''tenant_id'', PStr (the tenant)), (''period'', PStr period)] @ summary_fields period b)))
      else
       bindE (mapE (\<lambda>t. bindE (check_budget lib now (cc_tenants cc) (text_of t ''tenant_id'')) (\<lambda>b.
         Inr (PDict ([(''tenant_id'', dget t ''tenant_id''), (''name'', dict_get t ''name'' (PStr []))] @ summary_fields period b))))
         (list_tenants (cc_tenants cc))) (\<lambda>ts.
       Inr (PDict [(''period'', PStr period), (''tenants'', PList ts)])))"

text \<open>\<^verbatim>\<open>GROUP BY day ORDER BY day DESC LIMIT ?\<close>, with \<^verbatim>\<open>date\<close> of a timestamp the manager wrote.\<close>

definition get_cost_trend :: "sqlite_lib \<Rightarrow> cost_controller \<Rightarrow> string option \<Rightarrow> int \<Rightarrow> (string \<times> f64) list" where
  "get_cost_trend lib cc tenant days =
     (let rows = filter (wanted tenant (\<lambda>s r. dget r ''tenant_id'' = PStr s)) (td_spend (tm_db (cc_tenants cc)));
          day = (\<lambda>r. take 10 (text_of r ''timestamp''))
      in sql_limit days 0 (map (\<lambda>d. (d, sum_amounts lib (map amount_of (filter (\<lambda>r. day r = d) rows))))
           (rev (sort (remdups (map day rows))))))"

definition forecast_cost :: "sqlite_lib \<Rightarrow> cost_controller \<Rightarrow> string option \<Rightarrow> int \<Rightarrow> pyval res" where
  "forecast_cost lib cc tenant days =
     (let trend = get_cost_trend lib cc tenant 30; costs = map snd (take 7 trend) in
      if trend = [] then Inr (PDict [(''forecast_daily_cost'', PFloat (Fin 0)), (''forecast_total_cost'', PFloat (Fin 0)),
        (''forecast_days'', PInt days), (''confidence'', PStr ''low'')])
      else bindE (f_of_int (int (length costs))) (\<lambda>n. bindE (f_div (f_sum costs) n) (\<lambda>avg. bindE (f_of_int days) (\<lambda>d.
        Inr (PDict [(''forecast_daily_cost'', PFloat (f_round avg 4)), (''forecast_total_cost'', PFloat (f_round (f_mul avg d) 4)),
          (''forecast_days'', PInt days), (''confidence'', PStr (if 7 \<le> length costs then ''medium'' else ''low''))])))))"

text \<open>Spikes beyond two standard deviations; \<open>pow_fn\<close> is \<^verbatim>\<open>**\<close> on floats, the C library's.\<close>

definition detect_cost_anomalies :: "sqlite_lib \<Rightarrow> (f64 \<Rightarrow> f64 \<Rightarrow> f64 res) \<Rightarrow> cost_controller \<Rightarrow> pyval list res" where
  "detect_cost_anomalies lib pow_fn cc =
     (let trend = get_cost_trend lib cc None 30; costs = map snd trend in
      if length trend < 7 then Inr [] else
      bindE (f_of_int (int (length costs))) (\<lambda>n.
      bindE (f_div (f_sum costs) n) (\<lambda>avg.
      bindE (mapE (\<lambda>c. pow_fn (f_sub c avg) (Fin 2)) costs) (\<lambda>squares.
      bindE (f_div (f_sum squares) n) (\<lambda>variance.
      bindE (pow_fn variance (Fin (1/2))) (\<lambda>std.
      let threshold = f_add avg (f_mul (Fin 2) std) in
      Inr [PDict [(''day'', PStr day), (''cost'', PFloat c), (''average'', PFloat (f_round avg 4)),
          (''threshold'', PFloat (f_round threshold 4)), (''deviation'', PFloat (f_round (f_sub c avg) 4))].
        (day, c) \<leftarrow> trend, f_lt threshold c \<and> f_lt (Fin 0) c]))))))"

section \<open>Calls of the manager\<close>

datatype tenant_op =
    Create_Tenant string string pyval pyval pyval
  | Update_Tenant string string pydict
  | Delete_Tenant string
  | Spend_Money string string string f64 "string option"
  | Reopen

fun tenant_step :: "sqlite_lib \<Rightarrow> tenant_manager \<Rightarrow> tenant_op \<Rightarrow> tenant_manager" where
  "tenant_step lib tm (Create_Tenant now t name daily monthly) = (case create_tenant lib now tm t name daily monthly of Inl _ \<Rightarrow> tm | Inr (tm', _) \<Rightarrow> tm')"
| "tenant_step lib tm (Update_Tenant now t changes) = fst (update_tenant lib now tm t changes)"
| "tenant_step lib tm (Delete_Tenant t) = fst (delete_tenant tm t)"
| "tenant_step lib tm (Spend_Money uuid now t amount run) = (case record_spend uuid now tm t amount run of Inl _ \<Rightarrow> tm | Inr tm' \<Rightarrow> tm')"
| "tenant_step lib tm Reopen = open_tenants (tm_db tm)"

text \<open>Names are texts and budgets are numbers.\<close>

definition money :: "pyval \<Rightarrow> bool" where
  "money v = (case v of PFloat f \<Rightarrow> f \<noteq> NaN | _ \<Rightarrow> False)"

definition typed_change :: "string \<times> pyval \<Rightarrow> bool" where
  "typed_change = (\<lambda>(k, v). (k = ''name'' \<longrightarrow> is_str v) \<and> (k = ''budget_daily_usd'' \<or> k = ''budget_monthly_usd'' \<longrightarrow> money v))"

fun typed_op :: "tenant_op \<Rightarrow> bool" where
  "typed_op (Create_Tenant now t name daily monthly) = (is_str name \<and> money daily \<and> money monthly)"
| "typed_op (Update_Tenant now t changes) = list_all typed_change changes"
| "typed_op _ = True"

definition no_tenants :: tenant_manager where
  "no_tenants = open_tenants \<lparr>td_tenants = [], td_spend = []\<rparr>"

abbreviation tenants_after :: "sqlite_lib \<Rightarrow> tenant_op list \<Rightarrow> tenant_manager" where
  "tenants_after lib ops \<equiv> foldl (tenant_step lib) no_tenants ops"

definition tenant_row :: "row \<Rightarrow> bool" where
  "tenant_row r = (\<exists>t n d m c u. r = tenant_dict t n d m c u \<and> is_str n \<and> money d \<and> money m)"

definition mirrored :: "tenant_manager \<Rightarrow> bool" where
  "mirrored tm = (list_all tenant_row (td_tenants (tm_db tm)) \<and> dict_ok (tm_tenants tm) \<and>
     tm_tenants tm = map (\<lambda>r. (text_of r ''tenant_id'', r)) (td_tenants (tm_db tm)))"

lemma tenant_dict_sel [simp]:
  "dget (tenant_dict t n d m c u) ''tenant_id'' = PStr t" "dget (tenant_dict t n d m c u) ''name'' = n"
  "dget (tenant_dict t n d m c u) ''budget_daily_usd'' = d" "dget (tenant_dict t n d m c u) ''budget_monthly_usd'' = m"
  "text_of (tenant_dict t n d m c u) ''tenant_id'' = t"
  by (simp_all add: tenant_dict_def dget_def text_of_def)

lemma tenant_dict_set [simp]:
  "dset ''name'' v (tenant_dict t n d m c u) = tenant_dict t v d m c u"
  "dset ''budget_daily_usd'' v (tenant_dict t n d m c u) = tenant_dict t n v m c u"
  "dset ''budget_monthly_usd'' v (tenant_dict t n d m c u) = tenant_dict t n d v c u"
  "dset ''updated_at'' (PStr w) (tenant_dict t n d m c u) = tenant_dict t n d m c w"
  by (simp_all add: tenant_dict_def)

lemma typed_columns: "is_str n \<Longrightarrow> money d \<Longrightarrow> money m \<Longrightarrow> tenant_columns lib n d m = Inr (n, d, m)"
  by (cases n; cases d; cases m)
    (auto simp: tenant_columns_def sql_bind_def text_column_def real_column_def money_def is_str_def split: f64.splits)

lemma money_float: "money v \<Longrightarrow> \<exists>f. v = PFloat f"
  by (simp add: money_def split: pyval.splits)

lemma is_str_not_None: "is_str n \<Longrightarrow> n \<noteq> PNone"
  by (auto simp: is_str_def)

lemma row_id: "tenant_row r \<Longrightarrow> dget r ''tenant_id'' = PStr (text_of r ''tenant_id'')"
  by (auto simp: tenant_row_def)

lemma load_rows: "list_all tenant_row rows \<Longrightarrow> dict_ok (map (\<lambda>r. (text_of r ''tenant_id'', r)) rows) \<Longrightarrow>
    load_tenants \<lparr>td_tenants = rows, td_spend = sp\<rparr> = map (\<lambda>r. (text_of r ''tenant_id'', r)) rows"
proof (induction rows rule: rev_induct)
  case (snoc r rows)
  then have "dict_ok (map (\<lambda>r. (text_of r ''tenant_id'', r)) rows)"
    and "map_of (map (\<lambda>r. (text_of r ''tenant_id'', r)) rows) (text_of r ''tenant_id'') = None"
    by (auto simp: dict_ok_def map_of_eq_None_iff)
  with snoc show ?case by (simp add: load_tenants_def dset_new)
qed (simp add: load_tenants_def)

lemma mirrored_open: "mirrored tm \<Longrightarrow> open_tenants (tm_db tm) = tm"
  by (cases tm, rename_tac db ts, case_tac db) (simp add: mirrored_def open_tenants_def load_rows)

lemma dset_map: "dict_ok d \<Longrightarrow> dhas d k \<Longrightarrow> dset k v d = map (\<lambda>p. if fst p = k then (k, v) else p) d"
proof (induction d)
  case (Cons p d)
  obtain a b where p: "p = (a, b)" by fastforce
  show ?case
  proof (cases "a = k")
    case True
    then have "k \<notin> fst ` set d" using Cons.prems by (simp add: p dict_ok_def)
    then have "map (\<lambda>p. if fst p = k then (k, v) else p) d = d" by (intro map_idI) force
    then show ?thesis using True by (simp add: p)
  qed (use Cons in \<open>simp add: p dict_ok_def dhas_def\<close>)
qed (simp add: dhas_def)

lemma has_tenant: "mirrored tm \<Longrightarrow> has_key ''tenant_id'' (PStr t) (td_tenants (tm_db tm)) \<longleftrightarrow> dhas (tm_tenants tm) t"
  by (force simp: mirrored_def has_key_def list_ex_iff list_all_iff dhas_def map_of_eq_None_iff row_id)

lemma fold_changes:
  "list_all typed_change changes \<Longrightarrow> is_str n \<Longrightarrow> money d \<Longrightarrow> money m \<Longrightarrow>
   \<exists>n' d' m'. fold (\<lambda>(k, v). if k \<in> {''name'', ''budget_daily_usd'', ''budget_monthly_usd''} then dset k v else id) changes (tenant_dict t n d m c u) =
     tenant_dict t n' d' m' c u \<and> is_str n' \<and> money d' \<and> money m'"
proof (induction changes arbitrary: n d m)
  case (Cons x changes)
  obtain k v where x: "x = (k, v)" by fastforce
  consider "k = ''name''" | "k = ''budget_daily_usd''" | "k = ''budget_monthly_usd''" | "k \<notin> {''name'', ''budget_daily_usd'', ''budget_monthly_usd''}" by blast
  then show ?case using Cons by cases (simp_all add: x typed_change_def)
qed auto

lemma mirrored_step:
  assumes "mirrored tm" "typed_op op"
  shows "mirrored (tenant_step lib tm op)"
proof (cases op)
  case (Create_Tenant now t name daily monthly)
  have ty: "is_str name" "money daily" "money monthly" using assms(2) by (simp_all add: Create_Tenant)
  show ?thesis
  proof (cases "has_key ''tenant_id'' (PStr t) (td_tenants (tm_db tm))")
    case False
    then have "map_of (tm_tenants tm) t = None" using has_tenant[OF assms(1), of t] by (simp add: dhas_def)
    moreover have "tenant_row (tenant_dict t name daily monthly now now)" using ty unfolding tenant_row_def by blast
    moreover have "dict_ok (dset t (tenant_dict t name daily monthly now now) (tm_tenants tm))"
      using assms(1) unfolding mirrored_def by (intro dict_ok_dset) blast
    ultimately show ?thesis using assms(1) False ty is_str_not_None[OF ty(1)]
      by (auto simp: Create_Tenant create_tenant_def typed_columns mirrored_def dset_new Let_def)
  qed (use assms(1) ty in \<open>simp add: Create_Tenant create_tenant_def typed_columns\<close>)
next
  case (Update_Tenant now t changes)
  show ?thesis
  proof (cases "map_of (tm_tenants tm) t")
    case (Some r)
    have rows: "list_all tenant_row (td_tenants (tm_db tm))" and tn: "tm_tenants tm = map (\<lambda>r. (text_of r ''tenant_id'', r)) (td_tenants (tm_db tm))"
      and ok: "dict_ok (tm_tenants tm)" using assms(1) unfolding mirrored_def by blast+
    have r: "r \<in> set (td_tenants (tm_db tm))" "text_of r ''tenant_id'' = t" using map_of_SomeD[OF Some] tn by auto
    then obtain n d m c u where rd: "r = tenant_dict t n d m c u" "is_str n" "money d" "money m"
      using rows by (auto simp: list_all_iff tenant_row_def)
    obtain n' d' m' where n': "apply_updates now changes r = tenant_dict t n' d' m' c now" "is_str n'" "money d'" "money m'"
      using fold_changes[of changes n d m t c u] assms(2) rd by (auto simp: Update_Tenant apply_updates_def)
    define upd where "upd = (\<lambda>x. if dget x ''tenant_id'' = PStr t
       then dset ''updated_at'' (PStr now) (dset ''budget_monthly_usd'' m' (dset ''budget_daily_usd'' d' (dset ''name'' n' x))) else x)"
    have only: "x = r" if "x \<in> set (td_tenants (tm_db tm))" "text_of x ''tenant_id'' = t" for x
    proof -
      have "map_of (tm_tenants tm) t = Some x" unfolding map_of_iff_in_set[OF ok] using that tn by auto
      then show ?thesis using Some by simp
    qed
    have u: "upd x = (if x = r then tenant_dict t n' d' m' c now else x)" if "x \<in> set (td_tenants (tm_db tm))" for x
    proof -
      have "tenant_row x" using rows that by (simp add: list_all_iff)
      then have "dget x ''tenant_id'' = PStr t \<longleftrightarrow> x = r" using only[OF that] rd(1) by (auto dest!: row_id)
      then show ?thesis by (simp add: upd_def rd(1))
    qed
    have step: "tenant_step lib tm op = \<lparr>tm_db = (tm_db tm)\<lparr>td_tenants := map upd (td_tenants (tm_db tm))\<rparr>,
        tm_tenants = dset t (tenant_dict t n' d' m' c now) (tm_tenants tm)\<rparr>"
      using n' by (simp add: Update_Tenant update_tenant_def Some Let_def typed_columns is_str_not_None upd_def)
    have row': "tenant_row (tenant_dict t n' d' m' c now)" using n' unfolding tenant_row_def by blast
    have "dset t v (tm_tenants tm) = map (\<lambda>x. (text_of (upd x) ''tenant_id'', upd x)) (td_tenants (tm_db tm))"
      if "v = tenant_dict t n' d' m' c now" for v
    proof -
      have "dset t v (tm_tenants tm) = map (\<lambda>p. if fst p = t then (t, v) else p) (tm_tenants tm)"
        using Some ok by (intro dset_map) (simp_all add: dhas_def)
      also have "\<dots> = map (\<lambda>x. (text_of (upd x) ''tenant_id'', upd x)) (td_tenants (tm_db tm))"
        unfolding tn map_map comp_def
      proof (rule map_cong[OF refl])
        fix x assume x: "x \<in> set (td_tenants (tm_db tm))"
        show "(if fst (text_of x ''tenant_id'', x) = t then (t, v) else (text_of x ''tenant_id'', x)) = (text_of (upd x) ''tenant_id'', upd x)"
          using only[OF x] u[OF x] r(2) by (cases "x = r") (simp_all add: that, metis)
      qed
      finally show ?thesis .
    qed
    moreover have "list_all tenant_row (map upd (td_tenants (tm_db tm)))" using rows row' u by (auto simp: list_all_iff)
    moreover have "dict_ok (dset t (tenant_dict t n' d' m' c now) (tm_tenants tm))" using ok by (rule dict_ok_dset)
    ultimately show ?thesis by (simp add: step mirrored_def comp_def)
  qed (use assms(1) in \<open>simp add: Update_Tenant update_tenant_def\<close>)
next
  case (Delete_Tenant t)
  have "filter (\<lambda>r. dget r ''tenant_id'' \<noteq> PStr t) rows = filter (\<lambda>r. text_of r ''tenant_id'' \<noteq> t) rows"
    if "list_all tenant_row rows" for rows
    using that row_id by (intro filter_cong) (force simp: list_all_iff)+
  moreover have "ddel t (map (\<lambda>r. (text_of r ''tenant_id'', r)) rows) =
      map (\<lambda>r. (text_of r ''tenant_id'', r)) (filter (\<lambda>r. text_of r ''tenant_id'' \<noteq> t) rows)" for rows
    by (induction rows) auto
  moreover have "dict_ok (ddel t (tm_tenants tm))" using assms(1) unfolding mirrored_def by (intro dict_ok_ddel) blast
  ultimately show ?thesis using assms(1)
    by (auto simp: Delete_Tenant delete_tenant_def mirrored_def list_all_iff)
next
  case (Spend_Money uuid now t amount run)
  then show ?thesis using assms(1) by (auto simp: record_spend_def mirrored_def)
qed (use assms(1) mirrored_open in auto)

lemma mirrored_after: "list_all typed_op ops \<Longrightarrow> mirrored (tenants_after lib ops)"
proof (induction ops rule: rev_induct)
  case Nil
  show ?case by (simp add: no_tenants_def open_tenants_def load_tenants_def mirrored_def)
qed (simp add: mirrored_step)

text \<open>
  The tenants the manager holds in memory are the rows of their table, in its order, each once:
  after any calls with names that are texts and budgets that are numbers, refused ones among them, a
  restart finds the tenants the manager had.
\<close>

theorem tenant_cache_is_table:
  assumes "list_all typed_op ops"
  shows "open_tenants (tm_db (tenants_after lib ops)) = tenants_after lib ops \<and>
    list_tenants (tenants_after lib ops) = td_tenants (tm_db (tenants_after lib ops)) \<and>
    get_tenant (tenants_after lib ops) t = find (\<lambda>r. text_of r ''tenant_id'' = t) (td_tenants (tm_db (tenants_after lib ops)))"
proof -
  have m: "mirrored (tenants_after lib ops)" by (rule mirrored_after[OF assms])
  have "map_of (map (\<lambda>r. (text_of r ''tenant_id'', r)) rows) t = find (\<lambda>r. text_of r ''tenant_id'' = t) rows" for rows
    by (induction rows) auto
  then show ?thesis using m mirrored_open[OF m] by (simp add: mirrored_def list_tenants_def get_tenant_def comp_def)
qed

definition trial_sqlite :: sqlite_lib where
  "trial_sqlite = \<lparr>sl_sum = f_sum, sl_real = (\<lambda>s. None), sl_text = (\<lambda>v. [])\<rparr>"

definition trial_ops :: "tenant_op list" where
  "trial_ops = [Create_Tenant ''2026-01-01T00:00:00.5Z'' ''acme'' (PStr ''Acme'') (PFloat (Fin 5)) (PFloat (Fin 50)),
     Spend_Money ''1'' ''2026-01-02T10:00:00.5Z'' ''acme'' (Fin 2) None,
     Create_Tenant ''2026-01-02T11:00:00.5Z'' ''acme'' (PStr ''Twin'') (PFloat (Fin 1)) (PFloat (Fin 1)),
     Spend_Money ''1'' ''2026-01-03T10:00:00.5Z'' ''acme'' (Fin 2) None,
     Spend_Money ''2'' ''2026-01-03T10:00:00.5Z'' ''acme'' (Fin 4) None,
     Update_Tenant ''2026-01-03T11:00:00.5Z'' ''acme'' [(''budget_daily_usd'', PFloat (Fin 3))], Reopen]"

lemma trial_ops_typed: "list_all typed_op trial_ops"
  by (simp add: trial_ops_def money_def is_str_def typed_change_def)

lemma tenant_cache_is_table_witness:
  "list_tenants (tenants_after trial_sqlite trial_ops) = td_tenants (tm_db (tenants_after trial_sqlite trial_ops)) \<and>
   length (td_tenants (tm_db (tenants_after trial_sqlite trial_ops))) = 1"
proof
  show "list_tenants (tenants_after trial_sqlite trial_ops) = td_tenants (tm_db (tenants_after trial_sqlite trial_ops))"
    using tenant_cache_is_table[OF trial_ops_typed] by blast
qed code_simp

section \<open>What a tenant spent\<close>

text \<open>The payments the manager accepted for a tenant, since the tenant was last deleted.\<close>

definition payment :: "tenant_manager \<Rightarrow> string \<Rightarrow> tenant_op \<Rightarrow> (string \<times> f64) list \<Rightarrow> (string \<times> f64) list" where
  "payment tm t op paid = (case op of
     Spend_Money uuid now t' amount run \<Rightarrow> if t' = t \<and> \<not> isl (record_spend uuid now tm t' amount run) then paid @ [(now, amount)] else paid
   | Delete_Tenant t' \<Rightarrow> if t' = t then [] else paid
   | _ \<Rightarrow> paid)"

fun payments :: "sqlite_lib \<Rightarrow> string \<Rightarrow> tenant_manager \<Rightarrow> tenant_op list \<Rightarrow> (string \<times> f64) list \<Rightarrow> (string \<times> f64) list" where
  "payments lib t tm [] paid = paid"
| "payments lib t tm (op # ops) paid = payments lib t (tenant_step lib tm op) ops (payment tm t op paid)"

definition paid_rows :: "tenant_manager \<Rightarrow> string \<Rightarrow> (string \<times> f64) list" where
  "paid_rows tm t = map (\<lambda>r. (text_of r ''timestamp'', amount_of r)) (filter (\<lambda>r. dget r ''tenant_id'' = PStr t) (td_spend (tm_db tm)))"

definition paid_since :: "string \<Rightarrow> (string \<times> f64) list \<Rightarrow> f64 list" where
  "paid_since start paid = map snd (filter (\<lambda>(ts, a). start \<le> ts) paid)"

lemma spend_since_paid: "spend_since (tm_db tm) t start = paid_since start (paid_rows tm t)"
proof -
  have "map amount_of (filter (\<lambda>r. dget r ''tenant_id'' = PStr t \<and> start \<le> text_of r ''timestamp'') rs) =
     map snd (filter (\<lambda>(ts, a). start \<le> ts) (map (\<lambda>r. (text_of r ''timestamp'', amount_of r)) (filter (\<lambda>r. dget r ''tenant_id'' = PStr t) rs)))" for rs
    by (induction rs) auto
  then show ?thesis by (simp add: spend_since_def paid_since_def paid_rows_def)
qed

lemma created_spend: "create_tenant lib now tm t n d m = Inr (tm', x) \<Longrightarrow> td_spend (tm_db tm') = td_spend (tm_db tm)"
  by (auto simp: create_tenant_def Let_def bindE_eq_Inr split: if_splits prod.splits)

lemma updated_spend: "td_spend (tm_db (fst (update_tenant lib now tm t changes))) = td_spend (tm_db tm)"
  by (auto simp: update_tenant_def Let_def split: option.splits sum.splits prod.splits)

lemma paid_rows_step: "paid_rows (tenant_step lib tm op) t = payment tm t op (paid_rows tm t)"
proof (cases op)
  case (Delete_Tenant t')
  have "filter (\<lambda>r. dget r ''tenant_id'' \<noteq> PStr t' \<and> dget r ''tenant_id'' = PStr t) rs =
    (if t' = t then [] else filter (\<lambda>r. dget r ''tenant_id'' = PStr t) rs)" for rs :: "row list"
    by (induction rs) auto
  then show ?thesis by (simp add: Delete_Tenant paid_rows_def payment_def delete_tenant_def)
next
  case (Spend_Money uuid now t' amount run)
  then show ?thesis
    by (auto simp: paid_rows_def payment_def record_spend_def amount_of_def dget_def text_of_def)
next
  case (Create_Tenant now t' name daily monthly)
  then show ?thesis using created_spend[of lib now tm t' name daily monthly]
    by (auto simp: paid_rows_def payment_def split: sum.splits)
qed (auto simp: paid_rows_def payment_def open_tenants_def updated_spend)

lemma paid_rows_after: "paid_rows (foldl (tenant_step lib) tm ops) t = payments lib t tm ops (paid_rows tm t)"
  by (induction ops arbitrary: tm) (simp_all add: paid_rows_step)



section \<open>Where the code and its documentation part\<close>

text \<open>A payment in the first second of the day is not counted: its time has a fraction, and a point sorts before a Z.\<close>

lemma first_second_not_counted:
  "let tm = tenants_after trial_sqlite [Create_Tenant ''2026-01-01T00:00:00.5Z'' ''acme'' (PStr ''Acme'') (PFloat (Fin 5)) (PFloat (Fin 50)),
      Spend_Money ''1'' ''2026-01-02T00:00:00.5Z'' ''acme'' (Fin 9) None]
   in (case check_budget trial_sqlite ''2026-01-02T00:00:00.9Z'' tm ''acme'' of Inr b \<Rightarrow> bu_within b \<and> bu_daily_spend b = Fin 0 | Inl _ \<Rightarrow> False)"
  by code_simp

text \<open>Nothing can be spent by a tenant nobody created; such a tenant is always within its budget.\<close>

lemma stranger_cannot_spend:
  "\<not> has_key ''tenant_id'' (PStr t) (td_tenants (tm_db tm)) \<Longrightarrow> isl (record_spend uuid now tm t amount run)"
  by (simp add: record_spend_def)

lemma stranger_within_budget: "get_tenant tm t = None \<Longrightarrow> check_budget lib now tm t = Inr unknown_budget"
  by (simp add: check_budget_def get_tenant_def)

text \<open>A name the table refuses stays changed in memory.\<close>

lemma refused_name_stays:
  "let tm = tenants_after trial_sqlite [Create_Tenant ''2026-01-01T00:00:00.5Z'' ''acme'' (PStr ''Acme'') (PFloat (Fin 5)) (PFloat (Fin 50))];
       (tm', result) = update_tenant trial_sqlite ''2026-01-02T00:00:00.5Z'' tm ''acme'' [(''name'', PNone)]
   in isl result \<and> map (\<lambda>t. dget t ''name'') (list_tenants tm') = [PNone] \<and>
      map (\<lambda>t. dget t ''name'') (list_tenants (open_tenants (tm_db tm'))) = [PStr ''Acme'']"
  by code_simp

text \<open>Only two of the documented conditions can raise an alert.\<close>

lemma other_conditions_never_alert:
  "ru_condition rule \<in> {''per_request_cost_exceeds'', ''cost_anomaly_detected''} \<Longrightarrow> rule_alert lib uuid now tm rule = Inr None"
  by (auto simp: rule_alert_def Let_def)

end
