(* ===== verification/Gateway.thy ===== *)
theory Gateway
  imports Pipeline_Safety Tenancy
begin

text \<open>
  The pipeline with the stores it is wired to by \<^verbatim>\<open>build_pipeline_context\<close>: its configuration is a
  configuration manager (\<^verbatim>\<open>config_manager.py\<close>) and its spend is recorded by a tenant manager
  (\<^verbatim>\<open>tenancy.py\<close>).
\<close>

section \<open>The pipeline and its configuration\<close>

definition config_reader :: "config_manager \<Rightarrow> string \<Rightarrow> pyval option" where
  "config_reader cm key = Some (snd (cm_get cm key (PBool False)))"

definition with_config :: "pipe_env \<Rightarrow> config_manager \<Rightarrow> pipe_env" where
  "with_config env cm = env\<lparr>pe_config := Some (config_reader cm)\<rparr>"

text \<open>A value that turns a switch on, and the switches over a request.\<close>

definition switch_value :: "pyval \<Rightarrow> bool" where
  "switch_value v = (case v of PBool b \<Rightarrow> b | PStr t \<Rightarrow> lower t \<in> {''1'', ''true'', ''yes'', ''on''} | _ \<Rightarrow> False)"

definition switched :: "config_op list \<Rightarrow> string \<Rightarrow> bool" where
  "switched ops key = (case last_set ops key of None \<Rightarrow> False | Some v \<Rightarrow> switch_value v)"

definition request_switches :: "(string, pyval) dict \<Rightarrow> string list res" where
  "request_switches request =
     (let tenant = py_str (or_value (field_or request ''tenant_id'' PNone) (PStr ''default'')) in
      bindE (py_get (or_dict (field_or request ''governance'' PNone)) ''project_id'' PNone) (\<lambda>p.
      let project = py_str (or_value p (PStr [])) in
      Inr ([''kill_switch.global'', ''kill_switch.tenant:'' @ tenant] @ (if project = [] then [] else [''kill_switch.project:'' @ project]))))"

lemma flag_of_config:
  assumes "manager_ok (last_set ops) cm"
  shows "runtime_flag (with_config env cm) key = switched ops key"
  using assms get_config_ok[of "cm_db cm" "last_set ops" key]
  by (auto simp: runtime_flag_def with_config_def config_reader_def switched_def switch_value_def manager_ok_def cm_get_def Let_def or_none_def
      split: option.splits pyval.splits)

lemma switches_of_request:
  assumes "manager_ok (last_set ops) cm" "request_switches request = Inr keys"
  shows "(\<exists>tenant. kill_switch_on (with_config env cm) request = Inr (True, tenant)) \<longleftrightarrow> list_ex (switched ops) keys"
  using assms(2) by (auto simp: request_switches_def kill_switch_on_def Let_def bindE_eq_Inr flag_of_config[OF assms(1)] split: if_splits)

text \<open>
  C9. An emergency stop holds. A request is refused with 503 exactly if a switch that covers it, of the
  gateway, its tenant or its project, was last set to a value that means on, whatever else was
  configured and however often the gateway was restarted; the refused request leaves everything as it
  was, and one more restart changes neither.
\<close>

theorem kill_switch_survives_restart:
  assumes "list_all settable ops" and "idle env s" and "request_switches (ps_request s) = Inr keys"
    and "cm = foldl config_step (open_config []) ops \<or> cm = open_config (cm_db (foldl config_step (open_config []) ops))"
  shows "(\<exists>body. run_inference_pipeline (with_config env cm) response_format s = (s, Inl (HttpError 503 body))) \<longleftrightarrow> list_ex (switched ops) keys"
proof -
  have "manager_ok (last_set ops) (foldl config_step (open_config []) ops)" by (rule config_steps_ok[OF assms(1)])
  then have "manager_ok (last_set ops) cm" using assms(4) by (auto simp: manager_ok_def open_config_def)
  moreover have "idle (with_config env cm) s" using assms(2) by (simp add: idle_def with_config_def)
  ultimately show ?thesis using refused_by_switch[of "with_config env cm" s] switches_of_request[OF _ assms(3)] by blast
qed

theorem kill_switch_survives_restart_witness:
  "\<exists>body. run_inference_pipeline (with_config unlimited_env (open_config (cm_db (foldl config_step (open_config []) switch_ops)))) ''chat'' first_state =
     (first_state, Inl (HttpError 503 body))"
proof -
  have "list_all settable switch_ops" by code_simp
  moreover have "request_switches (ps_request first_state) = Inr [''kill_switch.global'', ''kill_switch.tenant:default'']" by code_simp
  moreover have "list_ex (switched switch_ops) [''kill_switch.global'', ''kill_switch.tenant:default'']" by code_simp
  ultimately show ?thesis using kill_switch_survives_restart[OF _ first_idle] by blast
qed

section \<open>The pipeline and the tenants\<close>

definition spend_with :: "(string \<Rightarrow> string) \<Rightarrow> string \<Rightarrow> tenant_manager \<Rightarrow> string \<Rightarrow> f64 \<Rightarrow> string \<Rightarrow> unit res" where
  "spend_with uuid now tm tenant amount run = bindE (record_spend (uuid run) now tm tenant amount (Some run)) (\<lambda>_. Inr ())"

text \<open>
  A paid answer is lost if its tenant was never created: the spend is refused by the table after the run
  was accepted, and the caller gets the exception. Nothing creates the tenant \<^verbatim>\<open>default\<close>, which every
  request without a tenant has.
\<close>

lemma strangers_answer_is_lost:
  assumes "pe_spend env = Some (spend_with uuid now tm)" and "\<not> has_key ''tenant_id'' (PStr tenant) (td_tenants (tm_db tm))"
    and "require_run (ps_registry s) (id_run i) = Inr rr" and "f_lt (Fin 0) (rr_actual_cost_usd rr)"
  shows "\<exists>e. snd (finish_stage env i tenant oc answer s) = Inl (Raised e)"
proof -
  obtain e where e: "spend_with uuid now tm tenant (rr_actual_cost_usd rr) (id_run i) = Inl e"
    using stranger_cannot_spend[OF assms(2), of "uuid (id_run i)" now "rr_actual_cost_usd rr" "Some (id_run i)"]
    by (auto simp: spend_with_def isl_def)
  show ?thesis using assms e
    by (auto simp: finish_stage_def Let_def thenP_def bindP_def tickP_def getP_def modifyP_def recordP_def liftP_def whenP_def callP_def returnP_def raiseP_def
        split: option.splits sum.splits prod.splits)
qed

end
