(* ===== verification/Streaming.thy ===== *)
theory Streaming
  imports Render Py_Json_Load
begin

text \<open>
  Server-sent events, \<^verbatim>\<open>reference/gateway/streaming.py\<close>: the answer of a finished run is cut into chunks
  of words and ends with the metadata of the run.
\<close>

section \<open>Chunks of words\<close>

definition not_space :: "char \<Rightarrow> bool" where
  "not_space c = (\<not> is_space c)"

lemma rest_shorter: "dropWhile is_space s = c # r \<Longrightarrow> length (dropWhile is_space (dropWhile not_space (c # r))) < length s"
proof -
  assume a: "dropWhile is_space s = c # r"
  then have "not_space c" using hd_dropWhile[of is_space s] by (auto simp: not_space_def)
  then have "length (dropWhile is_space (dropWhile not_space (c # r))) \<le> length r"
    by (simp add: le_trans[OF length_dropWhile_le length_dropWhile_le])
  also have "\<dots> < length s" using length_dropWhile_le[of is_space s] a by simp
  finally show ?thesis .
qed

text \<open>\<^verbatim>\<open>re.findall\<close> of words with the space after them: what is before the first word matches nothing.\<close>

function word_tokens :: "string \<Rightarrow> string list" where
  "word_tokens s = (case dropWhile is_space s of [] \<Rightarrow> []
     | c # r \<Rightarrow> (takeWhile not_space (c # r) @ takeWhile is_space (dropWhile not_space (c # r))) #
         word_tokens (dropWhile is_space (dropWhile not_space (c # r))))"
  by auto
termination by (relation "measure length") (auto dest: rest_shorter)

declare word_tokens.simps [simp del]

text \<open>\<^verbatim>\<open>xs[i:i+n]\<close> for every \<open>i\<close> in steps of \<open>n\<close>.\<close>

function groups :: "nat \<Rightarrow> 'a list \<Rightarrow> 'a list list" where
  "groups n xs = (if xs = [] \<or> n = 0 then [] else take n xs # groups n (drop n xs))"
  by auto
termination by (relation "measure (\<lambda>(n, xs). length xs)") auto

declare groups.simps [simp del]

definition chunk_content :: "nat \<Rightarrow> string \<Rightarrow> string list" where
  "chunk_content chunk_size content = (if content = [] then [] else map concat (groups chunk_size (word_tokens content)))"

section \<open>The stream\<close>

definition format_chunk :: "pyval \<Rightarrow> string" where
  "format_chunk d = ''data: '' @ dumps False d @ [CHR 0x0A, CHR 0x0A]"

definition format_done :: string where
  "format_done = ''data: [DONE]'' @ [CHR 0x0A, CHR 0x0A]"

definition build_stream_chunks :: "string \<Rightarrow> int \<Rightarrow> string \<Rightarrow> pyval \<Rightarrow> pyval list" where
  "build_stream_chunks uuid created content epr =
     (let stream = ''chatcmpl-'' @ uuid in
      [render_stream_chunk stream created (Some (PDict [(''role'', PStr ''assistant'')])) PNone None None] @
      map (\<lambda>piece. render_stream_chunk stream created (Some (PDict [(''content'', PStr piece)])) PNone None None) (chunk_content 5 content) @
      [render_stream_chunk stream created (Some (PDict [])) (PStr ''stop'') None None,
       render_stream_chunk stream created None PNone (Some (PList [])) (Some epr)])"

definition build_error_stream_chunk :: "pyval \<Rightarrow> pyval \<Rightarrow> pyval" where
  "build_error_stream_chunk error epr = render_stream_error_chunk error epr"

section \<open>What a client puts together\<close>

lemma concat_words: "concat (word_tokens s) = dropWhile is_space s"
proof (induction s rule: word_tokens.induct)
  case (1 s)
  show ?case
  proof (cases "dropWhile is_space s")
    case (Cons c r)
    then have "concat (word_tokens s) = takeWhile not_space (c # r) @ takeWhile is_space (dropWhile not_space (c # r)) @
        concat (word_tokens (dropWhile is_space (dropWhile not_space (c # r))))"
      by (subst word_tokens.simps) simp
    also have "concat (word_tokens (dropWhile is_space (dropWhile not_space (c # r)))) = dropWhile is_space (dropWhile not_space (c # r))"
      using 1[OF Cons] dropWhile_idem by metis
    finally show ?thesis using Cons by simp
  qed (subst word_tokens.simps, simp del: dropWhile_eq_Nil_conv)
qed

lemma concat_groups: "0 < n \<Longrightarrow> concat (groups n xs) = xs"
proof (induction n xs rule: groups.induct)
  case (1 n xs)
  then show ?case by (subst groups.simps) (auto simp: append_take_drop_id)
qed

lemma concat_map_concat: "concat (map concat xss) = concat (concat xss)"
  by (induction xss) auto

lemma chunks_concat: "0 < n \<Longrightarrow> concat (chunk_content n s) = dropWhile is_space s"
  by (simp add: chunk_content_def concat_map_concat concat_groups concat_words)

text \<open>The text a client reads off a chunk: \<^verbatim>\<open>chunk["choices"][0]["delta"]["content"]\<close>, if there is one.\<close>

definition delta_text :: "pyval \<Rightarrow> string" where
  "delta_text chunk = (case attr chunk ''choices'' PNone of
     PList (choice # _) \<Rightarrow> (case attr (attr choice ''delta'' PNone) ''content'' PNone of PStr t \<Rightarrow> t | _ \<Rightarrow> [])
   | _ \<Rightarrow> [])"

text \<open>
  C8. A stream carries the answer. A client that puts the content of the chunks together has the answer
  without its leading space; the first chunk opens the message, the last has the metadata of the run,
  which name the receipt, and no other chunk has them.
\<close>

theorem stream_carries_the_answer:
  "concat (map delta_text (build_stream_chunks uuid created content epr)) = dropWhile is_space content \<and>
   attr (last (build_stream_chunks uuid created content epr)) ''epr'' PNone = epr \<and>
   list_all (\<lambda>c. attr c ''epr'' PNone = PNone) (butlast (build_stream_chunks uuid created content epr))"
proof (intro conjI)
  have d: "delta_text (render_stream_chunk st created (Some (PDict [(''content'', PStr p)])) PNone None None) = p"
    "delta_text (render_stream_chunk st created (Some (PDict [(''role'', PStr ''assistant'')])) PNone None None) = []"
    "delta_text (render_stream_chunk st created (Some (PDict [])) (PStr ''stop'') None None) = []"
    "delta_text (render_stream_chunk st created None PNone (Some (PList [])) (Some epr)) = []" for st p
    by (simp_all add: delta_text_def render_stream_chunk_def attr_def py_get_def)
  show "concat (map delta_text (build_stream_chunks uuid created content epr)) = dropWhile is_space content"
    by (simp add: build_stream_chunks_def Let_def d comp_def chunks_concat)
qed (simp_all add: build_stream_chunks_def Let_def render_stream_chunk_def attr_def py_get_def butlast_append list_all_iff)

end
