(* ===== verification/Api.thy ===== *)
theory Api
  imports Pipeline_Safety Streaming
begin

text \<open>
  The request handlers of \<^verbatim>\<open>reference/gateway/handlers.py\<close>: the two inference calls, with the
  validation in front of the pipeline, and the calls that read runs and ledgers. A handler answers
  with a status and a body or with a stream; what it raises ends in a 500 of the server.
\<close>

section \<open>Answers and callers\<close>

datatype response = Answer int pyval | Sse "pyval list"

text \<open>The tenant and the role the server found for the request; no role means no authentication.\<close>

record caller =
  cl_tenant :: string
  cl_role :: "string option"

definition invalid :: "int \<Rightarrow> string \<Rightarrow> string \<Rightarrow> string option \<Rightarrow> string \<Rightarrow> response" where
  "invalid code message type param err = Answer code (error_envelope message type param (Some err))"

definition missing_field :: "string \<Rightarrow> string \<Rightarrow> response" where
  "missing_field message param = invalid 400 message ''invalid_request_error'' (Some param) ''missing_field''"

section \<open>Validation\<close>

text \<open>The first message that is wrong, and why.\<close>

definition message_error :: "nat \<Rightarrow> pyval \<Rightarrow> string option" where
  "message_error index message = (case message of
     PDict d \<Rightarrow>
       if \<not> is_str (field_or d ''role'' PNone) \<or> \<not> truthy (field_or d ''role'' PNone)
       then Some (''messages['' @ dec_nat index @ ''].role must be a non-empty string'')
       else (case field_or d ''content'' PNone of
           PNone \<Rightarrow> None
         | PStr _ \<Rightarrow> None
         | PList _ \<Rightarrow> None
         | _ \<Rightarrow> Some (''messages['' @ dec_nat index @ ''].content must be a string, array, or null''))
   | _ \<Rightarrow> Some (''messages['' @ dec_nat index @ ''] must be an object''))"

fun messages_error :: "nat \<Rightarrow> pyval list \<Rightarrow> string option" where
  "messages_error index [] = None"
| "messages_error index (m # ms) = (case message_error index m of Some e \<Rightarrow> Some e | None \<Rightarrow> messages_error (Suc index) ms)"

definition numeric_ranges :: "(string \<times> int \<times> int) list" where
  "numeric_ranges = [(''temperature'', 0, 2), (''top_p'', 0, 1), (''presence_penalty'', -2, 2), (''frequency_penalty'', -2, 2)]"

text \<open>A finite number in a range. \<^verbatim>\<open>math.isfinite\<close> of an integer no float can hold raises.\<close>

definition in_range :: "int \<Rightarrow> int \<Rightarrow> pyval \<Rightarrow> bool res" where
  "in_range lo hi v = (case v of
     PInt i \<Rightarrow> bindE (f_of_int i) (\<lambda>_. Inr (lo \<le> i \<and> i \<le> hi))
   | PFloat f \<Rightarrow> Inr (f_isfinite f \<and> f_le (Fin (of_int lo)) f \<and> f_le f (Fin (of_int hi)))
   | _ \<Rightarrow> Inr False)"

fun range_error :: "pydict \<Rightarrow> (string \<times> int \<times> int) list \<Rightarrow> (string \<times> string) option res" where
  "range_error body [] = Inr None"
| "range_error body ((k, lo, hi) # ranges) = (case map_of body k of
     None \<Rightarrow> range_error body ranges
   | Some v \<Rightarrow> bindE (in_range lo hi v) (\<lambda>ok. if ok then range_error body ranges
       else Inr (Some (k @ '' must be a finite number between '' @ dec_int lo @ '' and '' @ dec_int hi, k))))"

definition positive_int :: "pyval \<Rightarrow> bool" where
  "positive_int v = (case v of PInt i \<Rightarrow> 1 \<le> i | _ \<Rightarrow> False)"

fun count_error :: "pydict \<Rightarrow> string list \<Rightarrow> (string \<times> string) option" where
  "count_error body [] = None"
| "count_error body (k # ks) = (case map_of body k of
     Some v \<Rightarrow> if positive_int v then count_error body ks else Some (k @ '' must be a positive integer'', k)
   | None \<Rightarrow> count_error body ks)"

definition stop_ok :: "pyval \<Rightarrow> bool" where
  "stop_ok v = (case v of PNone \<Rightarrow> True | PStr _ \<Rightarrow> True | PList xs \<Rightarrow> list_all is_str xs | _ \<Rightarrow> False)"

definition is_dict :: "pyval \<Rightarrow> bool" where
  "is_dict v = (case v of PDict _ \<Rightarrow> True | _ \<Rightarrow> False)"

definition is_bool :: "pyval \<Rightarrow> bool" where
  "is_bool v = (case v of PBool _ \<Rightarrow> True | _ \<Rightarrow> False)"

definition has_bad :: "pydict \<Rightarrow> string \<Rightarrow> (pyval \<Rightarrow> bool) \<Rightarrow> bool" where
  "has_bad body k ok = (case map_of body k of None \<Rightarrow> False | Some v \<Rightarrow> \<not> ok v)"

definition option_error :: "pydict \<Rightarrow> (string \<times> string) option" where
  "option_error body =
     (if \<not> stop_ok (field_or body ''stop'' PNone) then Some (''stop must be a string or an array of strings'', ''stop'')
      else if has_bad body ''logit_bias'' is_dict then Some (''logit_bias must be an object'', ''logit_bias'')
      else if has_bad body ''user'' is_str then Some (''user must be a string'', ''user'')
      else if has_bad body ''stream'' is_bool then Some (''stream must be a boolean'', ''stream'')
      else None)"

definition validate_chat_parameters :: "pydict \<Rightarrow> (string \<times> string) option res" where
  "validate_chat_parameters body = (case field_or body ''messages'' PNone of
     PList (m # ms) \<Rightarrow> (case messages_error 0 (m # ms) of
         Some e \<Rightarrow> Inr (Some (e, ''messages''))
       | None \<Rightarrow> bindE (range_error body numeric_ranges) (\<lambda>r. Inr (case r of Some e \<Rightarrow> Some e
           | None \<Rightarrow> (case count_error body [''max_tokens'', ''n''] of Some e \<Rightarrow> Some e | None \<Rightarrow> option_error body))))
   | _ \<Rightarrow> Inr (Some (''messages is required and must be a non-empty array'', ''messages'')))"

section \<open>Inference\<close>

fun block_text :: "pyval list \<Rightarrow> pyval option res" where
  "block_text [] = Inr None"
| "block_text (b # bs) = bindE (py_get b ''type'' PNone) (\<lambda>t. if t = PStr ''output_text''
     then bindE (py_get b ''text'' (PStr [])) (\<lambda>v. Inr (Some v)) else block_text bs)"

fun output_text :: "pyval list \<Rightarrow> pyval res" where
  "output_text [] = Inr (PStr [])"
| "output_text (i # items) = bindE (py_get i ''type'' PNone) (\<lambda>t. if t \<noteq> PStr ''message'' then output_text items else
     bindE (bindE (py_get i ''content'' (PList [])) py_iter) (\<lambda>bs.
     bindE (block_text bs) (\<lambda>found. case found of Some v \<Rightarrow> Inr v | None \<Rightarrow> output_text items)))"

definition extract_stream_content :: "pyval \<Rightarrow> string \<Rightarrow> pyval res" where
  "extract_stream_content result response_format =
     (if response_format = ''responses'' then bindE (bindE (py_get result ''output'' (PList [])) py_iter) output_text
      else (case bindE (py_index result ''choices'') (\<lambda>cs. bindE (py_nth cs 0) (\<lambda>c. bindE (py_index c ''message'') (\<lambda>m. py_index m ''content''))) of
         Inr v \<Rightarrow> Inr v
       | Inl _ \<Rightarrow> Inr (PStr [])))"

text \<open>A stream needs a text: \<^verbatim>\<open>findall\<close> of anything else that is not empty raises.\<close>

definition content_text :: "pyval \<Rightarrow> string res" where
  "content_text v = (case v of PStr t \<Rightarrow> Inr t | _ \<Rightarrow> if truthy v then Inl PyTypeError else Inr [])"

definition stream_success_response :: "string \<Rightarrow> int \<Rightarrow> pyval \<Rightarrow> string \<Rightarrow> response res" where
  "stream_success_response uuid created result response_format =
     bindE (py_get result ''epr'' (PDict [])) (\<lambda>epr.
     bindE (extract_stream_content result response_format) (\<lambda>v.
     bindE (content_text v) (\<lambda>content.
     Inr (Sse (build_stream_chunks uuid created content epr)))))"

definition stream_pipeline_error :: "pyval \<Rightarrow> response res" where
  "stream_pipeline_error body =
     bindE (py_get body ''error'' (PDict [])) (\<lambda>error. bindE (py_get body ''epr'' (PDict [])) (\<lambda>epr.
     Inr (Sse [build_error_stream_chunk error epr])))"

text \<open>The pipeline runs on the request of the caller's tenant; the log of its calls starts empty.\<close>

definition finish_inference :: "pipe_env \<Rightarrow> caller \<Rightarrow> pydict \<Rightarrow> string \<Rightarrow> bool \<Rightarrow> pipe_state \<Rightarrow> pipe_state \<times> response res" where
  "finish_inference env c request response_format stream s =
     (case run_inference_pipeline env response_format (s\<lparr>ps_request := dset ''tenant_id'' (PStr (cl_tenant c)) request, ps_calls := []\<rparr>) of
        (s', Inl (Raised e)) \<Rightarrow> (s', Inl e)
      | (s', Inl (HttpError code body)) \<Rightarrow> (s', if stream then stream_pipeline_error body else Inr (Answer code body))
      | (s', Inr result) \<Rightarrow> if stream
          then (s'\<lparr>ps_tick := Suc (ps_tick s')\<rparr>,
            stream_success_response (pe_uuid env (ps_tick s') 0) (pe_seconds env (ps_tick s')) result response_format)
          else (s', Inr (Answer 200 result)))"

text \<open>What both calls ask of the model and the governance.\<close>

definition model_refusal :: "pyval \<Rightarrow> pydict \<Rightarrow> string \<Rightarrow> response option res" where
  "model_refusal policy body model =
     (let governance = field_or body ''governance'' PNone in
      if governance \<noteq> PNone \<and> \<not> is_dict governance
      then Inr (Some (invalid 422 ''governance must be an object'' ''governance_validation_error'' (Some ''governance'') ''governance_invalid''))
      else bindE (check_requested_model model policy) (\<lambda>reasons.
        if reasons \<noteq> [] then Inr (Some (invalid 403 (''model denied by policy: '' @ join '', '' reasons) ''policy_denied_error'' (Some ''model'') ''model_denied_by_policy''))
        else if model \<noteq> virtual_model_id
        then Inr (Some (invalid 404 (''model '' @ py_repr (PStr model) @ '' not found'') ''invalid_request_error'' (Some ''model'') ''model_not_found''))
        else Inr None))"

definition pipeline_request :: "string \<Rightarrow> pyval \<Rightarrow> pydict \<Rightarrow> string list \<Rightarrow> pydict" where
  "pipeline_request model messages body handled =
     [(''model'', PStr model), (''messages'', messages), (''governance'', field_or body ''governance'' PNone),
      (''passthrough'', PDict (filter (\<lambda>(k, _). k \<notin> set handled) body))]"

text \<open>What a chat body asks for: a refusal, or a request for the pipeline.\<close>

definition chat_request :: "pyval \<Rightarrow> pydict \<Rightarrow> (response + pydict) res" where
  "chat_request policy body = (case field_or body ''model'' PNone of
     PStr (m # odel) \<Rightarrow> (let model = m # odel in
       case field_or body ''messages'' PNone of
         PList (x # xs) \<Rightarrow>
           bindE (validate_chat_parameters body) (\<lambda>err. case err of
             Some (message, param) \<Rightarrow> Inr (Inl (invalid 400 message ''invalid_request_error'' (Some param) ''invalid_parameter''))
           | None \<Rightarrow> bindE (model_refusal policy body model) (\<lambda>refusal. case refusal of
               Some r \<Rightarrow> Inr (Inl r)
             | None \<Rightarrow> Inr (Inr (pipeline_request model (PList (x # xs)) body [''model'', ''messages'', ''governance'', ''stream'']))))
       | _ \<Rightarrow> Inr (Inl (missing_field ''messages is required and must be a non-empty array'' ''messages'')))
   | _ \<Rightarrow> Inr (Inl (missing_field ''model is required'' ''model'')))"

definition handle_chat_completions :: "pipe_env \<Rightarrow> caller \<Rightarrow> pydict \<Rightarrow> pipe_state \<Rightarrow> pipe_state \<times> response res" where
  "handle_chat_completions env c body s = (case chat_request (pe_policy env) body of
     Inl e \<Rightarrow> (s, Inl e)
   | Inr (Inl refusal) \<Rightarrow> (s, Inr refusal)
   | Inr (Inr request) \<Rightarrow> finish_inference env c request ''chat'' (truthy (field_or body ''stream'' PNone)) s)"

definition input_message :: "pyval \<Rightarrow> pyval option" where
  "input_message item = (case item of
     PDict d \<Rightarrow> if field_or d ''type'' PNone = PStr ''message''
       then Some (PDict [(''role'', field_or d ''role'' (PStr ''user'')), (''content'', field_or d ''content'' (PStr []))]) else None
   | _ \<Rightarrow> None)"

definition normalize_responses_input :: "pyval \<Rightarrow> pyval \<Rightarrow> pyval list option" where
  "normalize_responses_input input_value instructions =
     (let system = (if truthy instructions then [PDict [(''role'', PStr ''system''), (''content'', instructions)]] else []) in
      case input_value of
        PStr t \<Rightarrow> Some (system @ [PDict [(''role'', PStr ''user''), (''content'', PStr t)]])
      | PList items \<Rightarrow> if list_all (\<lambda>i. input_message i \<noteq> None) items then Some (system @ List.map_filter input_message items) else None
      | _ \<Rightarrow> None)"

definition responses_request :: "pyval \<Rightarrow> pydict \<Rightarrow> (response + pydict) res" where
  "responses_request policy body = (case field_or body ''model'' PNone of
     PStr (m # odel) \<Rightarrow> (let model = m # odel; input_value = field_or body ''input'' PNone in
       if input_value = PNone then Inr (Inl (missing_field ''input is required'' ''input'')) else
       bindE (model_refusal policy body model) (\<lambda>refusal. case refusal of
         Some r \<Rightarrow> Inr (Inl r)
       | None \<Rightarrow> (case normalize_responses_input input_value (field_or body ''instructions'' PNone) of
           None \<Rightarrow> Inr (Inl (invalid 400 ''unsupported input item type'' ''invalid_request_error'' (Some ''input'') ''unsupported_input_item''))
         | Some messages \<Rightarrow>
             Inr (Inr (pipeline_request model (PList messages) body [''model'', ''input'', ''instructions'', ''governance'', ''stream''])))))
   | _ \<Rightarrow> Inr (Inl (missing_field ''model is required'' ''model'')))"

definition handle_responses :: "pipe_env \<Rightarrow> caller \<Rightarrow> pydict \<Rightarrow> pipe_state \<Rightarrow> pipe_state \<times> response res" where
  "handle_responses env c body s = (case responses_request (pe_policy env) body of
     Inl e \<Rightarrow> (s, Inl e)
   | Inr (Inl refusal) \<Rightarrow> (s, Inr refusal)
   | Inr (Inr request) \<Rightarrow> finish_inference env c request ''responses'' (truthy (field_or body ''stream'' PNone)) s)"

section \<open>Runs and ledgers\<close>

definition sees_all :: "caller \<Rightarrow> bool" where
  "sees_all c = (cl_role c = None \<or> cl_role c = Some ''admin'')"

definition visible_run :: "run_registry \<Rightarrow> caller \<Rightarrow> string \<Rightarrow> run_record option" where
  "visible_run g c run = (case get_run g run of
     None \<Rightarrow> None
   | Some rr \<Rightarrow> if sees_all c \<or> rr_tenant_id rr = cl_tenant c then Some rr else None)"

definition run_not_found :: "string \<Rightarrow> response" where
  "run_not_found run = invalid 404 (''run '' @ py_repr (PStr run) @ '' not found'') ''invalid_request_error'' (Some ''run_id'') ''run_not_found''"

definition handle_get_run :: "run_registry \<Rightarrow> caller \<Rightarrow> string \<Rightarrow> response res" where
  "handle_get_run g c run = (case visible_run g c run of
     None \<Rightarrow> Inr (run_not_found run)
   | Some rr \<Rightarrow> if rr_receipt rr = PNone then Inr (run_not_found run) else Inr (Answer 200 (rr_receipt rr)))"

definition handle_get_trace :: "run_registry \<Rightarrow> caller \<Rightarrow> string \<Rightarrow> response res" where
  "handle_get_trace g c run = (case visible_run g c run of
     None \<Rightarrow> Inr (run_not_found run)
   | Some rr \<Rightarrow> Inr (Answer 200 (PDict [(''run_id'', PStr run), (''trace_id'', PStr (rr_trace_id rr)),
       (''decision_trace'', if truthy (rr_decision_trace rr) then rr_decision_trace rr else PList [])])))"

text \<open>The filters of a query, in their order.\<close>

definition given :: "string option \<Rightarrow> (string \<Rightarrow> pyval list \<Rightarrow> pyval list res) \<Rightarrow> pyval list \<Rightarrow> pyval list res" where
  "given q f events = (case q of None \<Rightarrow> Inr events | Some t \<Rightarrow> if t = [] then Inr events else f t events)"

definition event_actor :: "pyval \<Rightarrow> string res" where
  "event_actor e = bindE (py_get e ''actor'' (PDict [])) (\<lambda>a. bindE (py_get a ''id'' (PStr [])) (\<lambda>v. Inr (py_str v)))"

definition event_time :: "(string \<Rightarrow> bool) \<Rightarrow> pyval \<Rightarrow> bool res" where
  "event_time ok e = bindE (py_get e ''timestamp'' (PStr [])) (\<lambda>v. case v of PStr t \<Rightarrow> Inr (ok t) | _ \<Rightarrow> Inl PyTypeError)"

definition filter_events ::
  "string option \<Rightarrow> string option \<Rightarrow> string option \<Rightarrow> string option \<Rightarrow> pyval list \<Rightarrow> pyval list res" where
  "filter_events event_type actor from_ts to_ts events =
     bindE (given event_type (\<lambda>t. filterE (\<lambda>e. bindE (py_get e ''event_type'' PNone) (\<lambda>v. Inr (v = PStr t)))) events) (\<lambda>es.
     bindE (given actor (\<lambda>t. filterE (\<lambda>e. bindE (event_actor e) (\<lambda>a. Inr (a = t)))) es) (\<lambda>es.
     bindE (given from_ts (\<lambda>t. filterE (event_time (\<lambda>ts. t \<le> ts))) es) (\<lambda>es.
     given to_ts (\<lambda>t. filterE (event_time (\<lambda>ts. ts \<le> t))) es)))"

definition handle_ledger_events ::
  "run_registry \<Rightarrow> caller \<Rightarrow> string option \<Rightarrow> string option \<Rightarrow> string option \<Rightarrow> string option \<Rightarrow> string option \<Rightarrow> response res" where
  "handle_ledger_events g c run event_type actor from_ts to_ts =
     (let reply = (\<lambda>events. bindE (filter_events event_type actor from_ts to_ts events) (\<lambda>es.
            Inr (Answer 200 (PDict [(''object'', PStr ''list''), (''data'', PList es), (''count'', PInt (int (length es)))])))) in
      if run \<noteq> None \<and> run \<noteq> Some [] then (case visible_run g c (the run) of
          None \<Rightarrow> Inr (run_not_found (the run))
        | Some rr \<Rightarrow> bindE (py_iter (rr_events rr)) reply)
      else bindE (mapE (\<lambda>rr. py_iter (rr_events rr))
          (filter (\<lambda>rr. sees_all c \<or> rr_tenant_id rr = cl_tenant c) (map snd (rg_runs g)))) (\<lambda>ess. reply (concat ess)))"

definition with_head :: "run_registry \<Rightarrow> string \<Rightarrow> run_record \<Rightarrow> (pyval \<Rightarrow> pyval \<Rightarrow> pydict) \<Rightarrow> response res" where
  "with_head g run rr body =
     bindE (head_hash g run) (\<lambda>head. bindE (py_len (rr_events rr)) (\<lambda>n. Inr (Answer 200 (PDict (body head (PInt (int n)))))))"

definition handle_ledger_chain :: "run_registry \<Rightarrow> caller \<Rightarrow> string \<Rightarrow> response res" where
  "handle_ledger_chain g c run = (case visible_run g c run of
     None \<Rightarrow> Inr (run_not_found run)
   | Some rr \<Rightarrow> with_head g run rr (\<lambda>head n. [(''run_id'', PStr run), (''chain'', rr_events rr), (''head_hash'', head), (''event_count'', n)]))"

definition handle_ledger_verify :: "(string \<Rightarrow> string) \<Rightarrow> run_registry \<Rightarrow> caller \<Rightarrow> string \<Rightarrow> response res" where
  "handle_ledger_verify sha g c run = (case visible_run g c run of
     None \<Rightarrow> Inr (run_not_found run)
   | Some rr \<Rightarrow> bindE (event_list (rr_events rr)) (\<lambda>es. bindE (verify_chain sha es) (\<lambda>(ok, message).
       with_head g run rr (\<lambda>head n. [(''run_id'', PStr run), (''valid'', PBool ok), (''message'', PStr message), (''event_count'', n), (''head_hash'', head)]))))"

definition handle_ledger_export :: "run_registry \<Rightarrow> caller \<Rightarrow> string \<Rightarrow> response res" where
  "handle_ledger_export g c run = (case visible_run g c run of
     None \<Rightarrow> Inr (run_not_found run)
   | Some rr \<Rightarrow> bindE (event_list (rr_events rr)) (\<lambda>es.
       bindE (if es = [] then Inr (PStr []) else py_index (PDict (last es)) ''timestamp'') (\<lambda>exported.
       with_head g run rr (\<lambda>head n. [(''run_id'', PStr run), (''trace_id'', PStr (rr_trace_id rr)), (''exported_at'', exported),
         (''events'', rr_events rr), (''head_hash'', head), (''event_count'', n)]))))"

text \<open>\<^verbatim>\<open>items[offset:offset + limit]\<close> with the total; offsets and limits of the server are not negative.\<close>

definition paginate :: "pyval list \<Rightarrow> nat \<Rightarrow> nat \<Rightarrow> pyval" where
  "paginate items limit offset =
     PDict [(''data'', PList (take limit (drop offset items))),
       (''pagination'', PDict [(''total'', PInt (int (length items))), (''limit'', PInt (int limit)), (''offset'', PInt (int offset)),
         (''has_more'', PBool (offset + limit < length items))])]"

section \<open>Which bodies reach the pipeline\<close>

definition good_message :: "pyval \<Rightarrow> bool" where
  "good_message m = (\<exists>d r. m = PDict d \<and> map_of d ''role'' = Some (PStr r) \<and> r \<noteq> [] \<and>
     field_or d ''content'' PNone \<notin> {PBool True, PBool False} \<and> (\<forall>i. field_or d ''content'' PNone \<noteq> PInt i) \<and>
     (\<forall>f. field_or d ''content'' PNone \<noteq> PFloat f) \<and> (\<forall>e. field_or d ''content'' PNone \<noteq> PDict e))"

definition number_between :: "int \<Rightarrow> int \<Rightarrow> pyval \<Rightarrow> bool" where
  "number_between lo hi v = ((\<exists>i. v = PInt i \<and> lo \<le> i \<and> i \<le> hi) \<or> (\<exists>r. v = PFloat (Fin r) \<and> of_int lo \<le> r \<and> r \<le> of_int hi))"

definition well_formed_chat :: "pydict \<Rightarrow> bool" where
  "well_formed_chat body = (map_of body ''model'' = Some (PStr virtual_model_id) \<and>
     (\<exists>ms. map_of body ''messages'' = Some (PList ms) \<and> ms \<noteq> [] \<and> (\<forall>m\<in>set ms. good_message m)) \<and>
     (\<forall>(k, lo, hi)\<in>set numeric_ranges. \<forall>v. map_of body k = Some v \<longrightarrow> number_between lo hi v) \<and>
     (\<forall>k\<in>{''max_tokens'', ''n''}. \<forall>v. map_of body k = Some v \<longrightarrow> (\<exists>i. v = PInt i \<and> 1 \<le> i)) \<and>
     (\<forall>v. map_of body ''stop'' = Some v \<longrightarrow> v = PNone \<or> (\<exists>t. v = PStr t) \<or> (\<exists>ts. v = PList (map PStr ts))) \<and>
     (\<forall>v. map_of body ''logit_bias'' = Some v \<longrightarrow> (\<exists>d. v = PDict d)) \<and> (\<forall>v. map_of body ''user'' = Some v \<longrightarrow> (\<exists>t. v = PStr t)) \<and>
     (\<forall>v. map_of body ''stream'' = Some v \<longrightarrow> (\<exists>b. v = PBool b)) \<and>
     (\<forall>v. map_of body ''governance'' = Some v \<longrightarrow> v = PNone \<or> (\<exists>d. v = PDict d)))"

lemma message_error_None: "message_error n m = None \<longleftrightarrow> good_message m"
  by (auto simp: message_error_def good_message_def is_str_def field_or_def split: pyval.splits option.splits)

lemma messages_error_None: "messages_error n ms = None \<longleftrightarrow> (\<forall>m\<in>set ms. good_message m)"
proof (induction ms arbitrary: n)
  case (Cons m ms)
  then show ?case using message_error_None[of n m] by (cases "message_error n m") auto
qed simp

lemma small_int: "-2 \<le> i \<Longrightarrow> i \<le> 2 \<Longrightarrow> isl (f_of_int i) = False"
proof -
  assume "-2 \<le> i" "i \<le> 2"
  then have "i \<in> {-2, -1, 0, 1, 2}" by auto
  moreover have "\<not> isl (f_of_int (-2))" "\<not> isl (f_of_int (-1))" "\<not> isl (f_of_int 0)" "\<not> isl (f_of_int 1)" "\<not> isl (f_of_int 2)" by code_simp+
  ultimately show ?thesis by auto
qed

lemma in_range_True: "-2 \<le> lo \<Longrightarrow> hi \<le> 2 \<Longrightarrow> in_range lo hi v = Inr True \<longleftrightarrow> number_between lo hi v"
proof (cases v)
  case (PInt i)
  assume "-2 \<le> lo" "hi \<le> 2"
  then show ?thesis using small_int[of i]
    by (cases "f_of_int i") (auto simp: PInt in_range_def number_between_def)
next
  case (PFloat f)
  then show ?thesis by (cases f) (auto simp: in_range_def number_between_def f_isfinite_def f_le_def)
qed (auto simp: in_range_def number_between_def)

lemma range_error_None: "\<forall>(k, lo, hi)\<in>set ranges. -2 \<le> lo \<and> hi \<le> 2 \<Longrightarrow>
    range_error body ranges = Inr None \<longleftrightarrow> (\<forall>(k, lo, hi)\<in>set ranges. \<forall>v. map_of body k = Some v \<longrightarrow> number_between lo hi v)"
proof (induction ranges)
  case (Cons x ranges)
  obtain k lo hi where x: "x = (k, lo, hi)" by (cases x) auto
  have r: "in_range lo hi v = Inr True \<longleftrightarrow> number_between lo hi v" for v using Cons.prems by (intro in_range_True) (auto simp: x)
  show ?case using Cons r by (auto simp: x bindE_eq_Inr split: option.splits if_splits)
qed simp

lemma count_error_None: "count_error body ks = None \<longleftrightarrow> (\<forall>k\<in>set ks. \<forall>v. map_of body k = Some v \<longrightarrow> (\<exists>i. v = PInt i \<and> 1 \<le> i))"
  by (induction ks) (auto simp: positive_int_def split: option.splits pyval.splits if_splits)

lemma texts: "list_all is_str xs \<longleftrightarrow> (\<exists>ts. xs = map PStr ts)"
proof
  assume "list_all is_str xs"
  then show "\<exists>ts. xs = map PStr ts"
  proof (induction xs)
    case (Cons x xs)
    then obtain t ts where "x = PStr t" "xs = map PStr ts" by (auto simp: is_str_def split: pyval.splits)
    then show ?case by (intro exI[of _ "t # ts"]) simp
  qed simp
qed (auto simp: list_all_iff is_str_def)

lemma option_error_None: "option_error body = None \<longleftrightarrow>
    (\<forall>v. map_of body ''stop'' = Some v \<longrightarrow> v = PNone \<or> (\<exists>t. v = PStr t) \<or> (\<exists>ts. v = PList (map PStr ts))) \<and>
    (\<forall>v. map_of body ''logit_bias'' = Some v \<longrightarrow> (\<exists>d. v = PDict d)) \<and> (\<forall>v. map_of body ''user'' = Some v \<longrightarrow> (\<exists>t. v = PStr t)) \<and>
    (\<forall>v. map_of body ''stream'' = Some v \<longrightarrow> (\<exists>b. v = PBool b))"
  by (auto simp: option_error_def stop_ok_def has_bad_def is_dict_def is_str_def is_bool_def field_or_def texts split: option.splits pyval.splits)

lemma virtual_allowed: "check_requested_model virtual_model_id policy = Inr []"
proof -
  have "lower virtual_model_id = virtual_model" by code_simp
  then show ?thesis by (simp add: check_requested_model_def)
qed

lemma validated_chat: "validate_chat_parameters body = Inr None \<longleftrightarrow>
    (\<exists>ms. map_of body ''messages'' = Some (PList ms) \<and> ms \<noteq> [] \<and> (\<forall>m\<in>set ms. good_message m)) \<and>
    (\<forall>(k, lo, hi)\<in>set numeric_ranges. \<forall>v. map_of body k = Some v \<longrightarrow> number_between lo hi v) \<and>
    (\<forall>k\<in>{''max_tokens'', ''n''}. \<forall>v. map_of body k = Some v \<longrightarrow> (\<exists>i. v = PInt i \<and> 1 \<le> i)) \<and> option_error body = None"
proof (cases "\<exists>m ms. field_or body ''messages'' PNone = PList (m # ms)")
  case True
  then obtain m ms where m: "field_or body ''messages'' PNone = PList (m # ms)" by blast
  then have b: "map_of body ''messages'' = Some (PList (m # ms))" by (simp add: field_or_def split: option.splits)
  have r: "range_error body numeric_ranges = Inr None \<longleftrightarrow>
      (\<forall>(k, lo, hi)\<in>set numeric_ranges. \<forall>v. map_of body k = Some v \<longrightarrow> number_between lo hi v)"
    by (rule range_error_None) (simp add: numeric_ranges_def)
  have n: "count_error body [''max_tokens'', ''n''] = None \<longleftrightarrow>
      (\<forall>k\<in>{''max_tokens'', ''n''}. \<forall>v. map_of body k = Some v \<longrightarrow> (\<exists>i. v = PInt i \<and> 1 \<le> i))"
    using count_error_None[of body "[''max_tokens'', ''n'']"] by simp
  have "validate_chat_parameters body = Inr None \<longleftrightarrow> messages_error 0 (m # ms) = None \<and> range_error body numeric_ranges = Inr None \<and>
      count_error body [''max_tokens'', ''n''] = None \<and> option_error body = None"
    unfolding validate_chat_parameters_def m
    by (cases "range_error body numeric_ranges"; cases "messages_error 0 (m # ms)"; cases "count_error body [''max_tokens'', ''n'']")
      (auto simp del: messages_error.simps count_error.simps split: option.splits)
  then show ?thesis unfolding r n messages_error_None b by simp
next
  case False
  then show ?thesis
    by (auto simp: validate_chat_parameters_def field_or_def neq_Nil_conv split: pyval.splits list.splits option.splits)
qed

lemma governance_ok: "field_or body ''governance'' PNone \<noteq> PNone \<and> \<not> is_dict (field_or body ''governance'' PNone) \<longleftrightarrow>
    \<not> (\<forall>v. map_of body ''governance'' = Some v \<longrightarrow> v = PNone \<or> (\<exists>d. v = PDict d))"
  by (auto simp: field_or_def is_dict_def split: option.splits pyval.splits)

lemma refusal_None: "model_refusal policy body model = Inr None \<longleftrightarrow> model = virtual_model_id \<and>
    (\<forall>v. map_of body ''governance'' = Some v \<longrightarrow> v = PNone \<or> (\<exists>d. v = PDict d))"
  unfolding model_refusal_def Let_def governance_ok
  by (auto simp: virtual_allowed bindE_eq_Inr split: if_splits)

definition chat_keys :: "string list" where
  "chat_keys = [''model'', ''messages'', ''governance'', ''stream'']"

lemma chat_request_ok:
  "chat_request policy body = Inr (Inr request) \<longleftrightarrow> well_formed_chat body \<and>
     request = pipeline_request virtual_model_id (field_or body ''messages'' PNone) body chat_keys"
proof -
  have "chat_request policy body = Inr (Inr request) \<longleftrightarrow>
      (\<exists>model x xs. field_or body ''model'' PNone = PStr model \<and> model \<noteq> [] \<and> field_or body ''messages'' PNone = PList (x # xs) \<and>
        validate_chat_parameters body = Inr None \<and> model_refusal policy body model = Inr None \<and>
        request = pipeline_request model (PList (x # xs)) body chat_keys)"
    unfolding chat_request_def Let_def chat_keys_def
    by (auto simp: bindE_eq_Inr neq_Nil_conv split: pyval.split list.split option.splits)
  also have "\<dots> \<longleftrightarrow> well_formed_chat body \<and> request = pipeline_request virtual_model_id (field_or body ''messages'' PNone) body chat_keys"
    unfolding validated_chat refusal_None option_error_None well_formed_chat_def
    by (auto simp: field_or_def neq_Nil_conv virtual_model_id_def split: option.splits)
  finally show ?thesis .
qed


section \<open>What a caller can learn\<close>

definition visible_part :: "caller \<Rightarrow> run_registry \<Rightarrow> (string \<times> run_record) list" where
  "visible_part c g = filter (\<lambda>(run, rr). sees_all c \<or> rr_tenant_id rr = cl_tenant c) (rg_runs g)"

lemma visible_map: "dict_ok (rg_runs g) \<Longrightarrow> visible_run g c run = map_of (visible_part c g) run"
proof -
  have "dict_ok d \<Longrightarrow> (case map_of d run of None \<Rightarrow> None | Some rr \<Rightarrow> if P rr then Some rr else None) = map_of (filter (\<lambda>(run, rr). P rr) d) run" for d P
  proof (induction d)
    case (Cons x d)
    obtain k rr where x: "x = (k, rr)" by fastforce
    have "map_of (filter (\<lambda>(run, rr). P rr) d) k = None" if "k \<notin> fst ` set d"
      using that by (auto simp: map_of_eq_None_iff)
    then show ?case using Cons by (auto simp: x dict_ok_def)
  qed simp
  then show "dict_ok (rg_runs g) \<Longrightarrow> ?thesis" by (simp add: visible_run_def visible_part_def get_run_def)
qed

lemma visible_get: "visible_run g c run = Some rr \<Longrightarrow> map_of (rg_runs g) run = Some rr"
  by (simp add: visible_run_def get_run_def split: option.splits if_splits)

lemma head_of_visible: "visible_run g c run = Some rr \<Longrightarrow> head_hash g run =
    bindE (event_list (rr_events rr)) (\<lambda>es. if es = [] then Inr (PStr ''GENESIS'') else py_index (PDict (last es)) ''event_hash'')"
  by (simp add: head_hash_def require_run_def visible_get)

lemma visible_records: "filter (\<lambda>rr. sees_all c \<or> rr_tenant_id rr = cl_tenant c) (map snd (rg_runs g)) = map snd (visible_part c g)"
  by (simp add: visible_part_def filter_map comp_def case_prod_unfold)

text \<open>
  C6. Tenants are kept apart. What the calls that read runs and ledgers answer depends only on the
  runs of the caller's own tenant: two registries with the same such runs give the same answers, so
  no caller but an administrator learns from them anything about the runs of another tenant, not even
  that they exist.
\<close>

theorem tenants_are_isolated:
  assumes "visible_part c g = visible_part c g'" "dict_ok (rg_runs g)" "dict_ok (rg_runs g')"
  shows "handle_get_run g c run = handle_get_run g' c run \<and> handle_get_trace g c run = handle_get_trace g' c run \<and>
    handle_ledger_events g c query event_type actor from_ts to_ts = handle_ledger_events g' c query event_type actor from_ts to_ts \<and>
    handle_ledger_chain g c run = handle_ledger_chain g' c run \<and> handle_ledger_verify sha g c run = handle_ledger_verify sha g' c run \<and>
    handle_ledger_export g c run = handle_ledger_export g' c run"
proof -
  have v: "visible_run g c r = visible_run g' c r" for r using visible_map assms by simp
  have h: "with_head g run rr f = with_head g' run rr f" if "visible_run g' c run = Some rr" for rr f
    using head_of_visible[of g c run rr] head_of_visible[of g' c run rr] that v by (simp add: with_head_def)
  show ?thesis
    by (auto simp: handle_get_run_def handle_get_trace_def handle_ledger_chain_def handle_ledger_verify_def handle_ledger_export_def
        handle_ledger_events_def Let_def v h visible_records assms(1) split: option.split intro!: bindE_cong)
qed

definition two_tenants :: "string \<Rightarrow> run_registry" where
  "two_tenants trace = \<lparr>rg_runs = [(''r1'', (blank_record ''r1'' ''t1'')\<lparr>rr_tenant_id := ''acme''\<rparr>),
     (''r2'', (blank_record ''r2'' trace)\<lparr>rr_tenant_id := ''beta''\<rparr>)], rg_max = 5\<rparr>"

theorem tenants_are_isolated_witness:
  "handle_get_trace (two_tenants ''x'') \<lparr>cl_tenant = ''acme'', cl_role = Some ''auditor''\<rparr> ''r2'' =
   handle_get_trace (two_tenants ''y'') \<lparr>cl_tenant = ''acme'', cl_role = Some ''auditor''\<rparr> ''r2''"
proof -
  let ?c = "\<lparr>cl_tenant = ''acme'', cl_role = Some ''auditor''\<rparr>"
  have "visible_part ?c (two_tenants ''x'') = visible_part ?c (two_tenants ''y'')"
    by (simp add: visible_part_def two_tenants_def sees_all_def)
  then show ?thesis using tenants_are_isolated[of ?c "two_tenants ''x''" "two_tenants ''y''" "''r2''"]
    by (simp add: two_tenants_def dict_ok_def)
qed

end
