(* ===== verification/Isolation.thy ===== *)
theory Isolation
  imports Api
begin

text \<open>
  What one request can change of the others' runs: the pipeline works on the record of its own run and
  leaves every other record as it is, and the tenant of a run is never changed.
\<close>

section \<open>Computations that work on one run\<close>

definition agrees :: "string \<Rightarrow> pipe_state \<Rightarrow> pipe_state \<Rightarrow> bool" where
  "agrees run s s' = ((\<forall>x. x \<noteq> run \<longrightarrow> map_of (rg_runs (ps_registry s')) x = map_of (rg_runs (ps_registry s)) x) \<and>
     map_option rr_tenant_id (map_of (rg_runs (ps_registry s')) run) = map_option rr_tenant_id (map_of (rg_runs (ps_registry s)) run) \<and>
     vsm_transitions (ps_machine s') = vsm_transitions (ps_machine s) \<and> vsm_initial (ps_machine s') = vsm_initial (ps_machine s))"

definition confined :: "string \<Rightarrow> 'a pipe \<Rightarrow> bool" where
  "confined run m = (\<forall>s. agrees run s (fst (m s)))"

named_theorems confined_intros \<open>computations that work on one run\<close>

lemma agrees_refl [simp]: "agrees run s s"
  by (simp add: agrees_def)

lemma agrees_trans: "agrees run s s' \<Longrightarrow> agrees run s' s'' \<Longrightarrow> agrees run s s''"
  by (simp add: agrees_def)

lemma agrees_put: "map_of (rg_runs (ps_registry s)) run = Some rr \<Longrightarrow> rr_tenant_id rr' = rr_tenant_id rr \<Longrightarrow>
    agrees run s (s\<lparr>ps_registry := put_run (ps_registry s) run rr'\<rparr>)"
  by (simp add: agrees_def put_run_def)

lemma agrees_other [simp]: "agrees run s (s\<lparr>ps_tick := n\<rparr>)" "agrees run s (s\<lparr>ps_calls := cs\<rparr>)" "agrees run s (s\<lparr>ps_cache := ca\<rparr>)"
  "agrees run s (s\<lparr>ps_escalation := p\<rparr>)" "agrees run s (s\<lparr>ps_request := q\<rparr>)"
  by (simp_all add: agrees_def)

lemma confined_bind [confined_intros]:
  assumes "confined run m" "\<And>x. confined run (f x)" shows "confined run (bindP m f)"
  unfolding confined_def
proof
  fix s
  obtain s' r where m: "m s = (s', r)" by fastforce
  have "agrees run s s'" using assms(1) m unfolding confined_def by (metis fst_conv)
  moreover have "agrees run s' (fst (f x s'))" for x using assms(2) by (simp add: confined_def)
  ultimately show "agrees run s (fst (bindP m f s))"
    by (auto simp: bindP_def m intro: agrees_trans split: sum.split)
qed

lemma confined_then [confined_intros]: "confined run m \<Longrightarrow> confined run k \<Longrightarrow> confined run (thenP m k)"
  unfolding thenP_def by (rule confined_bind)

lemma confined_basic [confined_intros]:
  "confined run (returnP x)" "confined run (raiseP e)" "confined run (liftP r)" "confined run (getP f)" "confined run tickP"
  "confined run (recordP y)" "confined run (head_hashP y)" "confined run (callP c)"
  by (simp_all add: confined_def returnP_def raiseP_def liftP_def getP_def tickP_def recordP_def head_hashP_def callP_def modifyP_def)

lemma confined_transition [confined_intros]: "confined run (transitionP y k ok)"
  by (auto simp: confined_def transitionP_def agrees_def transition_def Let_def split: sum.split prod.split option.split)

lemma confined_modify [confined_intros]:
  "confined run (modifyP (\<lambda>s. s\<lparr>ps_cache := ca s\<rparr>))" "confined run (modifyP (\<lambda>s. s\<lparr>ps_escalation := p s\<rparr>))"
  "confined run (modifyP (\<lambda>s. s\<lparr>ps_request := q s\<rparr>))"
  by (simp_all add: confined_def modifyP_def)

lemma confined_when [confined_intros]: "confined run m \<Longrightarrow> confined run (whenP b m)"
  by (simp add: whenP_def confined_basic)

lemma confined_option [confined_intros]: "confined run m \<Longrightarrow> (\<And>x. confined run (k x)) \<Longrightarrow> confined run (case v of None \<Rightarrow> m | Some x \<Rightarrow> k x)"
  by (simp split: option.split)

lemma confined_pair [confined_intros]: "(\<And>x y. confined run (h x y)) \<Longrightarrow> confined run (case p of (x, y) \<Rightarrow> h x y)"
  by (simp split: prod.split)

lemma confined_sum [confined_intros]: "(\<And>x. confined run (a x)) \<Longrightarrow> (\<And>y. confined run (b y)) \<Longrightarrow> confined run (case u of Inl x \<Rightarrow> a x | Inr y \<Rightarrow> b y)"
  by (simp split: sum.split)

lemma confined_list [confined_intros]: "confined run m \<Longrightarrow> (\<And>x xs. confined run (k x xs)) \<Longrightarrow> confined run (case v of [] \<Rightarrow> m | x # xs \<Rightarrow> k x xs)"
  by (simp split: list.split)

lemma confined_if [confined_intros]: "confined run m \<Longrightarrow> confined run m' \<Longrightarrow> confined run (if c then m else m')"
  by simp

lemma confined_each [confined_intros]: "(\<And>x. confined run (f x)) \<Longrightarrow> confined run (eachP f xs)"
  by (induction xs) (auto intro: confined_intros)

lemma confined_registry:
  assumes "\<And>g g'. f g = Inr g' \<Longrightarrow> \<exists>rr rr'. map_of (rg_runs g) run = Some rr \<and> g' = put_run g run rr' \<and> rr_tenant_id rr' = rr_tenant_id rr"
  shows "confined run (registryP f)"
  using assms by (fastforce simp: confined_def registryP_def intro: agrees_put split: sum.split)

lemma confined_set_record [confined_intros]:
  assumes "\<And>r. rr_tenant_id (f r) = rr_tenant_id r" shows "confined run (set_recordP run f)"
  using assms by (auto simp: confined_def set_recordP_def bindP_def recordP_def liftP_def modifyP_def require_run_def intro: agrees_put split: option.split)

lemma confined_ledger [confined_intros]: "confined run (ledgerP env run kind actor subject payload)"
  unfolding ledgerP_def
proof (intro confined_bind confined_basic confined_registry)
  fix t g g'
  assume "bindE (ledger (pe_sha env) (pe_uuid env t 0) (pe_now env t 0) g run kind actor (PStr subject) payload) (\<lambda>(g', _). Inr g') = Inr g'"
  then show "\<exists>rr rr'. map_of (rg_runs g) run = Some rr \<and> g' = put_run g run rr' \<and> rr_tenant_id rr' = rr_tenant_id rr"
    unfolding ledger_def require_run_def append_to_run_def
    by (auto simp: bindE_eq_Inr split: option.splits)
qed

lemma confined_receipt [confined_intros]: "confined run (receiptP env run outcome results cost)"
  unfolding receiptP_def
proof (intro confined_bind confined_basic confined_registry)
  fix t g g'
  assume "bindE (issue_receipt (pe_uuid env t 0) (pe_now env t 0) g run outcome (PList results) (PFloat cost)) (\<lambda>(g', _). Inr g') = Inr g'"
  then show "\<exists>rr rr'. map_of (rg_runs g) run = Some rr \<and> g' = put_run g run rr' \<and> rr_tenant_id rr' = rr_tenant_id rr"
    unfolding issue_receipt_def require_run_def Let_def
    by (auto simp: bindE_eq_Inr split: option.splits)
qed

section \<open>The stages\<close>

lemma confined_add_evidence [confined_intros]: "confined run (add_evidenceP run e)"
  unfolding add_evidenceP_def by (intro confined_intros) simp_all

lemma confined_enrich [confined_intros]: "confined run (enrichP env run payload f)"
  unfolding enrichP_def by (intro confined_intros) simp_all

lemma confined_fallback [confined_intros]: "confined run (record_fallbackP env run subject cls source target reason)"
  unfolding record_fallbackP_def Let_def by (intro confined_intros) simp_all

lemma confined_send [confined_intros]: "confined run (sendP env local payload)"
  unfolding sendP_def Let_def by (intro confined_intros)

lemma confined_transport [confined_intros]: "confined run (transportP env run plan final)"
  unfolding transportP_def Let_def by (intro confined_intros) simp_all

lemma confined_call [confined_intros]: "confined run (call_openrouter env run plan final)"
  unfolding call_openrouter_def Let_def by (intro confined_intros) simp_all

lemma confined_catch:
  assumes "confined run m" "\<And>err. confined run (k err)"
  shows "confined run (\<lambda>s. case m s of (s', Inl (Raised (UpstreamError err))) \<Rightarrow> k err s' | r \<Rightarrow> r)"
  unfolding confined_def
proof
  fix s
  obtain s' r where m: "m s = (s', r)" by fastforce
  have a: "agrees run s s'" using assms(1) m unfolding confined_def by (metis fst_conv)
  moreover have "agrees run s' (fst (k err s'))" for err using assms(2) by (simp add: confined_def)
  ultimately have "agrees run s (fst (k err s'))" for err by (rule agrees_trans)
  with a show "agrees run s (fst (case m s of (s', Inl (Raised (UpstreamError err))) \<Rightarrow> k err s' | r \<Rightarrow> r))"
    by (simp add: m split: sum.split pipe_exc.split pyexc.split)
qed

lemma confined_try [confined_intros]: "confined run (try_plans env run subject failed plans)"
  by (induction plans arbitrary: failed) (auto intro!: confined_intros confined_catch simp del: not_None_eq)

lemma confined_tenantless [confined_intros]:
  "confined run (registryP (\<lambda>g. record_human_intervention g run why))" "confined run (registryP (\<lambda>g. record_rework g run why))"
  by (auto simp: record_human_intervention_def record_rework_def require_run_def bindE_eq_Inr intro!: confined_registry split: option.splits)
    (rule exI, rule conjI, rule refl, simp)+

lemma confined_execute [confined_intros]: "confined run (execute_with_fallback env run subject decision)"
  unfolding execute_with_fallback_def Let_def by (intro confined_intros)

lemma confined_local [confined_intros]: "confined run (should_escalate_local env prefer contract risk)"
  unfolding should_escalate_local_def by (intro confined_intros)

lemma confined_completed [confined_intros]: "confined run (record_completed_run y)"
  unfolding record_completed_run_def by (intro confined_intros)

lemma confined_flush [confined_intros]: "confined run (flush_transitions env run subject)"
  unfolding flush_transitions_def Let_def case_prod_beta by (intro confined_intros) simp_all

lemma confined_payload [confined_intros]: "confined run (verification_payload env run st risk policy results)"
  unfolding verification_payload_def by (intro confined_intros)

lemma confined_verify [confined_intros]: "confined run (execute_and_verify env run subject decision contract risk policy first)"
  unfolding execute_and_verify_def Let_def by (intro confined_intros) simp_all

lemma confined_cached [confined_intros]: "confined run (cached_answer env)"
  unfolding cached_answer_def by (intro confined_intros)

lemma confined_governance [confined_intros]: "confined (id_run i) (governance_stage env i)"
  unfolding governance_stage_def Let_def by (intro confined_intros)

lemma confined_contract [confined_intros]: "confined (id_run i) (contract_stage env i merged)"
  unfolding contract_stage_def Let_def by (intro confined_intros) simp_all

lemma confined_capsule [confined_intros]: "confined (id_run i) (capsuleP env i contract cs)"
  unfolding capsuleP_def Let_def by (intro confined_intros) simp_all

lemma confined_context [confined_intros]: "confined (id_run i) (context_stage env i contract)"
  unfolding context_stage_def Let_def by (intro confined_intros) simp_all

lemma confined_compression [confined_intros]: "confined (id_run i) (compression_stage env i)"
  unfolding compression_stage_def Let_def by (intro confined_intros) simp_all

lemma confined_reject [confined_intros]: "confined (id_run i) (reject_route env i decision)" "confined (id_run i) (reject_experimental env i decision)"
  unfolding reject_route_def reject_experimental_def Let_def by (intro confined_intros)+

lemma confined_route [confined_intros]: "confined (id_run i) (route_stage env i contract policy portfolio canary)"
  unfolding route_stage_def Let_def by (intro confined_intros) (simp_all split: option.split)

lemma confined_start [confined_intros]: "confined (id_run i) (start_stage env i contract decision)"
  unfolding start_stage_def Let_def by (intro confined_intros)

lemma confined_retry [confined_intros]: "confined (id_run i) (retry_stage env i prefer contract risk oc)"
  unfolding retry_stage_def Let_def by (intro confined_intros)

lemma confined_review [confined_intros]: "confined (id_run i) (review_stage env i risk results)"
  unfolding review_stage_def resolve_human_review_def Let_def by (intro confined_intros)

lemma confined_fallback_stage [confined_intros]: "confined (id_run i) (fallback_stage env i decision oc)"
  unfolding fallback_stage_def Let_def by (intro confined_intros)

lemma confined_fail [confined_intros]: "confined (id_run i) (fail_stage env i decision risk policy oc)"
  unfolding fail_stage_def Let_def by (intro confined_intros)

lemma confined_accept [confined_intros]: "confined (id_run i) (accept_stage env i decision risk policy oc)"
  unfolding accept_stage_def Let_def by (intro confined_intros) (simp_all split: option.split)

lemma confined_answer [confined_intros]: "confined (id_run i) (answer_stage env i response_format decision oc cr charged)"
  unfolding answer_stage_def Let_def by (intro confined_intros)

lemma confined_notify [confined_intros]:
  "confined run (webhookP env event payload)" "confined run (alertP env kind severity message details)"
  unfolding webhookP_def alertP_def by (intro confined_intros)+

lemma confined_finish [confined_intros]: "confined (id_run i) (finish_stage env i tenant oc answer)"
  unfolding finish_stage_def Let_def by (intro confined_intros)

section \<open>A whole request\<close>

lemma trimmed:
  assumes "dict_ok (rg_runs g)" "0 \<le> rg_max g" "map_of (rg_runs (trim g)) x = Some rr"
  shows "map_of (rg_runs g) x = Some rr"
proof -
  have "(x, rr) \<in> set (rg_runs (trim g))" using assms(3) by (rule map_of_SomeD)
  then have "(x, rr) \<in> set (rg_runs g)" using assms(2) set_drop_subset by (fastforce simp: trim_def trim_runs_drop)
  then show ?thesis by (simp add: map_of_iff_in_set[OF assms(1)])
qed

lemma begun_others:
  assumes "registry_ok (pe_sha env) (ps_registry s)" "begin_stage env tenant s = (s', Inr i)" "map_of (rg_runs (ps_registry s')) x = Some rr"
  shows "if x = id_run i then rr_tenant_id rr = tenant else map_of (rg_runs (ps_registry s)) x = Some rr"
proof (cases "x = id_run i")
  case False
  note b = begin_stage_run[OF assms(1,2)]
  have ok: "dict_ok (rg_runs (ps_registry s))" "0 \<le> rg_max (ps_registry s)" using assms(1) by (simp_all add: registry_ok_def)
  let ?g = "(ps_registry s)\<lparr>rg_runs := dset (id_run i) ((blank_record (id_run i) (id_trace i))\<lparr>rr_epistemic_state := Some new_state, rr_epistemic_ledger := Some []\<rparr>) (rg_runs (ps_registry s))\<rparr>"
  have "map_of (rg_runs (trim ?g)) x = Some rr" using assms(3) False b by (simp add: put_run_def begin_registry_def Let_def)
  then have "map_of (rg_runs ?g) x = Some rr" by (rule trimmed[rotated 2]) (use ok in simp_all)
  then show ?thesis using False by simp
next
  case True
  then show ?thesis using assms(3) begin_stage_run[OF assms(1,2)] by (auto simp: put_run_def)
qed

text \<open>What a request of a tenant can do: all it leaves of other runs is as it was, and its own run is its tenant's.\<close>

definition own_work :: "string \<Rightarrow> pipe_state \<Rightarrow> pipe_state \<Rightarrow> bool" where
  "own_work tenant s s' = (vsm_transitions (ps_machine s') = vsm_transitions (ps_machine s) \<and> vsm_initial (ps_machine s') = vsm_initial (ps_machine s) \<and>
     (\<exists>run. \<forall>x rr. map_of (rg_runs (ps_registry s')) x = Some rr \<longrightarrow>
        map_of (rg_runs (ps_registry s)) x = Some rr \<or> x = run \<and> rr_tenant_id rr = tenant))"

lemma own_work_refl: "ps_registry s' = ps_registry s \<Longrightarrow> ps_machine s' = ps_machine s \<Longrightarrow> own_work tenant s s'"
  by (simp add: own_work_def)

lemma stages_own_work:
  assumes "registry_ok (pe_sha env) (ps_registry s)" "run_stages env response_format tenant s = (s', r)"
  shows "own_work tenant s s'"
proof -
  obtain s1 r1 where b: "begin_stage env tenant s = (s1, r1)" by fastforce
  then obtain i where r1: "r1 = Inr i" using begin_stage_run(1)[OF assms(1)] by blast
  obtain rest where rest: "run_stages env response_format tenant s = rest i s1" "confined (id_run i) (rest i)"
  proof -
    have "\<exists>rest. run_stages env response_format tenant s = rest i s1 \<and> confined (id_run i) (rest i)"
      unfolding run_stages_def
      by (subst bindP_def, simp only: b r1 prod.case sum.case, intro exI conjI, rule refl, intro confined_intros)
    then show ?thesis using that by blast
  qed
  then have a: "agrees (id_run i) s1 s'" using assms(2) unfolding confined_def by (metis fst_conv)
  have "map_of (rg_runs (ps_registry s)) x = Some rr \<or> x = id_run i \<and> rr_tenant_id rr = tenant"
    if x: "map_of (rg_runs (ps_registry s')) x = Some rr" for x rr
  proof (cases "x = id_run i")
    case True
    then obtain rr1 where "map_of (rg_runs (ps_registry s1)) x = Some rr1" "rr_tenant_id rr1 = rr_tenant_id rr"
      using a x by (cases "map_of (rg_runs (ps_registry s1)) (id_run i)") (auto simp: agrees_def)
    then show ?thesis using begun_others[OF assms(1) b[unfolded r1], of x rr1] True by simp
  next
    case False
    then have "map_of (rg_runs (ps_registry s1)) x = Some rr" using a x by (simp add: agrees_def)
    then show ?thesis using begun_others[OF assms(1) b[unfolded r1], of x rr] False by simp
  qed
  moreover have "vsm_transitions (ps_machine s1) = vsm_transitions (ps_machine s)" "vsm_initial (ps_machine s1) = vsm_initial (ps_machine s)"
    by (simp_all add: begin_stage_run(2)[OF assms(1) b] begin_run_def)
  ultimately show ?thesis using a unfolding own_work_def agrees_def by metis
qed

lemma pipeline_own_work:
  assumes "idle env s" "run_inference_pipeline env response_format s = (s', r)"
    "kill_switch_on env (ps_request s) = Inr (b, tenant)"
  shows "own_work tenant s s' \<and> idle env (s'\<lparr>ps_calls := []\<rparr>)"
proof -
  have "own_work tenant s s'" using assms(2)
  proof (cases rule: request_cases)
    case (stages t s1)
    then have t: "t = tenant" using assms(3) by simp
    have "registry_ok (pe_sha env) (ps_registry s1)" using untouched_idle[OF stages(2) assms(1)] by (simp add: idle_def)
    then have "own_work tenant s1 s'" using stages_own_work stages(3) t by blast
    then show ?thesis using stages(2) by (simp add: own_work_def untouched_def)
  qed (auto intro: own_work_refl simp: untouched_def)
  moreover have "registry_ok (pe_sha env) (ps_registry s')" using assms(2)
  proof (cases rule: request_cases)
    case (stages t s1)
    then show ?thesis using stages_account[OF untouched_idle[OF stages(2) assms(1)] stages(3)]
      by (auto simp: answered_def stopped_def good_def split: sum.splits pipe_exc.splits)
  qed (use assms(1) in \<open>auto simp: untouched_def idle_def\<close>)
  ultimately show ?thesis using assms(1) by (simp add: idle_def own_work_def)
qed

section \<open>The calls of all tenants\<close>

datatype api_call = Chat_Call caller pydict | Responses_Call caller pydict

fun call_by :: "api_call \<Rightarrow> caller" where
  "call_by (Chat_Call c _) = c" | "call_by (Responses_Call c _) = c"

fun serve :: "pipe_env \<Rightarrow> pipe_state \<Rightarrow> api_call \<Rightarrow> pipe_state" where
  "serve env s (Chat_Call c body) = fst (handle_chat_completions env c body s)"
| "serve env s (Responses_Call c body) = fst (handle_responses env c body s)"

abbreviation ready :: "pipe_env \<Rightarrow> pipe_state \<Rightarrow> bool" where
  "ready env s \<equiv> idle env (s\<lparr>ps_calls := []\<rparr>)"

lemma own_work_calls [simp]: "own_work t (s\<lparr>ps_request := q, ps_calls := cs\<rparr>) s' = own_work t s s'"
  "own_work t s (s'\<lparr>ps_tick := n\<rparr>) = own_work t s s'"
  by (simp_all add: own_work_def)

lemma ready_other [simp]: "idle env (s\<lparr>ps_request := q, ps_calls := []\<rparr>) = ready env s" "ready env (s\<lparr>ps_tick := n\<rparr>) = ready env s"
  by (simp_all add: idle_def)

lemma tenant_of_request: "cl_tenant c \<noteq> [] \<Longrightarrow> kill_switch_on env (dset ''tenant_id'' (PStr (cl_tenant c)) request) = Inr (b, t) \<Longrightarrow> t = cl_tenant c"
  by (auto simp: kill_switch_on_def Let_def field_or_def or_value_def bindE_eq_Inr py_str_def)

lemma finish_own_work:
  assumes "ready env s" "cl_tenant c \<noteq> []"
  shows "own_work (cl_tenant c) s (fst (finish_inference env c request response_format stream s)) \<and>
    ready env (fst (finish_inference env c request response_format stream s))"
proof -
  let ?s = "s\<lparr>ps_request := dset ''tenant_id'' (PStr (cl_tenant c)) request, ps_calls := []\<rparr>"
  obtain s' r where run: "run_inference_pipeline env response_format ?s = (s', r)" by fastforce
  have "own_work (cl_tenant c) ?s s' \<and> ready env s'"
  proof (cases "kill_switch_on env (ps_request ?s)")
    case (Inl e)
    then have "s' = ?s" using run by (simp add: run_inference_pipeline_def bindP_def getP_def liftP_def)
    then show ?thesis using assms(1) by (simp add: own_work_refl)
  next
    case (Inr p)
    obtain b t where p: "p = (b, t)" by fastforce
    then have "t = cl_tenant c" using Inr tenant_of_request[OF assms(2)] by simp
    then show ?thesis using pipeline_own_work[OF _ run, of b t] Inr p assms(1) by simp
  qed
  then show ?thesis by (auto simp: finish_inference_def run split: sum.split pipe_exc.split)
qed

lemma serve_own_work:
  assumes "ready env s" "cl_tenant (call_by x) \<noteq> []"
  shows "own_work (cl_tenant (call_by x)) s (serve env s x) \<and> ready env (serve env s x)"
proof (cases x)
  case (Chat_Call c body)
  then show ?thesis using finish_own_work[OF assms(1), of c] assms
    by (auto simp: handle_chat_completions_def own_work_refl split: sum.split)
next
  case (Responses_Call c body)
  then show ?thesis using finish_own_work[OF assms(1), of c] assms
    by (auto simp: handle_responses_def own_work_refl split: sum.split)
qed

lemma visible_shrinks:
  assumes "ready env s" "ready env s'" "own_work tenant s s'" "\<not> sees_all c" "tenant \<noteq> cl_tenant c"
  shows "set (visible_part c (ps_registry s')) \<subseteq> set (visible_part c (ps_registry s))"
proof -
  have d: "dict_ok (rg_runs (ps_registry s))" "dict_ok (rg_runs (ps_registry s'))"
    using assms(1,2) by (simp_all add: idle_def registry_ok_def)
  obtain run where "\<forall>x rr. map_of (rg_runs (ps_registry s')) x = Some rr \<longrightarrow>
      map_of (rg_runs (ps_registry s)) x = Some rr \<or> x = run \<and> rr_tenant_id rr = tenant"
    using assms(3) unfolding own_work_def by blast
  then show ?thesis using assms(4,5) by (auto simp: visible_part_def map_of_iff_in_set[OF d(1)] map_of_iff_in_set[OF d(2)])
qed

text \<open>
  C4. Tenants do not reach into each other's runs. However many inference calls the keys of other
  tenants make, well formed or not, answered or refused, what a caller sees of its own runs is never
  changed or added to: the runs it sees afterwards are runs it saw before, record for record.
\<close>

theorem others_leave_my_runs_alone:
  assumes "ready env s" and "\<not> sees_all c"
    and "\<forall>x\<in>set calls. cl_tenant (call_by x) \<noteq> [] \<and> cl_tenant (call_by x) \<noteq> cl_tenant c"
  shows "set (visible_part c (ps_registry (foldl (serve env) s calls))) \<subseteq> set (visible_part c (ps_registry s))"
proof -
  have "ready env (foldl (serve env) s calls) \<and> set (visible_part c (ps_registry (foldl (serve env) s calls))) \<subseteq> set (visible_part c (ps_registry s))"
    using assms(3)
  proof (induction calls rule: rev_induct)
    case (snoc x calls)
    let ?s = "foldl (serve env) s calls"
    have w: "own_work (cl_tenant (call_by x)) ?s (serve env ?s x) \<and> ready env (serve env ?s x)"
      using snoc by (intro serve_own_work) auto
    then have "set (visible_part c (ps_registry (serve env ?s x))) \<subseteq> set (visible_part c (ps_registry ?s))"
      using snoc assms(2) by (intro visible_shrinks[of env ?s _ "cl_tenant (call_by x)"]) auto
    then show ?case using snoc w by auto
  qed (use assms(1) in simp)
  then show ?thesis by blast
qed

definition shared_state :: pipe_state where
  "shared_state = first_state\<lparr>ps_registry := \<lparr>rg_runs = [(''r1'', (blank_record ''r1'' ''t1'')\<lparr>rr_tenant_id := ''acme''\<rparr>)], rg_max = 5\<rparr>\<rparr>"

lemma shared_ready: "ready unlimited_env shared_state"
  by (simp add: shared_state_def first_state_def idle_def registry_ok_def dict_ok_def run_verified_def run_entries_def blank_record_def
      event_list_def py_iter_def valid_chain_def)

theorem others_leave_my_runs_alone_witness:
  "set (visible_part \<lparr>cl_tenant = ''acme'', cl_role = Some ''operator''\<rparr> (ps_registry (serve unlimited_env shared_state
     (Chat_Call \<lparr>cl_tenant = ''beta'', cl_role = Some ''operator''\<rparr> (ps_request first_state))))) \<subseteq>
   {(''r1'', (blank_record ''r1'' ''t1'')\<lparr>rr_tenant_id := ''acme''\<rparr>)}"
  using others_leave_my_runs_alone[OF shared_ready, of "\<lparr>cl_tenant = ''acme'', cl_role = Some ''operator''\<rparr>"
      "[Chat_Call \<lparr>cl_tenant = ''beta'', cl_role = Some ''operator''\<rparr> (ps_request first_state)]"]
  by (simp add: sees_all_def visible_part_def shared_state_def)

section \<open>One cache for two formats\<close>

text \<open>A cached answer is given whatever format is asked for, and both calls make the same request.\<close>

lemma cached_answer_has_any_format:
  "kill_switch_on env (ps_request s) = Inr (False, t) \<Longrightarrow> cached_answer env s = (s', Inr (Some a)) \<Longrightarrow>
   run_inference_pipeline env response_format s = (s', Inr a)"
  by (simp add: run_inference_pipeline_def bindP_def getP_def liftP_def returnP_def)

lemma both_calls_one_request:
  "\<exists>q. chat_request (PDict []) [(''model'', PStr virtual_model_id), (''messages'', PList [PDict [(''role'', PStr ''user''), (''content'', PStr ''hi'')]])] = Inr (Inr q) \<and>
     responses_request (PDict []) [(''model'', PStr virtual_model_id), (''input'', PStr ''hi'')] = Inr (Inr q)"
  by (rule exI, rule conjI, code_simp, code_simp)

end
