(* ===== verification/Server.thy ===== *)
theory Server
  imports Isolation Access Rbac Admin_Store
begin

text \<open>
  The HTTP server, \<^verbatim>\<open>reference/gateway/server.py\<close>, above the socket: what authenticates and authorizes a
  request and keeps the audit, which handler a method and a path lead to, and how the inference and run
  handlers of \<open>Api\<close> are called. The clocks, the UUIDs and the address of the client are arguments.
\<close>

section \<open>Routes\<close>

text \<open>One name for every handler the server calls.\<close>

datatype handler =
    Dashboard_Html | List_Models | List_Local_Models | Model_Recommendations | Model_Cloud | Model_Ranking |
    Cache_Stats | Admin_Export | Get_Trace | Ledger_Chain | Ledger_Export | Ledger_Events | Get_Run |
    Benchmark_Results | Compare_Models | Get_Policy | Get_Risk_Classes | Get_Portfolio | List_Api_Keys |
    Cost_Analytics | Performance_Analytics | Usage_Analytics | Escalation_Analytics | Audit_Analytics |
    Benchmark_Analytics | Dashboard_Data | Export_Data | List_Tenants | Tenant_Budget | List_Alerts |
    List_Webhooks | Get_Config_Values | List_Secrets | Health | Readiness | Metrics | Chat_Completions |
    Responses | Ledger_Verify | Admin_Backup | Admin_Restore | Pull_Model | Register_Model | Run_Benchmark |
    Update_Policy | Add_Candidate | Create_Api_Key | Rotate_Api_Key | Import_Data | Create_Tenant_Call |
    Add_Alert_Rule | Acknowledge_Alert | Register_Webhook | Store_Secret | Remove_Model | Remove_Candidate |
    Revoke_Api_Key | Delete_Tenant_Call | Delete_Webhook | Delete_Secret | Update_Candidate |
    Update_Risk_Class | Update_Tenant_Call | Set_Config_Value

text \<open>
  A path is matched as it is, or with an identifier between two texts, by \<^verbatim>\<open>^base([A-Za-z0-9][A-Za-z0-9._:/-]{0,127})suffix$\<close>;
  \<^verbatim>\<open>$\<close> also stands before a final newline.
\<close>

datatype pattern = Exact string | Under string string

definition chomp :: "string \<Rightarrow> string" where
  "chomp s = (if s \<noteq> [] \<and> last s = CHR 0x0A then butlast s else s)"

definition path_id :: "string \<Rightarrow> bool" where
  "path_id s = (case s of [] \<Rightarrow> False
     | c # r \<Rightarrow> alnum_char c \<and> length r \<le> 127 \<and> list_all (\<lambda>d. alnum_char d \<or> d \<in> set ''._:/-'') r)"

definition between :: "string \<Rightarrow> string \<Rightarrow> string \<Rightarrow> string option" where
  "between base ending url =
     (let p = chomp url; middle = take (length p - length base - length ending) (drop (length base) p) in
      if p = base @ middle @ ending \<and> path_id middle then Some middle else None)"

fun pattern_match :: "pattern \<Rightarrow> string \<Rightarrow> string option" where
  "pattern_match (Exact p) url = (if url = p then Some [] else None)"
| "pattern_match (Under base ending) url = between base ending url"

text \<open>The first rule that matches, with the identifier it found.\<close>

fun first_rule :: "(pattern \<times> handler) list \<Rightarrow> string \<Rightarrow> (handler \<times> string) option" where
  "first_rule [] url = None"
| "first_rule ((pat, h) # rules) url = (case pattern_match pat url of Some arg \<Rightarrow> Some (h, arg) | None \<Rightarrow> first_rule rules url)"

definition health_rules :: "bool \<Rightarrow> (pattern \<times> handler) list" where
  "health_rules enabled = (if enabled then [(Exact ''/health'', Health), (Exact ''/ready'', Readiness)] else [])"

definition metrics_rules :: "bool \<Rightarrow> (pattern \<times> handler) list" where
  "metrics_rules enabled = (if enabled then [(Exact ''/metrics'', Metrics)] else [])"

definition get_rules :: "bool \<Rightarrow> bool \<Rightarrow> (pattern \<times> handler) list" where
  "get_rules health metrics = [
     (Exact ''/dashboard'', Dashboard_Html),
     (Exact ''/v1/models'', List_Models),
     (Exact ''/models/local'', List_Local_Models),
     (Exact ''/models/recommendations'', Model_Recommendations),
     (Exact ''/models/cloud'', Model_Cloud),
     (Exact ''/models/ranking'', Model_Ranking),
     (Exact ''/cache/stats'', Cache_Stats)] @
   health_rules health @ metrics_rules metrics @ [
     (Exact ''/v1/admin/export'', Admin_Export),
     (Under ''/v1/epr/runs/'' ''/trace'', Get_Trace),
     (Under ''/v1/epr/ledger/chain/'' '''', Ledger_Chain),
     (Under ''/v1/epr/ledger/export/'' '''', Ledger_Export),
     (Exact ''/v1/epr/ledger/events'', Ledger_Events),
     (Under ''/v1/epr/runs/'' '''', Get_Run),
     (Exact ''/v1/benchmarks/results'', Benchmark_Results),
     (Exact ''/v1/benchmarks/compare'', Compare_Models),
     (Exact ''/v1/governance/policy'', Get_Policy),
     (Exact ''/v1/governance/risk-classes'', Get_Risk_Classes),
     (Exact ''/v1/routing/portfolio'', Get_Portfolio),
     (Exact ''/v1/api-keys'', List_Api_Keys),
     (Exact ''/v1/analytics/cost'', Cost_Analytics),
     (Exact ''/v1/analytics/performance'', Performance_Analytics),
     (Exact ''/v1/analytics/usage'', Usage_Analytics),
     (Exact ''/v1/analytics/escalations'', Escalation_Analytics),
     (Exact ''/v1/analytics/audit'', Audit_Analytics),
     (Exact ''/v1/analytics/benchmarks'', Benchmark_Analytics),
     (Exact ''/v1/analytics/dashboard'', Dashboard_Data),
     (Exact ''/v1/export'', Export_Data),
     (Exact ''/v1/tenants'', List_Tenants),
     (Under ''/v1/tenants/'' ''/budget'', Tenant_Budget),
     (Exact ''/v1/alerts'', List_Alerts),
     (Exact ''/v1/webhooks'', List_Webhooks),
     (Exact ''/v1/config'', Get_Config_Values),
     (Exact ''/v1/secrets'', List_Secrets)]"

definition post_rules :: "(pattern \<times> handler) list" where
  "post_rules = [
     (Exact ''/v1/chat/completions'', Chat_Completions),
     (Exact ''/v1/responses'', Responses),
     (Under ''/v1/epr/ledger/verify/'' '''', Ledger_Verify),
     (Exact ''/v1/admin/backup'', Admin_Backup),
     (Exact ''/v1/admin/restore'', Admin_Restore),
     (Exact ''/v1/models/pull'', Pull_Model),
     (Exact ''/v1/models/register'', Register_Model),
     (Exact ''/v1/benchmarks/run'', Run_Benchmark),
     (Exact ''/v1/governance/policy'', Update_Policy),
     (Exact ''/v1/routing/candidates'', Add_Candidate),
     (Exact ''/v1/api-keys'', Create_Api_Key),
     (Under ''/v1/api-keys/'' ''/rotate'', Rotate_Api_Key),
     (Exact ''/v1/import'', Import_Data),
     (Exact ''/v1/tenants'', Create_Tenant_Call),
     (Exact ''/v1/alerts/rules'', Add_Alert_Rule),
     (Under ''/v1/alerts/'' ''/acknowledge'', Acknowledge_Alert),
     (Exact ''/v1/webhooks'', Register_Webhook),
     (Exact ''/v1/secrets'', Store_Secret)]"

definition delete_rules :: "(pattern \<times> handler) list" where
  "delete_rules = [
     (Under ''/v1/models/'' '''', Remove_Model),
     (Under ''/v1/routing/candidates/'' '''', Remove_Candidate),
     (Under ''/v1/api-keys/'' '''', Revoke_Api_Key),
     (Under ''/v1/tenants/'' '''', Delete_Tenant_Call),
     (Under ''/v1/webhooks/'' '''', Delete_Webhook),
     (Under ''/v1/secrets/'' '''', Delete_Secret)]"

definition put_rules :: "(pattern \<times> handler) list" where
  "put_rules = [
     (Under ''/v1/routing/candidates/'' '''', Update_Candidate),
     (Under ''/v1/governance/risk-class/'' '''', Update_Risk_Class),
     (Under ''/v1/tenants/'' '''', Update_Tenant_Call),
     (Under ''/v1/config/'' '''', Set_Config_Value)]"

definition known_path :: "bool \<Rightarrow> bool \<Rightarrow> string \<Rightarrow> bool" where
  "known_path health metrics url =
     (url \<in> {''/v1/models'', ''/v1/chat/completions'', ''/v1/responses'', ''/models/local'', ''/models/recommendations'',
      ''/models/cloud'', ''/models/ranking'', ''/cache/stats'', ''/v1/epr/ledger/events'', ''/v1/admin/backup'',
      ''/v1/admin/restore'', ''/v1/admin/export'', ''/v1/models/pull'', ''/v1/models/register'', ''/v1/benchmarks/run'',
      ''/v1/benchmarks/results'', ''/v1/benchmarks/compare'', ''/v1/governance/policy'', ''/v1/governance/risk-
      classes'', ''/v1/routing/portfolio'', ''/v1/routing/candidates'', ''/v1/api-keys'', ''/v1/analytics/cost'',
      ''/v1/analytics/performance'', ''/v1/analytics/usage'', ''/v1/analytics/escalations'', ''/v1/analytics/audit'',
      ''/v1/analytics/benchmarks'', ''/v1/analytics/dashboard'', ''/v1/export'', ''/v1/import'', ''/v1/tenants'',
      ''/v1/alerts'', ''/v1/alerts/rules'', ''/v1/webhooks'', ''/v1/config'', ''/v1/secrets'', ''/dashboard''} \<or>
      list_ex (\<lambda>(base, ending). between base ending url \<noteq> None)
       [(''/v1/epr/runs/'', ''''), (''/v1/epr/runs/'', ''/trace''), (''/v1/epr/ledger/chain/'', ''''),
      (''/v1/epr/ledger/export/'', ''''), (''/v1/epr/ledger/verify/'', ''''), (''/v1/models/'', ''''),
      (''/v1/routing/candidates/'', ''''), (''/v1/api-keys/'', ''''), (''/v1/api-keys/'', ''/rotate''),
      (''/v1/governance/risk-class/'', ''''), (''/v1/tenants/'', ''''), (''/v1/tenants/'', ''/budget''),
      (''/v1/alerts/'', ''/acknowledge''), (''/v1/webhooks/'', ''''), (''/v1/config/'', ''''), (''/v1/secrets/'', '''')] \<or>
      (url = ''/health'' \<or> url = ''/ready'') \<and> health \<or> url = ''/metrics'' \<and> metrics)"

datatype routed = Runs handler string | Refused int pyval

definition not_found :: routed where
  "not_found = Refused 404 (error_envelope ''Not found'' ''invalid_request_error'' None (Some ''not_found''))"

definition not_allowed :: routed where
  "not_allowed = Refused 405 (error_envelope ''Method not allowed'' ''invalid_request_error'' None (Some ''method_not_allowed''))"

definition route_request :: "bool \<Rightarrow> bool \<Rightarrow> string \<Rightarrow> string \<Rightarrow> routed" where
  "route_request health metrics http_method url =
     (if http_method = ''GET'' then (case first_rule (get_rules health metrics) url of Some (h, arg) \<Rightarrow> Runs h arg | None \<Rightarrow> not_found)
      else if http_method = ''POST'' then (case first_rule post_rules url of Some (h, arg) \<Rightarrow> Runs h arg | None \<Rightarrow> not_found)
      else (case first_rule (if http_method = ''DELETE'' then delete_rules else if http_method = ''PUT'' then put_rules else []) url of
          Some (h, arg) \<Rightarrow> Runs h arg
        | None \<Rightarrow> if known_path health metrics url then not_allowed else not_found))"

section \<open>What a handler needs\<close>

text \<open>The permission each handler is meant for; only the two health checks are public.\<close>

fun handler_permission :: "handler \<Rightarrow> permission option" where
  "handler_permission Dashboard_Html = Some P_AnalyticsRead"
| "handler_permission List_Models = Some P_ModelsRead"
| "handler_permission List_Local_Models = Some P_ModelsRead"
| "handler_permission Model_Recommendations = Some P_ModelsLifecycle"
| "handler_permission Model_Cloud = Some P_ModelsRead"
| "handler_permission Model_Ranking = Some P_ModelsLifecycle"
| "handler_permission Cache_Stats = Some P_AnalyticsRead"
| "handler_permission Admin_Export = Some P_Export"
| "handler_permission Get_Trace = Some P_LedgerRead"
| "handler_permission Ledger_Chain = Some P_LedgerRead"
| "handler_permission Ledger_Export = Some P_LedgerRead"
| "handler_permission Ledger_Events = Some P_LedgerRead"
| "handler_permission Get_Run = Some P_LedgerRead"
| "handler_permission Benchmark_Results = Some P_BenchmarksRead"
| "handler_permission Compare_Models = Some P_BenchmarksRead"
| "handler_permission Get_Policy = Some P_GovernanceRead"
| "handler_permission Get_Risk_Classes = Some P_GovernanceRead"
| "handler_permission Get_Portfolio = Some P_RoutingRead"
| "handler_permission List_Api_Keys = Some P_ApiKeysRead"
| "handler_permission Cost_Analytics = Some P_AnalyticsRead"
| "handler_permission Performance_Analytics = Some P_AnalyticsRead"
| "handler_permission Usage_Analytics = Some P_AnalyticsRead"
| "handler_permission Escalation_Analytics = Some P_AnalyticsRead"
| "handler_permission Audit_Analytics = Some P_AuditRead"
| "handler_permission Benchmark_Analytics = Some P_AnalyticsRead"
| "handler_permission Dashboard_Data = Some P_AnalyticsRead"
| "handler_permission Export_Data = Some P_Export"
| "handler_permission List_Tenants = Some P_TenantsRead"
| "handler_permission Tenant_Budget = Some P_TenantsRead"
| "handler_permission List_Alerts = Some P_AlertsRead"
| "handler_permission List_Webhooks = Some P_WebhooksRead"
| "handler_permission Get_Config_Values = Some P_ConfigRead"
| "handler_permission List_Secrets = Some P_SecretsRead"
| "handler_permission Health = None"
| "handler_permission Readiness = None"
| "handler_permission Metrics = Some P_AnalyticsRead"
| "handler_permission Chat_Completions = Some P_ChatCompletions"
| "handler_permission Responses = Some P_ResponsesApi"
| "handler_permission Ledger_Verify = Some P_LedgerVerify"
| "handler_permission Admin_Backup = Some P_AdminBackup"
| "handler_permission Admin_Restore = Some P_AdminRestore"
| "handler_permission Pull_Model = Some P_ModelsWrite"
| "handler_permission Register_Model = Some P_ModelsWrite"
| "handler_permission Run_Benchmark = Some P_BenchmarksWrite"
| "handler_permission Update_Policy = Some P_GovernanceWrite"
| "handler_permission Add_Candidate = Some P_RoutingWrite"
| "handler_permission Create_Api_Key = Some P_ApiKeysWrite"
| "handler_permission Rotate_Api_Key = Some P_ApiKeysWrite"
| "handler_permission Import_Data = Some P_Import"
| "handler_permission Create_Tenant_Call = Some P_TenantsWrite"
| "handler_permission Add_Alert_Rule = Some P_AlertsWrite"
| "handler_permission Acknowledge_Alert = Some P_AlertsWrite"
| "handler_permission Register_Webhook = Some P_WebhooksWrite"
| "handler_permission Store_Secret = Some P_SecretsWrite"
| "handler_permission Remove_Model = Some P_ModelsWrite"
| "handler_permission Remove_Candidate = Some P_RoutingWrite"
| "handler_permission Revoke_Api_Key = Some P_ApiKeysWrite"
| "handler_permission Delete_Tenant_Call = Some P_TenantsWrite"
| "handler_permission Delete_Webhook = Some P_WebhooksWrite"
| "handler_permission Delete_Secret = Some P_SecretsWrite"
| "handler_permission Update_Candidate = Some P_RoutingWrite"
| "handler_permission Update_Risk_Class = Some P_GovernanceWrite"
| "handler_permission Update_Tenant_Call = Some P_TenantsWrite"
| "handler_permission Set_Config_Value = Some P_ConfigWrite"

text \<open>Whether the path of an entry can cover a path a pattern matches.\<close>

fun may_cover :: "string \<Rightarrow> pattern \<Rightarrow> bool" where
  "may_cover base (Exact p) = covers base p"
| "may_cover base (Under b ending) = (startswith b (base @ ''/'') \<or> startswith base b)"

definition rule_mapped :: "string \<Rightarrow> pattern \<times> handler \<Rightarrow> bool" where
  "rule_mapped http_method = (\<lambda>(pat, h). (case handler_permission h of None \<Rightarrow> h = Health \<or> h = Readiness
     | Some q \<Rightarrow> list_all (\<lambda>(m, base, perms). m = http_method \<and> may_cover base pat \<longrightarrow> q \<in> set perms) route_table))"

lemma chomp_prefix: "startswith url (chomp url)"
  by (auto simp: chomp_def startswith_iff) (metis append_butlast_last_id)

lemma matched_may_cover:
  assumes "pattern_match pat url = Some arg" "covers base url" shows "may_cover base pat"
proof (cases pat)
  case (Under b ending)
  then obtain middle where "chomp url = b @ middle @ ending"
    using assms(1) by (auto simp: between_def Let_def split: if_splits)
  then have "startswith url b" using chomp_prefix[of url] by (auto simp: startswith_iff)
  moreover have "startswith url base \<and> (url = base \<or> startswith url (base @ ''/''))" using assms(2) by (auto simp: covers_def startswith_iff)
  ultimately show ?thesis using Under
    by (auto simp: startswith_iff append_eq_append_conv2 Cons_eq_append_conv append_eq_Cons_conv)
qed (use assms in \<open>auto split: if_splits\<close>)

lemma first_rule_in: "first_rule rules url = Some (h, arg) \<Longrightarrow> \<exists>pat. (pat, h) \<in> set rules \<and> pattern_match pat url = Some arg"
  by (induction rules) (auto split: option.splits)

lemma get_mapped: "list_all (rule_mapped ''GET'') (get_rules True True)"
  by code_simp

lemma post_mapped: "list_all (rule_mapped ''POST'') post_rules"
  by code_simp

lemma other_mapped: "list_all (rule_mapped ''DELETE'') delete_rules" "list_all (rule_mapped ''PUT'') put_rules"
  by code_simp+

section \<open>Authentication, authorization and the audit\<close>

record server_env =
  se_sha :: "string \<Rightarrow> string"
  se_auth :: "auth_middleware option"
  se_rbac :: bool
  se_audit :: bool
  se_health :: bool
  se_metrics :: bool

text \<open>What a request changes before its handler runs: keys and limiters, and the audit log.\<close>

record gate =
  gt_auth :: auth_state
  gt_trail :: "row list"

text \<open>One request: its method, path and headers, the address of the client, and what the clocks and UUIDs gave.\<close>

record http_request =
  hr_method :: string
  hr_path :: string
  hr_headers :: "(string, string) dict"
  hr_ip :: string
  hr_now :: string
  hr_clock :: f64
  hr_wall :: int
  hr_uuid :: string

definition audit_call :: "server_env \<Rightarrow> http_request \<Rightarrow> string \<Rightarrow> (string, pyval) dict \<Rightarrow> bool \<Rightarrow> gate \<Rightarrow> gate \<times> unit res" where
  "audit_call e q actor extra success gt =
     (if \<not> se_audit e then (gt, Inr ()) else
      case log_api_call (hr_uuid q) (hr_now q) (gt_trail gt) actor (lower (hr_method q) @ '':'' @ hr_path q) (Some ''api'') (Some (hr_path q))
          (Some (hr_ip q)) (Some ([(''method'', PStr (hr_method q))] @ extra)) success of
        Inl ex \<Rightarrow> (gt, Inl ex)
      | Inr (trail, _) \<Rightarrow> (gt\<lparr>gt_trail := trail\<rparr>, Inr ()))"

datatype verdict = Denied int pyval | Allowed caller

text \<open>What is answered to a request that is denied, once the denial is in the audit log.\<close>

definition deny :: "server_env \<Rightarrow> http_request \<Rightarrow> string \<Rightarrow> pyval \<Rightarrow> int \<Rightarrow> pyval \<Rightarrow> gate \<Rightarrow> gate \<times> verdict res" where
  "deny e q actor reason code body gt = (case audit_call e q actor [(''reason'', reason)] False gt of
     (gt', Inl ex) \<Rightarrow> (gt', Inl ex)
   | (gt', Inr _) \<Rightarrow> (gt', Inr (Denied code body)))"

definition check_rbac_and_audit :: "server_env \<Rightarrow> http_request \<Rightarrow> caller \<Rightarrow> gate \<Rightarrow> gate \<times> verdict res" where
  "check_rbac_and_audit e q c gt =
     (let actor = (case cl_role c of None \<Rightarrow> ''anonymous'' | Some r \<Rightarrow> if r = [] then ''anonymous'' else r);
          (allowed, reason) = (if se_rbac e then check_permission (hr_method q) (hr_path q) (cl_role c) else (True, None)) in
      if \<not> allowed
      then deny e q actor (opt_str reason) 403
        (error_envelope (case reason of None \<Rightarrow> ''Access denied'' | Some t \<Rightarrow> if t = [] then ''Access denied'' else t)
          ''forbidden'' None (Some ''insufficient_permissions'')) gt
      else (case audit_call e q actor [] True gt of
          (gt', Inl ex) \<Rightarrow> (gt', Inl ex)
        | (gt', Inr _) \<Rightarrow> (gt', Inr (Allowed c))))"

definition authenticate_and_authorize :: "server_env \<Rightarrow> http_request \<Rightarrow> gate \<Rightarrow> gate \<times> verdict res" where
  "authenticate_and_authorize e q gt =
     (if hr_path q \<in> {''/health'', ''/ready''} then (gt, Inr (Allowed \<lparr>cl_tenant = ''default'', cl_role = None\<rparr>)) else
      case se_auth e of
        None \<Rightarrow> check_rbac_and_audit e q \<lparr>cl_tenant = ''default'', cl_role = None\<rparr> gt
      | Some m \<Rightarrow> (case authenticate_with_metadata (se_sha e) (hr_now q) (hr_clock q) (hr_wall q) m (gt_auth gt) (hr_headers q) of
          (au, Inl ex) \<Rightarrow> (gt\<lparr>gt_auth := au\<rparr>, Inl ex)
        | (au, Inr a) \<Rightarrow>
            let gt1 = gt\<lparr>gt_auth := au\<rparr> in
            if \<not> ar_allowed a then
              deny e q (case ar_info a of None \<Rightarrow> ''anonymous'' | Some info \<Rightarrow> info_key_id info)
                (PStr (if ar_info a = None then ''authentication_failed'' else ''rate_limited''))
                (if ar_rate_limited a then 429 else 401)
                (if ar_rate_limited a then error_envelope ''rate limit exceeded'' ''rate_limit_error'' None (Some ''rate_limit_exceeded'')
                 else error_envelope ''invalid or missing API key'' ''authentication_error'' None (Some ''invalid_api_key'')) gt1
            else check_rbac_and_audit e q (case ar_info a of
                None \<Rightarrow> \<lparr>cl_tenant = ''default'', cl_role = None\<rparr>
              | Some info \<Rightarrow> \<lparr>cl_tenant = info_tenant info, cl_role = Some (info_role info)\<rparr>) gt1))"

text \<open>\<^verbatim>\<open>_scoped_tenant\<close>: only an administrator chooses the tenant of a query.\<close>

definition scoped_tenant :: "caller \<Rightarrow> string option \<Rightarrow> string option" where
  "scoped_tenant c requested = (if sees_all c then requested else Some (cl_tenant c))"

text \<open>
  \<^verbatim>\<open>_dispatch\<close> of a request: what is sent without running a handler, or the handler that runs and for
  whom. Exceptions are answered with 500.
\<close>

datatype outcome_of_request = Sent int pyval | Handles handler string caller

definition internal_error :: outcome_of_request where
  "internal_error = Sent 500 (error_envelope ''internal server error'' ''server_error'' None (Some ''internal_error''))"

definition dispatch :: "server_env \<Rightarrow> bool \<Rightarrow> bool \<Rightarrow> http_request \<Rightarrow> gate \<Rightarrow> gate \<times> outcome_of_request" where
  "dispatch e busy stopping q gt =
     (if busy then (gt, Sent 503 (error_envelope ''server request capacity is exhausted'' ''server_error'' None (Some ''server_busy'')))
      else if stopping then (gt, Sent 503 (error_envelope ''gateway is shutting down'' ''server_error'' None (Some ''shutting_down'')))
      else case authenticate_and_authorize e q gt of
        (gt', Inl _) \<Rightarrow> (gt', internal_error)
      | (gt', Inr (Denied code body)) \<Rightarrow> (gt', Sent code body)
      | (gt', Inr (Allowed c)) \<Rightarrow> (gt', case route_request (se_health e) (se_metrics e) (hr_method q) (hr_path q) of
            Runs h arg \<Rightarrow> Handles h arg c
          | Refused code body \<Rightarrow> Sent code body))"

section \<open>Nothing runs without permission\<close>

lemma route_mapped:
  assumes "route_request health metrics http_method url = Runs h arg"
  shows "handler_permission h = None \<and> (h = Health \<or> h = Readiness) \<or>
    (\<exists>q. handler_permission h = Some q \<and> (\<forall>perms. get_required_permissions http_method url = Some perms \<longrightarrow> q \<in> set perms))"
proof -
  obtain rules where r: "first_rule rules url = Some (h, arg)" "list_all (rule_mapped http_method) rules"
  proof -
    have "list_all (rule_mapped ''GET'') (get_rules health metrics)"
      using get_mapped by (cases health; cases metrics) (simp_all add: get_rules_def health_rules_def metrics_rules_def)
    then show ?thesis using assms that post_mapped other_mapped
      by (auto simp: route_request_def not_found_def not_allowed_def split: if_splits option.splits)
  qed
  obtain pat where pat: "(pat, h) \<in> set rules" "pattern_match pat url = Some arg" using first_rule_in[OF r(1)] by blast
  then have m: "rule_mapped http_method (pat, h)" using r(2) by (simp add: list_all_iff)
  show ?thesis
  proof (cases "handler_permission h")
    case (Some q)
    have "q \<in> set perms" if "get_required_permissions http_method url = Some perms" for perms
      using required_entry[OF that] matched_may_cover[OF pat(2)] m Some by (auto simp: rule_mapped_def list_all_iff)
    then show ?thesis using Some by blast
  qed (use m in \<open>simp add: rule_mapped_def\<close>)
qed

lemma rbac_allowed:
  assumes "check_rbac_and_audit e q c gt = (gt', Inr (Allowed c'))"
  shows "c' = c \<and> (se_rbac e \<longrightarrow> fst (check_permission (hr_method q) (hr_path q) (cl_role c))) \<and>
    (se_audit e \<longrightarrow> (\<exists>entry. gt_trail gt' = gt_trail gt @ [entry] \<and> dget entry ''success'' = PInt 1 \<and>
       dget entry ''actor_id'' = PStr (case cl_role c of None \<Rightarrow> ''anonymous'' | Some r \<Rightarrow> if r = [] then ''anonymous'' else r) \<and>
       dget entry ''resource_id'' = PStr (hr_path q)))"
  using assms
  by (auto simp: check_rbac_and_audit_def deny_def audit_call_def log_api_call_def record_audit_def Let_def dget_def opt_str_def
      split: if_splits sum.splits prod.splits)

lemma public_rules:
  "first_rule (get_rules True True) ''/health'' = Some (Health, [])" "first_rule (get_rules True False) ''/health'' = Some (Health, [])"
  "first_rule (get_rules False True) ''/health'' = None" "first_rule (get_rules False False) ''/health'' = None"
  "first_rule (get_rules True True) ''/ready'' = Some (Readiness, [])" "first_rule (get_rules True False) ''/ready'' = Some (Readiness, [])"
  "first_rule (get_rules False True) ''/ready'' = None" "first_rule (get_rules False False) ''/ready'' = None"
  "first_rule post_rules ''/health'' = None" "first_rule post_rules ''/ready'' = None"
  "first_rule delete_rules ''/health'' = None" "first_rule delete_rules ''/ready'' = None"
  "first_rule put_rules ''/health'' = None" "first_rule put_rules ''/ready'' = None"
  by code_simp+

lemma public_route:
  assumes "url = ''/health'' \<or> url = ''/ready''" "route_request health metrics http_method url = Runs h arg"
  shows "h = Health \<or> h = Readiness"
proof -
  have get: "first_rule (get_rules health metrics) url \<in> {None, Some (Health, []), Some (Readiness, [])}"
    using assms(1) public_rules(1-8) by (cases health; cases metrics) auto
  have other: "first_rule rules url = None" if "rules = post_rules \<or> rules = delete_rules \<or> rules = put_rules" for rules
    using that assms(1) public_rules(9-14) by auto
  show ?thesis using assms(2) get other
    by (auto simp: route_request_def not_found_def not_allowed_def split: if_splits option.splits)
qed

text \<open>
  C5. Nothing runs without permission. Where the server authenticates, with keys required, and checks
  roles, a request that reaches a handler other than the two health checks carries a bearer token that
  is a configured key or the raw key of a row that is not revoked; its tenant and role are those of the
  key, the role has the permission the handler is meant for, and the call is in the audit log as a
  success.
\<close>

theorem handlers_run_with_permission:
  assumes "dispatch e busy stopping q gt = (gt', Handles h arg c)" and "se_auth e = Some m" "am_require m" "se_rbac e" "se_audit e"
  shows "h = Health \<or> h = Readiness \<or>
    (\<exists>token info r p. bearer_token (hr_headers q) = Some token \<and>
       ((\<exists>row\<in>set (as_keys (gt_auth gt)). info = RowInfo row \<and> ak_key_hash row = hash_key (se_sha e) token \<and> ak_revoked_at row = None) \<or>
        token \<in> set (am_api_keys m) \<and> info_role info = ''admin'') \<and>
       c = \<lparr>cl_tenant = info_tenant info, cl_role = Some (info_role info)\<rparr> \<and>
       role_of (info_role info) = Some r \<and> handler_permission h = Some p \<and> p \<in> set (role_permissions r) \<and>
       (\<exists>entry. gt_trail gt' = gt_trail gt @ [entry] \<and> dget entry ''success'' = PInt 1 \<and> dget entry ''resource_id'' = PStr (hr_path q)))"
proof -
  have route: "route_request (se_health e) (se_metrics e) (hr_method q) (hr_path q) = Runs h arg"
    and gate: "authenticate_and_authorize e q gt = (gt', Inr (Allowed c))"
    using assms(1) by (auto simp: dispatch_def internal_error_def split: if_splits prod.splits sum.splits verdict.splits routed.splits)
  show ?thesis
  proof (cases "hr_path q \<in> {''/health'', ''/ready''}")
    case True
    then have "h = Health \<or> h = Readiness" using public_route[OF _ route] by simp
    then show ?thesis by blast
  next
    case False
    obtain au a where au: "authenticate_with_metadata (se_sha e) (hr_now q) (hr_clock q) (hr_wall q) m (gt_auth gt) (hr_headers q) = (au, Inr a)"
      and ok: "ar_allowed a" and rb: "check_rbac_and_audit e q (case ar_info a of None \<Rightarrow> \<lparr>cl_tenant = ''default'', cl_role = None\<rparr>
          | Some info \<Rightarrow> \<lparr>cl_tenant = info_tenant info, cl_role = Some (info_role info)\<rparr>) (gt\<lparr>gt_auth := au\<rparr>) = (gt', Inr (Allowed c))"
      using gate False assms(2) by (auto simp: authenticate_and_authorize_def Let_def deny_def split: prod.splits sum.splits if_splits)
    from authenticated_request[OF assms(3) au ok] obtain token info where t: "bearer_token (hr_headers q) = Some token" "ar_info a = Some info"
      and k: "(\<exists>row\<in>set (as_keys (gt_auth gt)). info = RowInfo row \<and> ak_key_hash row = hash_key (se_sha e) token \<and> ak_revoked_at row = None) \<or>
        token \<in> set (am_api_keys m) \<and> info_role info = ''admin''" by auto
    from rbac_allowed[OF rb] t(2) assms(4,5) have c: "c = \<lparr>cl_tenant = info_tenant info, cl_role = Some (info_role info)\<rparr>"
      and perm: "fst (check_permission (hr_method q) (hr_path q) (Some (info_role info)))"
      and entry: "\<exists>entry. gt_trail gt' = gt_trail gt @ [entry] \<and> dget entry ''success'' = PInt 1 \<and> dget entry ''resource_id'' = PStr (hr_path q)"
      by auto
    obtain r where r: "role_of (info_role info) = Some r" "case get_required_permissions (hr_method q) (hr_path q) of
        None \<Rightarrow> r = Admin | Some required \<Rightarrow> set required \<subseteq> set (role_permissions r)"
      using perm unfolding check_permission_allowed by blast
    from route_mapped[OF route] show ?thesis
    proof
      assume "\<exists>p. handler_permission h = Some p \<and> (\<forall>perms. get_required_permissions (hr_method q) (hr_path q) = Some perms \<longrightarrow> p \<in> set perms)"
      then obtain p where p: "handler_permission h = Some p"
        "\<forall>perms. get_required_permissions (hr_method q) (hr_path q) = Some perms \<longrightarrow> p \<in> set perms" by blast
      have "p \<in> set (role_permissions r)"
        using r(2) p(2) admin_has_all by (cases "get_required_permissions (hr_method q) (hr_path q)") auto
      then show ?thesis using t(1) k c r(1) p(1) entry by blast
    qed blast
  qed
qed

text \<open>The handler of a policy update is documented for PUT, the permission table has an entry for it, and the server routes POST alone.\<close>

lemma put_policy_not_routed:
  "route_request True True ''PUT'' ''/v1/governance/policy'' = not_allowed"
  "route_request True True ''POST'' ''/v1/governance/policy'' = Runs Update_Policy []"
  by code_simp+

section \<open>Witness\<close>

definition trial_env :: server_env where
  "trial_env = \<lparr>se_sha = id, se_auth = Some key_middleware, se_rbac = True, se_audit = True, se_health = True, se_metrics = True\<rparr>"

definition trial_request :: http_request where
  "trial_request = \<lparr>hr_method = ''GET'', hr_path = ''/v1/models'', hr_headers = [(''Authorization'', ''Bearer noerelay-a'')],
     hr_ip = ''127.0.0.1'', hr_now = ''t1'', hr_clock = Fin 0, hr_wall = 0, hr_uuid = ''u''\<rparr>"

definition trial_gate :: gate where
  "trial_gate = \<lparr>gt_auth = \<lparr>as_keys = [one_key], as_limiters = []\<rparr>, gt_trail = []\<rparr>"

lemma trial_handled: "snd (dispatch trial_env False False trial_request trial_gate) =
    Handles List_Models [] \<lparr>cl_tenant = ak_tenant one_key, cl_role = Some (ak_role one_key)\<rparr>"
  by code_simp

theorem handlers_run_with_permission_witness:
  "\<exists>gt' c. dispatch trial_env False False trial_request trial_gate = (gt', Handles List_Models [] c) \<and>
     (\<exists>entry. gt_trail gt' = [entry] \<and> dget entry ''success'' = PInt 1) \<and> (\<exists>r p. handler_permission List_Models = Some p \<and> p \<in> set (role_permissions r))"
proof -
  obtain gt' c where d: "dispatch trial_env False False trial_request trial_gate = (gt', Handles List_Models [] c)"
    using trial_handled by (metis prod.collapse)
  have "se_auth trial_env = Some key_middleware" "am_require key_middleware" "se_rbac trial_env" "se_audit trial_env" "gt_trail trial_gate = []"
    by code_simp+
  then show ?thesis using handlers_run_with_permission[OF d] d by auto
qed

end
