(* ===== verification/Secrets.thy ===== *)
theory Secrets
  imports Py_Json "HOL-Library.Word"
begin

unbundle bit_operations_syntax

text \<open>
  The store of secrets, \<^verbatim>\<open>reference/gateway/secrets.py\<close>: encrypt-then-MAC under keys derived from a
  master key, the format of the drafts, and the table with the rotation of the master key. Bytes are
  words of eight bits; the digests and the nonces are arguments. Base64 is that of Python with
  \<^verbatim>\<open>validate=True\<close>: groups of four, the last one padded.
\<close>

section \<open>Bytes and base64\<close>

type_synonym byte = "8 word"

definition byte_of :: "char \<Rightarrow> byte" where
  "byte_of c = word_of_nat (of_char c)"

definition char_of_byte :: "byte \<Rightarrow> char" where
  "char_of_byte b = char_of (unat b)"

definition encode_text :: "string \<Rightarrow> byte list" where
  "encode_text s = map byte_of (utf8 s)"

text \<open>\<^verbatim>\<open>bytes.decode('utf-8')\<close>; longer sequences stand for characters the texts of the model do not have.\<close>

fun utf8_text :: "string \<Rightarrow> string option" where
  "utf8_text [] = Some []"
| "utf8_text [c] = (if (of_char c :: nat) < 128 then Some [c] else None)"
| "utf8_text (c # d # cs) =
     (let n = of_char c :: nat; m = of_char d :: nat in
      if n < 128 then map_option ((#) c) (utf8_text (d # cs))
      else if (n = 194 \<or> n = 195) \<and> 128 \<le> m \<and> m < 192
      then map_option ((#) (char_of ((n - 192) * 64 + (m - 128)))) (utf8_text cs)
      else None)"

definition decode_text :: "byte list \<Rightarrow> string option" where
  "decode_text bs = utf8_text (map char_of_byte bs)"

definition alphabet :: string where
  "alphabet = ''ABCDEFGHIJKLMNOPQRSTUVWXYZabcdefghijklmnopqrstuvwxyz0123456789+/''"

definition symbol :: "nat \<Rightarrow> char" where
  "symbol n = alphabet ! n"

definition symbol_value :: "char \<Rightarrow> nat option" where
  "symbol_value c = (if c \<in> set alphabet then Some (length (takeWhile (\<lambda>d. d \<noteq> c) alphabet)) else None)"

fun b64_nats :: "nat list \<Rightarrow> string" where
  "b64_nats [] = []"
| "b64_nats [a] = [symbol (a div 4), symbol (a mod 4 * 16), CHR ''='', CHR ''='']"
| "b64_nats [a, b] = [symbol (a div 4), symbol (a mod 4 * 16 + b div 16), symbol (b mod 16 * 4), CHR ''='']"
| "b64_nats (a # b # c # r) =
     [symbol (a div 4), symbol (a mod 4 * 16 + b div 16), symbol (b mod 16 * 4 + c div 64), symbol (c mod 64)] @ b64_nats r"

fun unb64_nats :: "string \<Rightarrow> nat list option" where
  "unb64_nats [] = Some []"
| "unb64_nats (a # b # c # d # r) = (case (symbol_value a, symbol_value b) of
     (Some x, Some y) \<Rightarrow>
       if r = [] \<and> c = CHR ''='' \<and> d = CHR ''='' then Some [x * 4 + y div 16] else
       (case symbol_value c of None \<Rightarrow> None
        | Some z \<Rightarrow>
            if r = [] \<and> d = CHR ''='' then Some [x * 4 + y div 16, y mod 16 * 16 + z div 4] else
            (case (symbol_value d, unb64_nats r) of
               (Some w, Some bs) \<Rightarrow> Some ([x * 4 + y div 16, y mod 16 * 16 + z div 4, z mod 4 * 64 + w] @ bs)
             | _ \<Rightarrow> None))
   | _ \<Rightarrow> None)"
| "unb64_nats _ = None"

definition b64encode :: "byte list \<Rightarrow> string" where
  "b64encode bs = b64_nats (map unat bs)"

definition b64decode :: "string \<Rightarrow> byte list option" where
  "b64decode s = map_option (map word_of_nat) (unb64_nats s)"

section \<open>Keys and ciphertexts\<close>

record digests =
  dg_sha :: "byte list \<Rightarrow> byte list"
  dg_mac :: "byte list \<Rightarrow> byte list \<Rightarrow> byte list"

record key_ring =
  kr_legacy :: "byte list"
  kr_encryption :: "byte list"
  kr_authentication :: "byte list"

datatype secret_error = Secret_Configuration string | Secret_Integrity string | Secret_Format | Secret_Database string

definition blank_text :: "string \<Rightarrow> bool" where
  "blank_text s = (strip s = [])"

text \<open>\<^verbatim>\<open>_load_master_key\<close>: the explicit key or that of the environment, and neither empty nor blank.\<close>

definition load_master_key :: "string \<Rightarrow> string option \<Rightarrow> string option \<Rightarrow> secret_error + string" where
  "load_master_key env_var env_value explicit =
     (case (case explicit of Some k \<Rightarrow> Some k | None \<Rightarrow> env_value) of
        None \<Rightarrow> Inl (Secret_Configuration (env_var @ '' must be set before the secret store can be enabled''))
      | Some raw \<Rightarrow> if blank_text raw then Inl (Secret_Configuration (env_var @ '' must be set before the secret store can be enabled'')) else Inr raw)"

definition set_master_key :: "digests \<Rightarrow> string \<Rightarrow> key_ring" where
  "set_master_key dg raw =
     (let root = dg_sha dg (encode_text raw) in
      \<lparr>kr_legacy = root, kr_encryption = dg_mac dg root (encode_text ''noerelay-secret-encryption-v1''),
       kr_authentication = dg_mac dg root (encode_text ''noerelay-secret-authentication-v1'')\<rparr>)"

definition be8 :: "nat \<Rightarrow> byte list" where
  "be8 n = map (\<lambda>i. word_of_nat (n div 256 ^ (7 - i))) [0..<8]"

text \<open>The loop over the blocks of the stream, with as many rounds as the stream has bytes.\<close>

fun stream_loop :: "digests \<Rightarrow> byte list \<Rightarrow> byte list \<Rightarrow> nat \<Rightarrow> nat \<Rightarrow> nat \<Rightarrow> byte list \<Rightarrow> byte list option" where
  "stream_loop dg key nonce len rounds counter blocks =
     (if len \<le> length blocks then Some (take len blocks) else
      case rounds of 0 \<Rightarrow> None
      | Suc n \<Rightarrow> stream_loop dg key nonce len n (Suc counter) (blocks @ dg_mac dg key (encode_text ''stream-v1'' @ nonce @ be8 counter)))"

declare stream_loop.simps [simp del]

definition keystream :: "digests \<Rightarrow> key_ring \<Rightarrow> byte list \<Rightarrow> nat \<Rightarrow> byte list option" where
  "keystream dg ks nonce len = stream_loop dg (kr_encryption ks) nonce len len 0 []"

definition xor_bytes :: "byte list \<Rightarrow> byte list \<Rightarrow> byte list" where
  "xor_bytes = map2 (\<lambda>a b. a XOR b)"

definition tag_of :: "digests \<Rightarrow> key_ring \<Rightarrow> byte list \<Rightarrow> byte list \<Rightarrow> byte list" where
  "tag_of dg ks nonce ciphertext = dg_mac dg (kr_authentication ks) (encode_text ''v1'' @ nonce @ ciphertext)"

definition encrypt :: "digests \<Rightarrow> byte list \<Rightarrow> key_ring \<Rightarrow> string \<Rightarrow> string option" where
  "encrypt dg nonce ks plaintext =
     (let bs = encode_text plaintext in
      map_option (\<lambda>stream. let ciphertext = xor_bytes bs stream in
        ''v1:'' @ b64encode (nonce @ ciphertext @ tag_of dg ks nonce ciphertext))
      (keystream dg ks nonce (length bs)))"

definition decrypt_legacy :: "key_ring \<Rightarrow> string \<Rightarrow> secret_error + string" where
  "decrypt_legacy ks ciphertext = (case b64decode ciphertext of
     None \<Rightarrow> Inl Secret_Format
   | Some bs \<Rightarrow> (case decode_text (map (\<lambda>(i, b). b XOR kr_legacy ks ! (i mod length (kr_legacy ks))) (enumerate 0 bs)) of
       None \<Rightarrow> Inl Secret_Format | Some t \<Rightarrow> Inr t))"

definition decrypt :: "digests \<Rightarrow> key_ring \<Rightarrow> string \<Rightarrow> (secret_error + string) option" where
  "decrypt dg ks ciphertext =
     (if \<not> startswith ciphertext ''v1:'' then Some (decrypt_legacy ks ciphertext) else
      case b64decode (drop 3 ciphertext) of
        None \<Rightarrow> Some (Inl (Secret_Integrity ''secret ciphertext is malformed''))
      | Some blob \<Rightarrow>
          if length blob < 48 then Some (Inl (Secret_Integrity ''secret ciphertext is truncated'')) else
          (let nonce = take 16 blob; rest = drop 16 blob; encrypted = take (length rest - 32) rest; tag = drop (length rest - 32) rest in
           if tag \<noteq> tag_of dg ks nonce encrypted then Some (Inl (Secret_Integrity ''secret ciphertext authentication failed'')) else
           map_option (\<lambda>stream. case decode_text (xor_bytes encrypted stream) of
               None \<Rightarrow> Inl (Secret_Integrity ''secret plaintext is not valid UTF-8'') | Some t \<Rightarrow> Inr t)
             (keystream dg ks nonce (length encrypted))))"

section \<open>The table\<close>

record secret_row =
  sw_id :: string
  sw_name :: string
  sw_value :: string
  sw_description :: string
  sw_tenant :: string
  sw_created :: string
  sw_updated :: string

record secret_store =
  ss_rows :: "secret_row list"
  ss_keys :: key_ring

definition open_store :: "digests \<Rightarrow> string \<Rightarrow> string option \<Rightarrow> string option \<Rightarrow> secret_row list \<Rightarrow> secret_error + secret_store" where
  "open_store dg env_var env_value explicit rows = (case load_master_key env_var env_value explicit of
     Inl e \<Rightarrow> Inl e | Inr raw \<Rightarrow> Inr \<lparr>ss_rows = rows, ss_keys = set_master_key dg raw\<rparr>)"

definition named :: "string \<Rightarrow> string \<Rightarrow> secret_row \<Rightarrow> bool" where
  "named name tenant r = (sw_name r = name \<and> sw_tenant r = tenant)"

text \<open>\<open>None\<close> stands for a key stream that never ends, which digests that are not empty rule out.\<close>

definition store_secret ::
  "digests \<Rightarrow> byte list \<Rightarrow> string \<Rightarrow> string \<Rightarrow> secret_store \<Rightarrow> string \<Rightarrow> string \<Rightarrow> string \<Rightarrow> string \<Rightarrow> (secret_error + secret_store \<times> string) option" where
  "store_secret dg nonce uuid now st name secret description tenant =
     map_option (\<lambda>encrypted. case find (named name tenant) (ss_rows st) of
         Some r \<Rightarrow> Inr (st\<lparr>ss_rows := map (\<lambda>r. if named name tenant r
             then r\<lparr>sw_value := encrypted, sw_description := description, sw_updated := now\<rparr> else r) (ss_rows st)\<rparr>, sw_id r)
       | None \<Rightarrow> let i = ''secret-'' @ uuid in
           if list_ex (\<lambda>r. sw_id r = i) (ss_rows st) then Inl (Secret_Database ''UNIQUE constraint failed: secrets.secret_id'') else
           Inr (st\<lparr>ss_rows := ss_rows st @ [\<lparr>sw_id = i, sw_name = name, sw_value = encrypted, sw_description = description,
             sw_tenant = tenant, sw_created = now, sw_updated = now\<rparr>]\<rparr>, i))
       (encrypt dg nonce (ss_keys st) secret)"

definition get_secret :: "digests \<Rightarrow> secret_store \<Rightarrow> string \<Rightarrow> string \<Rightarrow> (secret_error + string option) option" where
  "get_secret dg st name tenant = (case find (named name tenant) (ss_rows st) of
     None \<Rightarrow> Some (Inr None)
   | Some r \<Rightarrow> map_option (map_sum id Some) (decrypt dg (ss_keys st) (sw_value r)))"

text \<open>The rows of a tenant by name, without their values.\<close>

definition list_secrets :: "secret_store \<Rightarrow> string \<Rightarrow> (string \<times> string \<times> string \<times> string \<times> string \<times> string) list" where
  "list_secrets st tenant =
     map (\<lambda>r. (sw_id r, sw_name r, sw_description r, sw_tenant r, sw_created r, sw_updated r))
       (sort_key sw_name (filter (\<lambda>r. sw_tenant r = tenant) (ss_rows st)))"

definition delete_secret :: "secret_store \<Rightarrow> string \<Rightarrow> string \<Rightarrow> secret_store \<times> bool" where
  "delete_secret st name tenant =
     (st\<lparr>ss_rows := filter (\<lambda>r. \<not> named name tenant r) (ss_rows st)\<rparr>, list_ex (named name tenant) (ss_rows st))"

text \<open>A fold that stops at the first \<open>None\<close> or error.\<close>

fun decrypt_all :: "digests \<Rightarrow> key_ring \<Rightarrow> secret_row list \<Rightarrow> (secret_error + string list) option" where
  "decrypt_all dg ks [] = Some (Inr [])"
| "decrypt_all dg ks (r # rs) = (case decrypt dg ks (sw_value r) of
     None \<Rightarrow> None
   | Some (Inl e) \<Rightarrow> Some (Inl e)
   | Some (Inr t) \<Rightarrow> map_option (map_sum id ((#) t)) (decrypt_all dg ks rs))"

fun encrypt_all :: "digests \<Rightarrow> (nat \<Rightarrow> byte list) \<Rightarrow> key_ring \<Rightarrow> nat \<Rightarrow> string list \<Rightarrow> string list option" where
  "encrypt_all dg nonces ks n [] = Some []"
| "encrypt_all dg nonces ks n (t # ts) = (case encrypt dg (nonces n) ks t of
     None \<Rightarrow> None | Some c \<Rightarrow> map_option ((#) c) (encrypt_all dg nonces ks (Suc n) ts))"

text \<open>
  The rotation. \<open>begun\<close> and \<open>committed\<close> say whether \<^verbatim>\<open>BEGIN IMMEDIATE\<close> and what follows it succeed; the first
  stands outside the \<^verbatim>\<open>try\<close>, after the keys were replaced.
\<close>

definition rotate_master_key ::
  "digests \<Rightarrow> (nat \<Rightarrow> byte list) \<Rightarrow> (nat \<Rightarrow> string) \<Rightarrow> bool \<Rightarrow> bool \<Rightarrow> secret_store \<Rightarrow> string \<Rightarrow> (secret_store \<times> (secret_error + unit)) option" where
  "rotate_master_key dg nonces now begun committed st new_key =
     (if blank_text new_key then Some (st, Inl (Secret_Configuration ''new master key must not be empty'')) else
      case decrypt_all dg (ss_keys st) (ss_rows st) of
        None \<Rightarrow> None
      | Some (Inl e) \<Rightarrow> Some (st, Inl e)
      | Some (Inr plaintexts) \<Rightarrow>
          (let ks = set_master_key dg new_key in
           map_option (\<lambda>replacements.
             if \<not> begun then (st\<lparr>ss_keys := ks\<rparr>, Inl (Secret_Database ''database is locked''))
             else if \<not> committed then (st, Inl (Secret_Database ''disk I/O error''))
             else (\<lparr>ss_rows = map (\<lambda>(i, r, c). r\<lparr>sw_value := c, sw_updated := now i\<rparr>) (zip [0..<length replacements] (zip (ss_rows st) replacements)),
                    ss_keys = ks\<rparr>, Inr ()))
           (encrypt_all dg nonces ks 0 plaintexts)))"

section \<open>Encoding is undone\<close>

lemma char_of_byte_of [simp]: "char_of_byte (byte_of c) = c"
proof -
  have "(of_char c :: nat) < 2 ^ 8" using nat_of_char_less_256[of c] by simp
  then have "unat (word_of_nat (of_char c) :: byte) = of_char c" by (simp add: unsigned_of_nat take_bit_nat_eq_self)
  then show ?thesis by (simp add: char_of_byte_def byte_of_def)
qed

lemma utf8_text_utf8: "utf8_text (utf8_char c @ s) = map_option ((#) c) (utf8_text s)"
proof (cases "(of_char c :: nat) < 128")
  case True
  then show ?thesis by (cases s) (simp_all add: utf8_char_def)
next
  case False
  define n where "n = (of_char c :: nat)"
  have n: "128 \<le> n" "n < 256" using False nat_of_char_less_256[of c] by (simp_all add: n_def)
  have c: "char_of n = c" by (simp add: n_def)
  have "n div 64 = 2 \<or> n div 64 = 3" using n by auto
  moreover have "n div 64 * 64 + n mod 64 = n" by simp
  ultimately have "(n div 64) * 64 + (128 + n mod 64 - 128) = n" "192 + n div 64 = 194 \<or> 192 + n div 64 = 195" by auto
  then show ?thesis using n c False
    by (auto simp: utf8_char_def n_def[symmetric] Let_def of_char_of)
qed

lemma decode_encode [simp]: "decode_text (encode_text s) = Some s"
proof -
  have "utf8_text (utf8 s) = Some s"
    by (induction s) (simp_all add: utf8_def utf8_text_utf8)
  then show ?thesis by (simp add: decode_text_def encode_text_def comp_def)
qed

lemma symbol_table: "list_all (\<lambda>n. symbol_value (symbol n) = Some n \<and> symbol n \<noteq> CHR ''='') [0..<64]"
  by code_simp

lemma symbol_value [simp]: "n < 64 \<Longrightarrow> symbol_value (symbol n) = Some n" "n < 64 \<Longrightarrow> symbol n \<noteq> CHR ''=''"
  using symbol_table by (auto simp: list_all_iff)

lemma unb64_b64: "\<forall>b\<in>set bs. b < 256 \<Longrightarrow> unb64_nats (b64_nats bs) = Some bs"
proof (induction bs rule: b64_nats.induct)
  case (2 a)
  then have "a div 4 < 64" "a mod 4 * 16 < 64" "a div 4 * 4 + a mod 4 = a" by auto
  then show ?case by simp
next
  case (3 a b)
  then have "a div 4 < 64" "a mod 4 * 16 + b div 16 < 64" "b mod 16 * 4 < 64" by auto
  moreover have "(a mod 4 * 16 + b div 16) div 16 = a mod 4" "(a mod 4 * 16 + b div 16) mod 16 = b div 16" using 3 by auto
  ultimately show ?case by simp
next
  case (4 a b c r)
  then have "a div 4 < 64" "a mod 4 * 16 + b div 16 < 64" "b mod 16 * 4 + c div 64 < 64" "c mod 64 < 64" by auto
  moreover have "(a mod 4 * 16 + b div 16) div 16 = a mod 4" "(a mod 4 * 16 + b div 16) mod 16 = b div 16"
    "(b mod 16 * 4 + c div 64) div 4 = b mod 16" "(b mod 16 * 4 + c div 64) mod 4 = c div 64" using 4 by auto
  ultimately show ?case using 4 by simp
qed simp

lemma decode_b64 [simp]: "b64decode (b64encode bs) = Some bs"
proof -
  have "unat b < 256" for b :: byte using unsigned_less[of b, where 'a = nat] by simp
  then have "\<forall>b\<in>set (map unat bs). b < 256" by simp
  then show ?thesis by (simp add: b64decode_def b64encode_def unb64_b64 comp_def)
qed

section \<open>A ciphertext decrypts to its plaintext\<close>

definition good_digests :: "digests \<Rightarrow> bool" where
  "good_digests dg = (\<forall>k m. length (dg_mac dg k m) = 32)"

lemma stream_loop_total:
  "good_digests dg \<Longrightarrow> len \<le> length blocks + 32 * rounds \<Longrightarrow>
   \<exists>s. stream_loop dg key nonce len rounds counter blocks = Some s \<and> length s = len"
proof (induction rounds arbitrary: counter blocks)
  case 0 then show ?case by (simp add: stream_loop.simps)
next
  case (Suc n)
  have "length (dg_mac dg key (encode_text ''stream-v1'' @ nonce @ be8 counter)) = 32"
    using Suc.prems(1) by (simp add: good_digests_def)
  then show ?case using Suc.IH[OF Suc.prems(1)] Suc.prems(2)
    by (subst stream_loop.simps) simp
qed

lemma keystream_total: "good_digests dg \<Longrightarrow> \<exists>s. keystream dg ks nonce len = Some s \<and> length s = len"
  unfolding keystream_def by (rule stream_loop_total) simp_all

lemma xor_bytes_twice: "length a = length s \<Longrightarrow> xor_bytes (xor_bytes a s) s = a"
  unfolding xor_bytes_def by (induction a s rule: list_induct2) (simp_all add: xor.assoc)

lemma length_xor_bytes [simp]: "length (xor_bytes a s) = min (length a) (length s)"
  by (simp add: xor_bytes_def)

lemma decrypt_encrypt:
  assumes "good_digests dg" "length nonce = 16"
  shows "\<exists>c. encrypt dg nonce ks t = Some c \<and> decrypt dg ks c = Some (Inr t)"
proof -
  obtain s where s: "keystream dg ks nonce (length (encode_text t)) = Some s" "length s = length (encode_text t)"
    using keystream_total[OF assms(1)] by blast
  let ?c = "xor_bytes (encode_text t) s"
  have "length (tag_of dg ks nonce ?c) = 32" using assms(1) by (simp add: tag_of_def good_digests_def)
  then show ?thesis using s assms(2)
    by (simp add: encrypt_def decrypt_def Let_def startswith_def xor_bytes_twice)
qed

section \<open>The table under any sequence of operations\<close>

datatype secret_op =
    Put "byte list" string string string string string string
  | Drop string string
  | Rekey "nat \<Rightarrow> byte list" "nat \<Rightarrow> string" bool string

text \<open>One operation and whether it succeeded; a rotation begins its transaction, and may fail to commit it.\<close>

definition secret_step :: "digests \<Rightarrow> secret_op \<Rightarrow> secret_store \<Rightarrow> (secret_store \<times> bool) option" where
  "secret_step dg op st = (case op of
     Put nonce uuid now name secret description tenant \<Rightarrow>
       map_option (\<lambda>r. case r of Inl _ \<Rightarrow> (st, False) | Inr (st', _) \<Rightarrow> (st', True))
         (store_secret dg nonce uuid now st name secret description tenant)
   | Drop name tenant \<Rightarrow> Some (fst (delete_secret st name tenant), True)
   | Rekey nonces now committed key \<Rightarrow>
       map_option (\<lambda>(st', r). (st', r = Inr ())) (rotate_master_key dg nonces now True committed st key))"

fun secret_run :: "digests \<Rightarrow> secret_op list \<Rightarrow> secret_store \<Rightarrow> (secret_store \<times> bool list) option" where
  "secret_run dg [] st = Some (st, [])"
| "secret_run dg (op # ops) st = (case secret_step dg op st of
     None \<Rightarrow> None
   | Some (st', b) \<Rightarrow> map_option (map_prod id ((#) b)) (secret_run dg ops st'))"

text \<open>What a caller expects: a plain map from names and tenants to texts, which rotations leave alone.\<close>

definition vault_step :: "secret_op \<Rightarrow> (string \<times> string \<Rightarrow> string option) \<Rightarrow> string \<times> string \<Rightarrow> string option" where
  "vault_step op m = (case op of
     Put nonce uuid now name secret description tenant \<Rightarrow> m((name, tenant) \<mapsto> secret)
   | Drop name tenant \<Rightarrow> m((name, tenant) := None)
   | Rekey nonces now committed key \<Rightarrow> m)"

text \<open>A call fails only when it is a rotation to a blank key or one whose transaction does not commit.\<close>

definition succeeds :: "secret_op \<Rightarrow> bool" where
  "succeeds op = (case op of Rekey nonces now committed key \<Rightarrow> committed \<and> \<not> blank_text key | _ \<Rightarrow> True)"

definition op_ids :: "secret_op \<Rightarrow> string list" where
  "op_ids op = (case op of Put _ uuid _ _ _ _ _ \<Rightarrow> [''secret-'' @ uuid] | _ \<Rightarrow> [])"

definition op_ok :: "secret_op \<Rightarrow> bool" where
  "op_ok op = (case op of Put nonce _ _ _ _ _ _ \<Rightarrow> length nonce = 16 | Rekey nonces _ _ _ \<Rightarrow> \<forall>n. length (nonces n) = 16 | _ \<Rightarrow> True)"

text \<open>The store holds a map: one row for every key of it, and that row decrypts to what the map says.\<close>

definition row_key :: "secret_row \<Rightarrow> string \<times> string" where
  "row_key r = (sw_name r, sw_tenant r)"

definition holds :: "digests \<Rightarrow> secret_store \<Rightarrow> (string \<times> string \<Rightarrow> string option) \<Rightarrow> bool" where
  "holds dg st m = (distinct (map row_key (ss_rows st)) \<and> dom m = row_key ` set (ss_rows st) \<and>
     (\<forall>r\<in>set (ss_rows st). \<exists>t. m (row_key r) = Some t \<and> decrypt dg (ss_keys st) (sw_value r) = Some (Inr t)))"

lemma named_key: "named n t r \<longleftrightarrow> row_key r = (n, t)"
  by (auto simp: named_def row_key_def)

lemma holds_get:
  assumes "holds dg st m"
  shows "get_secret dg st n t = Some (Inr (m (n, t)))"
proof (cases "find (named n t) (ss_rows st)")
  case None
  then have "(n, t) \<notin> dom m" using assms by (force simp: find_None_iff named_key holds_def)
  then show ?thesis using None by (simp add: get_secret_def domIff)
next
  case (Some r)
  then have "r \<in> set (ss_rows st)" "row_key r = (n, t)" by (auto simp: find_Some_iff named_key)
  then show ?thesis using Some assms by (fastforce simp: get_secret_def holds_def)
qed

lemma holds_drop: "holds dg st m \<Longrightarrow> holds dg (fst (delete_secret st n t)) (m((n, t) := None))"
  by (auto simp: holds_def delete_secret_def named_key distinct_map_filter)

lemma same_keys: "map row_key xs = map row_key ys \<Longrightarrow> row_key ` set xs = row_key ` set ys"
  by (drule arg_cong[where f = set]) simp

lemma ids_put: "store_secret dg nonce uuid now st n secret d t = Some (Inr (st', i)) \<Longrightarrow>
    sw_id ` set (ss_rows st') \<subseteq> insert (''secret-'' @ uuid) (sw_id ` set (ss_rows st))"
  by (fastforce simp: store_secret_def Let_def split: option.splits if_splits)

lemma holds_put:
  assumes "holds dg st m" "good_digests dg" "length nonce = 16" "''secret-'' @ uuid \<notin> sw_id ` set (ss_rows st)"
  shows "\<exists>st' i. store_secret dg nonce uuid now st n secret d t = Some (Inr (st', i)) \<and> holds dg st' (m((n, t) \<mapsto> secret))"
proof -
  obtain c where c: "encrypt dg nonce (ss_keys st) secret = Some c" "decrypt dg (ss_keys st) c = Some (Inr secret)"
    using decrypt_encrypt[OF assms(2,3)] by blast
  show ?thesis
  proof (cases "find (named n t) (ss_rows st)")
    case None
    then have "(n, t) \<notin> row_key ` set (ss_rows st)" by (force simp: find_None_iff named_key)
    moreover have "\<not> list_ex (\<lambda>r. sw_id r = ''secret-'' @ uuid) (ss_rows st)"
      using assms(4) unfolding list_ex_iff by (metis image_eqI)
    ultimately show ?thesis using None c assms(1)
      by (auto simp: store_secret_def holds_def Let_def row_key_def)
  next
    case (Some r)
    then have r: "r \<in> set (ss_rows st)" "row_key r = (n, t)" by (auto simp: find_Some_iff named_key)
    define f where "f = (\<lambda>r. if named n t r then r\<lparr>sw_value := c, sw_description := d, sw_updated := now\<rparr> else r)"
    have f: "row_key (f x) = row_key x" "sw_value (f x) = (if row_key x = (n, t) then c else sw_value x)" for x
      by (simp_all add: f_def row_key_def named_def)
    have "\<exists>t'. (m((n, t) \<mapsto> secret)) (row_key (f x)) = Some t' \<and> decrypt dg (ss_keys st) (sw_value (f x)) = Some (Inr t')"
      if "x \<in> set (ss_rows st)" for x
      using assms(1) c(2) that by (simp add: holds_def f)
    then have "\<forall>x\<in>set (map f (ss_rows st)). \<exists>t'. (m((n, t) \<mapsto> secret)) (row_key x) = Some t' \<and> decrypt dg (ss_keys st) (sw_value x) = Some (Inr t')"
      by auto
    moreover have keys: "map row_key (map f (ss_rows st)) = map row_key (ss_rows st)" by (simp add: f)
    moreover have "dom (m((n, t) \<mapsto> secret)) = row_key ` set (map f (ss_rows st))"
      unfolding same_keys[OF keys] using assms(1) r by (auto simp: holds_def image_iff intro!: bexI[of _ r])
    ultimately have "holds dg (st\<lparr>ss_rows := map f (ss_rows st)\<rparr>) (m((n, t) \<mapsto> secret))"
      using assms(1) unfolding holds_def by (simp del: map_map set_map list.set_map)
    then show ?thesis using Some c by (simp add: store_secret_def f_def)
  qed
qed

lemma decrypt_all_held:
  assumes "\<forall>r\<in>set rs. \<exists>t. m (row_key r) = Some t \<and> decrypt dg ks (sw_value r) = Some (Inr t)"
  shows "decrypt_all dg ks rs = Some (Inr (map (\<lambda>r. the (m (row_key r))) rs))"
  using assms by (induction rs) auto

lemma encrypt_all_held:
  assumes "good_digests dg" "\<forall>n. length (nonces n) = 16"
  shows "\<exists>cs. encrypt_all dg nonces ks n ts = Some cs \<and> list_all2 (\<lambda>t c. decrypt dg ks c = Some (Inr t)) ts cs"
proof (induction ts arbitrary: n)
  case (Cons t ts)
  obtain c where "encrypt dg (nonces n) ks t = Some c" "decrypt dg ks c = Some (Inr t)"
    using decrypt_encrypt assms by blast
  then show ?case using Cons[of "Suc n"] by auto
qed simp

text \<open>Rows and their new ciphertexts, as the statement \<^verbatim>\<open>UPDATE\<close> pairs them.\<close>

lemma holds_rekeyed:
  assumes "holds dg st m" "list_all2 (\<lambda>t c. decrypt dg ks c = Some (Inr t)) (map (\<lambda>r. the (m (row_key r))) (ss_rows st)) cs"
  shows "holds dg \<lparr>ss_rows = map (\<lambda>(i, r, c). r\<lparr>sw_value := c, sw_updated := now i\<rparr>) (zip [0..<length cs] (zip (ss_rows st) cs)), ss_keys = ks\<rparr> m"
proof -
  let ?g = "\<lambda>(i, r, c). r\<lparr>sw_value := c, sw_updated := now i\<rparr>"
  let ?rows = "map ?g (zip [0..<length cs] (zip (ss_rows st) cs))"
  have len: "length cs = length (ss_rows st)" using list_all2_lengthD[OF assms(2)] by simp
  have keys: "map row_key ?rows = map row_key (ss_rows st)"
    by (rule nth_equalityI) (simp_all add: len row_key_def)
  have vals: "decrypt dg ks (sw_value (?rows ! i)) = Some (Inr (the (m (row_key (ss_rows st ! i)))))"
    if "i < length (ss_rows st)" for i
    using list_all2_nthD[OF assms(2)] that by (simp add: len)
  have "\<exists>t. m (row_key r) = Some t \<and> decrypt dg ks (sw_value r) = Some (Inr t)" if "r \<in> set ?rows" for r
  proof -
    from that obtain i where i: "i < length (ss_rows st)" "r = ?rows ! i"
      unfolding in_set_conv_nth by (auto simp: len)
    have "row_key r = row_key (ss_rows st ! i)" using i by (simp add: len row_key_def)
    moreover have "\<exists>t. m (row_key (ss_rows st ! i)) = Some t" using assms(1) i(1) by (meson holds_def nth_mem)
    ultimately show ?thesis using vals[OF i(1)] i(2) by auto
  qed
  moreover have "row_key ` set ?rows = row_key ` set (ss_rows st)" by (rule same_keys[OF keys])
  ultimately show ?thesis using assms(1) keys unfolding holds_def by simp
qed

lemma holds_rotate:
  assumes "holds dg st m" "good_digests dg" "\<forall>n. length (nonces n) = 16"
  shows "\<exists>st' r. rotate_master_key dg nonces now True committed st key = Some (st', r) \<and> holds dg st' m \<and>
    (r = Inr () \<longleftrightarrow> committed \<and> \<not> blank_text key) \<and> sw_id ` set (ss_rows st') \<subseteq> sw_id ` set (ss_rows st)"
proof -
  have "decrypt_all dg (ss_keys st) (ss_rows st) = Some (Inr (map (\<lambda>r. the (m (row_key r))) (ss_rows st)))"
    using assms(1) by (intro decrypt_all_held) (simp add: holds_def)
  moreover obtain cs where "encrypt_all dg nonces (set_master_key dg key) 0 (map (\<lambda>r. the (m (row_key r))) (ss_rows st)) = Some cs"
      "list_all2 (\<lambda>t c. decrypt dg (set_master_key dg key) c = Some (Inr t)) (map (\<lambda>r. the (m (row_key r))) (ss_rows st)) cs"
    using encrypt_all_held[OF assms(2,3)] by blast
  moreover have "sw_id ` set (map (\<lambda>(i, r, c). r\<lparr>sw_value := c, sw_updated := now i\<rparr>) (zip [0..<length cs] (zip (ss_rows st) cs))) \<subseteq> sw_id ` set (ss_rows st)" for cs
    by (auto elim!: in_set_zipE)
  ultimately show ?thesis using assms(1) holds_rekeyed[OF assms(1)]
    by (simp add: rotate_master_key_def Let_def)
qed

lemma holds_step:
  assumes "holds dg st m" "good_digests dg" "op_ok op" "set (op_ids op) \<inter> sw_id ` set (ss_rows st) = {}"
  shows "\<exists>st'. secret_step dg op st = Some (st', succeeds op) \<and> holds dg st' (vault_step op m) \<and>
    sw_id ` set (ss_rows st') \<subseteq> set (op_ids op) \<union> sw_id ` set (ss_rows st)"
proof (cases op)
  case (Put nonce uuid now n secret d t)
  then have "length nonce = 16" "''secret-'' @ uuid \<notin> sw_id ` set (ss_rows st)"
    using assms(3,4) by (auto simp: op_ok_def op_ids_def)
  from holds_put[OF assms(1,2) this] obtain st' i where
    "store_secret dg nonce uuid now st n secret d t = Some (Inr (st', i))" "holds dg st' (m((n, t) \<mapsto> secret))" by blast
  then show ?thesis using Put ids_put[of dg nonce uuid now st n secret d t st' i]
    by (simp add: secret_step_def vault_step_def succeeds_def op_ids_def)
next
  case (Drop n t)
  moreover have "sw_id ` set (ss_rows (fst (delete_secret st n t))) \<subseteq> sw_id ` set (ss_rows st)"
    by (auto simp: delete_secret_def)
  ultimately show ?thesis using holds_drop[OF assms(1), of n t]
    by (simp add: secret_step_def vault_step_def succeeds_def op_ids_def)
next
  case (Rekey nonces now committed key)
  then have "\<forall>n. length (nonces n) = 16" using assms(3) by (simp add: op_ok_def)
  from holds_rotate[OF assms(1,2) this, of now committed key] obtain st' r where
    "rotate_master_key dg nonces now True committed st key = Some (st', r)" "holds dg st' m"
    "r = Inr () \<longleftrightarrow> committed \<and> \<not> blank_text key" "sw_id ` set (ss_rows st') \<subseteq> sw_id ` set (ss_rows st)" by blast
  then show ?thesis using Rekey by (simp add: secret_step_def vault_step_def succeeds_def op_ids_def)
qed

lemma holds_run:
  assumes "holds dg st m" "good_digests dg" "list_all op_ok ops" "distinct (concat (map op_ids ops))"
    "set (concat (map op_ids ops)) \<inter> sw_id ` set (ss_rows st) = {}"
  shows "\<exists>st'. secret_run dg ops st = Some (st', map succeeds ops) \<and> holds dg st' (fold vault_step ops m)"
  using assms(1,3-5)
proof (induction ops arbitrary: st m)
  case (Cons op ops)
  then have "set (op_ids op) \<inter> sw_id ` set (ss_rows st) = {}" "op_ok op" by auto
  from holds_step[OF Cons.prems(1) assms(2) this(2,1)] obtain st' where
    st': "secret_step dg op st = Some (st', succeeds op)" "holds dg st' (vault_step op m)"
      "sw_id ` set (ss_rows st') \<subseteq> set (op_ids op) \<union> sw_id ` set (ss_rows st)" by blast
  have "set (concat (map op_ids ops)) \<inter> sw_id ` set (ss_rows st') = {}"
    using Cons.prems(3,4) st'(3) by (auto dest!: subsetD[OF st'(3), OF imageI])
  then show ?case using Cons.IH[OF st'(2)] Cons.prems(2,3) st'(1) by auto
qed simp

section \<open>Properties\<close>


text \<open>Digests one can compute: the sum of key and message, thirty-two times.\<close>

definition sum_digests :: digests where
  "sum_digests = \<lparr>dg_sha = (\<lambda>m. replicate 32 (sum_list m)), dg_mac = (\<lambda>k m. replicate 32 (sum_list k + sum_list m))\<rparr>"

definition demo_ops :: "secret_op list" where
  "demo_ops = [Put (replicate 16 1) ''a'' ''t0'' ''token'' ''hunter'' [] ''acme'',
     Put (replicate 16 2) ''b'' ''t1'' ''token'' ''other'' [] ''globex'',
     Rekey (\<lambda>n. replicate 16 3) (\<lambda>n. ''t2'') True ''next key'', Drop ''token'' ''globex'']"

lemma good_sum_digests: "good_digests sum_digests"
  by (simp add: good_digests_def sum_digests_def)

lemma demo_ops_ok: "list_all op_ok demo_ops" "distinct (concat (map op_ids demo_ops))"
  by (simp_all add: demo_ops_def op_ok_def op_ids_def)

lemma demo_open: "open_store sum_digests ''KEY'' None (Some ''key'') [] = Inr \<lparr>ss_rows = [], ss_keys = set_master_key sum_digests ''key''\<rparr>"
proof -
  have "\<not> blank_text ''key''" by code_simp
  then show ?thesis by (simp add: open_store_def load_master_key_def)
qed


text \<open>
  C12. A ciphertext of the current format is accepted only with its own tag: what \<^verbatim>\<open>_decrypt\<close> returns text for is
  sixteen bytes of nonce, the encrypted bytes, and the authentication code of both under the authentication key.
\<close>

theorem accepted_ciphertext_is_authentic:
  assumes "startswith c ''v1:''" "decrypt dg ks c = Some (Inr t)"
  shows "\<exists>nonce encrypted. length nonce = 16 \<and>
    b64decode (drop 3 c) = Some (nonce @ encrypted @ tag_of dg ks nonce encrypted)"
proof -
  obtain blob where blob: "b64decode (drop 3 c) = Some blob" "48 \<le> length blob"
      "drop (length (drop 16 blob) - 32) (drop 16 blob) = tag_of dg ks (take 16 blob) (take (length (drop 16 blob) - 32) (drop 16 blob))"
    using assms by (auto simp: decrypt_def Let_def split: option.splits if_splits)
  have "blob = take 16 blob @ take (length (drop 16 blob) - 32) (drop 16 blob) @ drop (length (drop 16 blob) - 32) (drop 16 blob)"
    by (simp only: append_take_drop_id)
  then have "blob = take 16 blob @ take (length (drop 16 blob) - 32) (drop 16 blob) @ tag_of dg ks (take 16 blob) (take (length (drop 16 blob) - 32) (drop 16 blob))"
    by (simp only: blob(3))
  moreover have "length (take 16 blob) = 16" using blob(2) by simp
  ultimately show ?thesis using blob(1) by metis
qed

lemma encrypted_format: "encrypt dg nonce ks t = Some c \<Longrightarrow> startswith c ''v1:''"
  by (auto simp: encrypt_def Let_def startswith_def)

theorem accepted_ciphertext_is_authentic_witness:
  "\<exists>c. decrypt sum_digests (set_master_key sum_digests ''key'') c = Some (Inr ''hunter'') \<and>
     (\<exists>nonce encrypted. length nonce = 16 \<and>
        b64decode (drop 3 c) = Some (nonce @ encrypted @ tag_of sum_digests (set_master_key sum_digests ''key'') nonce encrypted))"
proof -
  obtain c where "encrypt sum_digests (replicate 16 1) (set_master_key sum_digests ''key'') ''hunter'' = Some c"
      "decrypt sum_digests (set_master_key sum_digests ''key'') c = Some (Inr ''hunter'')"
    using decrypt_encrypt[OF good_sum_digests, of "replicate 16 1"] by auto
  then show ?thesis using accepted_ciphertext_is_authentic[OF encrypted_format] by blast
qed

section \<open>What does not hold\<close>

text \<open>
  A rotation that meets a locked database raises after the new keys were put in place: the statement that begins
  the transaction stands outside the \<^verbatim>\<open>try\<close>. From then on a secret is read with the new keys, and rejected
  wherever the two authentication keys give different codes, until the store is opened again.
\<close>

lemma other_key_rejects:
  assumes "good_digests dg" "length nonce = 16" "encrypt dg nonce ks t = Some c" "\<And>e. tag_of dg ks' nonce e \<noteq> tag_of dg ks nonce e"
  shows "decrypt dg ks' c = Some (Inl (Secret_Integrity ''secret ciphertext authentication failed''))"
proof -
  have "length (tag_of dg ks nonce e) = 32" for e using assms(1) by (simp add: tag_of_def good_digests_def)
  moreover from assms(3) obtain stream where "c = ''v1:'' @ b64encode (nonce @ xor_bytes (encode_text t) stream @ tag_of dg ks nonce (xor_bytes (encode_text t) stream))"
    by (auto simp: encrypt_def Let_def)
  moreover note assms(2) assms(4)[symmetric]
  ultimately show ?thesis by (simp add: decrypt_def Let_def startswith_def)
qed

lemma locked_rotation_hides_secrets:
  assumes "holds dg st m" "good_digests dg" "\<forall>n. length (nonces n) = 16" "\<not> blank_text key"
  shows "rotate_master_key dg nonces now False committed st key =
    Some (st\<lparr>ss_keys := set_master_key dg key\<rparr>, Inl (Secret_Database ''database is locked''))"
proof -
  have "decrypt_all dg (ss_keys st) (ss_rows st) = Some (Inr (map (\<lambda>r. the (m (row_key r))) (ss_rows st)))"
    using assms(1) by (intro decrypt_all_held) (simp add: holds_def)
  moreover obtain cs where "encrypt_all dg nonces (set_master_key dg key) 0 (map (\<lambda>r. the (m (row_key r))) (ss_rows st)) = Some cs"
    using encrypt_all_held[OF assms(2,3)] by blast
  ultimately show ?thesis using assms(4) by (simp add: rotate_master_key_def Let_def)
qed

text \<open>
  Without the prefix of the format a value is decrypted with no tag at all, and any change of its bytes that still
  reads as text is accepted: the exclusive or of two values moves from ciphertext to plaintext.
\<close>

lemma legacy_values_unauthenticated:
  assumes "\<not> startswith c ''v1:''"
  shows "decrypt dg ks c = Some (decrypt_legacy ks c)"
  using assms by (simp add: decrypt_def)

lemma legacy_forgery:
  assumes "length (kr_legacy ks) \<noteq> 0"
  shows "decrypt_legacy ks (b64encode (map (\<lambda>(i, b). b XOR kr_legacy ks ! (i mod length (kr_legacy ks))) (enumerate 0 (encode_text t)))) = Inr t"
proof -
  have "map (\<lambda>(i, b). b XOR k i) (enumerate n (map (\<lambda>(i, b). b XOR k i) (enumerate n bs))) = bs" for k n and bs :: "byte list"
    by (induction bs arbitrary: n) (simp_all add: xor.assoc)
  then show ?thesis by (simp add: decrypt_legacy_def)
qed

end
