(* ===== verification/Notify.thy ===== *)
theory Notify
  imports Py_Json_Load
begin

text \<open>
  Notifications, \<^verbatim>\<open>reference/gateway/webhooks.py\<close> and \<^verbatim>\<open>alerting.py\<close>: validation of the targets of webhooks,
  their delivery through redirects, and the bounded lists of webhooks, rules and alerts. \<^verbatim>\<open>urlsplit\<close> is
  modelled; the classification of literal addresses (\<^verbatim>\<open>ipaddress\<close>), the resolver and the servers on the other
  side are the record \<open>web\<close>, and what they answer may change with every use, whose number is counted.
\<close>

section \<open>Splitting a URL\<close>

text \<open>What leaves a call on the network: the exceptions delivery catches, by their class, and all others.\<close>

datatype net_exc = Os_Exc string | Value_Exc string | Other_Exc string

record url_parts =
  up_scheme :: string
  up_netloc :: string

definition is_letter :: "char \<Rightarrow> bool" where
  "is_letter c = (let n = of_char c :: nat in 65 \<le> n \<and> n \<le> 90 \<or> 97 \<le> n \<and> n \<le> 122)"

definition scheme_char :: "char \<Rightarrow> bool" where
  "scheme_char c = (is_letter c \<or> is_digit c \<or> c \<in> {CHR ''+'', CHR ''-'', CHR ''.''})"

definition clean_url :: "string \<Rightarrow> string" where
  "clean_url url = filter (\<lambda>c. (of_char c :: nat) \<notin> {9, 10, 13}) (dropWhile (\<lambda>c. (of_char c :: nat) \<le> 32) url)"

text \<open>The parts of a text before and after the first, or the last, of a character (\<^verbatim>\<open>partition\<close>, \<^verbatim>\<open>rpartition\<close>).\<close>

definition before_first :: "char \<Rightarrow> string \<Rightarrow> string" where
  "before_first c s = takeWhile (\<lambda>d. d \<noteq> c) s"

definition after_first :: "char \<Rightarrow> string \<Rightarrow> string" where
  "after_first c s = tl (dropWhile (\<lambda>d. d \<noteq> c) s)"

definition after_last :: "char \<Rightarrow> string \<Rightarrow> string" where
  "after_last c s = rev (takeWhile (\<lambda>d. d \<noteq> c) (rev s))"

definition before_last :: "char \<Rightarrow> string \<Rightarrow> string" where
  "before_last c s = rev (tl (dropWhile (\<lambda>d. d \<noteq> c) (rev s)))"

definition split_scheme :: "string \<Rightarrow> string \<times> string" where
  "split_scheme url =
     (let i = before_first (CHR '':'') url in
      if CHR '':'' \<in> set url \<and> i \<noteq> [] \<and> is_letter (hd i) \<and> list_all scheme_char i
      then (lower i, drop (length i + 1) url) else ([], url))"

text \<open>
  What is outside: whether a bracketed host is accepted, whether a literal address is global (\<open>None\<close> for a text
  that is no address), the resolver, the server that answers a request, and the authentication code.
\<close>

record http_request =
  hq_post :: bool
  hq_url :: string
  hq_body :: "string option"
  hq_headers :: "(string \<times> string) list"

datatype http_reply = Reply_Done | Reply_Redirect nat string | Reply_Fails net_exc

record web =
  wb_brackets :: "string \<Rightarrow> bool"
  wb_ip :: "string \<Rightarrow> bool option"
  wb_resolve :: "nat \<Rightarrow> string \<Rightarrow> int \<Rightarrow> net_exc + string list"
  wb_http :: "nat \<Rightarrow> http_request \<Rightarrow> http_reply"
  wb_mac :: "string \<Rightarrow> string \<Rightarrow> string"

definition urlsplit :: "web \<Rightarrow> string \<Rightarrow> string + url_parts" where
  "urlsplit w url =
     (let (scheme, rest) = split_scheme (clean_url url);
          netloc = (if startswith rest ''//'' then takeWhile (\<lambda>c. c \<notin> {CHR ''/'', CHR ''?'', CHR ''#''}) (drop 2 rest) else []);
          opens = CHR ''['' \<in> set netloc; closes = CHR '']'' \<in> set netloc in
      if opens \<noteq> closes then Inl ''Invalid IPv6 URL''
      else if opens \<and> \<not> wb_brackets w netloc then Inl ''Invalid IPv6 URL''
      else Inr \<lparr>up_scheme = scheme, up_netloc = netloc\<rparr>)"

definition url_host_port :: "url_parts \<Rightarrow> string \<times> string" where
  "url_host_port u =
     (let info = after_last (CHR ''@'') (up_netloc u) in
      if CHR ''['' \<in> set info
      then (let b = after_first (CHR ''['') info in (before_first (CHR '']'') b, after_first (CHR '':'') (after_first (CHR '']'') b)))
      else (before_first (CHR '':'') info, after_first (CHR '':'') info))"

text \<open>\<^verbatim>\<open>hostname\<close> (empty for \<^verbatim>\<open>None\<close>; the zone of an address keeps its case), \<^verbatim>\<open>port\<close>, and whether there are credentials.\<close>

definition url_hostname :: "url_parts \<Rightarrow> string" where
  "url_hostname u = (let h = fst (url_host_port u); b = before_first (CHR ''%'') h in lower b @ drop (length b) h)"

definition url_port :: "url_parts \<Rightarrow> string + int option" where
  "url_port u = (let p = snd (url_host_port u) in
     if p = [] then Inr None
     else if \<not> list_all is_digit p then Inl ''Port could not be cast to integer value''
     else case parse_int p of None \<Rightarrow> Inl ''Port could not be cast to integer value''
       | Some n \<Rightarrow> if n \<le> 65535 then Inr (Some n) else Inl ''Port out of range 0-65535'')"

definition url_credentials :: "url_parts \<Rightarrow> bool" where
  "url_credentials u = (CHR ''@'' \<in> set (up_netloc u))"

section \<open>Validation of targets\<close>

text \<open>The message of the \<^verbatim>\<open>ValueError\<close>, or the URL is good. A URL that is not a text is \<^verbatim>\<open>None\<close> here.\<close>

definition validate_webhook_url :: "web \<Rightarrow> bool \<Rightarrow> string option \<Rightarrow> string + unit" where
  "validate_webhook_url w allow_private url = (case url of
     None \<Rightarrow> Inl ''webhook URL must be a non-empty URL without control characters''
   | Some t \<Rightarrow>
      if t = [] \<or> list_ex (\<lambda>c. (of_char c :: nat) = 13 \<or> (of_char c :: nat) = 10) t
      then Inl ''webhook URL must be a non-empty URL without control characters'' else
      bindE (urlsplit w t) (\<lambda>u.
      if up_scheme u \<notin> {''http'', ''https''} \<or> url_hostname u = [] then Inl ''webhook URL must use http or https and include a host''
      else if url_credentials u then Inl ''webhook URL must not contain embedded credentials''
      else if isl (url_port u) then Inl ''webhook URL contains an invalid port''
      else if wb_ip w (url_hostname u) = Some False \<and> \<not> allow_private
      then Inl ''webhook URL must not target a private or local address''
      else Inr ()))"

definition global_address :: "web \<Rightarrow> string \<Rightarrow> string + unit" where
  "global_address w raw = (case wb_ip w (before_first (CHR ''%'') raw) of
     None \<Rightarrow> Inl ''webhook hostname resolved to an invalid address''
   | Some g \<Rightarrow> if g then Inr () else Inl ''webhook hostname resolved to a private or local address'')"

fun all_global :: "web \<Rightarrow> string list \<Rightarrow> string + unit" where
  "all_global w [] = Inr ()"
| "all_global w (a # as) = bindE (global_address w a) (\<lambda>_. all_global w as)"

text \<open>A failed name lookup becomes a \<^verbatim>\<open>ValueError\<close>; what else the resolver raises is left as it is.\<close>

definition validate_webhook_destination :: "web \<Rightarrow> bool \<Rightarrow> nat \<Rightarrow> string \<Rightarrow> net_exc + unit" where
  "validate_webhook_destination w allow_private t url =
     (case validate_webhook_url w allow_private (Some url) of
        Inl _ \<Rightarrow> Inl (Value_Exc ''ValueError'')
      | Inr _ \<Rightarrow>
          if allow_private then Inr () else
          (case urlsplit w url of Inl _ \<Rightarrow> Inl (Value_Exc ''ValueError'')
           | Inr u \<Rightarrow> let host = url_hostname u in
               if host = ''localhost'' \<or> startswith (rev host) (rev ''.localhost'') then Inl (Value_Exc ''ValueError'') else
               (case url_port u of Inl _ \<Rightarrow> Inl (Value_Exc ''ValueError'')
                | Inr p \<Rightarrow>
                    let port = (case p of Some n \<Rightarrow> if n = 0 then None else Some n | None \<Rightarrow> None);
                        number = (case port of Some n \<Rightarrow> n | None \<Rightarrow> if up_scheme u = ''https'' then 443 else 80) in
                    (case wb_resolve w t host number of
                       Inl (Os_Exc c) \<Rightarrow> Inl (if c = ''gaierror'' then Value_Exc ''ValueError'' else Os_Exc c)
                     | Inl e \<Rightarrow> Inl e
                     | Inr addresses \<Rightarrow>
                         if addresses = [] \<or> isl (all_global w addresses) then Inl (Value_Exc ''ValueError'') else Inr ()))))"

section \<open>Sending a request\<close>

text \<open>
  The state of the network as the code sees it: how often it was used, and the requests it was sent. A redirect is
  followed as \<^verbatim>\<open>urllib.request\<close> does, after the target was validated: a POST becomes a GET without its body, only
  for the codes 301, 302 and 303, and loops end after four visits of one URL or ten URLs.
\<close>

type_synonym net = "nat \<times> http_request list"

definition redirected :: "http_request \<Rightarrow> string \<Rightarrow> http_request" where
  "redirected q url = \<lparr>hq_post = False, hq_url = url, hq_body = None,
     hq_headers = filter (\<lambda>(k, _). lower k \<notin> {''content-length'', ''content-type''}) (hq_headers q)\<rparr>"

definition may_redirect :: "http_request \<Rightarrow> nat \<Rightarrow> bool" where
  "may_redirect q code = (code \<in> {301, 302, 303} \<or> code \<in> {307, 308} \<and> \<not> hq_post q)"

definition looped :: "string list \<Rightarrow> string \<Rightarrow> bool" where
  "looped visited url = (4 \<le> count_list visited url \<or> 10 \<le> length (remdups visited))"

definition room :: "string list \<Rightarrow> nat" where
  "room visited = (\<Sum>u\<in>set visited. 4 - count_list visited u)"

lemma room_less:
  assumes "u \<in> set visited" "count_list visited u < 4"
  shows "room (visited @ [u]) < room visited"
proof -
  have "set (visited @ [u]) = set visited" using assms(1) by auto
  moreover have "(\<Sum>v\<in>set visited. 4 - count_list (visited @ [u]) v) < (\<Sum>v\<in>set visited. 4 - count_list visited v)"
    using assms by (intro sum_strict_mono_ex1) (auto intro!: bexI[of _ u])
  ultimately show ?thesis by (simp add: room_def)
qed

function follow :: "web \<Rightarrow> bool \<Rightarrow> http_request \<Rightarrow> string list \<Rightarrow> net \<Rightarrow> net \<times> (net_exc + unit)" where
  "follow w allow_private q visited n = (case n of (t, sent) \<Rightarrow>
     case wb_http w t q of
       Reply_Done \<Rightarrow> ((t + 1, sent @ [q]), Inr ())
     | Reply_Fails e \<Rightarrow> ((t + 1, sent @ [q]), Inl e)
     | Reply_Redirect code url \<Rightarrow>
         (case validate_webhook_destination w allow_private (t + 1) url of
            Inl e \<Rightarrow> ((t + 2, sent @ [q]), Inl e)
          | Inr _ \<Rightarrow>
              if \<not> may_redirect q code \<or> looped visited url then ((t + 2, sent @ [q]), Inl (Os_Exc ''HTTPError''))
              else follow w allow_private (redirected q url) (visited @ [url]) (t + 2, sent @ [q])))"
  by pat_completeness auto

termination
proof (relation "measures [\<lambda>(w, a, q, visited, n). 10 - card (set visited), \<lambda>(w, a, q, visited, n). room visited]", goal_cases)
  case (2 w allow_private q visited n t sent code url x)
  then have "count_list visited url < 4" "card (set visited) < 10" by (auto simp: looped_def length_remdups_card_conv)
  then show ?case using room_less[of url visited] by (cases "url \<in> set visited") (auto simp: insert_absorb)
qed simp

declare follow.simps [simp del]

definition open_webhook_request :: "web \<Rightarrow> bool \<Rightarrow> http_request \<Rightarrow> net \<Rightarrow> net \<times> (net_exc + unit)" where
  "open_webhook_request w allow_private q n = (case n of (t, sent) \<Rightarrow>
     case validate_webhook_destination w allow_private t (hq_url q) of
       Inl e \<Rightarrow> ((t + 1, sent), Inl e)
     | Inr _ \<Rightarrow> follow w allow_private q [] (t + 1, sent))"

text \<open>The signature header; a secret that is true and no text has no \<^verbatim>\<open>encode\<close>.\<close>

definition signature_header :: "web \<Rightarrow> pyval \<Rightarrow> string \<Rightarrow> net_exc + (string \<times> string) list" where
  "signature_header w secret payload =
     (if \<not> truthy secret then Inr [] else
      case secret of PStr s \<Rightarrow> Inr [(''X-noerelay-signature'', wb_mac w (utf8 s) (utf8 payload))] | _ \<Rightarrow> Inl (Other_Exc ''AttributeError''))"

definition post_webhook :: "web \<Rightarrow> bool \<Rightarrow> string \<Rightarrow> pyval \<Rightarrow> (string \<times> string) list \<Rightarrow> string \<Rightarrow> net \<Rightarrow> net \<times> (net_exc + unit)" where
  "post_webhook w allow_private url secret headers payload n =
     (case signature_header w secret payload of
        Inl e \<Rightarrow> (n, Inl e)
      | Inr signature \<Rightarrow> open_webhook_request w allow_private
          \<lparr>hq_post = True, hq_url = strip url, hq_body = Some (utf8 payload), hq_headers = headers @ signature\<rparr> n)"

section \<open>The manager of webhooks\<close>

record webhook =
  wk_id :: string
  wk_url :: string
  wk_events :: "string list"
  wk_secret :: pyval
  wk_tenant :: pyval
  wk_created :: string

record webhook_manager =
  wm_webhooks :: "webhook list"
  wm_private :: bool
  wm_max :: int

definition open_webhooks :: "bool \<Rightarrow> int \<Rightarrow> webhook_manager res" where
  "open_webhooks allow_private max_webhooks =
     (if max_webhooks < 1 then Inl (PyValueError ''max_webhooks must be at least 1'')
      else Inr \<lparr>wm_webhooks = [], wm_private = allow_private, wm_max = max_webhooks\<rparr>)"

text \<open>\<^verbatim>\<open>del xs[:-n]\<close> for a positive \<open>n\<close>: the last \<open>n\<close> items stay.\<close>

definition keep_last :: "int \<Rightarrow> 'a list \<Rightarrow> 'a list" where
  "keep_last n xs = drop (length xs - nat n) xs"

definition public_webhook :: "webhook \<Rightarrow> pyval" where
  "public_webhook h = PDict [(''webhook_id'', PStr (wk_id h)), (''url'', PStr (wk_url h)), (''events'', PList (map PStr (wk_events h))),
     (''tenant_id'', wk_tenant h), (''created_at'', PStr (wk_created h)), (''active'', PBool True), (''has_secret'', PBool (truthy (wk_secret h)))]"

definition event_names :: "pyval \<Rightarrow> string list option" where
  "event_names v = (case v of
     PList vs \<Rightarrow> if vs \<noteq> [] \<and> list_all (\<lambda>e. case e of PStr s \<Rightarrow> s \<noteq> [] | _ \<Rightarrow> False) vs
       then Some (map (\<lambda>e. case e of PStr s \<Rightarrow> s | _ \<Rightarrow> []) vs) else None
   | _ \<Rightarrow> None)"

definition register_webhook :: "web \<Rightarrow> string \<Rightarrow> string \<Rightarrow> webhook_manager \<Rightarrow> pyval \<Rightarrow> pyval \<Rightarrow> pyval \<Rightarrow> pyval \<Rightarrow> webhook_manager \<times> (string + pyval)" where
  "register_webhook w uuid now m url events secret tenant =
     (case validate_webhook_url w (wm_private m) (case url of PStr s \<Rightarrow> Some s | _ \<Rightarrow> None) of
        Inl e \<Rightarrow> (m, Inl e)
      | Inr _ \<Rightarrow> (case event_names events of
          None \<Rightarrow> (m, Inl ''events must be a non-empty list of event names'')
        | Some names \<Rightarrow>
            let h = \<lparr>wk_id = ''wh-'' @ uuid, wk_url = (case url of PStr s \<Rightarrow> s | _ \<Rightarrow> []), wk_events = names, wk_secret = secret,
              wk_tenant = tenant, wk_created = now\<rparr> in
            (m\<lparr>wm_webhooks := keep_last (wm_max m) (wm_webhooks m @ [h])\<rparr>, Inr (public_webhook h))))"

definition list_webhooks :: "webhook_manager \<Rightarrow> string option \<Rightarrow> pyval list" where
  "list_webhooks m tenant = map public_webhook
     (case tenant of None \<Rightarrow> wm_webhooks m
      | Some t \<Rightarrow> if t = [] then wm_webhooks m else filter (\<lambda>h. py_eq (wk_tenant h) (PStr t)) (wm_webhooks m))"

fun drop_webhook :: "string \<Rightarrow> webhook list \<Rightarrow> webhook list option" where
  "drop_webhook i [] = None"
| "drop_webhook i (h # hs) = (if wk_id h = i then Some hs else map_option ((#) h) (drop_webhook i hs))"

definition delete_webhook :: "webhook_manager \<Rightarrow> string \<Rightarrow> webhook_manager \<times> bool" where
  "delete_webhook m i = (case drop_webhook i (wm_webhooks m) of
     None \<Rightarrow> (m, False) | Some hs \<Rightarrow> (m\<lparr>wm_webhooks := hs\<rparr>, True))"

definition delivery_result :: "webhook \<Rightarrow> string \<Rightarrow> string option \<Rightarrow> pyval" where
  "delivery_result h event failure = PDict [(''webhook_id'', PStr (wk_id h)), (''url'', PStr (wk_url h)), (''event'', PStr event),
     (''success'', PBool (failure = None)),
     (''error'', case failure of None \<Rightarrow> PNone | Some c \<Rightarrow> PStr (''delivery failed ('' @ c @ '')''))]"

fun deliver_all :: "web \<Rightarrow> bool \<Rightarrow> string \<Rightarrow> string \<Rightarrow> webhook list \<Rightarrow> net \<Rightarrow> net \<times> (string + pyval list)" where
  "deliver_all w allow_private event payload [] n = (n, Inr [])"
| "deliver_all w allow_private event payload (h # hs) n =
     (case post_webhook w allow_private (wk_url h) (wk_secret h)
        [(''Content-type'', ''application/json''), (''X-noerelay-event'', event)] payload n of
        (n', Inl (Other_Exc c)) \<Rightarrow> (n', Inl c)
      | (n', r) \<Rightarrow>
          let result = delivery_result h event (case r of Inr _ \<Rightarrow> None | Inl (Os_Exc c) \<Rightarrow> Some c | Inl (Value_Exc c) \<Rightarrow> Some c | Inl (Other_Exc c) \<Rightarrow> Some c) in
          (case deliver_all w allow_private event payload hs n' of
             (n'', Inl c) \<Rightarrow> (n'', Inl c) | (n'', Inr rs) \<Rightarrow> (n'', Inr (result # rs))))"

definition deliver :: "web \<Rightarrow> webhook_manager \<Rightarrow> string \<Rightarrow> pyval \<Rightarrow> net \<Rightarrow> net \<times> (string + pyval list)" where
  "deliver w m event payload n =
     deliver_all w (wm_private m) event (dumps False payload) (filter (\<lambda>h. event \<in> set (wk_events h)) (wm_webhooks m)) n"

section \<open>The manager of alerts\<close>

record alert =
  at_id :: string
  at_type :: string
  at_severity :: string
  at_message :: string
  at_details :: pyval
  at_timestamp :: string
  at_acknowledged :: bool
  at_by :: pyval

record alert_manager =
  am_alerts :: "alert list"
  am_rules :: "pyval list"
  am_webhooks :: "webhook list"
  am_max_alerts :: int
  am_max_rules :: int
  am_max_webhooks :: int

definition open_alerts :: "int \<Rightarrow> int \<Rightarrow> int \<Rightarrow> alert_manager res" where
  "open_alerts max_alerts max_rules max_webhooks =
     (if min (min max_alerts max_rules) max_webhooks < 1 then Inl (PyValueError ''alert manager limits must be at least 1'')
      else Inr \<lparr>am_alerts = [], am_rules = [], am_webhooks = [], am_max_alerts = max_alerts, am_max_rules = max_rules, am_max_webhooks = max_webhooks\<rparr>)"

definition add_rule :: "string \<Rightarrow> string \<Rightarrow> alert_manager \<Rightarrow> pyval \<Rightarrow> pyval \<Rightarrow> pyval \<Rightarrow> pyval \<Rightarrow> alert_manager \<times> pyval" where
  "add_rule uuid now m name alert_type condition severity =
     (let rule = PDict [(''rule_id'', PStr (''alert-rule-'' @ uuid)), (''name'', name), (''alert_type'', alert_type), (''condition'', condition),
        (''severity'', severity), (''created_at'', PStr now)] in
      (m\<lparr>am_rules := keep_last (am_max_rules m) (am_rules m @ [rule])\<rparr>, rule))"

definition alert_to_py :: "alert \<Rightarrow> pyval" where
  "alert_to_py a = PDict [(''alert_id'', PStr (at_id a)), (''alert_type'', PStr (at_type a)), (''severity'', PStr (at_severity a)),
     (''message'', PStr (at_message a)), (''details'', at_details a), (''timestamp'', PStr (at_timestamp a)),
     (''acknowledged'', PBool (at_acknowledged a)), (''acknowledged_by'', at_by a)]"

text \<open>Notification: failures are passed over, other exceptions leave the call.\<close>

fun notify_all :: "web \<Rightarrow> string \<Rightarrow> webhook list \<Rightarrow> net \<Rightarrow> net \<times> (string + unit)" where
  "notify_all w payload [] n = (n, Inr ())"
| "notify_all w payload (h # hs) n =
     (case post_webhook w False (wk_url h) (wk_secret h) [(''Content-type'', ''application/json'')] payload n of
        (n', Inl (Other_Exc c)) \<Rightarrow> (n', Inl c)
      | (n', _) \<Rightarrow> notify_all w payload hs n')"

definition notify_webhooks :: "web \<Rightarrow> alert_manager \<Rightarrow> alert \<Rightarrow> net \<Rightarrow> net \<times> (string + unit)" where
  "notify_webhooks w m a n =
     notify_all w (dumps False (alert_to_py a)) (filter (\<lambda>h. at_type a \<in> set (wk_events h)) (am_webhooks m)) n"

definition trigger_alert :: "web \<Rightarrow> string \<Rightarrow> string \<Rightarrow> alert_manager \<Rightarrow> string \<Rightarrow> string \<Rightarrow> string \<Rightarrow> pyval \<Rightarrow> net \<Rightarrow> (alert_manager \<times> net) \<times> (string + pyval)" where
  "trigger_alert w uuid now m alert_type severity message details n =
     (let a = \<lparr>at_id = ''alert-'' @ uuid, at_type = alert_type, at_severity = severity, at_message = message,
        at_details = (if truthy details then details else PDict []), at_timestamp = now, at_acknowledged = False, at_by = PNone\<rparr>;
        m' = m\<lparr>am_alerts := keep_last (am_max_alerts m) (am_alerts m @ [a])\<rparr> in
      (case notify_webhooks w m' a n of
         (n', Inl c) \<Rightarrow> ((m', n'), Inl c) | (n', Inr _) \<Rightarrow> ((m', n'), Inr (alert_to_py a))))"

text \<open>Filters, then the newest first; \<^verbatim>\<open>sorted(reverse=True)\<close> keeps the order of equal timestamps.\<close>

definition head_slice :: "int \<Rightarrow> 'a list \<Rightarrow> 'a list" where
  "head_slice n xs = (if 0 \<le> n then take (nat n) xs else take (length xs - nat (- n)) xs)"

definition get_alerts :: "alert_manager \<Rightarrow> string option \<Rightarrow> bool option \<Rightarrow> int \<Rightarrow> pyval list" where
  "get_alerts m severity acknowledged limit =
     (let xs = (case severity of None \<Rightarrow> am_alerts m | Some s \<Rightarrow> filter (\<lambda>a. at_severity a = s) (am_alerts m));
          ys = (case acknowledged of None \<Rightarrow> xs | Some b \<Rightarrow> filter (\<lambda>a. at_acknowledged a = b) xs) in
      map alert_to_py (head_slice limit (rev (sort_key at_timestamp (rev ys)))))"

fun mark_alert :: "string \<Rightarrow> pyval \<Rightarrow> alert list \<Rightarrow> alert list option" where
  "mark_alert i by_whom [] = None"
| "mark_alert i by_whom (a # as) =
     (if at_id a = i then Some (a\<lparr>at_acknowledged := True, at_by := by_whom\<rparr> # as) else map_option ((#) a) (mark_alert i by_whom as))"

definition acknowledge_alert :: "alert_manager \<Rightarrow> string \<Rightarrow> pyval \<Rightarrow> alert_manager \<times> bool" where
  "acknowledge_alert m i by_whom = (case mark_alert i by_whom (am_alerts m) of
     None \<Rightarrow> (m, False) | Some as \<Rightarrow> (m\<lparr>am_alerts := as\<rparr>, True))"

definition alert_webhook :: "web \<Rightarrow> string \<Rightarrow> string \<Rightarrow> alert_manager \<Rightarrow> string \<Rightarrow> string list \<Rightarrow> pyval \<Rightarrow> alert_manager \<times> (string + pyval)" where
  "alert_webhook w uuid now m url events secret =
     (case validate_webhook_url w False (Some url) of
        Inl e \<Rightarrow> (m, Inl e)
      | Inr _ \<Rightarrow>
          let h = \<lparr>wk_id = ''webhook-'' @ uuid, wk_url = url, wk_events = events, wk_secret = secret, wk_tenant = PNone, wk_created = now\<rparr> in
          (m\<lparr>am_webhooks := keep_last (am_max_webhooks m) (am_webhooks m @ [h])\<rparr>,
           Inr (PDict [(''webhook_id'', PStr (wk_id h)), (''url'', PStr url), (''events'', PList (map PStr events)),
             (''created_at'', PStr now), (''has_secret'', PBool (truthy secret))])))"

section \<open>Where requests go\<close>

text \<open>What the guards are to achieve: a public host named by an http or https URL without credentials.\<close>

definition public_target :: "web \<Rightarrow> string \<Rightarrow> bool" where
  "public_target w url = (\<exists>u t port as. urlsplit w url = Inr u \<and> up_scheme u \<in> {''http'', ''https''} \<and>
     \<not> url_credentials u \<and> url_hostname u \<notin> {[], ''localhost''} \<and> \<not> startswith (rev (url_hostname u)) (rev ''.localhost'') \<and>
     wb_ip w (url_hostname u) \<noteq> Some False \<and>
     wb_resolve w t (url_hostname u) port = Inr as \<and> as \<noteq> [] \<and> (\<forall>a\<in>set as. wb_ip w (before_first (CHR ''%'') a) = Some True))"

lemma all_global_iff: "all_global w as = Inr () \<longleftrightarrow> (\<forall>a\<in>set as. wb_ip w (before_first (CHR ''%'') a) = Some True)"
  by (induction as) (auto simp: global_address_def bindE_def split: option.splits sum.splits if_splits)

lemma isl_unit: "\<not> isl (r :: 'e + unit) \<longleftrightarrow> r = Inr ()"
  by (cases r) auto

lemma validated_public:
  assumes "validate_webhook_destination w False t url = Inr ()"
  shows "public_target w url"
  using assms unfolding public_target_def
  by (fastforce simp: validate_webhook_destination_def validate_webhook_url_def Let_def bindE_def isl_unit all_global_iff
      split: sum.splits option.splits if_splits net_exc.splits)

text \<open>A request as a delivery may send it: the payload to a listener, or a redirected one without it.\<close>

definition sendable :: "web \<Rightarrow> (string \<Rightarrow> bool) \<Rightarrow> string \<Rightarrow> http_request \<Rightarrow> bool" where
  "sendable w listens payload q = (public_target w (hq_url q) \<and>
     (if hq_post q then listens (hq_url q) \<and> hq_body q = Some payload else hq_body q = None))"

lemma follow_sendable:
  assumes "sendable w listens payload q" "list_all (sendable w listens payload) (snd n)"
  shows "list_all (sendable w listens payload) (snd (fst (follow w False q visited n)))"
  using assms
proof (induction w "False" q visited n rule: follow.induct)
  case (1 w q visited n)
  obtain t sent where n: "n = (t, sent)" by (cases n)
  show ?case
  proof (cases "wb_http w t q")
    case (Reply_Redirect code url)
    show ?thesis
    proof (cases "validate_webhook_destination w False (t + 1) url = Inr () \<and> may_redirect q code \<and> \<not> looped visited url")
      case True
      then have "sendable w listens payload (redirected q url)"
        using validated_public by (auto simp: sendable_def redirected_def)
      then show ?thesis using 1 True n Reply_Redirect by (subst follow.simps) (auto simp del: follow.simps)
    next
      case False
      then show ?thesis using "1.prems" n Reply_Redirect
        by (subst follow.simps) (auto split: sum.splits)
    qed
  qed (use "1.prems" n in \<open>subst follow.simps, auto\<close>)+
qed

lemma post_sendable:
  assumes "listens (strip url)" "list_all (sendable w listens (utf8 payload)) (snd n)"
  shows "list_all (sendable w listens (utf8 payload)) (snd (fst (post_webhook w False url secret headers payload n)))"
proof (cases "signature_header w secret payload")
  case (Inr signature)
  obtain t sent where n: "n = (t, sent)" by (cases n)
  show ?thesis
  proof (cases "validate_webhook_destination w False t (strip url)")
    case v: (Inr x)
    then have "public_target w (strip url)" using validated_public by simp
    then have "list_all (sendable w listens (utf8 payload)) (snd (fst (follow w False
        \<lparr>hq_post = True, hq_url = strip url, hq_body = Some (utf8 payload), hq_headers = headers @ signature\<rparr> [] (Suc t, sent))))"
      using assms n by (intro follow_sendable) (simp_all add: sendable_def)
    then show ?thesis using Inr n v by (simp add: post_webhook_def open_webhook_request_def)
  qed (use Inr n assms in \<open>auto simp: post_webhook_def open_webhook_request_def\<close>)
qed (use assms in \<open>simp add: post_webhook_def\<close>)

lemma deliver_all_sendable:
  assumes "\<forall>h\<in>set hs. listens (strip (wk_url h))" "list_all (sendable w listens (utf8 payload)) (snd n)"
  shows "list_all (sendable w listens (utf8 payload)) (snd (fst (deliver_all w False event payload hs n)))"
  using assms
proof (induction hs arbitrary: n)
  case (Cons h hs)
  define p where "p = post_webhook w False (wk_url h) (wk_secret h) [(''Content-type'', ''application/json''), (''X-noerelay-event'', event)] payload n"
  have "list_all (sendable w listens (utf8 payload)) (snd (fst p))"
    unfolding p_def using Cons.prems by (intro post_sendable) auto
  then show ?case using Cons.IH[of "fst p"] Cons.prems(1)
    by (auto simp: p_def[symmetric] split: prod.splits sum.splits net_exc.splits)
qed simp

section \<open>Properties\<close>

text \<open>
  C13. A delivery talks to the public network only and hands its payload to listeners only. Unless private
  networks were allowed, every request that \<^verbatim>\<open>deliver\<close> sends, through any redirects and whatever the
  resolver and the servers answer, goes to an http or https URL without credentials whose host resolved to global
  addresses only; a request with the payload goes to the URL of a webhook registered for the event, and all others
  carry no body.
\<close>

theorem deliveries_stay_public:
  assumes "\<not> wm_private m" "q \<in> set (snd (fst (deliver w m event payload (t, []))))"
  shows "public_target w (hq_url q) \<and>
    (if hq_post q then hq_body q = Some (utf8 (dumps False payload)) \<and>
       (\<exists>h\<in>set (wm_webhooks m). event \<in> set (wk_events h) \<and> hq_url q = strip (wk_url h))
     else hq_body q = None)"
proof -
  let ?listens = "\<lambda>url. \<exists>h\<in>set (wm_webhooks m). event \<in> set (wk_events h) \<and> url = strip (wk_url h)"
  have "list_all (sendable w ?listens (utf8 (dumps False payload))) (snd (fst (deliver w m event payload (t, []))))"
    using assms(1) unfolding deliver_def by (simp del: snd_conv) (rule deliver_all_sendable; auto)
  then show ?thesis using assms(2) by (auto simp: list_all_iff sendable_def split: if_splits)
qed

text \<open>A network of one public host that redirects to another path of itself.\<close>

definition demo_web :: web where
  "demo_web = \<lparr>wb_brackets = (\<lambda>_. False), wb_ip = (\<lambda>h. if h = ''93.184.216.34'' then Some True else None),
     wb_resolve = (\<lambda>_ _ _. Inr [''93.184.216.34'']),
     wb_http = (\<lambda>_ q. if hq_post q then Reply_Redirect 303 ''https://example.com/seen'' else Reply_Done),
     wb_mac = (\<lambda>k m. ''mac'')\<rparr>"

definition demo_hook :: webhook where
  "demo_hook = \<lparr>wk_id = ''wh-1'', wk_url = ''https://example.com/hook'', wk_events = [''run.completed''], wk_secret = PNone,
     wk_tenant = PNone, wk_created = ''t0''\<rparr>"

definition demo_manager :: webhook_manager where
  "demo_manager = \<lparr>wm_webhooks = [demo_hook], wm_private = False, wm_max = 10\<rparr>"

definition demo_seen :: http_request where
  "demo_seen = \<lparr>hq_post = False, hq_url = ''https://example.com/seen'', hq_body = None, hq_headers = [(''X-noerelay-event'', ''run.completed'')]\<rparr>"

lemma demo_seen_sent: "demo_seen \<in> set (snd (fst (deliver demo_web demo_manager ''run.completed'' (PDict []) (0, []))))"
  by code_simp

lemma demo_public: "\<not> wm_private demo_manager"
  by (simp add: demo_manager_def)

theorem deliveries_stay_public_witness:
  "public_target demo_web (hq_url demo_seen)"
  using deliveries_stay_public[OF demo_public demo_seen_sent] by (rule conjunct1)

section \<open>What does not hold\<close>

text \<open>Webhooks have a tenant, and delivery does not look at it: an event of one tenant goes to the listeners of all.\<close>

lemma post_all_tenants: "deliver_all w a event payload (map (\<lambda>h. h\<lparr>wk_tenant := f h\<rparr>) hs) n = deliver_all w a event payload hs n"
proof (induction hs arbitrary: n)
  case (Cons h hs)
  have "delivery_result (h\<lparr>wk_tenant := f h\<rparr>) event = delivery_result h event" by (simp add: delivery_result_def fun_eq_iff)
  then show ?case using Cons.IH by simp
qed simp

lemma delivery_ignores_tenant:
  "deliver w (m\<lparr>wm_webhooks := map (\<lambda>h. h\<lparr>wk_tenant := f h\<rparr>) (wm_webhooks m)\<rparr>) event payload n = deliver w m event payload n"
  by (simp add: deliver_def filter_map comp_def post_all_tenants)

text \<open>
  A secret that is no text is registered, and every delivery to it raises; so does a server or a URL at which
  \<^verbatim>\<open>http.client\<close> raises an exception that is neither an \<^verbatim>\<open>OSError\<close> nor a \<^verbatim>\<open>ValueError\<close>.
\<close>

lemma numeric_secret_raises:
  assumes "event \<in> set (wk_events h)" "wk_secret h = PInt 5"
  shows "snd (deliver w (m\<lparr>wm_webhooks := [h]\<rparr>) event payload n) = Inl ''AttributeError''"
  using assms by (simp add: deliver_def post_webhook_def signature_header_def)

end
