(* ===== verification/Admin_Api.thy ===== *)
theory Admin_Api
  imports Gateway Api Notify Secrets
begin

text \<open>
  The administrative handlers of \<^verbatim>\<open>reference/gateway/handlers.py\<close> over webhooks, alerts, secrets, settings and
  tenants, and the pipeline with the managers of webhooks and alerts. Every handler answers 501 when its manager is
  not enabled, which is \<open>None\<close> here.
\<close>

section \<open>Answers\<close>

definition not_enabled :: "string \<Rightarrow> string \<Rightarrow> response" where
  "not_enabled message err = Answer 501 (error_envelope message ''server_error'' None (Some err))"

definition counted :: "string \<Rightarrow> pyval list \<Rightarrow> response" where
  "counted name items = Answer 200 (PDict [(name, PList items), (''count'', PInt (int (length items)))])"

definition absent :: "string \<Rightarrow> string \<Rightarrow> string \<Rightarrow> string \<Rightarrow> response" where
  "absent what name param err = invalid 404 (what @ '' '' @ py_repr (PStr name) @ '' not found'') ''invalid_request_error'' (Some param) err"

definition ok_answer :: "string \<Rightarrow> string \<Rightarrow> response" where
  "ok_answer param name = Answer 200 (PDict [(''status'', PStr ''ok''), (param, PStr name)])"

section \<open>Webhooks\<close>

definition handle_list_webhooks :: "webhook_manager option \<Rightarrow> string option \<Rightarrow> response" where
  "handle_list_webhooks manager tenant = (case manager of
     None \<Rightarrow> not_enabled ''Webhook manager not enabled'' ''webhooks_not_enabled''
   | Some m \<Rightarrow> counted ''webhooks'' (list_webhooks m tenant))"

definition handle_register_webhook :: "web \<Rightarrow> string \<Rightarrow> string \<Rightarrow> webhook_manager option \<Rightarrow> pydict \<Rightarrow> webhook_manager option \<times> response" where
  "handle_register_webhook w uuid now manager body = (case manager of
     None \<Rightarrow> (None, not_enabled ''Webhook manager not enabled'' ''webhooks_not_enabled'')
   | Some m \<Rightarrow>
      let url = field_or body ''url'' PNone; events = field_or body ''events'' PNone in
      if \<not> truthy url \<or> \<not> truthy events
      then (Some m, invalid 400 ''url and events are required'' ''invalid_request_error'' None ''missing_field'') else
      (case register_webhook w uuid now m url events (field_or body ''secret'' PNone) (field_or body ''tenant_id'' PNone) of
         (m', Inl e) \<Rightarrow> (Some m', invalid 400 e ''invalid_request_error'' (Some ''url'') ''invalid_webhook'')
       | (m', Inr h) \<Rightarrow> (Some m', Answer 201 h)))"

definition handle_delete_webhook :: "webhook_manager option \<Rightarrow> string \<Rightarrow> webhook_manager option \<times> response" where
  "handle_delete_webhook manager i = (case manager of
     None \<Rightarrow> (None, not_enabled ''Webhook manager not enabled'' ''webhooks_not_enabled'')
   | Some m \<Rightarrow> (case delete_webhook m i of (m', ok) \<Rightarrow>
       (Some m', if ok then ok_answer ''webhook_id'' i else absent ''Webhook'' i ''webhook_id'' ''webhook_not_found'')))"

section \<open>Alerts\<close>

definition handle_list_alerts :: "alert_manager option \<Rightarrow> string option \<Rightarrow> bool option \<Rightarrow> int \<Rightarrow> response" where
  "handle_list_alerts manager severity acknowledged limit = (case manager of
     None \<Rightarrow> not_enabled ''Alert manager not enabled'' ''alerts_not_enabled''
   | Some m \<Rightarrow> counted ''alerts'' (get_alerts m severity acknowledged limit))"

definition handle_acknowledge_alert :: "alert_manager option \<Rightarrow> string \<Rightarrow> pyval \<Rightarrow> alert_manager option \<times> response" where
  "handle_acknowledge_alert manager i by_whom = (case manager of
     None \<Rightarrow> (None, not_enabled ''Alert manager not enabled'' ''alerts_not_enabled'')
   | Some m \<Rightarrow> (case acknowledge_alert m i by_whom of (m', ok) \<Rightarrow>
       (Some m', if ok then ok_answer ''alert_id'' i else absent ''Alert'' i ''alert_id'' ''alert_not_found'')))"

definition handle_add_alert_rule :: "string \<Rightarrow> string \<Rightarrow> alert_manager option \<Rightarrow> pydict \<Rightarrow> alert_manager option \<times> response" where
  "handle_add_alert_rule uuid now manager body = (case manager of
     None \<Rightarrow> (None, not_enabled ''Alert manager not enabled'' ''alerts_not_enabled'')
   | Some m \<Rightarrow>
      let name = field_or body ''name'' PNone; kind = field_or body ''alert_type'' PNone in
      if \<not> truthy name \<or> \<not> truthy kind
      then (Some m, invalid 400 ''name and alert_type are required'' ''invalid_request_error'' None ''missing_field'') else
      (case add_rule uuid now m name kind (field_or body ''condition'' (PDict [])) (field_or body ''severity'' (PStr ''warning'')) of
         (m', rule) \<Rightarrow> (Some m', Answer 201 rule)))"

section \<open>Secrets\<close>

definition secret_entry :: "string \<times> string \<times> string \<times> string \<times> string \<times> string \<Rightarrow> pyval" where
  "secret_entry x = (case x of (i, name, description, tenant, created, changed) \<Rightarrow>
     PDict [(''secret_id'', PStr i), (''name'', PStr name), (''description'', PStr description), (''tenant_id'', PStr tenant),
       (''created_at'', PStr created), (''updated_at'', PStr changed)])"

definition handle_list_secrets :: "secret_store option \<Rightarrow> string \<Rightarrow> response" where
  "handle_list_secrets manager tenant = (case manager of
     None \<Rightarrow> not_enabled ''Secret manager not enabled'' ''secrets_not_enabled''
   | Some st \<Rightarrow> counted ''secrets'' (map secret_entry (list_secrets st tenant)))"

text \<open>
  \<open>as_text\<close> is what SQLite keeps of a value bound to a column of texts, or \<open>None\<close> for a value it refuses; what the
  call raises then ends in a 500 of the server.
\<close>

definition handle_store_secret ::
  "digests \<Rightarrow> (pyval \<Rightarrow> string option) \<Rightarrow> byte list \<Rightarrow> string \<Rightarrow> string \<Rightarrow> secret_store option \<Rightarrow> pydict \<Rightarrow> (secret_store option \<times> response res) option" where
  "handle_store_secret dg as_text nonce uuid now manager body = (case manager of
     None \<Rightarrow> Some (None, Inr (not_enabled ''Secret manager not enabled'' ''secrets_not_enabled''))
   | Some st \<Rightarrow>
      let name = field_or body ''name'' PNone; secret = field_or body ''value'' PNone in
      if \<not> truthy name \<or> secret = PNone
      then Some (Some st, Inr (invalid 400 ''name and value are required'' ''invalid_request_error'' None ''missing_field'')) else
      (case (as_text name, as_text (field_or body ''description'' (PStr [])), as_text (field_or body ''tenant_id'' (PStr ''default''))) of
         (Some n, Some d, Some t) \<Rightarrow> map_option (\<lambda>r. case r of
             Inl e \<Rightarrow> (Some st, Inl (DbError ''IntegrityError''))
           | Inr (st', i) \<Rightarrow> (Some st', Inr (Answer 201 (PDict [(''secret_id'', PStr i), (''name'', name), (''status'', PStr ''stored'')]))))
             (store_secret dg nonce uuid now st n (py_str secret) d t)
       | _ \<Rightarrow> Some (Some st, Inl (DbError ''ProgrammingError''))))"

definition handle_delete_secret :: "secret_store option \<Rightarrow> string \<Rightarrow> string \<Rightarrow> secret_store option \<times> response" where
  "handle_delete_secret manager name tenant = (case manager of
     None \<Rightarrow> (None, not_enabled ''Secret manager not enabled'' ''secrets_not_enabled'')
   | Some st \<Rightarrow> (case delete_secret st name tenant of (st', ok) \<Rightarrow>
       (Some st', if ok then ok_answer ''name'' name else absent ''Secret'' name ''name'' ''secret_not_found'')))"

text \<open>\<^verbatim>\<open>DELETE /v1/secrets/{name}\<close> of the server passes the name and leaves the tenant at its default.\<close>

definition delete_secret_call :: "secret_store option \<Rightarrow> string \<Rightarrow> secret_store option \<times> response" where
  "delete_secret_call manager name = handle_delete_secret manager name ''default''"

section \<open>Settings and tenants\<close>

definition handle_get_config :: "config_manager option \<Rightarrow> config_manager option \<times> response" where
  "handle_get_config manager = (case manager of
     None \<Rightarrow> (None, not_enabled ''Config manager not enabled'' ''config_not_enabled'')
   | Some cm \<Rightarrow> (case cm_get_all cm of (cm', d) \<Rightarrow> (Some cm', Answer 200 (PDict [(''config'', PDict d)]))))"

definition handle_list_tenants :: "tenant_manager option \<Rightarrow> string option \<Rightarrow> response" where
  "handle_list_tenants manager tenant = (case manager of
     None \<Rightarrow> not_enabled ''Tenant manager not enabled'' ''tenants_not_enabled''
   | Some tm \<Rightarrow> counted ''tenants'' (map PDict (case tenant of None \<Rightarrow> list_tenants tm
       | Some t \<Rightarrow> (case get_tenant tm t of None \<Rightarrow> [] | Some d \<Rightarrow> [d]))))"

definition handle_delete_tenant :: "tenant_manager option \<Rightarrow> string \<Rightarrow> tenant_manager option \<times> response" where
  "handle_delete_tenant manager tenant = (case manager of
     None \<Rightarrow> (None, not_enabled ''Tenant manager not enabled'' ''tenants_not_enabled'')
   | Some tm \<Rightarrow> (case delete_tenant tm tenant of (tm', ok) \<Rightarrow>
       (Some tm', if ok then ok_answer ''tenant_id'' tenant else absent ''Tenant'' tenant ''tenant_id'' ''tenant_not_found'')))"

section \<open>The pipeline with its notifications\<close>

definition raised_class :: "string \<Rightarrow> pyexc" where
  "raised_class c = (if c = ''AttributeError'' then AttributeError else OtherError c)"

definition deliver_with :: "web \<Rightarrow> webhook_manager \<Rightarrow> net \<Rightarrow> string \<Rightarrow> pyval \<Rightarrow> unit res" where
  "deliver_with w m n event payload = (case snd (deliver w m event payload n) of Inl c \<Rightarrow> Inl (raised_class c) | Inr _ \<Rightarrow> Inr ())"

definition trigger_with :: "web \<Rightarrow> string \<Rightarrow> string \<Rightarrow> alert_manager \<Rightarrow> net \<Rightarrow> string \<Rightarrow> string \<Rightarrow> string \<Rightarrow> pyval \<Rightarrow> unit res" where
  "trigger_with w uuid now m n kind severity message details =
     (case snd (trigger_alert w uuid now m kind severity message details n) of Inl c \<Rightarrow> Inl (raised_class c) | Inr _ \<Rightarrow> Inr ())"

section \<open>Listings keep secrets\<close>

text \<open>What is listed does not depend on the values of secrets, nor on those of webhooks beyond whether there is one.\<close>

lemma listed_secrets_hide_values:
  "handle_list_secrets (Some (st\<lparr>ss_rows := map (\<lambda>r. r\<lparr>sw_value := f r\<rparr>) (ss_rows st)\<rparr>)) tenant = handle_list_secrets (Some st) tenant"
proof -
  let ?g = "\<lambda>r. r\<lparr>sw_value := f r\<rparr>"
  have "insort_key sw_name (?g r) (map ?g rs) = map ?g (insort_key sw_name r rs)" for r rs by (induction rs) auto
  then have "sort_key sw_name (map ?g rs) = map ?g (sort_key sw_name rs)" for rs by (induction rs) simp_all
  then show ?thesis by (simp add: handle_list_secrets_def list_secrets_def filter_map comp_def)
qed

lemma listed_webhooks_hide_secrets:
  assumes "\<And>h. truthy (f h) = truthy (wk_secret h)"
  shows "handle_list_webhooks (Some (m\<lparr>wm_webhooks := map (\<lambda>h. h\<lparr>wk_secret := f h\<rparr>) (wm_webhooks m)\<rparr>)) tenant = handle_list_webhooks (Some m) tenant"
  using assms by (simp add: handle_list_webhooks_def list_webhooks_def public_webhook_def filter_map comp_def cong: map_cong split: option.splits)

section \<open>What does not hold\<close>

text \<open>A secret of a tenant cannot be deleted by the server: its call always means the tenant \<^verbatim>\<open>default\<close>.\<close>

lemma tenant_secrets_stay:
  assumes "r \<in> set (ss_rows st)" "sw_tenant r \<noteq> ''default''"
  shows "\<exists>st' answer. delete_secret_call (Some st) name = (Some st', answer) \<and> r \<in> set (ss_rows st')"
  using assms by (simp add: delete_secret_call_def handle_delete_secret_def delete_secret_def named_def)

text \<open>
  One webhook whose secret is a number, which registration accepts, takes the answers from all callers: the run is
  accepted and cached, and then the delivery raises.
\<close>

lemma numeric_secret_loses_answer:
  assumes "pe_webhooks env = Some (deliver_with w (m\<lparr>wm_webhooks := [h]\<rparr>) n)" "''run.completed'' \<in> set (wk_events h)" "wk_secret h = PInt 5"
    and "pe_spend env = None" "ps_cache s = None" "require_run (ps_registry s) (id_run i) = Inr rr" "py_get (oc_plan oc) ''model_id'' (PStr ''unknown'') = Inr model"
  shows "snd (finish_stage env i tenant oc answer s) = Inl (Raised AttributeError)"
proof -
  have "deliver_with w (m\<lparr>wm_webhooks := [h]\<rparr>) n ''run.completed'' p = Inl AttributeError" for p
    using numeric_secret_raises[OF assms(2,3), of w m p n] by (simp add: deliver_with_def raised_class_def)
  then show ?thesis using assms
    by (simp add: finish_stage_def webhookP_def Let_def thenP_def bindP_def tickP_def getP_def modifyP_def recordP_def liftP_def whenP_def callP_def returnP_def)
qed

end
