(* ===== verification/Spec2Isabelle.thy ===== *)
theory Spec2Isabelle
  imports Epr_Kernel Epr_Ledger Epr_Epistemic Epr_Memory Policy State_Machine Rate_Limit Caches
    Epistemic_State Rbac Access Escalation Governance Contracts Verification_Dag
    Epistemic_Ledger Context Py_Repr Py_Json_Load Runs Run_Store Db_Registry
    Provenance Canary Upstream Render Pipeline Pipeline_Safety Admin_Store Tenancy Gateway
    Streaming Api Isolation Server Secrets Notify Admin_Api
begin

text \<open>
  NoeRelay routes a request for inference to a model: \<^verbatim>\<open>reference/epr\<close> is the kernel of decisions (route
  selection, hash-linked ledger, adjudication of facts, capsules of context) and \<^verbatim>\<open>reference/gateway\<close> the
  service around it. A request meets, in this order, the server (authentication, roles, audit, routing), a
  handler (validation, streaming), and the pipeline (kill switch, cache, contract, guards of the verification
  state machine, kernel, transport with fallbacks, verification, epistemic state, acceptance), which writes every
  step to the ledger of its run and is configured and paid for through administrative stores. This development
  follows that order from the leaves up. File names below are relative to \<^verbatim>\<open>reference/gateway\<close> unless they name
  \<^verbatim>\<open>epr\<close>.

  \<^bold>\<open>Theories and files.\<close>

  \<^item> \<open>Py_Prelude\<close>, \<open>Py_Float\<close>, \<open>Py_Val\<close>, \<open>Py_Json\<close>, \<open>Py_Repr\<close>, \<open>Py_Json_Load\<close>: the Python the components are
    written in. Exceptions are values (\<open>pyexc + 'a\<close>), dicts are lists of pairs in insertion order, floats are
    binary64 values with their rounding, JSON is written and read back.
  \<^item> \<open>Epr_Kernel\<close> (\<^verbatim>\<open>epr/kernel.py\<close>), \<open>Epr_Ledger\<close> (\<^verbatim>\<open>epr/ledger.py\<close>), \<open>Epr_Epistemic\<close> (\<^verbatim>\<open>epr/epistemic.py\<close>),
    \<open>Epr_Memory\<close> (\<^verbatim>\<open>epr/memory.py\<close>): the kernel.
  \<^item> \<open>Policy\<close> (\<^verbatim>\<open>policy.py\<close>), \<open>State_Machine\<close> (\<^verbatim>\<open>statemachine.py\<close> with its table), \<open>Governance\<close>
    (\<^verbatim>\<open>governance.py\<close>, \<^verbatim>\<open>state_vocabulary.py\<close>), \<open>Contracts\<close> (\<^verbatim>\<open>contracts.py\<close>), \<open>Verification_Dag\<close>
    (\<^verbatim>\<open>verification.py\<close>, \<^verbatim>\<open>test_independence.py\<close>), \<open>Epistemic_State\<close> (\<^verbatim>\<open>epistemic.py\<close>), \<open>Epistemic_Ledger\<close>
    (\<^verbatim>\<open>epistemic_ledger.py\<close>), \<open>Context\<close> (\<^verbatim>\<open>context.py\<close>), \<open>Provenance\<close> (\<^verbatim>\<open>provenance.py\<close>): what a run decides and why.
  \<^item> \<open>Rate_Limit\<close> (\<^verbatim>\<open>rate_limit.py\<close>), \<open>Caches\<close> (\<^verbatim>\<open>cache.py\<close>, \<^verbatim>\<open>compression_cache.py\<close>), \<open>Escalation\<close>
    (\<^verbatim>\<open>escalation_policy.py\<close>, \<^verbatim>\<open>local_tier_router.py\<close>, \<^verbatim>\<open>local_policy.py\<close>), \<open>Canary\<close> (\<^verbatim>\<open>online_learning.py\<close>),
    \<open>Upstream\<close> (\<^verbatim>\<open>openrouter.py\<close> without its sockets, \<^verbatim>\<open>decoding.py\<close>, \<^verbatim>\<open>local_models.py\<close>, \<^verbatim>\<open>local_portfolio.py\<close>),
    \<open>Render\<close> (\<^verbatim>\<open>render.py\<close>), \<open>Streaming\<close> (\<^verbatim>\<open>streaming.py\<close>): what surrounds the call of a model.
  \<^item> \<open>Runs\<close> (\<^verbatim>\<open>runs.py\<close>, \<^verbatim>\<open>fallback.py\<close>, \<^verbatim>\<open>persistence.py\<close>), \<open>Run_Store\<close> and \<open>Db_Registry\<close> (\<^verbatim>\<open>database.py\<close>,
    \<^verbatim>\<open>db_registry.py\<close>): the runs, their files and their tables.
  \<^item> \<open>Rbac\<close> (\<^verbatim>\<open>rbac.py\<close>), \<open>Access\<close> (\<^verbatim>\<open>api_keys.py\<close>, \<^verbatim>\<open>auth.py\<close>, the key table), \<open>Admin_Store\<close> (\<^verbatim>\<open>audit.py\<close>,
    \<^verbatim>\<open>config_manager.py\<close>, benchmark results), \<open>Tenancy\<close> (\<^verbatim>\<open>tenancy.py\<close>, \<^verbatim>\<open>cost_controls.py\<close>), \<open>Secrets\<close>
    (\<^verbatim>\<open>secrets.py\<close>), \<open>Notify\<close> (\<^verbatim>\<open>webhooks.py\<close>, \<^verbatim>\<open>alerting.py\<close>): who may call, what is set, spent, kept secret and
    told to others.
  \<^item> \<open>Pipeline\<close> (\<^verbatim>\<open>pipeline.py\<close>), \<open>Pipeline_Safety\<close> and \<open>Isolation\<close> (its guarantees), \<open>Gateway\<close> (the pipeline over
    its configuration and tenants), \<open>Api\<close> and \<open>Admin_Api\<close> (\<^verbatim>\<open>handlers.py\<close>), \<open>Server\<close> (\<^verbatim>\<open>server.py\<close>): the composition.

  \<^bold>\<open>How code becomes definitions.\<close> A function that may raise returns a sum; a method that mutates its object
  returns the state it leaves beside its result, also when it raises, because what was changed before an exception
  stays changed. The pipeline is a sequence of such computations over one record of the gateway's state
  (\<open>Pipeline\<close>, with \<open>bindP\<close> and \<open>thenP\<close>). Structures whose keys the code fixes are records, JSON that comes from outside
  is a \<open>pyval\<close> read with the accesses of the code. Tables are lists of rows in the order they were written, and of
  SQLite the model states what its documentation says of the statements used.

  \<^bold>\<open>Parameters.\<close> Digests and authentication codes, UUIDs, random draws, clocks, the transports, the proposer of
  contracts, the compressor, the resolver and the servers that get notifications, the power function, and SQLite's sums and conversions of typed columns are arguments of
  the definitions. No theorem assumes a digest to be free of collisions: tampering with a ledger is shown to yield
  one.

  \<^bold>\<open>What the lemmas show.\<close>

  \<^item> The kernel: a plan that is selected meets every hard constraint, ceiling and verifier rule, is the cheapest
    that does, and a decision that names none fails closed (\<open>Epr_Kernel\<close>); the policy layers agree (\<open>Policy\<close>).
  \<^item> The lifecycle: acceptance needs verification, the acceptance guard is exact, every run can end
    (\<open>State_Machine\<close>); verdicts mean what they say (\<open>Verification_Dag\<close>).
  \<^item> A Hoare logic for the computations of the pipeline, with one postcondition for values and one for exceptions
    and the rules of its primitives in a collection (\<open>Pipeline_Safety\<close>): every request is accounted for in a
    ledger that verifies, only permitted models are called, a kill switch is exact. Over it, what other tenants do
    leaves a caller's runs alone (\<open>Isolation\<close>, \<open>Api\<close>), settings survive restarts (\<open>Gateway\<close>).
  \<^item> Stores refine plain maps and lists: caches, run files, run tables, settings, budgets, secrets (\<open>Caches\<close>, \<open>Runs\<close>,
    \<open>Db_Registry\<close>, \<open>Admin_Store\<close>, \<open>Tenancy\<close>, \<open>Secrets\<close>).
  \<^item> Deliveries reach public hosts only, through all redirects, which end because no URL is visited more than four
    times (\<open>Notify\<close>).
  \<^item> Locales state the contracts between components (an expiring cache and its users, a signal of escalation and the
    router) and are interpreted on the models of the code.

  \<^bold>\<open>Bounds and fuel.\<close> The JSON reader has fuel twice the length of its text, which the round trip shows to be enough;
  \<open>repr\<close> searches up to seventeen digits, which determine a binary64 number; the key stream of a secret has as many
  rounds as it has bytes, which digests that are not empty make enough. All other recursions are structural or over
  lists the code iterates.

  \<^bold>\<open>Conventions where HOL is not Python.\<close> Texts are sequences of code points below 256, the two zeros of floats are
  identified, keys of JSON objects are texts, the sum of floats is the left fold, a set whose order the code leaves
  open is a list in first-seen order. Threads appear as the order of whole operations, as the locks of the code make
  them.

  \<^bold>\<open>Not modelled\<close>, because it is input and output, a report nothing depends on, or a process outside: the dashboard
  and the analytics, metrics, SIEM export, the HTTP clients and the sockets of the server, loading
  of configuration and portfolio, prompt compression (an argument of the pipeline), management of local model
  processes, the cost report, the external evaluator, the handlers of analytics, model files and portfolio edits,
  backup and statistics of the database, the benchmark harness, the command-line client and the scripts.

  \<^bold>\<open>What the code does not do\<close> is stated too, at the end of the theories concerned: lemmas on concrete inputs or in
  general, such as a NaN that passes every guard of the kernel, a rotation of the master key on a locked database that
  hides all secrets, or an answer cached before its format is looked at.
\<close>

end
